(* ===== verification/Prelude.thy ===== *)
theory Prelude
  imports Main "HOL-Library.AList" "HOL-Library.Sublist"
begin

text \<open>
  Shared vocabulary of the development.

  \<^item> Rust strings are UTF-8 byte sequences, modelled as HOL \<open>string\<close> (one \<open>char\<close> per byte).
    \<open>str::trim\<close> removes the UTF-8 encodings of the Unicode \<open>White_Space\<close> code points;
    \<open>str::to_lowercase\<close> is exact on ASCII text and takes the Unicode table of the standard
    library as an argument for everything else.
  \<^item> \<open>serde_json::Value\<close> is the datatype \<open>json\<close>; its objects are association lists
    read with \<open>map_of\<close>.
  \<^item> \<open>DashMap\<close>, \<open>HashMap\<close> and \<open>BTreeMap\<close> with iteration are association lists
    (\<open>AList.update\<close>, \<open>AList.delete\<close>), without iteration they are maps.
  \<^item> The locales \<open>keyed_store\<close> (what a registry promises) and \<open>handler_system\<close> (a
    component whose every operation keeps an invariant) are the interfaces the components
    are proved against.
\<close>

named_theorems str_simps \<open>evaluation of the string operations\<close>
named_theorems json_simps \<open>accessors of JSON values\<close>

section \<open>Strings\<close>

text \<open>The UTF-8 encodings of the code points for which \<open>char::is_whitespace\<close> holds.\<close>

definition ws_seqs :: "string list" where
  "ws_seqs = map (\<lambda>b. [char_of b]) [9, 10, 11, 12, 13, 32 :: nat]
     @ map (map char_of) [[194, 133], [194, 160 :: nat], [225, 154, 128]]
     @ map (\<lambda>b. map char_of [226, 128, b]) ([128 ..< 139] @ [168, 169, 175 :: nat])
     @ map (map char_of) [[226, 129, 159], [227, 128, 128 :: nat]]"

definition starts_with :: "string \<Rightarrow> string \<Rightarrow> bool" where
  "starts_with s p \<longleftrightarrow> take (length p) s = p"

lemma starts_with_prefix: "starts_with s p \<longleftrightarrow> prefix p s"
  unfolding starts_with_def by (metis append_eq_conv_conj append_take_drop_id prefixE prefixI)

lemma starts_with_simps [str_simps]:
  "starts_with s [] = True"
  "starts_with [] (c # p) = False"
  "starts_with (d # s) (c # p) = (d = c \<and> starts_with s p)"
  by (auto simp: starts_with_def)

definition strip_prefix :: "string \<Rightarrow> string \<Rightarrow> string option" where
  "strip_prefix s p = (if starts_with s p then Some (drop (length p) s) else None)"

text \<open>The longest string left after removing encodings of \<open>ws\<close> from the front.\<close>

function trim_front :: "string list \<Rightarrow> string \<Rightarrow> string" where
  "trim_front ws s =
     (case find (\<lambda>w. w \<noteq> [] \<and> starts_with s w) ws of
        None \<Rightarrow> s
      | Some w \<Rightarrow> trim_front ws (drop (length w) s))"
  by pat_completeness auto
termination
proof (relation "measure (\<lambda>(ws, s). length s)", goal_cases)
  case 1
  show ?case by simp
next
  case (2 ws s w)
  from 2 have "w \<noteq> [] \<and> starts_with s w"
    by (metis (mono_tags, lifting) find_Some_iff)
  then show ?case by (cases s) (auto simp: starts_with_def)
qed

declare trim_front.simps [simp del]

definition trim_start :: "string \<Rightarrow> string" where
  "trim_start s = trim_front ws_seqs s"

definition trim_end :: "string \<Rightarrow> string" where
  "trim_end s = rev (trim_front (map rev ws_seqs) (rev s))"

definition trim :: "string \<Rightarrow> string" where
  "trim s = trim_end (trim_start s)"

text \<open>A string no encoding of \<open>ws\<close> is a prefix of is a fixed point.\<close>

definition no_front :: "string list \<Rightarrow> string \<Rightarrow> bool" where
  "no_front ws s \<longleftrightarrow> (\<forall>w \<in> set ws. w \<noteq> [] \<longrightarrow> \<not> starts_with s w)"

lemma no_front_find: "no_front ws s \<longleftrightarrow> find (\<lambda>w. w \<noteq> [] \<and> starts_with s w) ws = None"
  by (auto simp: no_front_def find_None_iff)

lemma trim_front_fixed: "no_front ws s \<Longrightarrow> trim_front ws s = s"
  by (simp add: no_front_find trim_front.simps)

lemma trim_front_no_front: "no_front ws (trim_front ws s)"
proof (induction ws s rule: trim_front.induct)
  case (1 ws s)
  show ?case
  proof (cases "find (\<lambda>w. w \<noteq> [] \<and> starts_with s w) ws")
    case None
    then show ?thesis by (simp add: no_front_find trim_front.simps)
  next
    case (Some w)
    with 1 show ?thesis by (subst trim_front.simps) simp
  qed
qed

lemma trim_front_suffix: "suffix (trim_front ws s) s"
proof (induction ws s rule: trim_front.induct)
  case (1 ws s)
  show ?case
  proof (cases "find (\<lambda>w. w \<noteq> [] \<and> starts_with s w) ws")
    case None
    then show ?thesis by (subst trim_front.simps) simp
  next
    case (Some w)
    have "suffix (drop (length w) s) s" by (rule suffix_drop)
    with 1 [OF Some] Some show ?thesis
      by (subst trim_front.simps) (auto intro: suffix_order.trans)
  qed
qed

lemma no_front_prefix: "no_front ws s \<Longrightarrow> prefix t s \<Longrightarrow> no_front ws t"
  by (auto simp: no_front_def starts_with_prefix dest: prefix_order.trans)

lemma trim_end_prefix: "prefix (trim_end s) s"
  using trim_front_suffix [of "map rev ws_seqs" "rev s"]
  by (simp add: trim_end_def suffix_to_prefix)

lemma trim_end_idem: "trim_end (trim_end s) = trim_end s"
  by (simp add: trim_end_def trim_front_fixed trim_front_no_front)

lemma trim_idem [simp]: "trim (trim s) = trim s"
proof -
  have "no_front ws_seqs (trim_start s)"
    by (simp add: trim_start_def trim_front_no_front)
  then have "no_front ws_seqs (trim_end (trim_start s))"
    using no_front_prefix trim_end_prefix by blast
  then have "trim_start (trim_end (trim_start s)) = trim_end (trim_start s)"
    by (simp add: trim_start_def trim_front_fixed)
  then show ?thesis by (simp add: trim_def trim_end_idem)
qed

lemma trim_front_Nil [simp]: "trim_front ws [] = []"
  using trim_front_suffix [of ws "[]"] by simp

lemma trim_Nil [simp]: "trim [] = []"
  by (simp add: trim_def trim_end_def trim_start_def)

text \<open>Printable ASCII text without blanks is its own trimming.\<close>

definition plain_char :: "char \<Rightarrow> bool" where
  "plain_char c \<longleftrightarrow> 33 \<le> (of_char c :: nat) \<and> (of_char c :: nat) < 127"

lemma ws_seqs_not_plain: "w \<in> set ws_seqs \<Longrightarrow> w \<noteq> [] \<and> \<not> plain_char (hd w) \<and> \<not> plain_char (last w)"
  by (auto simp: ws_seqs_def plain_char_def upt_rec)

lemma starts_with_hd: "starts_with s w \<Longrightarrow> w \<noteq> [] \<Longrightarrow> s \<noteq> [] \<and> hd s = hd w"
  by (cases w; cases s) (auto simp: str_simps)

lemma trim_front_plain:
  assumes "\<forall>w \<in> set ws. w \<noteq> [] \<longrightarrow> \<not> plain_char (hd w)" and "s \<noteq> [] \<Longrightarrow> plain_char (hd s)"
  shows "trim_front ws s = s"
  using assms starts_with_hd by (intro trim_front_fixed) (fastforce simp: no_front_def)

lemma trim_plain:
  assumes "list_all plain_char s"
  shows "trim s = s"
proof -
  have front: "trim_start s = s"
    unfolding trim_start_def
    by (rule trim_front_plain) (use assms ws_seqs_not_plain in \<open>auto simp: list_all_iff\<close>)
  have "trim_front (map rev ws_seqs) (rev s) = rev s"
    by (rule trim_front_plain)
      (use assms ws_seqs_not_plain in \<open>auto simp: list_all_iff hd_rev\<close>)
  then show ?thesis by (simp add: trim_def trim_end_def front)
qed

definition ascii_upper :: "char \<Rightarrow> bool" where
  "ascii_upper c \<longleftrightarrow> 65 \<le> (of_char c :: nat) \<and> (of_char c :: nat) \<le> 90"

definition ascii_lower :: "char \<Rightarrow> bool" where
  "ascii_lower c \<longleftrightarrow> 97 \<le> (of_char c :: nat) \<and> (of_char c :: nat) \<le> 122"

definition ascii_digit :: "char \<Rightarrow> bool" where
  "ascii_digit c \<longleftrightarrow> 48 \<le> (of_char c :: nat) \<and> (of_char c :: nat) \<le> 57"

definition is_ascii :: "char \<Rightarrow> bool" where
  "is_ascii c \<longleftrightarrow> (of_char c :: nat) < 128"

definition char_to_ascii_lowercase :: "char \<Rightarrow> char" where
  "char_to_ascii_lowercase c = (if ascii_upper c then char_of ((of_char c :: nat) + 32) else c)"

definition to_ascii_lowercase :: "string \<Rightarrow> string" where
  "to_ascii_lowercase s = map char_to_ascii_lowercase s"

definition eq_ignore_ascii_case :: "string \<Rightarrow> string \<Rightarrow> bool" where
  "eq_ignore_ascii_case s t \<longleftrightarrow> to_ascii_lowercase s = to_ascii_lowercase t"

text \<open>
  \<open>str::to_lowercase\<close>: ASCII text is lowered byte by byte; \<open>u\<close> stands for the Unicode
  tables of the standard library, which the rest goes through.
\<close>

definition to_lowercase :: "(string \<Rightarrow> string) \<Rightarrow> string \<Rightarrow> string" where
  "to_lowercase u s = (if list_all is_ascii s then to_ascii_lowercase s else u s)"

definition str_join :: "string \<Rightarrow> string list \<Rightarrow> string" where
  "str_join sep xs = (case xs of [] \<Rightarrow> [] | y # ys \<Rightarrow> y @ concat (map (\<lambda>z. sep @ z) ys))"

definition nl :: string where
  "nl = [CHR 0x0A]"

text \<open>\<open>chars().take(n)\<close> of a UTF-8 string: a continuation byte does not count.\<close>

fun take_chars :: "nat \<Rightarrow> string \<Rightarrow> string" where
  "take_chars n [] = []"
| "take_chars n (c # s) =
     (if 128 \<le> (of_char c :: nat) \<and> (of_char c :: nat) < 192 then c # take_chars n s
      else (case n of 0 \<Rightarrow> [] | Suc m \<Rightarrow> c # take_chars m s))"

text \<open>\<open>Display\<close> of an unsigned integer.\<close>

fun dec_digits :: "nat \<Rightarrow> string" where
  "dec_digits n = (if n < 10 then [char_of (48 + n)] else dec_digits (n div 10) @ [char_of (48 + n mod 10)])"

declare dec_digits.simps [simp del]

lemma dec_digits_nonempty [simp]: "dec_digits n \<noteq> []"
  by (subst dec_digits.simps) simp

text \<open>\<open>Path::join\<close> on Unix: an absolute second path replaces the first.\<close>

definition path_join :: "string \<Rightarrow> string \<Rightarrow> string" where
  "path_join dir name =
     (if starts_with name ''/'' then name
      else if dir = [] \<or> last dir = CHR ''/'' then dir @ name
      else dir @ ''/'' @ name)"

text \<open>\<open>str::contains\<close>.\<close>

definition str_contains :: "string \<Rightarrow> string \<Rightarrow> bool" where
  "str_contains s pat \<longleftrightarrow> list_ex (\<lambda>i. starts_with (drop i s) pat) [0 ..< Suc (length s)]"

section \<open>Lists\<close>

lemma find_SomeD: "find p xs = Some x \<Longrightarrow> x \<in> set xs \<and> p x"
  by (induction xs) (auto split: if_splits)

lemma find_append_Some: "find p xs = Some x \<Longrightarrow> find p (xs @ ys) = Some x"
  by (induction xs) auto

text \<open>\<open>Iterator::position\<close>.\<close>

fun position :: "('a \<Rightarrow> bool) \<Rightarrow> 'a list \<Rightarrow> nat option" where
  "position p [] = None"
| "position p (x # xs) = (if p x then Some 0 else map_option Suc (position p xs))"

lemma position_SomeD: "position p xs = Some i \<Longrightarrow> i < length xs \<and> p (xs ! i)"
  by (induction xs arbitrary: i) (auto split: if_splits)

lemma position_None_iff: "position p xs = None \<longleftrightarrow> (\<forall>x \<in> set xs. \<not> p x)"
  by (induction xs) auto

lemma position_find: "find p xs = map_option (\<lambda>i. xs ! i) (position p xs)"
  by (induction xs) (auto simp: option.map_comp comp_def)

lemma position_minimal: "position p xs = Some i \<Longrightarrow> j < i \<Longrightarrow> \<not> p (xs ! j)"
proof (induction xs arbitrary: i j)
  case Nil
  then show ?case by simp
next
  case (Cons x xs)
  then show ?case by (cases j) (auto split: if_splits)
qed

text \<open>Rust's \<open>push\<close> of the elements not yet contained: the additive merges of the code.\<close>

definition union_push :: "'a list \<Rightarrow> 'a list \<Rightarrow> 'a list" where
  "union_push xs ys = foldl (\<lambda>acc y. if y \<in> set acc then acc else acc @ [y]) xs ys"

lemma union_push_simps [simp]:
  "union_push xs [] = xs"
  "union_push xs (y # ys) = union_push (if y \<in> set xs then xs else xs @ [y]) ys"
  by (simp_all add: union_push_def)

lemma set_union_push [simp]: "set (union_push xs ys) = set xs \<union> set ys"
  by (induction ys arbitrary: xs) auto

lemma distinct_union_push: "distinct xs \<Longrightarrow> distinct (union_push xs ys)"
  by (induction ys arbitrary: xs) auto

text \<open>How many elements satisfy \<open>p\<close>, and what updates do to the number.\<close>

definition count_if :: "('a \<Rightarrow> bool) \<Rightarrow> 'a list \<Rightarrow> nat" where
  "count_if p xs = length (filter p xs)"

lemma count_if_simps [simp]:
  "count_if p [] = 0"
  "count_if p (x # xs) = (if p x then Suc (count_if p xs) else count_if p xs)"
  "count_if p (xs @ ys) = count_if p xs + count_if p ys"
  by (simp_all add: count_if_def)

lemma count_if_update:
  "count_if (\<lambda>x. p (snd x)) (AList.update k v m) \<le> count_if (\<lambda>x. p (snd x)) m + (if p v then 1 else 0)"
  by (induction m) auto

lemma count_if_delete_le: "count_if p (AList.delete k m) \<le> count_if p m"
  by (induction m) (auto simp: delete_simps)

lemma count_if_delete:
  "map_of m k = Some v \<Longrightarrow>
     count_if (\<lambda>x. p (snd x)) (AList.delete k m) + (if p v then 1 else 0) \<le> count_if (\<lambda>x. p (snd x)) m"
proof (induction m)
  case (Cons x m)
  show ?case
  proof (cases "fst x = k")
    case True
    with Cons.prems have "snd x = v" by (cases x) simp
    with True count_if_delete_le [of "\<lambda>x. p (snd x)" k m] show ?thesis by (cases x) simp
  next
    case False
    with Cons show ?thesis by (cases x) auto
  qed
qed simp

lemma count_if_list_update:
  "i < length xs \<Longrightarrow> (p y \<Longrightarrow> p (xs ! i)) \<Longrightarrow> count_if p (xs[i := y]) \<le> count_if p xs"
proof (induction xs arbitrary: i)
  case (Cons x xs)
  show ?case
  proof (cases i)
    case 0
    with Cons.prems show ?thesis by auto
  next
    case (Suc j)
    with Cons.prems Cons.IH [of j] show ?thesis by simp
  qed
qed simp

lemma count_if_list_update_eq:
  "i < length xs \<Longrightarrow> count_if p (xs[i := y]) + (if p (xs ! i) then 1 else 0) = count_if p xs + (if p y then 1 else 0)"
proof (induction xs arbitrary: i)
  case (Cons x xs)
  show ?case
  proof (cases i)
    case 0
    with Cons.prems show ?thesis by auto
  next
    case (Suc j)
    with Cons.prems Cons.IH [of j] show ?thesis by simp
  qed
qed simp

lemma count_if_mono: "(\<And>x. x \<in> set xs \<Longrightarrow> p x \<Longrightarrow> q x) \<Longrightarrow> count_if p xs \<le> count_if q xs"
  by (induction xs) (auto simp: le_SucI)

section \<open>JSON values\<close>

text \<open>
  Numbers keep serde's three representations; a float is its text, since no modelled
  operation looks into one.
\<close>

datatype json =
    JNull
  | JBool bool
  | JUint nat
  | JNegInt int
  | JFloat string
  | JStr string
  | JArr "json list"
  | JObj "(string \<times> json) list"

fun jget :: "string \<Rightarrow> json \<Rightarrow> json option" where
  "jget k (JObj m) = map_of m k"
| "jget k _ = None"

fun as_str :: "json \<Rightarrow> string option" where
  "as_str (JStr s) = Some s"
| "as_str _ = None"

fun as_bool :: "json \<Rightarrow> bool option" where
  "as_bool (JBool b) = Some b"
| "as_bool _ = None"

fun as_u64 :: "json \<Rightarrow> nat option" where
  "as_u64 (JUint n) = Some n"
| "as_u64 _ = None"

fun as_array :: "json \<Rightarrow> json list option" where
  "as_array (JArr xs) = Some xs"
| "as_array _ = None"

definition or_else :: "'a option \<Rightarrow> 'a option \<Rightarrow> 'a option" where
  "or_else a b = (case a of Some x \<Rightarrow> Some x | None \<Rightarrow> b)"

lemma or_else_simps [simp]: "or_else (Some x) b = Some x" "or_else None b = b"
  by (simp_all add: or_else_def)

definition unwrap_or :: "'a \<Rightarrow> 'a option \<Rightarrow> 'a" where
  "unwrap_or d a = (case a of Some x \<Rightarrow> x | None \<Rightarrow> d)"

lemma unwrap_or_simps [simp]: "unwrap_or d (Some x) = x" "unwrap_or d None = d"
  by (simp_all add: unwrap_or_def)

definition filter_opt :: "('a \<Rightarrow> bool) \<Rightarrow> 'a option \<Rightarrow> 'a option" where
  "filter_opt p a = (case a of Some x \<Rightarrow> (if p x then Some x else None) | None \<Rightarrow> None)"

lemma filter_opt_Some_iff: "filter_opt p a = Some x \<longleftrightarrow> a = Some x \<and> p x"
  by (auto simp: filter_opt_def split: option.splits)

text \<open>\<open>v.get(a).or_else(|| v.get(b))\<close>.\<close>

definition jget_any :: "string list \<Rightarrow> json \<Rightarrow> json option" where
  "jget_any ks v = foldl (\<lambda>acc k. or_else acc (jget k v)) None ks"

text \<open>\<open>v.get(k).and_then(Value::as_str)\<close> and its companions.\<close>

definition get_str :: "string \<Rightarrow> json \<Rightarrow> string option" where
  "get_str k v = Option.bind (jget k v) as_str"

definition get_arr :: "string \<Rightarrow> json \<Rightarrow> json list option" where
  "get_arr k v = Option.bind (jget k v) as_array"

definition get_bool :: "string \<Rightarrow> json \<Rightarrow> bool option" where
  "get_bool k v = Option.bind (jget k v) as_bool"

definition get_u64 :: "string \<Rightarrow> json \<Rightarrow> nat option" where
  "get_u64 k v = Option.bind (jget k v) as_u64"

text \<open>The strings of an array field; a missing or ill-typed field is the empty list.\<close>

definition get_strs :: "string \<Rightarrow> json \<Rightarrow> string list" where
  "get_strs k v = unwrap_or [] (map_option (List.map_filter as_str) (get_arr k v))"

definition json_opt :: "('a \<Rightarrow> json) \<Rightarrow> 'a option \<Rightarrow> json" where
  "json_opt f a = (case a of Some x \<Rightarrow> f x | None \<Rightarrow> JNull)"

definition json_strs :: "string list \<Rightarrow> json" where
  "json_strs xs = JArr (map JStr xs)"

lemma map_filter_as_str [json_simps]: "List.map_filter as_str (map JStr xs) = xs"
  by (induction xs) (simp_all add: List.map_filter_def)

lemma map_filter_map_Some:
  "(\<And>x. x \<in> set xs \<Longrightarrow> g (f x) = Some x) \<Longrightarrow> List.map_filter g (map f xs) = xs"
  by (induction xs) (simp_all add: List.map_filter_def)

lemmas get_defs = get_str_def get_arr_def get_bool_def get_u64_def

lemma json_opt_str [json_simps]: "as_str (json_opt JStr a) = a"
  by (cases a) (simp_all add: json_opt_def)

text \<open>\<open>entry_in v k x\<close>: some object inside \<open>v\<close>, at any depth, maps \<open>k\<close> to \<open>x\<close>.\<close>

inductive entry_in :: "json \<Rightarrow> string \<Rightarrow> json \<Rightarrow> bool" where
  here: "(k, x) \<in> set m \<Longrightarrow> entry_in (JObj m) k x"
| under: "(j, y) \<in> set m \<Longrightarrow> entry_in y k x \<Longrightarrow> entry_in (JObj m) k x"
| element: "y \<in> set xs \<Longrightarrow> entry_in y k x \<Longrightarrow> entry_in (JArr xs) k x"

inductive_simps entry_in_simps [simp]:
  "entry_in (JObj m) k x" "entry_in (JArr xs) k x" "entry_in JNull k x" "entry_in (JBool b) k x"
  "entry_in (JUint n) k x" "entry_in (JNegInt i) k x" "entry_in (JFloat s) k x" "entry_in (JStr s) k x"

section \<open>Registries\<close>

text \<open>
  What every registry of the bridge and the relay promises its clients: a lookup sees the
  last write at its key and no other key's. \<open>ok\<close> is the representation invariant.
\<close>

locale keyed_store =
  fixes lookup :: "'s \<Rightarrow> 'k \<Rightarrow> 'v option"
    and put :: "'k \<Rightarrow> 'v \<Rightarrow> 's \<Rightarrow> 's"
    and del :: "'k \<Rightarrow> 's \<Rightarrow> 's"
    and ok :: "'s \<Rightarrow> bool"
  assumes lookup_put: "ok s \<Longrightarrow> lookup (put k v s) j = (if j = k then Some v else lookup s j)"
    and lookup_del: "ok s \<Longrightarrow> lookup (del k s) j = (if j = k then None else lookup s j)"
    and ok_put: "ok s \<Longrightarrow> ok (put k v s)"
    and ok_del: "ok s \<Longrightarrow> ok (del k s)"
begin

text \<open>Every stored value satisfies a property of its key: kept by writes of such values.\<close>

definition every :: "('k \<Rightarrow> 'v \<Rightarrow> bool) \<Rightarrow> 's \<Rightarrow> bool" where
  "every P s \<longleftrightarrow> (\<forall>k v. lookup s k = Some v \<longrightarrow> P k v)"

lemma everyD: "every P s \<Longrightarrow> lookup s k = Some v \<Longrightarrow> P k v"
  by (auto simp: every_def)

lemma every_put: "ok s \<Longrightarrow> every P s \<Longrightarrow> P k v \<Longrightarrow> every P (put k v s)"
  by (auto simp: every_def lookup_put split: if_splits)

lemma every_del: "ok s \<Longrightarrow> every P s \<Longrightarrow> every P (del k s)"
  by (auto simp: every_def lookup_del split: if_splits)

lemma every_modify:
  "ok s \<Longrightarrow> every P s \<Longrightarrow> lookup s k = Some v \<Longrightarrow> (P k v \<Longrightarrow> P k (f v)) \<Longrightarrow> every P (put k (f v) s)"
  by (rule every_put) (auto dest: everyD)

lemma lookup_put_same [simp]: "ok s \<Longrightarrow> lookup (put k v s) k = Some v"
  by (simp add: lookup_put)

lemma lookup_put_other: "ok s \<Longrightarrow> j \<noteq> k \<Longrightarrow> lookup (put k v s) j = lookup s j"
  by (simp add: lookup_put)

lemma lookup_del_same [simp]: "ok s \<Longrightarrow> lookup (del k s) k = None"
  by (simp add: lookup_del)

lemma del_put: "ok s \<Longrightarrow> lookup (del k (put k v s)) j = lookup (del k s) j"
  by (simp add: lookup_del lookup_put ok_put)

end

text \<open>Association lists with distinct keys, the model of \<open>DashMap\<close> and of iterated maps.\<close>

definition distinct_keys :: "('k \<times> 'v) list \<Rightarrow> bool" where
  "distinct_keys m \<longleftrightarrow> distinct (map fst m)"

interpretation alist: keyed_store map_of AList.update AList.delete distinct_keys
  by unfold_locales
    (auto simp: update_conv' delete_conv' distinct_keys_def distinct_update distinct_delete)

lemma distinct_keys_Nil [simp]: "distinct_keys []"
  by (simp add: distinct_keys_def)

lemma alist_set_map_of: "distinct_keys m \<Longrightarrow> (k, v) \<in> set m \<longleftrightarrow> map_of m k = Some v"
  by (simp add: distinct_keys_def)

lemma count_if_delete_eq:
  "distinct_keys m \<Longrightarrow> map_of m k = Some v \<Longrightarrow>
     count_if (\<lambda>x. p (snd x)) (AList.delete k m) + (if p v then 1 else 0) = count_if (\<lambda>x. p (snd x)) m"
proof (induction m)
  case (Cons x m)
  show ?case
  proof (cases "fst x = k")
    case True
    with Cons.prems have "snd x = v" "k \<notin> fst ` set m" by (cases x; auto simp: distinct_keys_def)+
    with True show ?thesis by (cases x) (auto simp: delete_id)
  next
    case False
    with Cons show ?thesis by (cases x) (auto simp: distinct_keys_def)
  qed
qed simp

lemma count_if_update_new:
  "map_of m k = None \<Longrightarrow>
     count_if (\<lambda>x. p (snd x)) (AList.update k v m) = count_if (\<lambda>x. p (snd x)) m + (if p v then 1 else 0)"
  by (induction m) (auto split: if_splits)

text \<open>\<open>BTreeMap\<close> and \<open>HashMap\<close> used by key only.\<close>

interpretation hmap: keyed_store "\<lambda>m :: 'k \<rightharpoonup> 'v. m" "\<lambda>k v m. m(k \<mapsto> v)" "\<lambda>k m. m(k := None)" "\<lambda>_. True"
  by unfold_locales auto

section \<open>Components that keep an invariant\<close>

text \<open>
  A component is a step function over its operations. When every operation keeps the
  invariant, so does every run of operations.
\<close>

locale handler_system =
  fixes step :: "'s \<Rightarrow> 'op \<Rightarrow> 's"
    and inv :: "'s \<Rightarrow> bool"
  assumes step_inv: "inv s \<Longrightarrow> inv (step s c)"
begin

lemma run_inv: "inv s \<Longrightarrow> inv (foldl step s cs)"
  by (induction cs arbitrary: s) (auto simp: step_inv)

end

text \<open>
  A component whose steps also move along a preorder: what a run may change is bounded by
  the preorder. Final states are those whose only successor is an equivalent state.
\<close>

locale monotone_system = handler_system +
  fixes le :: "'s \<Rightarrow> 's \<Rightarrow> bool"
  assumes le_refl: "le s s"
    and le_trans: "le s t \<Longrightarrow> le t u \<Longrightarrow> le s u"
    and step_le: "inv s \<Longrightarrow> le s (step s c)"
begin

lemma run_le: "inv s \<Longrightarrow> le s (foldl step s cs)"
proof (induction cs arbitrary: s)
  case Nil
  show ?case by (simp add: le_refl)
next
  case (Cons c cs)
  then have "le s (step s c)" by (intro step_le)
  moreover have "le (step s c) (foldl step (step s c) cs)"
    using Cons.prems by (intro Cons.IH step_inv)
  ultimately show ?case by (auto intro: le_trans)
qed

lemma run_le_between:
  "inv s \<Longrightarrow> le (foldl step s cs) (foldl step s (cs @ ds))"
  using run_le [OF run_inv] by simp

end

text \<open>
  A component that reports what it does as events: an observer who folds over the events of a
  run sees the state, whenever each operation's events account for its change.
\<close>

fun emits_run :: "('s \<Rightarrow> 'op \<Rightarrow> 'e list \<times> 's) \<Rightarrow> 'op list \<Rightarrow> 's \<Rightarrow> 'e list \<times> 's" where
  "emits_run step [] s = ([], s)"
| "emits_run step (c # cs) s =
     (let (e, s1) = step s c; (e2, s2) = emits_run step cs s1 in (e @ e2, s2))"

lemma emits_run_append:
  "emits_run step (cs @ ds) s =
     (let (e, s1) = emits_run step cs s; (e2, s2) = emits_run step ds s1 in (e @ e2, s2))"
  by (induction cs arbitrary: s) (simp_all add: split_beta)

locale event_sourced = handler_system "\<lambda>s c. snd (step s c)" inv
  for step :: "'s \<Rightarrow> 'op \<Rightarrow> 'e list \<times> 's" and inv +
  fixes observe :: "'v \<Rightarrow> 'e \<Rightarrow> 'v"
    and sees :: "'v \<Rightarrow> 's \<Rightarrow> bool"
  assumes step_sees: "inv s \<Longrightarrow> sees v s \<Longrightarrow> sees (foldl observe v (fst (step s c))) (snd (step s c))"
begin

lemma emits_run_inv: "inv s \<Longrightarrow> inv (snd (emits_run step cs s))"
proof (induction cs arbitrary: s)
  case (Cons c cs)
  from Cons.IH [OF step_inv [OF Cons.prems, of c]] show ?case
    by (simp add: split_beta)
qed simp

lemma emits_run_sees:
  "inv s \<Longrightarrow> sees v s \<Longrightarrow> sees (foldl observe v (fst (emits_run step cs s))) (snd (emits_run step cs s))"
proof (induction cs arbitrary: s v)
  case (Cons c cs)
  from Cons.IH [OF step_inv [OF Cons.prems(1), of c] step_sees [OF Cons.prems, of c]] show ?case
    by (simp add: split_beta)
qed simp

end

text \<open>
  A component whose invariant speaks of the operations performed so far, such as \<open>every
  signature belongs to a call that was made\<close>: enough that each operation extends it.
\<close>

locale traced_system =
  fixes step :: "'s \<Rightarrow> 'op \<Rightarrow> 's"
    and inv :: "'op list \<Rightarrow> 's \<Rightarrow> bool"
  assumes step_inv: "inv cs s \<Longrightarrow> inv (cs @ [c]) (step s c)"
begin

lemma run_inv: "inv [] s \<Longrightarrow> inv cs (foldl step s cs)"
  by (induction cs rule: rev_induct) (auto simp: step_inv)

end

end
