(* ===== verification/Session_State.thy ===== *)
theory Session_State
  imports Prelude
begin

text \<open>
  \<open>packages/bridge-core/src/session_state.rs\<close> and \<open>error.rs\<close>: the session life cycle with
  its enforced transition matrix, the holder every session keeps, and the stable error codes.
  A poisoned lock yields the last written value, so the two \<open>RwLock\<close>s are plain fields.
\<close>

datatype session_state = Spawning | Ready | Active | Idle | Closing | Closed

definition is_terminal :: "session_state \<Rightarrow> bool" where
  "is_terminal s \<longleftrightarrow> s = Closed"

definition is_open :: "session_state \<Rightarrow> bool" where
  "is_open s \<longleftrightarrow> s \<in> {Spawning, Ready, Active, Idle}"

datatype close_reason = Graceful | Crashed | Timeout | ResourceExhaustedClose | Cancelled

fun allowed_transition :: "session_state \<Rightarrow> session_state \<Rightarrow> bool" where
  "allowed_transition Spawning Ready = True"
| "allowed_transition Spawning Closing = True"
| "allowed_transition Spawning Closed = True"
| "allowed_transition Ready Active = True"
| "allowed_transition Ready Closing = True"
| "allowed_transition Ready Idle = True"
| "allowed_transition Active Idle = True"
| "allowed_transition Active Closing = True"
| "allowed_transition Idle Active = True"
| "allowed_transition Idle Closing = True"
| "allowed_transition Closing Closed = True"
| "allowed_transition _ _ = False"

datatype bridge_error =
    SessionNotFound string
  | InvalidTransition session_state session_state
  | ReplayOutOfRange nat nat
  | ResourceExhausted string
  | AuditError string
  | IoError string
  | Internal string

fun bridge_error_code :: "bridge_error \<Rightarrow> string" where
  "bridge_error_code (SessionNotFound _) = ''session.not_found''"
| "bridge_error_code (InvalidTransition _ _) = ''session.invalid_state''"
| "bridge_error_code (ReplayOutOfRange _ _) = ''replay.out_of_range''"
| "bridge_error_code (ResourceExhausted _) = ''resource.exhausted''"
| "bridge_error_code (AuditError _) = ''audit.write_failed''"
| "bridge_error_code (IoError _) = ''io.error''"
| "bridge_error_code (Internal _) = ''internal''"

record state_holder =
  holder_state :: session_state
  holder_close_reason :: "close_reason option"

definition state_holder_new :: state_holder where
  "state_holder_new = \<lparr>holder_state = Spawning, holder_close_reason = None\<rparr>"

text \<open>\<open>transition\<close> returns the previous state and leaves the holder untouched on an error.\<close>

definition transition :: "session_state \<Rightarrow> state_holder \<Rightarrow> (bridge_error + session_state) \<times> state_holder" where
  "transition to h =
     (if holder_state h = to then (Inr to, h)
      else if \<not> allowed_transition (holder_state h) to
        then (Inl (InvalidTransition (holder_state h) to), h)
      else (Inr (holder_state h), h\<lparr>holder_state := to\<rparr>))"

definition set_close_reason :: "close_reason \<Rightarrow> state_holder \<Rightarrow> state_holder" where
  "set_close_reason r h = h\<lparr>holder_close_reason := Some r\<rparr>"

datatype holder_op = Transition session_state | SetReason close_reason

fun holder_step :: "state_holder \<Rightarrow> holder_op \<Rightarrow> state_holder" where
  "holder_step h (Transition to) = snd (transition to h)"
| "holder_step h (SetReason r) = set_close_reason r h"

section \<open>The life cycle only moves forward\<close>

text \<open>
  The phase of a state: opening, open for work, closing, closed. Every accepted transition
  keeps or raises it, so no call can reopen a session.
\<close>

fun phase :: "session_state \<Rightarrow> nat" where
  "phase Spawning = 0"
| "phase Ready = 1"
| "phase Active = 2"
| "phase Idle = 2"
| "phase Closing = 3"
| "phase Closed = 4"

lemma allowed_transition_phase: "allowed_transition a b \<Longrightarrow> phase a \<le> phase b"
  by (cases a; cases b) simp_all

lemma holder_step_phase: "phase (holder_state h) \<le> phase (holder_state (holder_step h c))"
  by (cases c) (auto simp: transition_def set_close_reason_def allowed_transition_phase)

interpretation life: monotone_system holder_step "\<lambda>_. True"
    "\<lambda>h h'. phase (holder_state h) \<le> phase (holder_state h')"
  by unfold_locales (auto simp: holder_step_phase intro: order_trans)

lemma closed_phase: "phase s = 4 \<longleftrightarrow> s = Closed"
  by (cases s) simp_all

lemma phase_le: "phase s \<le> 4"
  by (cases s) simp_all

lemma not_open_phase: "\<not> is_open s \<longleftrightarrow> 3 \<le> phase s"
  by (cases s) (simp_all add: is_open_def)

text \<open>
  Session life cycle. Whatever sequence of \<open>transition\<close> and \<open>set_close_reason\<close> calls is
  made, accepted or refused: a session that left the open states never becomes open again, and
  a closed session stays closed.
\<close>
theorem session_never_reopens:
  "(\<not> is_open (holder_state h) \<longrightarrow> \<not> is_open (holder_state (foldl holder_step h cs)))
   \<and> (is_terminal (holder_state h) \<longrightarrow> is_terminal (holder_state (foldl holder_step h cs)))"
  using life.run_le [of h cs] phase_le [of "holder_state (foldl holder_step h cs)"]
  by (auto simp: not_open_phase is_terminal_def closed_phase [symmetric])

theorem session_never_reopens_witness:
  "\<not> is_open (holder_state (foldl holder_step
      (state_holder_new\<lparr>holder_state := Closing\<rparr>) [Transition Active, Transition Closed]))
   \<and> is_terminal (holder_state (foldl holder_step
      (state_holder_new\<lparr>holder_state := Closed\<rparr>) [Transition Ready]))"
  using session_never_reopens [of "state_holder_new\<lparr>holder_state := Closing\<rparr>" "[Transition Active, Transition Closed]"]
    session_never_reopens [of "state_holder_new\<lparr>holder_state := Closed\<rparr>" "[Transition Ready]"]
  by (simp add: is_open_def is_terminal_def)

text \<open>
  Result of \<open>transition\<close>. The call succeeds exactly for a repeated state or an entry of
  the matrix; on success the holder is in the requested state, on failure it is unchanged and
  the error is \<open>session.invalid_state\<close>. The close reason is never touched.
\<close>
theorem transition_result:
  "(case transition to h of
      (Inr prev, h') \<Rightarrow> (holder_state h = to \<or> allowed_transition (holder_state h) to)
         \<and> prev = holder_state h \<and> h' = h\<lparr>holder_state := to\<rparr>
    | (Inl e, h') \<Rightarrow> holder_state h \<noteq> to \<and> \<not> allowed_transition (holder_state h) to
         \<and> bridge_error_code e = ''session.invalid_state'' \<and> h' = h)"
  by (auto simp: transition_def)

text \<open>Every open session can be closed, in at most two accepted transitions.\<close>

lemma open_can_close:
  "is_open (holder_state h) \<Longrightarrow>
   is_terminal (holder_state (foldl holder_step h [Transition Closing, Transition Closed]))"
  by (cases "holder_state h") (simp_all add: is_open_def is_terminal_def transition_def)

end
