(* ===== verification/Event_Ring.thy ===== *)
theory Event_Ring
  imports Prelude "HOL-Library.Word"
begin

text \<open>
  \<open>packages/bridge-core/src/event_ring.rs\<close>: the bounded buffer of a session's events and
  the replay decision a reconnecting client gets. Sequence numbers are \<open>u64\<close>; the abstract
  specification is the full history of pushed events, and the buffer is its last \<open>cap\<close>
  entries.
\<close>

type_synonym u64 = "64 word"

record 'a event_ring =
  ring_buf :: "(u64 \<times> 'a) list"
  ring_cap :: nat
  ring_next_seq :: u64

datatype 'a replay_result =
    Stream "(u64 \<times> 'a) list"
  | OutOfRange u64 u64
  | UpToDate

text \<open>\<open>EventRing::new\<close> panics on a zero capacity.\<close>

definition ring_new :: "nat \<Rightarrow> 'a event_ring option" where
  "ring_new cap =
     (if cap > 0 then Some \<lparr>ring_buf = [], ring_cap = cap, ring_next_seq = 1\<rparr> else None)"

text \<open>\<open>+=\<close> on \<open>u64\<close> wraps, as in a release build.\<close>

definition ring_push :: "'a \<Rightarrow> 'a event_ring \<Rightarrow> u64 \<times> 'a event_ring" where
  "ring_push ev r =
     (let seq = ring_next_seq r;
          b = (if length (ring_buf r) = ring_cap r then tl (ring_buf r) else ring_buf r)
      in (seq, r\<lparr>ring_next_seq := seq + 1, ring_buf := b @ [(seq, ev)]\<rparr>))"

definition oldest_seq :: "'a event_ring \<Rightarrow> u64 option" where
  "oldest_seq r = (case ring_buf r of [] \<Rightarrow> None | x # _ \<Rightarrow> Some (fst x))"

definition latest_seq :: "'a event_ring \<Rightarrow> u64 option" where
  "latest_seq r = (if ring_buf r = [] then None else Some (fst (last (ring_buf r))))"

definition replay_after :: "u64 \<Rightarrow> 'a event_ring \<Rightarrow> 'a replay_result" where
  "replay_after last_event_id r =
     (case latest_seq r of
        None \<Rightarrow> UpToDate
      | Some latest \<Rightarrow>
          if last_event_id \<ge> latest then UpToDate
          else (case oldest_seq r of
              None \<Rightarrow> UpToDate
            | Some oldest \<Rightarrow>
                if last_event_id + 1 < oldest then OutOfRange oldest last_event_id
                else Stream (filter (\<lambda>(s, _). s > last_event_id) (ring_buf r))))"

definition push_all :: "'a list \<Rightarrow> 'a event_ring \<Rightarrow> 'a event_ring" where
  "push_all evs r = foldl (\<lambda>r ev. snd (ring_push ev r)) r evs"

section \<open>The ring is a window on the history\<close>

text \<open>The \<open>i\<close>-th event ever pushed (from 0) carries sequence number \<open>i + 1\<close>.\<close>

definition stamped :: "'a list \<Rightarrow> nat \<Rightarrow> u64 \<times> 'a" where
  "stamped evs i = (of_nat (Suc i), evs ! i)"

definition window :: "nat \<Rightarrow> 'a list \<Rightarrow> (u64 \<times> 'a) list" where
  "window cap evs = map (stamped evs) [length evs - cap ..< length evs]"

definition represents :: "nat \<Rightarrow> 'a list \<Rightarrow> 'a event_ring \<Rightarrow> bool" where
  "represents cap evs r \<longleftrightarrow>
     ring_cap r = cap \<and> ring_buf r = window cap evs \<and> ring_next_seq r = of_nat (Suc (length evs))"

lemma stamped_append: "i < length evs \<Longrightarrow> stamped (evs @ xs) i = stamped evs i"
  by (simp add: stamped_def nth_append)

lemma window_snoc:
  assumes "cap > 0"
  shows "window cap (evs @ [ev])
     = (if length evs < cap then window cap evs else tl (window cap evs)) @ [stamped (evs @ [ev]) (length evs)]"
proof -
  let ?n = "length evs"
  have low: "map (stamped (evs @ [ev])) [k ..< ?n] = map (stamped evs) [k ..< ?n]" for k
    by (auto simp: stamped_append)
  have split: "[Suc ?n - cap ..< Suc ?n] = [Suc ?n - cap ..< ?n] @ [?n]"
    using assms by (simp add: Suc_diff_le)
  have tl: "tl [?n - cap ..< ?n] = [Suc (?n - cap) ..< ?n]"
    by simp
  show ?thesis
    using low split by (auto simp: window_def map_tl [symmetric] tl Suc_diff_le not_less)
qed

lemma length_window: "length (window cap evs) = min cap (length evs)"
  by (simp add: window_def)

lemma represents_push:
  assumes "represents cap evs r" and "cap > 0"
  shows "represents cap (evs @ [ev]) (snd (ring_push ev r))"
    and "fst (ring_push ev r) = of_nat (Suc (length evs))"
proof -
  have full: "length (ring_buf r) = ring_cap r \<longleftrightarrow> cap \<le> length evs"
    using assms by (auto simp: represents_def length_window)
  then show "represents cap (evs @ [ev]) (snd (ring_push ev r))"
    using assms window_snoc [OF assms(2), of evs ev]
    by (auto simp: represents_def ring_push_def Let_def stamped_def not_less add.commute)
  show "fst (ring_push ev r) = of_nat (Suc (length evs))"
    using assms by (simp add: represents_def ring_push_def Let_def)
qed

lemma represents_push_all:
  "represents cap evs r \<Longrightarrow> cap > 0 \<Longrightarrow> represents cap (evs @ xs) (push_all xs r)"
proof (induction xs arbitrary: evs r)
  case Nil
  then show ?case by (simp add: push_all_def)
next
  case (Cons x xs)
  from represents_push(1) [OF Cons.prems, of x]
  have "represents cap ((evs @ [x]) @ xs) (push_all xs (snd (ring_push x r)))"
    using Cons.prems(2) by (rule Cons.IH)
  then show ?case by (simp add: push_all_def)
qed

lemma represents_new: "ring_new cap = Some r \<Longrightarrow> cap > 0 \<and> represents cap [] r"
  by (auto simp: ring_new_def represents_def window_def split: if_splits)

text \<open>
  What a reconnecting client should get, over the history alone: nothing when it has seen
  everything, a resync when an event it misses has left the window, else the missed events.
\<close>

definition replay_spec :: "nat \<Rightarrow> 'a list \<Rightarrow> u64 \<Rightarrow> 'a replay_result" where
  "replay_spec cap evs k =
     (let n = length evs in
      if n \<le> unat k then UpToDate
      else if unat k < n - cap then OutOfRange (of_nat (Suc (n - cap))) k
      else Stream (map (stamped evs) [unat k ..< n]))"

lemma filter_upt_ge: "filter (\<lambda>i. k \<le> i) [m ..< n] = [max k m ..< n]"
  by (induction n) (auto simp: max_def)

lemma unat_of_nat_u64: "m < 2 ^ 64 \<Longrightarrow> unat (of_nat m :: u64) = m"
  by (simp add: unat_of_nat)

lemma replay_refines:
  assumes rep: "represents cap evs r" and cap: "cap > 0" and small: "length evs < 2 ^ 64 - 1"
  shows "replay_after k r = replay_spec cap evs k"
proof (cases "evs = []")
  case True
  then show ?thesis
    using rep by (simp add: replay_after_def latest_seq_def represents_def window_def replay_spec_def)
next
  case False
  let ?n = "length evs"
  from False have n: "?n > 0" by simp
  have buf: "ring_buf r = map (stamped evs) [?n - cap ..< ?n]"
    using rep by (simp add: represents_def window_def)
  have ne: "ring_buf r \<noteq> []"
    using cap n by (simp add: buf not_le)
  have latest: "latest_seq r = Some (of_nat ?n)"
    using ne cap n by (simp add: latest_seq_def buf last_map stamped_def)
  have oldest: "oldest_seq r = Some (of_nat (Suc (?n - cap)))"
    using cap n by (simp add: oldest_seq_def buf upt_conv_Cons stamped_def)
  have un: "unat (of_nat ?n :: u64) = ?n" using small by (intro unat_of_nat_u64) simp
  have uo: "unat (of_nat (Suc (?n - cap)) :: u64) = Suc (?n - cap)"
    using small by (intro unat_of_nat_u64) linarith
  have upto: "k \<ge> of_nat ?n \<longleftrightarrow> ?n \<le> unat k" by (simp add: word_le_nat_alt un)
  show ?thesis
  proof (cases "?n \<le> unat k")
    case True
    then show ?thesis using latest upto by (simp add: replay_after_def replay_spec_def Let_def)
  next
    case lt: False
    have "unat (k + 1) = Suc (unat k)"
      using lt small by (subst unat_word_ariths) simp
    then have out: "k + 1 < of_nat (Suc (?n - cap)) \<longleftrightarrow> unat k < ?n - cap"
      by (simp only: word_less_nat_alt uo Suc_less_eq)
    have gt: "k < of_nat (Suc i) \<longleftrightarrow> unat k \<le> i" if "i < ?n" for i
      using that small unat_of_nat_u64 [of "Suc i"] by (auto simp: word_less_nat_alt)
    have same: "filter (\<lambda>i. k < of_nat (Suc i)) [?n - cap ..< ?n]
        = filter (\<lambda>i. unat k \<le> i) [?n - cap ..< ?n]"
      by (rule filter_cong) (use gt in auto)
    have "filter (\<lambda>(s, _). s > k) (ring_buf r)
        = map (stamped evs) (filter (\<lambda>i. unat k \<le> i) [?n - cap ..< ?n])"
      by (simp add: buf filter_map comp_def stamped_def same del: of_nat_Suc)
    then show ?thesis
      using lt latest oldest upto out
      by (auto simp: replay_after_def replay_spec_def Let_def filter_upt_ge max_def)
  qed
qed


text \<open>
  The ring as a window on the history. After any pushes on a fresh ring of capacity
  \<open>cap\<close>, the buffer is exactly the last \<open>min cap n\<close> events, each carrying its position in
  the history (counted from 1) as sequence number, and the next sequence number follows them.
\<close>
theorem ring_is_window:
  assumes "ring_new cap = Some r"
  shows "ring_buf (push_all evs r)
           = map (\<lambda>i. (of_nat (Suc i), evs ! i)) [length evs - cap ..< length evs]
       \<and> length (ring_buf (push_all evs r)) = min cap (length evs)
       \<and> ring_next_seq (push_all evs r) = of_nat (Suc (length evs))
       \<and> fst (ring_push ev (push_all evs r)) = of_nat (Suc (length evs))"
proof -
  from represents_new [OF assms] have cap: "cap > 0" and r: "represents cap [] r" by auto
  have rep: "represents cap evs (push_all evs r)"
    using represents_push_all [OF r cap, of evs] by simp
  show ?thesis
    using rep represents_push(2) [OF rep cap]
    by (auto simp: represents_def window_def stamped_def)
qed

theorem ring_is_window_witness:
  "ring_buf (push_all ''abc'' \<lparr>ring_buf = [], ring_cap = 2, ring_next_seq = 1\<rparr>)
     = [(2, CHR ''b''), (3, CHR ''c'')]"
  using ring_is_window [of 2 "\<lparr>ring_buf = [], ring_cap = 2, ring_next_seq = 1\<rparr>" "''abc''"]
  by (simp add: ring_new_def upt_rec)

text \<open>
  C8: replay refines its specification. While fewer than \<open>2 ^ 64 - 1\<close> events were pushed, a
  reconnecting client gets precisely what it misses: \<open>UpToDate\<close> when it has seen all \<open>n\<close>
  events, \<open>OutOfRange\<close> when one it misses has left the window, and otherwise every missed event
  in order, none twice and none skipped.
\<close>
theorem replay_delivers_the_missed:
  assumes "ring_new cap = Some r" and "length evs < 2 ^ 64 - 1"
  shows "replay_after k (push_all evs r)
       = (if length evs \<le> unat k then UpToDate
          else if unat k < length evs - cap then OutOfRange (of_nat (Suc (length evs - cap))) k
          else Stream (map (\<lambda>i. (of_nat (Suc i), evs ! i)) [unat k ..< length evs]))"
proof -
  from represents_new [OF assms(1)] have cap: "cap > 0" and r: "represents cap [] r" by auto
  have "represents cap evs (push_all evs r)"
    using represents_push_all [OF r cap, of evs] by simp
  from replay_refines [OF this cap assms(2)] show ?thesis
    by (simp add: replay_spec_def Let_def stamped_def [abs_def])
qed

theorem replay_delivers_the_missed_witness:
  "replay_after 2 (push_all ''abcd'' \<lparr>ring_buf = [], ring_cap = 2, ring_next_seq = 1\<rparr>)
     = Stream [(3, CHR ''c''), (4, CHR ''d'')]
   \<and> replay_after 1 (push_all ''abcd'' \<lparr>ring_buf = [], ring_cap = 2, ring_next_seq = 1\<rparr>)
     = OutOfRange 3 1"
  using replay_delivers_the_missed [of 2 "\<lparr>ring_buf = [], ring_cap = 2, ring_next_seq = 1\<rparr>" "''abcd''" 2]
    replay_delivers_the_missed [of 2 "\<lparr>ring_buf = [], ring_cap = 2, ring_next_seq = 1\<rparr>" "''abcd''" 1]
  by (simp add: ring_new_def upt_rec)

end
