(* ===== verification/Resources.thy ===== *)
theory Resources
  imports Session_State "HOL-Library.Word"
begin

text \<open>
  \<open>packages/bridge-core/src/resource.rs\<close>: the per-session counters with hard limits.
  \<open>increment_tool_calls\<close> and \<open>acquire_child\<close> are two atomic steps each, a \<open>fetch_add\<close> and,
  over the limit, a compensating \<open>fetch_sub\<close>; other callers run in between. The counter is
  therefore a machine whose actions are the atomic steps: \<open>Bump\<close> (the \<open>fetch_add\<close> of a new
  caller), \<open>Settle i\<close> (the limit test of the \<open>i\<close>-th caller still alive, in the order of their
  bumps) and \<open>Release i\<close> (the drop of a granted guard). An action no caller can make leaves
  the state as it is. \<open>n\<close> bounds how many callers and guards are alive at one moment.
\<close>

section \<open>The counter and its interleavings\<close>

record 'v call =
  call_next :: 'v
  call_granted :: bool

record 'v counter =
  ctr_value :: 'v
  ctr_calls :: "'v call list"

datatype counter_action = Bump | Settle nat | Release nat

definition counter_new :: "('w::len) word counter" where
  "counter_new = \<lparr>ctr_value = 0, ctr_calls = []\<rparr>"

definition exceeds :: "('w::len) word option \<Rightarrow> 'w word \<Rightarrow> bool" where
  "exceeds lim nxt = (case lim of Some l \<Rightarrow> nxt > l | None \<Rightarrow> False)"

definition remove_nth :: "nat \<Rightarrow> 'a list \<Rightarrow> 'a list" where
  "remove_nth i xs = take i xs @ drop (Suc i) xs"

definition bump :: "('w::len) word counter \<Rightarrow> 'w word counter" where
  "bump s = (let nxt = ctr_value s + 1 in
     \<lparr>ctr_value = nxt, ctr_calls = ctr_calls s @ [\<lparr>call_next = nxt, call_granted = False\<rparr>]\<rparr>)"

definition settle :: "('w::len) word option \<Rightarrow> nat \<Rightarrow> 'w word counter \<Rightarrow> 'w word counter" where
  "settle lim i s =
     (let c = ctr_calls s ! i in
      if exceeds lim (call_next c)
      then \<lparr>ctr_value = ctr_value s - 1, ctr_calls = remove_nth i (ctr_calls s)\<rparr>
      else s\<lparr>ctr_calls := (ctr_calls s)[i := c\<lparr>call_granted := True\<rparr>]\<rparr>)"

definition release :: "nat \<Rightarrow> ('w::len) word counter \<Rightarrow> 'w word counter" where
  "release i s = \<lparr>ctr_value = ctr_value s - 1, ctr_calls = remove_nth i (ctr_calls s)\<rparr>"

fun counter_step ::
    "nat \<Rightarrow> ('w::len) word option \<Rightarrow> 'w word counter \<Rightarrow> counter_action \<Rightarrow> 'w word counter" where
  "counter_step n lim s Bump = (if length (ctr_calls s) < n then bump s else s)"
| "counter_step n lim s (Settle i) =
     (if i < length (ctr_calls s) \<and> \<not> call_granted (ctr_calls s ! i) then settle lim i s else s)"
| "counter_step n lim s (Release i) =
     (if i < length (ctr_calls s) \<and> call_granted (ctr_calls s ! i) then release i s else s)"

definition granted_count :: "('w::len) word counter \<Rightarrow> nat" where
  "granted_count s = length (filter call_granted (ctr_calls s))"

section \<open>The invariant\<close>

text \<open>The \<open>j\<close>-th live call read a value above its rank, because calls only leave.\<close>

fun ranked :: "nat \<Rightarrow> ('w::len) word call list \<Rightarrow> bool" where
  "ranked k [] = True"
| "ranked k (c # cs) = (k < unat (call_next c) \<and> ranked (Suc k) cs)"

definition counter_ok :: "nat \<Rightarrow> ('w::len) word option \<Rightarrow> 'w word counter \<Rightarrow> bool" where
  "counter_ok n lim s \<longleftrightarrow>
     length (ctr_calls s) \<le> n \<and> ctr_value s = of_nat (length (ctr_calls s))
     \<and> ranked 0 (ctr_calls s)
     \<and> (\<forall>c \<in> set (ctr_calls s). call_granted c \<longrightarrow> \<not> exceeds lim (call_next c))"

lemma ranked_Suc: "ranked (Suc k) cs \<Longrightarrow> ranked k cs"
  by (induction cs arbitrary: k) auto

lemma ranked_snoc: "ranked k (cs @ [c]) \<longleftrightarrow> ranked k cs \<and> k + length cs < unat (call_next c)"
  by (induction cs arbitrary: k) auto

lemma ranked_remove: "ranked k cs \<Longrightarrow> ranked k (remove_nth i cs)"
proof (induction cs arbitrary: k i)
  case Nil
  then show ?case by (simp add: remove_nth_def)
next
  case (Cons c cs)
  then show ?case
    by (cases i) (auto simp: remove_nth_def intro: ranked_Suc)
qed

lemma ranked_update: "i < length cs \<Longrightarrow> call_next c = call_next (cs ! i) \<Longrightarrow> ranked k (cs[i := c]) = ranked k cs"
proof (induction cs arbitrary: k i)
  case Nil
  then show ?case by simp
next
  case (Cons d cs)
  then show ?case by (cases i) auto
qed

lemma set_remove_nth: "set (remove_nth i xs) \<subseteq> set xs"
  by (auto simp: remove_nth_def dest: in_set_takeD in_set_dropD)

lemma length_remove_nth: "i < length xs \<Longrightarrow> length (remove_nth i xs) = length xs - 1"
  by (simp add: remove_nth_def)

lemma counter_ok_remove:
  assumes "counter_ok n lim s" and "i < length (ctr_calls s)"
  shows "counter_ok n lim \<lparr>ctr_value = ctr_value s - 1, ctr_calls = remove_nth i (ctr_calls s)\<rparr>"
  using assms set_remove_nth [of i "ctr_calls s"]
  by (auto simp: counter_ok_def length_remove_nth ranked_remove of_nat_diff)

lemma counter_ok_bump:
  fixes s :: "('w::len) word counter"
  assumes ok: "counter_ok n lim s" and lt: "length (ctr_calls s) < n" and n: "n < 2 ^ LENGTH('w)"
  shows "counter_ok n lim (bump s)"
proof -
  let ?k = "length (ctr_calls s)"
  have "unat (of_nat (Suc ?k) :: 'w word) = Suc ?k"
    using lt n by (simp add: unat_of_nat take_bit_eq_mod del: of_nat_Suc)
  then show ?thesis
    using ok lt by (auto simp: counter_ok_def bump_def Let_def ranked_snoc add.commute)
qed

lemma counter_ok_settle:
  assumes "counter_ok n lim s" and "i < length (ctr_calls s)"
  shows "counter_ok n lim (settle lim i s)"
  using assms counter_ok_remove [OF assms]
  by (auto simp: settle_def Let_def counter_ok_def ranked_update dest!: set_update_subset_insert [THEN subsetD])

lemma counter_ok_step:
  fixes s :: "('w::len) word counter"
  assumes "n < 2 ^ LENGTH('w)" and "counter_ok n lim s"
  shows "counter_ok n lim (counter_step n lim s a)"
  using assms
  by (cases a) (auto simp: counter_ok_bump counter_ok_settle release_def counter_ok_remove)

lemma counter_ok_new: "counter_ok n lim counter_new"
  by (simp add: counter_ok_def counter_new_def)

text \<open>The children of a session: at most \<open>2 ^ 32 - 1\<close> callers and guards alive at once.\<close>

interpretation children: handler_system
    "counter_step (2 ^ 32 - 1) (lim :: 32 word option)" "counter_ok (2 ^ 32 - 1) lim" for lim
  by unfold_locales (rule counter_ok_step, simp_all)

text \<open>The tool calls of a session: at most \<open>2 ^ 64 - 1\<close> calls ever granted.\<close>

interpretation tool_calls: handler_system
    "counter_step (2 ^ 64 - 1) (lim :: 64 word option)" "counter_ok (2 ^ 64 - 1) lim" for lim
  by unfold_locales (rule counter_ok_step, simp_all)

lemma ranked_granted:
  assumes "ranked k cs" and "\<forall>c \<in> set cs. call_granted c \<longrightarrow> \<not> exceeds (Some l) (call_next c)"
  shows "length (filter call_granted cs) + k \<le> max k (unat l)"
  using assms
proof (induction cs arbitrary: k)
  case Nil
  then show ?case by simp
next
  case (Cons c cs)
  then have IH: "length (filter call_granted cs) + Suc k \<le> max (Suc k) (unat l)"
    using Cons.IH [of "Suc k"] by simp
  have "call_granted c \<Longrightarrow> k < unat l"
    using Cons.prems by (auto simp: exceeds_def word_less_nat_alt not_less)
  moreover have "length (filter call_granted cs) + k \<le> max k (unat l)"
    using Cons.prems by (intro Cons.IH) (auto intro: ranked_Suc)
  ultimately show ?case using IH by auto
qed

lemma counter_ok_limit: "counter_ok n (Some l) s \<Longrightarrow> granted_count s \<le> unat l"
  using ranked_granted [of 0 "ctr_calls s" l] by (simp add: counter_ok_def granted_count_def)

section \<open>The session's usage record\<close>

record resource_limits =
  max_tool_calls :: "64 word option"
  max_wallclock :: "nat option"
  max_concurrent_children :: "32 word option"

record resource_usage =
  ru_tool_calls :: "64 word counter"
  ru_started_at :: nat
  ru_children :: "32 word counter"
  ru_limits :: resource_limits

record resource_snapshot =
  snap_tool_calls :: "64 word"
  snap_elapsed :: nat
  snap_children :: "32 word"

definition resource_usage_new :: "resource_limits \<Rightarrow> nat \<Rightarrow> resource_usage" where
  "resource_usage_new l t =
     \<lparr>ru_tool_calls = counter_new, ru_started_at = t, ru_children = counter_new, ru_limits = l\<rparr>"

text \<open>One uninterrupted call: the bump and the settlement of the call just made.\<close>

definition run_call ::
    "('w::len) word option \<Rightarrow> string \<Rightarrow> 'w word counter \<Rightarrow> (bridge_error + 'w word) \<times> 'w word counter" where
  "run_call lim what s =
     (let nxt = ctr_value s + 1;
          s' = settle lim (length (ctr_calls s)) (bump s)
      in (if exceeds lim nxt then Inl (ResourceExhausted what) else Inr nxt, s'))"

definition increment_tool_calls ::
    "resource_usage \<Rightarrow> (bridge_error + 64 word) \<times> resource_usage" where
  "increment_tool_calls u =
     (let (r, c) = run_call (max_tool_calls (ru_limits u)) ''max_tool_calls'' (ru_tool_calls u)
      in (r, u\<lparr>ru_tool_calls := c\<rparr>))"

definition acquire_child :: "resource_usage \<Rightarrow> (bridge_error + 32 word) \<times> resource_usage" where
  "acquire_child u =
     (let (r, c) = run_call (max_concurrent_children (ru_limits u)) ''max_concurrent_children''
                     (ru_children u)
      in (r, u\<lparr>ru_children := c\<rparr>))"

text \<open>\<open>Drop for ChildGuard\<close>.\<close>

definition drop_child :: "nat \<Rightarrow> resource_usage \<Rightarrow> resource_usage" where
  "drop_child i u = u\<lparr>ru_children := release i (ru_children u)\<rparr>"

definition check_wallclock :: "nat \<Rightarrow> resource_usage \<Rightarrow> bridge_error + unit" where
  "check_wallclock t u =
     (case max_wallclock (ru_limits u) of
        Some l \<Rightarrow> if t - ru_started_at u > l then Inl (ResourceExhausted ''max_wallclock'') else Inr ()
      | None \<Rightarrow> Inr ())"

definition usage_snapshot :: "nat \<Rightarrow> resource_usage \<Rightarrow> resource_snapshot" where
  "usage_snapshot t u =
     \<lparr>snap_tool_calls = ctr_value (ru_tool_calls u), snap_elapsed = t - ru_started_at u,
      snap_children = ctr_value (ru_children u)\<rparr>"

section \<open>What the counters guarantee\<close>

lemma remove_nth_snoc: "remove_nth (length xs) (xs @ [x]) = xs"
  by (simp add: remove_nth_def)

lemma run_call_refused:
  "exceeds lim (ctr_value s + 1) \<Longrightarrow> run_call lim what s = (Inl (ResourceExhausted what), s)"
  by (simp add: run_call_def settle_def bump_def Let_def remove_nth_snoc)

lemma run_call_granted:
  "\<not> exceeds lim (ctr_value s + 1) \<Longrightarrow>
   run_call lim what s = (Inr (ctr_value s + 1),
     \<lparr>ctr_value = ctr_value s + 1,
      ctr_calls = ctr_calls s @ [\<lparr>call_next = ctr_value s + 1, call_granted = True\<rparr>]\<rparr>)"
  by (simp add: run_call_def settle_def bump_def Let_def)

text \<open>
  C11: the child limit holds under every interleaving. Whatever order the atomic steps of
  concurrent \<open>acquire_child\<close> calls and guard drops take, the number of children granted and not
  yet dropped never exceeds \<open>max_concurrent_children\<close>, and the counter equals the number of
  calls and guards alive (so the compensating \<open>fetch_sub\<close> never underflows or leaks).
\<close>
theorem children_within_limit:
  "granted_count (foldl (counter_step (2 ^ 32 - 1) (Some l)) (counter_new :: 32 word counter) as) \<le> unat l
   \<and> ctr_value (foldl (counter_step (2 ^ 32 - 1) (Some l)) (counter_new :: 32 word counter) as)
     = of_nat (length (ctr_calls (foldl (counter_step (2 ^ 32 - 1) (Some l)) counter_new as)))"
proof -
  have ok: "counter_ok (2 ^ 32 - 1) (Some l)
      (foldl (counter_step (2 ^ 32 - 1) (Some l)) (counter_new :: 32 word counter) as)"
    by (rule children.run_inv [OF counter_ok_new])
  show ?thesis
    using counter_ok_limit [OF ok] ok unfolding counter_ok_def by blast
qed

text \<open>
  The tool-call budget holds under every interleaving of concurrent
  \<open>increment_tool_calls\<close> steps (granted calls are never given back).
\<close>
theorem tool_calls_within_limit:
  "granted_count (foldl (counter_step (2 ^ 64 - 1) (Some l)) (counter_new :: 64 word counter) as) \<le> unat l"
  by (rule counter_ok_limit [OF tool_calls.run_inv [OF counter_ok_new]])

text \<open>
  An undisturbed \<open>acquire_child\<close>. On a counter that keeps the invariant with no call in
  flight, the call is granted exactly when fewer than the limit are held; a refusal changes
  nothing, a grant adds one guard, and dropping that guard restores the usage record.
\<close>
theorem acquire_child_exact:
  assumes ok: "counter_ok n (max_concurrent_children (ru_limits u)) (ru_children u)"
    and settled: "\<forall>c \<in> set (ctr_calls (ru_children u)). call_granted c"
    and room: "granted_count (ru_children u) < 2 ^ 32 - 1"
  shows "(case acquire_child u of
      (Inl e, u') \<Rightarrow> (\<exists>l. max_concurrent_children (ru_limits u) = Some l
          \<and> granted_count (ru_children u) \<ge> unat l)
        \<and> bridge_error_code e = ''resource.exhausted'' \<and> u' = u
    | (Inr nxt, u') \<Rightarrow> unat nxt = Suc (granted_count (ru_children u))
        \<and> granted_count (ru_children u') = Suc (granted_count (ru_children u))
        \<and> (\<forall>l. max_concurrent_children (ru_limits u) = Some l \<longrightarrow> granted_count (ru_children u) < unat l)
        \<and> drop_child (granted_count (ru_children u)) u' = u)"
proof -
  let ?s = "ru_children u" and ?lim = "max_concurrent_children (ru_limits u)"
  have gc: "granted_count ?s = length (ctr_calls ?s)"
    using settled by (simp add: granted_count_def)
  have val: "ctr_value ?s = of_nat (granted_count ?s)"
    using ok by (simp add: counter_ok_def gc)
  have nxt: "unat (ctr_value ?s + 1) = Suc (granted_count ?s)"
    using room by (simp add: val unat_word_ariths unat_of_nat)
  show ?thesis
  proof (cases "exceeds ?lim (ctr_value ?s + 1)")
    case True
    then obtain l where "?lim = Some l" and "l < ctr_value ?s + 1"
      by (auto simp: exceeds_def split: option.splits)
    then show ?thesis
      using True nxt by (auto simp: acquire_child_def run_call_refused word_less_nat_alt)
  next
    case False
    have "granted_count ?s < unat l" if "?lim = Some l" for l
      using False that nxt by (simp add: exceeds_def word_less_nat_alt)
    then show ?thesis
      using False settled nxt
      by (auto simp: acquire_child_def run_call_granted granted_count_def drop_child_def release_def
          gc remove_nth_snoc)
  qed
qed

theorem acquire_child_exact_witness:
  "fst (acquire_child (resource_usage_new
      \<lparr>max_tool_calls = None, max_wallclock = None, max_concurrent_children = Some 1\<rparr> 0)) = Inr 1"
  using acquire_child_exact [of 5 "resource_usage_new
      \<lparr>max_tool_calls = None, max_wallclock = None, max_concurrent_children = Some 1\<rparr> 0"]
  by (auto simp: resource_usage_new_def counter_ok_new counter_new_def granted_count_def
      acquire_child_def run_call_def exceeds_def)

end
