(* ===== verification/Audit_Log.thy ===== *)
theory Audit_Log
  imports Prelude "HOL-Library.Word"
begin

text \<open>
  \<open>packages/bridge-core/src/audit.rs\<close>: the check on session ids that become file names, the
  bounded non-blocking channel, and the writer task. The file system is the map \<open>aq_disk\<close> from
  paths to contents; whether an open or a write succeeds is an input of the step
  (\<open>io_outcome\<close>), \<open>ser\<close> stands for \<open>serde_json::to_vec\<close>.
\<close>

section \<open>Session ids as file names\<close>

definition max_audit_session_id_len :: nat where
  "max_audit_session_id_len = 128"

definition ascii_alphanumeric :: "char \<Rightarrow> bool" where
  "ascii_alphanumeric c \<longleftrightarrow> ascii_upper c \<or> ascii_lower c \<or> ascii_digit c"

definition audit_char_ok :: "char \<Rightarrow> bool" where
  "audit_char_ok c \<longleftrightarrow> ascii_alphanumeric c \<or> c = CHR ''.'' \<or> c = CHR ''_'' \<or> c = CHR ''-''"

text \<open>
  A character outside ASCII is refused; all its UTF-8 bytes are \<open>\<ge> 128\<close>, so the test on bytes
  refuses exactly the same strings as the one on characters.
\<close>

definition validate_audit_session_id :: "string \<Rightarrow> string + unit" where
  "validate_audit_session_id sid =
     (if sid = [] then Inl ''session_id is empty''
      else if length sid > max_audit_session_id_len
        then Inl ''session_id exceeds MAX_AUDIT_SESSION_ID_LEN''
      else if sid = ''.'' \<or> sid = ''..'' then Inl ''session_id is a path traversal segment''
      else if \<not> list_all audit_char_ok sid then Inl ''session_id contains disallowed character''
      else Inr ())"

section \<open>Entries, channel and writer task\<close>

datatype audit_severity = Info | Warn | Err

record audit_entry =
  ae_ts :: int
  ae_session_id :: string
  ae_subsystem :: string
  ae_severity :: audit_severity
  ae_fields :: json

definition audit_entry_new :: "int \<Rightarrow> string \<Rightarrow> string \<Rightarrow> audit_entry" where
  "audit_entry_new t sid sub =
     \<lparr>ae_ts = t, ae_session_id = sid, ae_subsystem = sub, ae_severity = Info, ae_fields = JObj []\<rparr>"

definition ae_with_severity :: "audit_severity \<Rightarrow> audit_entry \<Rightarrow> audit_entry" where
  "ae_with_severity s e = e\<lparr>ae_severity := s\<rparr>"

definition ae_with_fields :: "json \<Rightarrow> audit_entry \<Rightarrow> audit_entry" where
  "ae_with_fields f e = e\<lparr>ae_fields := f\<rparr>"

record audit_config =
  ac_dir :: string
  ac_channel_cap :: nat

definition audit_config_default :: audit_config where
  "audit_config_default = \<lparr>ac_dir = ''/tmp/vac-web/audit'', ac_channel_cap = 8192\<rparr>"

record audit_state =
  aq_queue :: "audit_entry list"
  aq_dropped :: "64 word"
  aq_files :: "string list"
  aq_disk :: "string \<rightharpoonup> string"

text \<open>\<open>mpsc::channel\<close> panics on a zero capacity.\<close>

definition audit_spawn :: "audit_config \<Rightarrow> (string \<rightharpoonup> string) \<Rightarrow> audit_state option" where
  "audit_spawn cfg disk =
     (if ac_channel_cap cfg = 0 then None
      else Some \<lparr>aq_queue = [], aq_dropped = 0, aq_files = [], aq_disk = disk\<rparr>)"

definition audit_log :: "audit_config \<Rightarrow> audit_entry \<Rightarrow> audit_state \<Rightarrow> audit_state" where
  "audit_log cfg e s =
     (if length (aq_queue s) < ac_channel_cap cfg then s\<lparr>aq_queue := aq_queue s @ [e]\<rparr>
      else s\<lparr>aq_dropped := aq_dropped s + 1\<rparr>)"

record io_outcome =
  io_open_ok :: bool
  io_write_failed_after :: "nat option"

definition audit_path :: "audit_config \<Rightarrow> string \<Rightarrow> string" where
  "audit_path cfg sid = path_join (ac_dir cfg) (sid @ ''.jsonl'')"

definition file_append :: "string \<Rightarrow> string \<Rightarrow> (string \<rightharpoonup> string) \<Rightarrow> (string \<rightharpoonup> string)" where
  "file_append p bs disk = disk(p \<mapsto> unwrap_or [] (disk p) @ bs)"

text \<open>
  One turn of the loop of \<open>writer_task\<close>: the id check, the handle from the cache or a new one
  (\<open>create\<close> and \<open>append\<close> make an empty file appear), the line, the write. A failed
  \<open>write_all\<close> leaves a prefix of the line.
\<close>

definition writer_handle ::
    "audit_config \<Rightarrow> (audit_entry \<Rightarrow> string option) \<Rightarrow> io_outcome \<Rightarrow> audit_entry
      \<Rightarrow> audit_state \<Rightarrow> audit_state" where
  "writer_handle cfg ser io e s =
     (case validate_audit_session_id (ae_session_id e) of
        Inl _ \<Rightarrow> s
      | Inr _ \<Rightarrow>
          (let sid = ae_session_id e; path = audit_path cfg sid in
           if sid \<notin> set (aq_files s) \<and> \<not> io_open_ok io then s
           else
             (let s1 = (if sid \<in> set (aq_files s) then s
                        else s\<lparr>aq_files := sid # aq_files s,
                               aq_disk := file_append path [] (aq_disk s)\<rparr>)
              in (case ser e of
                    None \<Rightarrow> s1
                  | Some v \<Rightarrow>
                      (let line = v @ [CHR 0x0A];
                           written = (case io_write_failed_after io of
                                        None \<Rightarrow> line | Some k \<Rightarrow> take k line)
                       in s1\<lparr>aq_disk := file_append path written (aq_disk s1)\<rparr>)))))"

definition writer_recv ::
    "audit_config \<Rightarrow> (audit_entry \<Rightarrow> string option) \<Rightarrow> io_outcome \<Rightarrow> audit_state \<Rightarrow> audit_state" where
  "writer_recv cfg ser io s =
     (case aq_queue s of
        [] \<Rightarrow> s
      | e # q \<Rightarrow> writer_handle cfg ser io e (s\<lparr>aq_queue := q\<rparr>))"

datatype audit_op = Log audit_entry | Recv io_outcome

fun audit_step ::
    "audit_config \<Rightarrow> (audit_entry \<Rightarrow> string option) \<Rightarrow> audit_state \<Rightarrow> audit_op \<Rightarrow> audit_state" where
  "audit_step cfg ser s (Log e) = audit_log cfg e s"
| "audit_step cfg ser s (Recv io) = writer_recv cfg ser io s"

section \<open>The writer stays inside its directory\<close>

definition audit_id_ok :: "string \<Rightarrow> bool" where
  "audit_id_ok sid \<longleftrightarrow> validate_audit_session_id sid = Inr ()"

lemma audit_id_ok_iff:
  "audit_id_ok sid \<longleftrightarrow> sid \<noteq> [] \<and> length sid \<le> 128 \<and> sid \<noteq> ''.'' \<and> sid \<noteq> ''..''
     \<and> (\<forall>c \<in> set sid. audit_char_ok c)"
  by (auto simp: audit_id_ok_def validate_audit_session_id_def max_audit_session_id_len_def list_all_iff)

lemma audit_char_ok_no_sep: "audit_char_ok c \<Longrightarrow> c \<noteq> CHR ''/'' \<and> is_ascii c"
  by (auto simp: audit_char_ok_def ascii_alphanumeric_def ascii_upper_def ascii_lower_def
      ascii_digit_def is_ascii_def)

lemma audit_id_no_slash: "audit_id_ok sid \<Longrightarrow> CHR ''/'' \<notin> set sid"
  by (auto simp: audit_id_ok_iff dest: audit_char_ok_no_sep)

lemma audit_path_eq:
  assumes "audit_id_ok sid"
  shows "audit_path cfg sid =
     ac_dir cfg @ (if ac_dir cfg = [] \<or> last (ac_dir cfg) = CHR ''/'' then [] else ''/'')
       @ sid @ ''.jsonl''"
  using assms audit_id_no_slash [OF assms]
  by (cases sid) (auto simp: audit_path_def path_join_def audit_id_ok_iff str_simps)

lemma audit_path_inj:
  "audit_id_ok a \<Longrightarrow> audit_id_ok b \<Longrightarrow> audit_path cfg a = audit_path cfg b \<longleftrightarrow> a = b"
  by (simp add: audit_path_eq)

lemma writer_handle_cases:
  obtains (same) "writer_handle cfg ser io e s = s"
  | (touched) fs bs where "audit_id_ok (ae_session_id e)"
      "writer_handle cfg ser io e s
         = s\<lparr>aq_files := fs, aq_disk := file_append (audit_path cfg (ae_session_id e)) bs (aq_disk s)\<rparr>"
proof (cases "validate_audit_session_id (ae_session_id e)")
  case Inl
  then show ?thesis by (intro same) (simp add: writer_handle_def)
next
  case (Inr u)
  then have ok: "audit_id_ok (ae_session_id e)" by (simp add: audit_id_ok_def)
  let ?p = "audit_path cfg (ae_session_id e)"
  have app: "file_append ?p b (file_append ?p a d) = file_append ?p (a @ b) d" for a b d
    by (simp add: file_append_def)
  have "\<exists>fs bs. writer_handle cfg ser io e s = s
      \<or> writer_handle cfg ser io e s = s\<lparr>aq_files := fs, aq_disk := file_append ?p bs (aq_disk s)\<rparr>"
    using Inr by (auto simp: writer_handle_def Let_def app split: option.splits
        intro: exI [of _ "aq_files s"]) (metis audit_state.surjective audit_state.update_convs(3))+
  then show ?thesis using same touched [OF ok] by blast
qed

definition audit_confined :: "audit_config \<Rightarrow> (string \<rightharpoonup> string) \<Rightarrow> audit_state \<Rightarrow> bool" where
  "audit_confined cfg disk0 s \<longleftrightarrow>
     (\<forall>p. aq_disk s p \<noteq> disk0 p \<longrightarrow> (\<exists>sid. audit_id_ok sid \<and> p = audit_path cfg sid))"

lemma audit_confined_append:
  "audit_confined cfg disk0 s \<Longrightarrow> audit_id_ok sid \<Longrightarrow>
   audit_confined cfg disk0 (s\<lparr>aq_files := fs, aq_disk := file_append (audit_path cfg sid) bs (aq_disk s)\<rparr>)"
  by (auto simp: audit_confined_def file_append_def)

lemma audit_confined_step:
  assumes "audit_confined cfg disk0 s"
  shows "audit_confined cfg disk0 (audit_step cfg ser s c)"
proof (cases c)
  case (Log e)
  then show ?thesis using assms by (simp add: audit_confined_def audit_log_def)
next
  case (Recv io)
  show ?thesis
  proof (cases "aq_queue s")
    case Nil
    then show ?thesis using assms Recv by (simp add: writer_recv_def)
  next
    case (Cons e q)
    have "audit_confined cfg disk0 (s\<lparr>aq_queue := q\<rparr>)"
      using assms by (simp add: audit_confined_def)
    then have "audit_confined cfg disk0 (writer_handle cfg ser io e (s\<lparr>aq_queue := q\<rparr>))"
      by (cases rule: writer_handle_cases [of cfg ser io e "s\<lparr>aq_queue := q\<rparr>"])
        (auto dest: audit_confined_append)
    then show ?thesis using Cons Recv by (simp add: writer_recv_def)
  qed
qed

interpretation writer: handler_system "audit_step cfg ser" "audit_confined cfg disk0" for cfg ser disk0
  by unfold_locales (rule audit_confined_step)


text \<open>
  Audit confinement. Whatever entries are logged, with whatever session ids, and however
  opens and writes fail: a file the writer creates or changes is \<open><dir>/<id>.jsonl\<close> for an id
  of 1 to 128 characters without a path separator, different from the traversal segments.
\<close>
theorem audit_writer_confined:
  "aq_disk (foldl (audit_step cfg ser) s cs) p = aq_disk s p
   \<or> (\<exists>sid. p = ac_dir cfg
             @ (if ac_dir cfg = [] \<or> last (ac_dir cfg) = CHR ''/'' then [] else ''/'')
             @ sid @ ''.jsonl''
         \<and> CHR ''/'' \<notin> set sid \<and> sid \<noteq> [] \<and> length sid \<le> 128 \<and> sid \<noteq> ''.'' \<and> sid \<noteq> ''..'')"
proof (cases "aq_disk (foldl (audit_step cfg ser) s cs) p = aq_disk s p")
  case changed: False
  have "audit_confined cfg (aq_disk s) (foldl (audit_step cfg ser) s cs)"
    by (rule writer.run_inv) (simp add: audit_confined_def)
  with changed obtain sid where "audit_id_ok sid" and "p = audit_path cfg sid"
    by (auto simp: audit_confined_def)
  then show ?thesis
    using audit_path_eq audit_id_no_slash by (auto simp: audit_id_ok_iff intro!: exI [of _ sid])
qed simp

section \<open>Nothing accepted is lost, reordered or misfiled\<close>

text \<open>The entries the channel accepted and the entries the task took out, in order.\<close>

fun audit_history ::
    "audit_config \<Rightarrow> (audit_entry \<Rightarrow> string option) \<Rightarrow> audit_state \<Rightarrow> audit_op list
      \<Rightarrow> audit_entry list \<times> audit_entry list" where
  "audit_history cfg ser s [] = ([], [])"
| "audit_history cfg ser s (Log e # cs) =
     (let (a, d) = audit_history cfg ser (audit_step cfg ser s (Log e)) cs
      in (if length (aq_queue s) < ac_channel_cap cfg then e # a else a, d))"
| "audit_history cfg ser s (Recv io # cs) =
     (let (a, d) = audit_history cfg ser (audit_step cfg ser s (Recv io)) cs
      in (a, take 1 (aq_queue s) @ d))"

fun io_fine :: "audit_op \<Rightarrow> bool" where
  "io_fine (Log e) = True"
| "io_fine (Recv io) = (io_open_ok io \<and> io_write_failed_after io = None)"

definition audit_line :: "string \<Rightarrow> string" where
  "audit_line v = v @ [CHR 0x0A]"

definition file_text :: "(string \<rightharpoonup> string) \<Rightarrow> string \<Rightarrow> string" where
  "file_text disk p = unwrap_or [] (disk p)"

lemma file_text_append: "file_text (file_append p bs d) q = file_text d q @ (if q = p then bs else [])"
  by (simp add: file_text_def file_append_def)

lemma writer_handle_queue: "aq_queue (writer_handle cfg ser io e s) = aq_queue s"
  "aq_dropped (writer_handle cfg ser io e s) = aq_dropped s"
  by (auto simp: writer_handle_def Let_def split: sum.splits option.splits)

lemma audit_fifo:
  assumes "audit_history cfg ser s cs = (a, d)"
  shows "aq_queue s @ a = d @ aq_queue (foldl (audit_step cfg ser) s cs)"
  using assms
proof (induction cs arbitrary: s a d)
  case Nil
  then show ?case by simp
next
  case (Cons c cs)
  obtain a' d' where h: "audit_history cfg ser (audit_step cfg ser s c) cs = (a', d')"
    by (cases "audit_history cfg ser (audit_step cfg ser s c) cs")
  show ?case
    using Cons.IH [OF h] Cons.prems h
    by (cases c; cases "aq_queue s")
      (auto simp: audit_log_def writer_recv_def writer_handle_queue split: if_splits)
qed

lemma audit_drop_count:
  assumes "audit_history cfg ser s cs = (a, d)"
  shows "aq_dropped (foldl (audit_step cfg ser) s cs) + of_nat (length a)
       = aq_dropped s + of_nat (length (filter (\<lambda>c. case c of Log _ \<Rightarrow> True | Recv _ \<Rightarrow> False) cs))"
  using assms
proof (induction cs arbitrary: s a d)
  case Nil
  then show ?case by simp
next
  case (Cons c cs)
  obtain a' d' where h: "audit_history cfg ser (audit_step cfg ser s c) cs = (a', d')"
    by (cases "audit_history cfg ser (audit_step cfg ser s c) cs")
  show ?case
    using Cons.IH [OF h] Cons.prems h
    by (cases c; cases "aq_queue s")
      (auto simp: audit_log_def writer_recv_def writer_handle_queue algebra_simps split: if_splits)
qed

lemma writer_handle_text:
  assumes "io_fine (Recv io)" and "ser e = Some v" and "audit_id_ok sid"
  shows "file_text (aq_disk (writer_handle cfg ser io e s)) (audit_path cfg sid)
       = file_text (aq_disk s) (audit_path cfg sid)
         @ (if ae_session_id e = sid then audit_line v else [])"
proof (cases "audit_id_ok (ae_session_id e)")
  case True
  then have "validate_audit_session_id (ae_session_id e) = Inr ()" by (simp add: audit_id_ok_def)
  then show ?thesis
    using assms True
    by (simp add: writer_handle_def Let_def file_text_append audit_path_inj audit_line_def)
next
  case False
  then obtain m where "validate_audit_session_id (ae_session_id e) = Inl m"
    by (cases "validate_audit_session_id (ae_session_id e)") (auto simp: audit_id_ok_def)
  moreover have "ae_session_id e \<noteq> sid" using False assms(3) by blast
  ultimately show ?thesis by (simp add: writer_handle_def)
qed

lemma audit_text:
  assumes "audit_history cfg ser s cs = (a, d)" and "list_all io_fine cs"
    and ser: "\<And>e. ser e = Some (line e)" and sid: "audit_id_ok sid"
  shows "file_text (aq_disk (foldl (audit_step cfg ser) s cs)) (audit_path cfg sid)
       = file_text (aq_disk s) (audit_path cfg sid)
         @ concat (map (\<lambda>e. audit_line (line e)) (filter (\<lambda>e. ae_session_id e = sid) d))"
  using assms(1,2)
proof (induction cs arbitrary: s a d)
  case Nil
  then show ?case by simp
next
  case (Cons c cs)
  obtain a' d' where h: "audit_history cfg ser (audit_step cfg ser s c) cs = (a', d')"
    by (cases "audit_history cfg ser (audit_step cfg ser s c) cs")
  show ?case
  proof (cases c)
    case (Log e)
    then show ?thesis
      using Cons.IH [OF h] Cons.prems h by (auto simp: audit_log_def split: if_splits)
  next
    case (Recv io)
    then show ?thesis
      using Cons.IH [OF h] Cons.prems h writer_handle_text [OF _ ser sid, of io]
      by (cases "aq_queue s") (auto simp: writer_recv_def)
  qed
qed

text \<open>
  C13: the audit trail is faithful. On a fresh writer the entries the channel accepted are, in
  order, those the task took out followed by those still queued; refused entries are counted
  (modulo \<open>2 ^ 64\<close>); and when no open or write fails, the file of a session with a valid id is
  what it held before followed by one line per delivered entry of that session, in order.
\<close>
theorem audit_trail_faithful:
  assumes spawn: "audit_spawn cfg disk = Some s"
    and hist: "audit_history cfg ser s cs = (accepted, delivered)"
    and io: "list_all io_fine cs" and ser: "\<And>e. ser e = Some (line e)"
    and sid: "validate_audit_session_id sid = Inr ()"
  shows "accepted = delivered @ aq_queue (foldl (audit_step cfg ser) s cs)
    \<and> aq_dropped (foldl (audit_step cfg ser) s cs) + of_nat (length accepted)
        = of_nat (length (filter (\<lambda>c. case c of Log _ \<Rightarrow> True | Recv _ \<Rightarrow> False) cs))
    \<and> file_text (aq_disk (foldl (audit_step cfg ser) s cs)) (audit_path cfg sid)
        = file_text disk (audit_path cfg sid)
          @ concat (map (\<lambda>e. line e @ [CHR 0x0A]) (filter (\<lambda>e. ae_session_id e = sid) delivered))"
proof -
  have s: "aq_queue s = []" "aq_dropped s = 0" "aq_disk s = disk"
    using spawn by (auto simp: audit_spawn_def split: if_splits)
  have ok: "audit_id_ok sid" using sid by (simp add: audit_id_ok_def)
  show ?thesis
    using audit_fifo [OF hist] audit_drop_count [OF hist] audit_text [OF hist io ser ok]
    by (simp add: s audit_line_def)
qed

theorem audit_trail_faithful_witness:
  "file_text (aq_disk (foldl (audit_step \<lparr>ac_dir = ''/a'', ac_channel_cap = 1\<rparr> (\<lambda>e. Some (ae_subsystem e)))
      \<lparr>aq_queue = [], aq_dropped = 0, aq_files = [], aq_disk = Map.empty\<rparr>
      [Log (audit_entry_new 0 ''s1'' ''x''), Recv \<lparr>io_open_ok = True, io_write_failed_after = None\<rparr>]))
      (audit_path \<lparr>ac_dir = ''/a'', ac_channel_cap = 1\<rparr> ''s1'') = ''x'' @ [CHR 0x0A]"
proof -
  let ?cfg = "\<lparr>ac_dir = ''/a'', ac_channel_cap = 1\<rparr>"
  have v: "validate_audit_session_id ''s1'' = Inr ()"
    by code_simp
  show ?thesis
    using audit_trail_faithful [of ?cfg Map.empty _ "\<lambda>e. Some (ae_subsystem e)"
        "[Log (audit_entry_new 0 ''s1'' ''x''), Recv \<lparr>io_open_ok = True, io_write_failed_after = None\<rparr>]"
        "[audit_entry_new 0 ''s1'' ''x'']" "[audit_entry_new 0 ''s1'' ''x'']" ae_subsystem "''s1''", OF _ _ _ _ v]
    by (simp add: audit_spawn_def audit_log_def audit_entry_new_def file_text_def)
qed

end
