(* ===== verification/Profile.thy ===== *)
theory Profile
  imports Prelude
begin

text \<open>
  \<open>packages/profile-core/src/profile.rs\<close>: capability profiles, inheritance and the consistency
  check. Reading and parsing \<open><dir>/<id>.yaml\<close> is the argument \<open>raw\<close> (a path to a profile or
  an error); the loader's recursion over \<open>inherits_from\<close> is a partial function, since the code
  has no cycle check.
\<close>

section \<open>Data\<close>

datatype profile_class = Assessor | Executor

record shell_allow_entry =
  sh_bin :: string
  sh_args_pattern :: "string option"
  sh_max_args :: nat
  sh_cwd_scope :: "string option"
  sh_timeout_ms :: nat
  sh_env_allowlist :: "string list"
  sh_output_cap_bytes :: nat

record fs_config =
  fs_read :: string
  fs_write :: string
  fs_scoped_paths :: "string list"
  fs_docs_roots :: "string list"
  fs_deny_globs :: "string list"
  fs_max_bytes_per_read :: nat
  fs_max_bytes_per_write :: nat

definition default_fs_read :: string where "default_fs_read = ''project_root''"
definition default_fs_write :: string where "default_fs_write = ''none''"

definition fs_config_default :: fs_config where
  "fs_config_default =
     \<lparr>fs_read = default_fs_read, fs_write = default_fs_write, fs_scoped_paths = [],
      fs_docs_roots = [], fs_deny_globs = [], fs_max_bytes_per_read = 10485760,
      fs_max_bytes_per_write = 0\<rparr>"

record git_config =
  git_read :: bool
  git_branch :: bool
  git_commit :: bool
  git_tag :: bool
  git_push :: bool
  git_push_remotes_allow :: "string list"
  git_protected_refs :: "string list"

record connectors_config =
  con_read :: "string list"
  con_write :: "string list"

record network_egress =
  net_mode :: string
  net_host_allowlist :: "string list"
  net_methods_allow :: "string list"

definition network_egress_default :: network_egress where
  "network_egress_default =
     \<lparr>net_mode = ''allowlist'', net_host_allowlist = [], net_methods_allow = []\<rparr>"

record profile_limits =
  pl_max_session_wallclock_ms :: "nat option"
  pl_max_tool_calls :: "nat option"
  pl_max_concurrent_children :: "nat option"

record profile_audit =
  pa_log_every_tool_call :: "bool option"
  pa_log_tool_args :: "string option"
  pa_retain_for_days :: "nat option"

record capability_profile =
  prof_id :: string
  prof_class :: profile_class
  prof_version :: string
  prof_description :: "string option"
  prof_inherits_from :: "string option"
  prof_tool_allow :: "string list"
  prof_tool_deny :: "string list"
  prof_shell_allowlist :: "shell_allow_entry list"
  prof_fs :: fs_config
  prof_git :: git_config
  prof_connectors :: connectors_config
  prof_network :: network_egress
  prof_approval_required_for :: "string list"
  prof_allowed_agent_kinds :: "string list"
  prof_limits :: "profile_limits option"
  prof_audit :: "profile_audit option"

datatype profile_error =
    RawError string
  | FsWriteWidened
  | GitWidened string
  | ConnectorWritesAdded
  | AssessorFsWrite string string
  | AssessorGitWrite string
  | AssessorConnectorWrites string
  | UnknownAgentKind string string

section \<open>Merging a child into its parent\<close>

text \<open>The shell entries of the child whose \<open>bin\<close> the result does not have yet.\<close>

definition merge_shell :: "shell_allow_entry list \<Rightarrow> shell_allow_entry list \<Rightarrow> shell_allow_entry list" where
  "merge_shell out child =
     foldl (\<lambda>acc e. if list_ex (\<lambda>x. sh_bin x = sh_bin e) acc then acc else acc @ [e]) out child"

definition merge_fs :: "fs_config \<Rightarrow> fs_config \<Rightarrow> profile_error + fs_config" where
  "merge_fs out child =
     (let changes = fs_read child \<noteq> default_fs_read \<and> fs_read child \<noteq> [] in
      if changes \<and> fs_write child \<noteq> default_fs_write \<and> fs_write out = default_fs_write
      then Inl FsWriteWidened
      else Inr (out\<lparr>fs_read := if changes then fs_read child else fs_read out,
                    fs_deny_globs := union_push (fs_deny_globs out) (fs_deny_globs child),
                    fs_docs_roots := union_push (fs_docs_roots out) (fs_docs_roots child)\<rparr>))"

definition merge_git :: "profile_class \<Rightarrow> git_config \<Rightarrow> git_config \<Rightarrow> profile_error + git_config" where
  "merge_git cls out child =
     (if cls = Assessor then
        (case find (\<lambda>(p, c, name). \<not> p \<and> c)
                [(git_branch out, git_branch child, ''branch''),
                 (git_commit out, git_commit child, ''commit''),
                 (git_tag out, git_tag child, ''tag''),
                 (git_push out, git_push child, ''push'')] of
           Some (_, _, name) \<Rightarrow> Inl (GitWidened name)
         | None \<Rightarrow> Inr out)
      else Inr child)"

definition merge_connectors ::
    "profile_class \<Rightarrow> connectors_config \<Rightarrow> connectors_config \<Rightarrow> profile_error + connectors_config" where
  "merge_connectors cls out child =
     (let out1 = out\<lparr>con_read := union_push (con_read out) (con_read child)\<rparr> in
      if con_write child \<noteq> [] then
        (if cls = Assessor then Inl ConnectorWritesAdded
         else Inr (out1\<lparr>con_write := con_write child\<rparr>))
      else Inr out1)"

definition merge_network :: "network_egress \<Rightarrow> network_egress \<Rightarrow> network_egress" where
  "merge_network out child =
     out\<lparr>net_host_allowlist := union_push (net_host_allowlist out) (net_host_allowlist child),
         net_methods_allow := if net_methods_allow child \<noteq> [] then net_methods_allow child
                              else net_methods_allow out\<rparr>"

definition merge_kinds :: "string list \<Rightarrow> string list \<Rightarrow> string list" where
  "merge_kinds out child = (if child \<noteq> [] then filter (\<lambda>k. k \<in> set child) out else out)"

definition merge_with_parent ::
    "capability_profile \<Rightarrow> capability_profile \<Rightarrow> profile_error + capability_profile" where
  "merge_with_parent parent child =
     (case merge_fs (prof_fs parent) (prof_fs child) of Inl e \<Rightarrow> Inl e | Inr fs \<Rightarrow>
      case merge_git (prof_class parent) (prof_git parent) (prof_git child) of Inl e \<Rightarrow> Inl e | Inr git \<Rightarrow>
      case merge_connectors (prof_class parent) (prof_connectors parent) (prof_connectors child) of
        Inl e \<Rightarrow> Inl e
      | Inr con \<Rightarrow>
          Inr (parent\<lparr>prof_id := prof_id child,
                      prof_version := prof_version child,
                      prof_description := or_else (prof_description child) (prof_description parent),
                      prof_inherits_from := prof_inherits_from child,
                      prof_tool_allow := union_push (prof_tool_allow parent) (prof_tool_allow child),
                      prof_tool_deny := union_push (prof_tool_deny parent) (prof_tool_deny child),
                      prof_shell_allowlist :=
                        merge_shell (prof_shell_allowlist parent) (prof_shell_allowlist child),
                      prof_fs := fs, prof_git := git, prof_connectors := con,
                      prof_network := merge_network (prof_network parent) (prof_network child),
                      prof_approval_required_for :=
                        union_push (prof_approval_required_for parent) (prof_approval_required_for child),
                      prof_allowed_agent_kinds :=
                        merge_kinds (prof_allowed_agent_kinds parent) (prof_allowed_agent_kinds child)\<rparr>))"

definition agent_kind_names :: "string list" where
  "agent_kind_names = [''mock'', ''vac-native'', ''acp'']"

definition validate_consistency :: "capability_profile \<Rightarrow> profile_error + unit" where
  "validate_consistency p =
     (if prof_class p = Assessor \<and> fs_write (prof_fs p) \<noteq> ''none''
        then Inl (AssessorFsWrite (prof_id p) (fs_write (prof_fs p)))
      else if prof_class p = Assessor
          \<and> (git_commit (prof_git p) \<or> git_push (prof_git p) \<or> git_tag (prof_git p) \<or> git_branch (prof_git p))
        then Inl (AssessorGitWrite (prof_id p))
      else if prof_class p = Assessor \<and> con_write (prof_connectors p) \<noteq> []
        then Inl (AssessorConnectorWrites (prof_id p))
      else (case find (\<lambda>k. k \<notin> set agent_kind_names) (prof_allowed_agent_kinds p) of
              Some k \<Rightarrow> Inl (UnknownAgentKind (prof_id p) k)
            | None \<Rightarrow> Inr ()))"

section \<open>Loading\<close>

type_synonym profile_cache = "string \<rightharpoonup> capability_profile"
type_synonym raw_profiles = "string \<Rightarrow> string + capability_profile"

definition profile_path :: "string \<Rightarrow> string \<Rightarrow> string" where
  "profile_path dir i = path_join dir (i @ ''.yaml'')"

text \<open>The end of \<open>load_with_cache\<close>: the check, then the insertion into the cache.\<close>

definition load_finish ::
    "string \<Rightarrow> capability_profile \<Rightarrow> profile_cache
      \<Rightarrow> (profile_error + capability_profile) \<times> profile_cache" where
  "load_finish i prof cache =
     (case validate_consistency prof of
        Inl e \<Rightarrow> (Inl e, cache)
      | Inr _ \<Rightarrow> (Inr prof, cache(i \<mapsto> prof)))"

partial_function (option) load_with_cache ::
    "raw_profiles \<Rightarrow> string \<Rightarrow> string \<Rightarrow> profile_cache
      \<Rightarrow> ((profile_error + capability_profile) \<times> profile_cache) option" where
  "load_with_cache raw dir i cache =
     (case cache i of
        Some p \<Rightarrow> Some (Inr p, cache)
      | None \<Rightarrow>
          (case raw (profile_path dir i) of
             Inl e \<Rightarrow> Some (Inl (RawError e), cache)
           | Inr prof \<Rightarrow>
               (case prof_inherits_from prof of
                  None \<Rightarrow> Some (load_finish i prof cache)
                | Some parent_id \<Rightarrow>
                    Option.bind (load_with_cache raw dir parent_id cache) (\<lambda>rc.
                      case fst rc of
                        Inl e \<Rightarrow> Some (Inl e, snd rc)
                      | Inr parent \<Rightarrow>
                          (case merge_with_parent parent prof of
                             Inl e \<Rightarrow> Some (Inl e, snd rc)
                           | Inr merged \<Rightarrow> Some (load_finish i merged (snd rc)))))))"

text \<open>\<open>CapabilityProfile::load\<close>: a fresh cache; \<open>None\<close> is a call that never returns.\<close>

definition load_profile ::
    "raw_profiles \<Rightarrow> string \<Rightarrow> string \<Rightarrow> (profile_error + capability_profile) option" where
  "load_profile raw dir i = map_option fst (load_with_cache raw dir i Map.empty)"


section \<open>When loading returns\<close>

text \<open>The parent a profile file names, and the \<open>n\<close>-th ancestor.\<close>

definition parent_of :: "raw_profiles \<Rightarrow> string \<Rightarrow> string \<Rightarrow> string option" where
  "parent_of raw dir i =
     (case raw (profile_path dir i) of Inl _ \<Rightarrow> None | Inr p \<Rightarrow> prof_inherits_from p)"

primrec ancestor :: "raw_profiles \<Rightarrow> string \<Rightarrow> nat \<Rightarrow> string \<Rightarrow> string option" where
  "ancestor raw dir 0 i = Some i"
| "ancestor raw dir (Suc n) i = Option.bind (parent_of raw dir i) (ancestor raw dir n)"

definition check_profile :: "capability_profile \<Rightarrow> profile_error + capability_profile" where
  "check_profile p = (case validate_consistency p of Inl e \<Rightarrow> Inl e | Inr _ \<Rightarrow> Inr p)"

lemma fst_load_finish: "fst (load_finish i p cache) = check_profile p"
  by (simp add: load_finish_def check_profile_def split: sum.splits)

text \<open>From the empty cache the recursion never hits the cache, so it is a function of the id.\<close>

lemma load_profile_unfold:
  "load_profile raw dir i =
     (case raw (profile_path dir i) of
        Inl e \<Rightarrow> Some (Inl (RawError e))
      | Inr prof \<Rightarrow>
          (case prof_inherits_from prof of
             None \<Rightarrow> Some (check_profile prof)
           | Some pid \<Rightarrow>
               Option.bind (load_profile raw dir pid) (\<lambda>r.
                 case r of
                   Inl e \<Rightarrow> Some (Inl e)
                 | Inr parent \<Rightarrow>
                     (case merge_with_parent parent prof of
                        Inl e \<Rightarrow> Some (Inl e)
                      | Inr merged \<Rightarrow> Some (check_profile merged)))))"
  unfolding load_profile_def
  by (subst load_with_cache.simps)
    (auto simp: fst_load_finish map_option_bind bind_map_option comp_def
      split: sum.splits option.splits intro!: Option.bind_cong)

lemma load_returns: "ancestor raw dir n i = None \<Longrightarrow> load_profile raw dir i \<noteq> None"
proof (induction n arbitrary: i)
  case 0
  then show ?case by simp
next
  case (Suc n)
  show ?case
  proof (cases "parent_of raw dir i")
    case None
    then show ?thesis
      by (subst load_profile_unfold) (auto simp: parent_of_def split: sum.splits)
  next
    case (Some pid)
    with Suc obtain r where "load_profile raw dir pid = Some r" by force
    with Some show ?thesis
      by (subst load_profile_unfold) (auto simp: parent_of_def split: sum.splits)
  qed
qed

lemma load_with_cache_chain:
  "load_with_cache raw dir i cache = Some r \<Longrightarrow> cache = Map.empty \<Longrightarrow> \<exists>n. ancestor raw dir n i = None"
proof (induction raw dir i cache r rule: load_with_cache.raw_induct [rotated 1, consumes 1])
  case (1 load raw dir i cache r)
  show ?case
  proof (cases "parent_of raw dir i")
    case None
    then show ?thesis by (intro exI [of _ 1]) simp
  next
    case (Some pid)
    then obtain r' where "load raw dir pid Map.empty = Some r'"
      using 1 by (auto simp: parent_of_def split: sum.splits option.splits elim!: bind_eq_Some_conv [THEN iffD1, elim_format])
    from 1(1) [OF this] obtain n where "ancestor raw dir n pid = None" by auto
    with Some show ?thesis by (intro exI [of _ "Suc n"]) simp
  qed
qed

text \<open>
  C15: termination of the profile loader. \<open>load\<close> returns (a profile or an error) exactly when
  the chain of \<open>inherits_from\<close> ends; on a cyclic chain it recurses forever.
\<close>
theorem load_terminates_iff_chain_ends:
  "load_profile raw dir i \<noteq> None \<longleftrightarrow> (\<exists>n. ancestor raw dir n i = None)"
proof
  assume "load_profile raw dir i \<noteq> None"
  then obtain r where "load_with_cache raw dir i Map.empty = Some r"
    by (auto simp: load_profile_def)
  then show "\<exists>n. ancestor raw dir n i = None" by (rule load_with_cache_chain) simp
next
  assume "\<exists>n. ancestor raw dir n i = None"
  then show "load_profile raw dir i \<noteq> None" using load_returns by blast
qed

section \<open>What a loaded profile guarantees\<close>

lemma merge_shell_find:
  "find (\<lambda>e. sh_bin e = b) out = Some e \<Longrightarrow> find (\<lambda>e. sh_bin e = b) (merge_shell out child) = Some e"
  unfolding merge_shell_def
  by (induction child arbitrary: out) (auto simp: find_append_Some)

lemma merge_fs_keeps:
  assumes "merge_fs out child = Inr fs"
  shows "fs_write fs = fs_write out"
    and "set (fs_deny_globs fs) = set (fs_deny_globs out) \<union> set (fs_deny_globs child)"
  using assms by (auto simp: merge_fs_def Let_def split: if_splits)

lemma merge_git_keeps: "merge_git Assessor out child = Inr g \<Longrightarrow> g = out"
  by (simp add: merge_git_def split: option.splits prod.splits)

lemma set_merge_kinds:
  "set (merge_kinds out child) = (if child = [] then set out else set out \<inter> set child)"
  by (auto simp: merge_kinds_def)

lemma merge_with_parentE:
  assumes "merge_with_parent par child = Inr out"
  obtains fs git con where "merge_fs (prof_fs par) (prof_fs child) = Inr fs"
    and "merge_git (prof_class par) (prof_git par) (prof_git child) = Inr git"
    and "prof_class out = prof_class par" and "prof_fs out = fs" and "prof_git out = git"
    and "prof_tool_deny out = union_push (prof_tool_deny par) (prof_tool_deny child)"
    and "prof_shell_allowlist out = merge_shell (prof_shell_allowlist par) (prof_shell_allowlist child)"
    and "prof_approval_required_for out
       = union_push (prof_approval_required_for par) (prof_approval_required_for child)"
    and "prof_allowed_agent_kinds out
       = merge_kinds (prof_allowed_agent_kinds par) (prof_allowed_agent_kinds child)"
  using assms by (auto simp: merge_with_parent_def split: sum.splits)

lemma merge_keeps:
  assumes "merge_with_parent par child = Inr out"
  shows "prof_class out = prof_class par"
    and "set (prof_tool_deny out) = set (prof_tool_deny par) \<union> set (prof_tool_deny child)"
    and "set (fs_deny_globs (prof_fs out))
       = set (fs_deny_globs (prof_fs par)) \<union> set (fs_deny_globs (prof_fs child))"
    and "set (prof_approval_required_for out)
       = set (prof_approval_required_for par) \<union> set (prof_approval_required_for child)"
    and "fs_write (prof_fs out) = fs_write (prof_fs par)"
    and "prof_class par = Assessor \<Longrightarrow> prof_git out = prof_git par"
    and "set (prof_allowed_agent_kinds out) \<subseteq> set (prof_allowed_agent_kinds par)"
    and "prof_allowed_agent_kinds child \<noteq> [] \<Longrightarrow>
       set (prof_allowed_agent_kinds out) \<subseteq> set (prof_allowed_agent_kinds child)"
    and "find (\<lambda>e. sh_bin e = b) (prof_shell_allowlist par) = Some e \<Longrightarrow>
       find (\<lambda>e. sh_bin e = b) (prof_shell_allowlist out) = Some e"
  using assms
  by (auto elim!: merge_with_parentE simp: merge_fs_keeps merge_shell_find set_merge_kinds
      dest!: merge_git_keeps split: if_splits)

lemma load_cases:
  assumes "load_profile raw dir i = Some (Inr p)"
  obtains (root) q where "raw (profile_path dir i) = Inr q" "prof_inherits_from q = None"
      "validate_consistency p = Inr ()" "p = q"
  | (child) q pid par where "raw (profile_path dir i) = Inr q" "prof_inherits_from q = Some pid"
      "validate_consistency p = Inr ()" "load_profile raw dir pid = Some (Inr par)"
      "merge_with_parent par q = Inr p"
  using assms
  by (subst (asm) load_profile_unfold)
    (auto simp: check_profile_def split: sum.splits option.splits elim!: bind_eq_Some_conv [THEN iffD1, elim_format])

text \<open>What every ancestor's file hands down, and what the root of the chain fixes.\<close>

definition hands_down :: "capability_profile \<Rightarrow> capability_profile \<Rightarrow> bool" where
  "hands_down q p \<longleftrightarrow>
     set (prof_tool_deny q) \<subseteq> set (prof_tool_deny p)
     \<and> set (fs_deny_globs (prof_fs q)) \<subseteq> set (fs_deny_globs (prof_fs p))
     \<and> set (prof_approval_required_for q) \<subseteq> set (prof_approval_required_for p)
     \<and> (prof_allowed_agent_kinds q \<noteq> [] \<or> prof_inherits_from q = None \<longrightarrow>
          set (prof_allowed_agent_kinds p) \<subseteq> set (prof_allowed_agent_kinds q))"

definition root_fixes :: "capability_profile \<Rightarrow> capability_profile \<Rightarrow> bool" where
  "root_fixes q p \<longleftrightarrow>
     prof_class p = prof_class q
     \<and> fs_write (prof_fs p) = fs_write (prof_fs q)
     \<and> (prof_class q = Assessor \<longrightarrow> prof_git p = prof_git q)
     \<and> (\<forall>b e. find (\<lambda>x. sh_bin x = b) (prof_shell_allowlist q) = Some e \<longrightarrow>
          find (\<lambda>x. sh_bin x = b) (prof_shell_allowlist p) = Some e)"

lemma hands_down_refl: "hands_down p p"
  by (simp add: hands_down_def)

lemma hands_down_merge: "merge_with_parent par q = Inr p \<Longrightarrow> hands_down r par \<Longrightarrow> hands_down r p"
  using merge_keeps [of par q p] by (fastforce simp: hands_down_def)

lemma hands_down_child:
  "merge_with_parent par q = Inr p \<Longrightarrow> prof_inherits_from q \<noteq> None \<Longrightarrow> hands_down q p"
  using merge_keeps [of par q p] by (fastforce simp: hands_down_def)

lemma root_fixes_merge: "merge_with_parent par q = Inr p \<Longrightarrow> root_fixes r par \<Longrightarrow> root_fixes r p"
  using merge_keeps [of par q p] by (simp add: root_fixes_def)

lemma load_hands_down:
  assumes "load_profile raw dir i = Some (Inr p)" and "ancestor raw dir n i = Some j"
    and "raw (profile_path dir j) = Inr q"
  shows "hands_down q p \<and> (prof_inherits_from q = None \<longrightarrow> root_fixes q p)"
  using assms
proof (induction n arbitrary: i p)
  case 0
  from 0(1) show ?case
  proof (cases rule: load_cases)
    case root
    then show ?thesis using 0 by (simp add: hands_down_refl root_fixes_def)
  next
    case child
    then show ?thesis using 0 hands_down_child by fastforce
  qed
next
  case (Suc n)
  from Suc.prems(1) show ?case
  proof (cases rule: load_cases)
    case root
    then show ?thesis using Suc.prems by (simp add: parent_of_def)
  next
    case (child r pid par)
    then have "ancestor raw dir n pid = Some j" using Suc.prems(2) by (simp add: parent_of_def)
    from Suc.IH [OF child(4) this Suc.prems(3)] show ?thesis
      using hands_down_merge [OF child(5)] root_fixes_merge [OF child(5)] by blast
  qed
qed

lemma load_valid: "load_profile raw dir i = Some (Inr p) \<Longrightarrow> validate_consistency p = Inr ()"
  by (erule load_cases) auto

lemma validate_consistency_iff:
  "validate_consistency p = Inr () \<longleftrightarrow>
     (prof_class p = Assessor \<longrightarrow>
        fs_write (prof_fs p) = ''none'' \<and> \<not> git_branch (prof_git p) \<and> \<not> git_commit (prof_git p)
        \<and> \<not> git_tag (prof_git p) \<and> \<not> git_push (prof_git p) \<and> con_write (prof_connectors p) = [])
     \<and> set (prof_allowed_agent_kinds p) \<subseteq> set agent_kind_names"
  by (auto simp: validate_consistency_def find_None_iff split: option.splits dest!: find_SomeD)

end
