(* ===== verification/Enforce.thy ===== *)
theory Enforce
  imports Profile
begin

text \<open>
  \<open>packages/profile-core/src/enforce.rs\<close>: the layer 1 decisions over a loaded profile. The
  matchers of the \<open>globset\<close> and \<open>regex\<close> crates, the resolution of symbolic links and \<open>$HOME\<close>
  are the fields of an \<open>enforce_env\<close>. Paths are Unix paths as strings; the human-readable reason
  of a denial, which no caller inspects, is left out.
\<close>

section \<open>Environment and paths\<close>

text \<open>
  \<open>env_glob pat\<close> is \<open>Glob::new(pat)\<close> with its matcher (\<open>None\<close> when the pattern is malformed),
  \<open>env_globset_ok pats\<close> whether \<open>GlobSetBuilder::build\<close> succeeds, \<open>env_regex\<close> is
  \<open>compile_pattern\<close>'s \<open>RegexBuilder\<close> with the size caps.
\<close>

record enforce_env =
  env_glob :: "string \<Rightarrow> (string \<Rightarrow> bool) option"
  env_globset_ok :: "string list \<Rightarrow> bool"
  env_regex :: "string \<Rightarrow> (string \<Rightarrow> bool) option"
  env_canonicalize :: "string \<Rightarrow> string option"
  env_home :: "string option"

datatype decision = Allow | Deny string

definition is_allow :: "decision \<Rightarrow> bool" where
  "is_allow d \<longleftrightarrow> d = Allow"

definition is_deny :: "decision \<Rightarrow> bool" where
  "is_deny d \<longleftrightarrow> \<not> is_allow d"

lemma is_deny_simps [simp]: "\<not> is_deny Allow" "is_deny (Deny c)" "is_allow Allow" "\<not> is_allow (Deny c)"
  by (simp_all add: is_deny_def is_allow_def)

text \<open>
  \<open>std::path\<close>: a path is cut at the slashes; empty pieces and inner \<open>.\<close> pieces do not count
  as components. Prefixes are taken on components, never on characters.
\<close>

fun split_slash :: "string \<Rightarrow> string list" where
  "split_slash [] = [[]]"
| "split_slash (c # s) =
     (if c = CHR ''/'' then [] # split_slash s
      else (case split_slash s of [] \<Rightarrow> [[c]] | p # ps \<Rightarrow> (c # p) # ps))"

definition trivial_piece :: "string \<Rightarrow> bool" where
  "trivial_piece c \<longleftrightarrow> c = [] \<or> c = ''.''"

definition path_components :: "string \<Rightarrow> string list" where
  "path_components p =
     (case split_slash p of
        [] \<Rightarrow> []
      | c # cs \<Rightarrow>
          (if c = [] \<and> cs \<noteq> [] then [''/''] else if c = [] then [] else [c])
          @ filter (\<lambda>x. \<not> trivial_piece x) cs)"

definition path_starts_with :: "string \<Rightarrow> string \<Rightarrow> bool" where
  "path_starts_with p base \<longleftrightarrow> prefix (path_components base) (path_components p)"

fun drop_components :: "nat \<Rightarrow> string list \<Rightarrow> string list" where
  "drop_components 0 ps = ps"
| "drop_components (Suc k) ps =
     (case dropWhile trivial_piece ps of [] \<Rightarrow> [] | _ # qs \<Rightarrow> drop_components k qs)"

text \<open>\<open>Path::strip_prefix\<close>: the text after the prefix, with outer separators trimmed.\<close>

definition trim_pieces_end :: "string list \<Rightarrow> string list" where
  "trim_pieces_end ps = rev (dropWhile trivial_piece (rev ps))"

definition path_strip_prefix :: "string \<Rightarrow> string \<Rightarrow> string option" where
  "path_strip_prefix p base =
     (if \<not> path_starts_with p base then None
      else
        (let pieces = split_slash p in
         case length (path_components base) of
           0 \<Rightarrow>
             (let body = trim_pieces_end (tl pieces) in
              Some (if body = [] \<and> path_components p = [''/''] then ''/''
                    else str_join ''/'' (hd pieces # body)))
         | Suc k \<Rightarrow>
             Some (str_join ''/'' (trim_pieces_end
               (dropWhile trivial_piece (drop_components k (tl pieces)))))))"

definition path_file_name :: "string \<Rightarrow> string option" where
  "path_file_name p =
     (case rev (path_components p) of
        [] \<Rightarrow> None
      | c # _ \<Rightarrow> if c \<in> {''/'', ''.'', ''..''} then None else Some c)"

definition canonicalize_best_effort :: "enforce_env \<Rightarrow> string \<Rightarrow> string" where
  "canonicalize_best_effort env p = unwrap_or p (env_canonicalize env p)"

definition expand_user :: "enforce_env \<Rightarrow> string \<Rightarrow> string" where
  "expand_user env raw =
     (case (strip_prefix raw ''~/'', env_home env) of
        (Some rest, Some home) \<Rightarrow> path_join home rest
      | (_, Some home) \<Rightarrow> if raw = ''~'' then home else raw
      | _ \<Rightarrow> raw)"

section \<open>Patterns\<close>

definition has_wildcard :: "string \<Rightarrow> bool" where
  "has_wildcard p \<longleftrightarrow> CHR ''*'' \<in> set p \<or> CHR ''?'' \<in> set p \<or> CHR ''['' \<in> set p"

definition pattern_matches :: "enforce_env \<Rightarrow> string \<Rightarrow> string \<Rightarrow> bool" where
  "pattern_matches env p target \<longleftrightarrow>
     p = target
     \<or> (has_wildcard p \<and> (case env_glob env p of Some m \<Rightarrow> m target | None \<Rightarrow> False))"

definition matches_any :: "enforce_env \<Rightarrow> string list \<Rightarrow> string \<Rightarrow> bool" where
  "matches_any env patterns target = list_ex (\<lambda>p. pattern_matches env p target) patterns"

text \<open>\<open>build_globs\<close> with \<open>is_match\<close>: malformed patterns are skipped, a failed build matches nothing.\<close>

definition globs_match :: "enforce_env \<Rightarrow> string list \<Rightarrow> string \<Rightarrow> bool" where
  "globs_match env patterns target \<longleftrightarrow>
     (let ok = filter (\<lambda>p. env_glob env p \<noteq> None) patterns in
      env_globset_ok env ok
      \<and> list_ex (\<lambda>p. case env_glob env p of Some m \<Rightarrow> m target | None \<Rightarrow> False) ok)"

definition rel_or_full :: "string \<Rightarrow> string \<Rightarrow> string" where
  "rel_or_full canon_path canon_root = unwrap_or canon_path (path_strip_prefix canon_path canon_root)"

definition glob_deny_match :: "enforce_env \<Rightarrow> string list \<Rightarrow> string \<Rightarrow> string \<Rightarrow> bool" where
  "glob_deny_match env patterns canon_path canon_root \<longleftrightarrow>
     globs_match env patterns (rel_or_full canon_path canon_root)
     \<or> (case path_file_name canon_path of Some bn \<Rightarrow> globs_match env patterns bn | None \<Rightarrow> False)
     \<or> globs_match env patterns canon_path"

definition shell_metas :: "char list" where
  "shell_metas = map char_of [59, 38, 124, 96, 36, 62, 60, 10, 13, 0, 40, 41, 123, 125, 92 :: nat]"

definition contains_shell_meta :: "string \<Rightarrow> bool" where
  "contains_shell_meta s = list_ex (\<lambda>c. c \<in> set shell_metas) s"

section \<open>Decisions\<close>

definition enforce_agent_kind :: "capability_profile \<Rightarrow> string \<Rightarrow> decision" where
  "enforce_agent_kind p kind =
     (if list_ex (\<lambda>k. k = kind) (prof_allowed_agent_kinds p) then Allow
      else Deny ''agent.kind_not_allowed'')"

definition enforce_tool :: "enforce_env \<Rightarrow> capability_profile \<Rightarrow> string \<Rightarrow> decision" where
  "enforce_tool env p tool =
     (if matches_any env (prof_tool_deny p) tool then Deny ''profile.tool_denied''
      else if matches_any env (prof_tool_allow p) tool then Allow
      else Deny ''profile.tool_not_allowed'')"

definition enforce_shell :: "enforce_env \<Rightarrow> capability_profile \<Rightarrow> string \<Rightarrow> string list \<Rightarrow> decision" where
  "enforce_shell env p bin args =
     (case find (\<lambda>e. sh_bin e = bin) (prof_shell_allowlist p) of
        None \<Rightarrow> Deny ''profile.shell_bin_not_allowed''
      | Some entry \<Rightarrow>
          if length args > sh_max_args entry then Deny ''profile.shell_too_many_args''
          else
            (let pattern_verdict =
               (case sh_args_pattern entry of
                  None \<Rightarrow> None
                | Some pattern \<Rightarrow>
                    (case env_regex env pattern of
                       Some re \<Rightarrow>
                         if re (str_join [CHR 0x1F] args) then None
                         else Some (Deny ''profile.shell_args_pattern_mismatch'')
                     | None \<Rightarrow> Some (Deny ''profile.shell_pattern_invalid'')))
             in (case pattern_verdict of
                   Some d \<Rightarrow> d
                 | None \<Rightarrow>
                     if list_ex contains_shell_meta args then Deny ''profile.shell_meta_chars''
                     else Allow)))"

definition under_docs_root :: "enforce_env \<Rightarrow> capability_profile \<Rightarrow> string \<Rightarrow> bool" where
  "under_docs_root env p canon_p \<longleftrightarrow>
     list_ex (\<lambda>d. let canon_d = canonicalize_best_effort env (expand_user env d)
                  in canon_d \<noteq> [] \<and> path_starts_with canon_p canon_d) (fs_docs_roots (prof_fs p))"

definition enforce_fs_read :: "enforce_env \<Rightarrow> capability_profile \<Rightarrow> string \<Rightarrow> string \<Rightarrow> decision" where
  "enforce_fs_read env p path project_root =
     (if fs_read (prof_fs p) = ''none'' then Deny ''profile.fs_read_disabled''
      else
        (let canon_p = canonicalize_best_effort env path;
             canon_root = canonicalize_best_effort env project_root;
             under_project = path_starts_with canon_p canon_root
         in if fs_read (prof_fs p) \<notin> {''project_root'', ''project_and_docs''}
            then Deny ''profile.fs_read_unknown''
            else if \<not> (under_project
                    \<or> (fs_read (prof_fs p) = ''project_and_docs'' \<and> under_docs_root env p canon_p))
            then Deny ''profile.fs_out_of_scope''
            else if glob_deny_match env (fs_deny_globs (prof_fs p)) canon_p canon_root
            then Deny ''profile.fs_deny_glob''
            else Allow))"

definition enforce_fs_write :: "enforce_env \<Rightarrow> capability_profile \<Rightarrow> string \<Rightarrow> string \<Rightarrow> decision" where
  "enforce_fs_write env p path project_root =
     (let mode = fs_write (prof_fs p);
          canon_p = canonicalize_best_effort env path;
          canon_root = canonicalize_best_effort env project_root
      in if mode = ''none'' then Deny ''profile.fs_write_disabled''
         else if mode = ''project_root'' then
           (if \<not> path_starts_with canon_p canon_root then Deny ''profile.fs_out_of_scope''
            else if glob_deny_match env (fs_deny_globs (prof_fs p)) canon_p canon_root
              then Deny ''profile.fs_deny_glob''
            else Allow)
         else if mode = ''scoped_paths'' then
           (if \<not> globs_match env (fs_scoped_paths (prof_fs p)) (rel_or_full canon_p canon_root)
              then Deny ''profile.fs_scoped_paths_mismatch''
            else if glob_deny_match env (fs_deny_globs (prof_fs p)) canon_p canon_root
              then Deny ''profile.fs_deny_glob''
            else Allow)
         else Deny ''profile.fs_write_unknown'')"

definition enforce_network :: "capability_profile \<Rightarrow> string \<Rightarrow> string \<Rightarrow> decision" where
  "enforce_network p host meth =
     (let net = prof_network p in
      if net_mode net = ''off'' then Deny ''profile.egress_disabled''
      else if net_mode net = ''unrestricted'' then Allow
      else if net_mode net = ''allowlist'' then
        (if \<not> list_ex (\<lambda>h. eq_ignore_ascii_case h (to_ascii_lowercase host)) (net_host_allowlist net)
           then Deny ''profile.egress_host''
         else if \<not> list_ex (\<lambda>m. eq_ignore_ascii_case m meth) (net_methods_allow net)
           then Deny ''profile.egress_method''
         else Allow)
      else Deny ''profile.egress_mode_unknown'')"


section \<open>Deny wins along the inheritance chain\<close>

lemma matches_any_mono: "set a \<subseteq> set b \<Longrightarrow> matches_any env a t \<Longrightarrow> matches_any env b t"
  by (auto simp: matches_any_def list_ex_iff)

lemma matches_any_literal: "t \<in> set ps \<Longrightarrow> matches_any env ps t"
  by (auto simp: matches_any_def list_ex_iff pattern_matches_def)

lemma enforce_tool_denied: "matches_any env (prof_tool_deny p) t \<Longrightarrow> enforce_tool env p t = Deny ''profile.tool_denied''"
  by (simp add: enforce_tool_def)

text \<open>A minimal assessor profile, used in the examples below.\<close>

definition example_profile :: capability_profile where
  "example_profile =
     \<lparr>prof_id = ''base'', prof_class = Assessor, prof_version = ''1'', prof_description = None,
      prof_inherits_from = None, prof_tool_allow = [''read''], prof_tool_deny = [''exec''],
      prof_shell_allowlist = [], prof_fs = fs_config_default,
      prof_git = \<lparr>git_read = True, git_branch = False, git_commit = False, git_tag = False,
                  git_push = False, git_push_remotes_allow = [], git_protected_refs = []\<rparr>,
      prof_connectors = \<lparr>con_read = [], con_write = []\<rparr>, prof_network = network_egress_default,
      prof_approval_required_for = [], prof_allowed_agent_kinds = [''mock''],
      prof_limits = None, prof_audit = None\<rparr>"

text \<open>
  C4: no descendant escapes an ancestor's restrictions. When a profile loads, every tool
  pattern an ancestor denies is denied for it, whatever the files in between allow; an agent
  kind the root of the chain does not list is refused; and below an assessor root no path is
  writable and no git write flag or connector write is set.
\<close>
theorem inherited_restrictions_enforced:
  assumes "load_profile raw dir i = Some (Inr p)"
    and "ancestor raw dir n i = Some j" and "raw (profile_path dir j) = Inr q"
  shows "(matches_any env (prof_tool_deny q) t \<longrightarrow> enforce_tool env p t = Deny ''profile.tool_denied'')
    \<and> (prof_inherits_from q = None \<and> k \<notin> set (prof_allowed_agent_kinds q) \<longrightarrow>
         enforce_agent_kind p k = Deny ''agent.kind_not_allowed'')
    \<and> (prof_inherits_from q = None \<and> prof_class q = Assessor \<longrightarrow>
         enforce_fs_write env p path root = Deny ''profile.fs_write_disabled''
         \<and> \<not> git_branch (prof_git p) \<and> \<not> git_commit (prof_git p) \<and> \<not> git_tag (prof_git p)
         \<and> \<not> git_push (prof_git p) \<and> con_write (prof_connectors p) = [])"
proof -
  have down: "hands_down q p" and root: "prof_inherits_from q = None \<Longrightarrow> root_fixes q p"
    using load_hands_down [OF assms] by auto
  have valid: "validate_consistency p = Inr ()" using load_valid [OF assms(1)] .
  have "matches_any env (prof_tool_deny q) t \<Longrightarrow> enforce_tool env p t = Deny ''profile.tool_denied''"
    using down matches_any_mono [of "prof_tool_deny q" "prof_tool_deny p"]
    by (simp add: enforce_tool_denied hands_down_def)
  then show ?thesis
    using down root valid
    by (auto simp: hands_down_def root_fixes_def validate_consistency_iff enforce_agent_kind_def
        list_ex_iff enforce_fs_write_def)
qed

theorem inherited_restrictions_enforced_witness:
  "let raw = (\<lambda>path. if path = ''/p/base.yaml'' then Inr example_profile
                     else Inr (example_profile\<lparr>prof_id := ''kid'', prof_inherits_from := Some ''base'',
                                               prof_tool_allow := [''exec''], prof_tool_deny := []\<rparr>));
       env = \<lparr>env_glob = \<lambda>_. None, env_globset_ok = \<lambda>_. True, env_regex = \<lambda>_. None,
              env_canonicalize = \<lambda>_. None, env_home = None\<rparr>
   in \<exists>p. load_profile raw ''/p'' ''kid'' = Some (Inr p)
        \<and> enforce_tool env p ''exec'' = Deny ''profile.tool_denied''"
proof -
  define kid where "kid = example_profile\<lparr>prof_id := ''kid'', prof_inherits_from := Some ''base'',
                                               prof_tool_allow := [''exec''], prof_tool_deny := []\<rparr>"
  define raw :: raw_profiles where "raw = (\<lambda>path. if path = ''/p/base.yaml'' then Inr example_profile else Inr kid)"
  have paths: "profile_path ''/p'' ''base'' = ''/p/base.yaml''" "profile_path ''/p'' ''kid'' = ''/p/kid.yaml''"
    by code_simp+
  have files: "raw ''/p/base.yaml'' = Inr example_profile" "raw ''/p/kid.yaml'' = Inr kid"
    by (simp_all add: raw_def)
  have kid: "prof_inherits_from kid = Some ''base''" by (simp add: kid_def)
  have base: "load_profile raw ''/p'' ''base'' = Some (Inr example_profile)"
    by (subst load_profile_unfold)
      (simp add: paths files check_profile_def validate_consistency_def example_profile_def
        fs_config_default_def default_fs_write_def agent_kind_names_def)
  obtain m where m: "merge_with_parent example_profile kid = Inr m" "validate_consistency m = Inr ()"
    by (simp add: kid_def validate_consistency_def example_profile_def
        merge_with_parent_def merge_fs_def merge_git_def merge_connectors_def merge_kinds_def
        fs_config_default_def default_fs_write_def default_fs_read_def agent_kind_names_def)
  have p: "load_profile raw ''/p'' ''kid'' = Some (Inr m)"
    by (subst load_profile_unfold) (simp add: paths base files kid m check_profile_def)
  have "ancestor raw ''/p'' 1 ''kid'' = Some ''base''"
    by (simp add: parent_of_def paths files kid)
  from inherited_restrictions_enforced [OF p this, of example_profile]
  have "enforce_tool env m ''exec'' = Deny ''profile.tool_denied''" for env
    by (simp add: paths files matches_any_literal example_profile_def)
  with p show ?thesis unfolding raw_def kid_def Let_def by blast
qed


section \<open>File access stays in scope\<close>

text \<open>What \<open>Path::canonicalize\<close> documents: an absolute path without \<open>..\<close> components.\<close>

definition canonical_ok :: "enforce_env \<Rightarrow> bool" where
  "canonical_ok env \<longleftrightarrow>
     (\<forall>p c. env_canonicalize env p = Some c \<longrightarrow> c \<noteq> [] \<and> ''..'' \<notin> set (path_components c))"

definition fs_roots :: "enforce_env \<Rightarrow> capability_profile \<Rightarrow> string \<Rightarrow> string set" where
  "fs_roots env p project_root =
     insert (canonicalize_best_effort env project_root)
       (if fs_read (prof_fs p) = ''project_and_docs''
        then (\<lambda>d. canonicalize_best_effort env (expand_user env d)) ` set (fs_docs_roots (prof_fs p))
        else {})"

lemma enforce_fs_read_allow:
  assumes "enforce_fs_read env p path root = Allow"
  shows "\<exists>b \<in> fs_roots env p root. path_starts_with (canonicalize_best_effort env path) b"
    and "\<not> glob_deny_match env (fs_deny_globs (prof_fs p)) (canonicalize_best_effort env path)
           (canonicalize_best_effort env root)"
  using assms
  by (auto simp: enforce_fs_read_def fs_roots_def under_docs_root_def list_ex_iff Let_def split: if_splits)

lemma path_starts_with_no_dotdot:
  assumes "path_starts_with c b" and "''..'' \<notin> set (path_components c)"
  obtains rest where "path_components c = path_components b @ rest" and "''..'' \<notin> set rest"
  using assms by (auto simp: path_starts_with_def prefix_def)

lemmas path_eval = path_starts_with_def path_components_def trivial_piece_def path_file_name_def
  path_strip_prefix_def trim_pieces_end_def rel_or_full_def canonicalize_best_effort_def str_join_def

text \<open>
  C12: allowed reads are confined. When the target exists, an allowed read reaches a path whose
  components extend, without any \<open>..\<close>, those of the canonical project root or (in
  \<open>project_and_docs\<close> mode) of a configured docs root, and none of the profile's deny globs matches
  its relative path, its file name or its full path.
\<close>
theorem allowed_read_in_scope:
  assumes "canonical_ok env" and "env_canonicalize env path = Some c"
    and "enforce_fs_read env p path root = Allow"
  shows "(\<exists>b rest. b \<in> fs_roots env p root \<and> path_components c = path_components b @ rest
            \<and> ''..'' \<notin> set rest)
    \<and> \<not> globs_match env (fs_deny_globs (prof_fs p)) c
    \<and> (case path_file_name c of Some f \<Rightarrow> \<not> globs_match env (fs_deny_globs (prof_fs p)) f | None \<Rightarrow> True)
    \<and> \<not> globs_match env (fs_deny_globs (prof_fs p)) (rel_or_full c (canonicalize_best_effort env root))"
proof -
  have c: "canonicalize_best_effort env path = c" and nd: "''..'' \<notin> set (path_components c)"
    using assms(1,2) by (auto simp: canonicalize_best_effort_def canonical_ok_def)
  from enforce_fs_read_allow(1) [OF assms(3)] obtain b
    where b: "b \<in> fs_roots env p root" "path_starts_with c b" by (auto simp: c)
  obtain rest where "path_components c = path_components b @ rest" "''..'' \<notin> set rest"
    using path_starts_with_no_dotdot [OF b(2) nd] .
  then show ?thesis
    using b(1) enforce_fs_read_allow(2) [OF assms(3)]
    by (auto simp: c glob_deny_match_def split: option.splits)
qed

definition example_env :: enforce_env where
  "example_env = \<lparr>env_glob = \<lambda>pat. Some (\<lambda>t. t = tl pat), env_globset_ok = \<lambda>_. True, env_regex = \<lambda>_. None,
     env_canonicalize = \<lambda>p. if p \<noteq> [] \<and> ''..'' \<notin> set (path_components p) then Some p else None,
     env_home = None\<rparr>"

theorem allowed_read_in_scope_witness:
  "\<exists>b rest. b \<in> fs_roots example_env example_profile ''/srv/app''
     \<and> path_components ''/srv/app/src/x'' = path_components b @ rest"
proof -
  have "canonical_ok example_env" by (simp add: canonical_ok_def example_env_def)
  moreover have "env_canonicalize example_env ''/srv/app/src/x'' = Some ''/srv/app/src/x''"
    by (simp add: example_env_def path_eval)
  moreover have "enforce_fs_read example_env example_profile ''/srv/app/src/x'' ''/srv/app'' = Allow"
    by (simp add: enforce_fs_read_def glob_deny_match_def globs_match_def path_eval example_env_def
        example_profile_def fs_config_default_def default_fs_read_def)
  ultimately show ?thesis
    using allowed_read_in_scope [of example_env "''/srv/app/src/x''" "''/srv/app/src/x''" example_profile "''/srv/app''"]
    by blast
qed

text \<open>A root is compared by components: a sibling that extends its last name is out of scope.\<close>

lemma sibling_out_of_scope:
  "enforce_fs_read example_env example_profile ''/srv/app2/x'' ''/srv/app'' = Deny ''profile.fs_out_of_scope''"
  by (simp add: enforce_fs_read_def path_eval example_env_def
      example_profile_def fs_config_default_def default_fs_read_def)

text \<open>
  \<open>canonicalize_best_effort\<close> falls back to the path as given when it does not exist yet; then a
  \<open>..\<close> after the root passes the scope test. The callers that write new files normalise first.
\<close>

lemma fs_write_of_missing_path_follows_dotdot:
  "enforce_fs_write example_env
     (example_profile\<lparr>prof_class := Executor, prof_fs := fs_config_default\<lparr>fs_write := ''project_root''\<rparr>\<rparr>)
     ''/srv/app/../etc/new'' ''/srv/app'' = Allow"
  by (simp add: enforce_fs_write_def glob_deny_match_def globs_match_def path_eval example_env_def
      example_profile_def fs_config_default_def default_fs_read_def)

section \<open>Shell and network\<close>

lemma enforce_shell_allowD:
  assumes "enforce_shell env p bin args = Allow"
  obtains e where "e \<in> set (prof_shell_allowlist p)" "sh_bin e = bin" "length args \<le> sh_max_args e"
    and "case sh_args_pattern e of None \<Rightarrow> True
       | Some pat \<Rightarrow> (case env_regex env pat of None \<Rightarrow> False | Some re \<Rightarrow> re (str_join [CHR 0x1F] args))"
    and "\<not> list_ex contains_shell_meta args"
proof -
  from assms obtain e where e: "find (\<lambda>e. sh_bin e = bin) (prof_shell_allowlist p) = Some e"
    by (auto simp: enforce_shell_def split: option.splits)
  then have "e \<in> set (prof_shell_allowlist p)" "sh_bin e = bin" by (auto dest: find_SomeD)
  then show ?thesis
    using assms e by (intro that [of e]) (auto simp: enforce_shell_def Let_def split: option.splits if_splits)
qed

text \<open>Host and method are compared without case: the decision does not depend on it.\<close>

lemma to_ascii_lowercase_idem: "to_ascii_lowercase (to_ascii_lowercase s) = to_ascii_lowercase s"
proof -
  have "char_to_ascii_lowercase (char_to_ascii_lowercase c) = char_to_ascii_lowercase c" for c
    by (auto simp: char_to_ascii_lowercase_def ascii_upper_def of_char_of)
  then show ?thesis by (simp add: to_ascii_lowercase_def)
qed

lemma enforce_network_case_insensitive:
  assumes "eq_ignore_ascii_case host host'" and "eq_ignore_ascii_case m m'"
  shows "enforce_network p host m = enforce_network p host' m'"
  using assms by (simp add: enforce_network_def eq_ignore_ascii_case_def to_ascii_lowercase_idem Let_def)

end
