(* ===== verification/Wire.thy ===== *)
theory Wire
  imports Prelude
begin

text \<open>
  The envelope types of \<open>apps/local-bridge/src/ws/envelope.rs\<close> that the command handlers
  exchange: a client command, the acknowledgement, and a server event. A handler is modelled
  as a function from the command and the state it reads to a \<open>reply\<close>: the acknowledgement,
  the events it returns to the caller, the events it emits on the session, and the audit
  entries it logs. Sequence number 0 is the value handlers write; the session ring assigns the
  real one when the event is emitted.
\<close>

record client_command =
  cmd_id :: string
  cmd_session_id :: string
  cmd_type :: string
  cmd_payload :: json
  cmd_v :: nat

record error_info =
  ei_code :: string
  ei_message :: string

record server_ack =
  ack_of :: string
  ack_ok :: bool
  ack_error :: "error_info option"

record server_event =
  ev_seq :: nat
  ev_session_id :: string
  ev_type :: string
  ev_payload :: json
  ev_v :: nat
  ev_ts :: string

definition ack_ok_for :: "client_command \<Rightarrow> server_ack" where
  "ack_ok_for cmd = \<lparr>ack_of = cmd_id cmd, ack_ok = True, ack_error = None\<rparr>"

definition ack_err_for :: "client_command \<Rightarrow> string \<Rightarrow> string \<Rightarrow> server_ack" where
  "ack_err_for cmd code msg =
     \<lparr>ack_of = cmd_id cmd, ack_ok = False, ack_error = Some \<lparr>ei_code = code, ei_message = msg\<rparr>\<rparr>"

definition ack_code :: "server_ack \<Rightarrow> string option" where
  "ack_code a = map_option ei_code (ack_error a)"

lemma ack_simps [simp]:
  "ack_ok (ack_ok_for cmd)"
  "\<not> ack_ok (ack_err_for cmd code msg)"
  "ack_code (ack_ok_for cmd) = None"
  "ack_code (ack_err_for cmd code msg) = Some code"
  "ack_of (ack_ok_for cmd) = cmd_id cmd"
  "ack_of (ack_err_for cmd code msg) = cmd_id cmd"
  by (simp_all add: ack_ok_for_def ack_err_for_def ack_code_def)

definition mk_event :: "string \<Rightarrow> string \<Rightarrow> json \<Rightarrow> string \<Rightarrow> server_event" where
  "mk_event sid ty payload ts =
     \<lparr>ev_seq = 0, ev_session_id = sid, ev_type = ty, ev_payload = payload, ev_v = 1, ev_ts = ts\<rparr>"

lemma mk_event_simps [simp]:
  "ev_seq (mk_event sid ty p ts) = 0"
  "ev_session_id (mk_event sid ty p ts) = sid"
  "ev_type (mk_event sid ty p ts) = ty"
  "ev_payload (mk_event sid ty p ts) = p"
  "ev_v (mk_event sid ty p ts) = 1"
  "ev_ts (mk_event sid ty p ts) = ts"
  by (simp_all add: mk_event_def)

text \<open>One call of \<open>state.audit.log\<close>: the shard, the subsystem, the severity, the fields.\<close>

record audit_call =
  au_session :: string
  au_subsystem :: string
  au_severity :: string
  au_fields :: json

record reply =
  rp_ack :: server_ack
  rp_events :: "server_event list"
  rp_emitted :: "server_event list"
  rp_audit :: "audit_call list"

abbreviation reply_with :: "server_ack \<Rightarrow> server_event list \<Rightarrow> server_event list \<Rightarrow> audit_call list \<Rightarrow> reply" where
  "reply_with a evs em au \<equiv> \<lparr>rp_ack = a, rp_events = evs, rp_emitted = em, rp_audit = au\<rparr>"

abbreviation refuse :: "client_command \<Rightarrow> string \<Rightarrow> string \<Rightarrow> reply" where
  "refuse cmd code msg \<equiv> reply_with (ack_err_for cmd code msg) [] [] []"

text \<open>
  Time and identifiers come from \<open>chrono\<close> and \<open>ulid\<close>: an instant is an \<open>int\<close> (nanoseconds
  since the epoch), \<open>to_rfc3339\<close> and \<open>parse_from_rfc3339\<close> are the two fields of a \<open>clock\<close>
  together with the instant the handler reads. \<open>codec_ok\<close> is the documented round trip.
\<close>

record clock =
  fmt_time :: "int \<Rightarrow> string"
  parse_time :: "string \<Rightarrow> int option"
  now :: int

definition now_iso :: "clock \<Rightarrow> string" where
  "now_iso c = fmt_time c (now c)"

definition codec_ok :: "clock \<Rightarrow> bool" where
  "codec_ok c \<longleftrightarrow> (\<forall>t. parse_time c (fmt_time c t) = Some t)"

definition days_ns :: "int \<Rightarrow> int" where
  "days_ns d = d * 86400 * 1000000000"

text \<open>A concrete clock, for examples: instants are written in unary.\<close>

definition unary_clock :: "int \<Rightarrow> clock" where
  "unary_clock t =
     \<lparr>fmt_time = (\<lambda>i. (if i < 0 then ''-'' else ''+'') @ replicate (nat \<bar>i\<bar>) (CHR ''1'')),
      parse_time = (\<lambda>s. case s of c # u \<Rightarrow> Some (if c = CHR ''-'' then - int (length u) else int (length u)) | [] \<Rightarrow> None),
      now = t\<rparr>"

lemma unary_codec: "codec_ok (unary_clock t)"
  by (auto simp: codec_ok_def unary_clock_def)

end
