(* ===== verification/Observability.thy ===== *)
theory Observability
  imports Wire
begin

text \<open>
  \<open>apps/local-bridge/src/observability.rs\<close> and \<open>audit/mod.rs\<close>: the builder of structured log
  entries, its validation, and the adapter to the audit facility. A JSON object is read by key;
  \<open>Map::insert\<close> is \<open>AList.update\<close>. A finite \<open>f64\<close> is its JSON text.
\<close>

section \<open>Data\<close>

datatype log_severity = LInfo | LWarning | LError | LCritical

fun log_severity_str :: "log_severity \<Rightarrow> string" where
  "log_severity_str LInfo = ''info''"
| "log_severity_str LWarning = ''warning''"
| "log_severity_str LError = ''error''"
| "log_severity_str LCritical = ''critical''"

datatype log_actor = User | Agent | System

fun log_actor_str :: "log_actor \<Rightarrow> string" where
  "log_actor_str User = ''user''"
| "log_actor_str Agent = ''agent''"
| "log_actor_str System = ''system''"

datatype log_validation_error =
    EventEmpty
  | EventInvalid string
  | OptionalKeyEmpty string
  | NamespacedKeyForbiddenPrefix string
  | NamespacedKeyConflict string

definition allowed_namespace_prefixes :: "string list" where
  "allowed_namespace_prefixes =
     [''audit.'', ''persistence.'', ''workflow.'', ''shell.'', ''mcp.'', ''registry.'', ''profile.'',
      ''release.'', ''handoff.'', ''pairing.'', ''ws.'', ''approval.'', ''agent.'', ''session.'',
      ''extensions.'']"

definition reserved_top_level_keys :: "string list" where
  "reserved_top_level_keys =
     [''event'', ''session_id'', ''actor'', ''severity'', ''code'', ''latency_ms'', ''command_id'',
      ''profile_id'', ''job_id'', ''correlation_id'']"

datatype f64 = Finite string | NonFinite

record log_builder =
  lb_event :: string
  lb_session_id :: "string option"
  lb_actor :: log_actor
  lb_severity :: log_severity
  lb_code :: string
  lb_latency_ms :: "f64 option"
  lb_command_id :: "string option"
  lb_profile_id :: "string option"
  lb_job_id :: "string option"
  lb_correlation_id :: "string option"
  lb_namespaced :: "(string \<times> json) list"

section \<open>Operations\<close>

definition log_builder_new :: "string \<Rightarrow> log_actor \<Rightarrow> log_severity \<Rightarrow> log_builder" where
  "log_builder_new ev a s =
     \<lparr>lb_event = ev, lb_session_id = None, lb_actor = a, lb_severity = s, lb_code = [],
      lb_latency_ms = None, lb_command_id = None, lb_profile_id = None, lb_job_id = None,
      lb_correlation_id = None, lb_namespaced = []\<rparr>"

definition session_id_for_audit :: "log_builder \<Rightarrow> string" where
  "session_id_for_audit b = unwrap_or ''_sessionless'' (lb_session_id b)"

definition event_char_ok :: "char \<Rightarrow> bool" where
  "event_char_ok c \<longleftrightarrow> ascii_lower c \<or> c = CHR ''.'' \<or> c = CHR ''_'' \<or> ascii_digit c"

definition validate_event_id :: "string \<Rightarrow> log_validation_error + unit" where
  "validate_event_id i =
     (if i = [] then Inl EventEmpty
      else if CHR ''.'' \<notin> set i then Inl (EventInvalid i)
      else if \<not> list_all event_char_ok i then Inl (EventInvalid i)
      else Inr ())"

definition validate_namespaced_key :: "string \<Rightarrow> log_validation_error + unit" where
  "validate_namespaced_key name =
     (if name \<in> set reserved_top_level_keys then Inl (NamespacedKeyConflict name)
      else if \<not> list_ex (\<lambda>p. starts_with name p) allowed_namespace_prefixes
        then Inl (NamespacedKeyForbiddenPrefix name)
      else Inr ())"

definition lb_add_namespaced :: "string \<Rightarrow> json \<Rightarrow> log_builder \<Rightarrow> log_validation_error + log_builder" where
  "lb_add_namespaced key val b =
     (case validate_namespaced_key key of
        Inl e \<Rightarrow> Inl e
      | Inr _ \<Rightarrow> Inr (b\<lparr>lb_namespaced := AList.update key val (lb_namespaced b)\<rparr>))"

definition optional_keys :: "log_builder \<Rightarrow> (string \<times> string option) list" where
  "optional_keys b =
     [(''command_id'', lb_command_id b), (''profile_id'', lb_profile_id b), (''job_id'', lb_job_id b),
      (''correlation_id'', lb_correlation_id b)]"

definition optional_entries :: "(string \<times> string option) list \<Rightarrow> (string \<times> json) list" where
  "optional_entries ks =
     List.map_filter (\<lambda>(k, v). case v of Some s \<Rightarrow> Some (k, JStr s) | None \<Rightarrow> None) ks"

text \<open>The keys every entry carries, in the order of insertion.\<close>

definition latency_json :: "f64 option \<Rightarrow> json" where
  "latency_json l = (case l of Some (Finite t) \<Rightarrow> JFloat t | _ \<Rightarrow> JNull)"

definition required_entries :: "log_builder \<Rightarrow> (string \<times> json) list" where
  "required_entries b =
     [(''event'', JStr (lb_event b)),
      (''session_id'', json_opt JStr (lb_session_id b)),
      (''actor'', JStr (log_actor_str (lb_actor b))),
      (''severity'', JStr (log_severity_str (lb_severity b))),
      (''code'', JStr (lb_code b)),
      (''latency_ms'', latency_json (lb_latency_ms b))]"

text \<open>The required keys, the optional keys set, then every namespaced key inserted on top.\<close>

definition lb_build :: "log_builder \<Rightarrow> log_validation_error + json" where
  "lb_build b =
     (case validate_event_id (lb_event b) of
        Inl e \<Rightarrow> Inl e
      | Inr _ \<Rightarrow>
          (case find (\<lambda>(_, v). v = Some []) (optional_keys b) of
             Some (k, _) \<Rightarrow> Inl (OptionalKeyEmpty k)
           | None \<Rightarrow>
               Inr (JObj (foldl (\<lambda>obj (k, v). AList.update k v obj)
                 (required_entries b @ optional_entries (optional_keys b))
                 (lb_namespaced b)))))"

text \<open>\<open>log_structured\<close>: the audit call made, or the error and no call.\<close>

fun audit_severity_of :: "log_severity \<Rightarrow> string" where
  "audit_severity_of LInfo = ''info''"
| "audit_severity_of LWarning = ''warn''"
| "audit_severity_of LError = ''error''"
| "audit_severity_of LCritical = ''error''"

definition log_structured :: "string \<Rightarrow> log_builder \<Rightarrow> log_validation_error + audit_call" where
  "log_structured subsystem b =
     (case lb_build b of
        Inl e \<Rightarrow> Inl e
      | Inr v \<Rightarrow> Inr \<lparr>au_session = session_id_for_audit b, au_subsystem = subsystem,
                       au_severity = audit_severity_of (lb_severity b), au_fields = v\<rparr>)"

text \<open>The fluent setters; a rejected namespaced key leaves the caller without a builder.\<close>

datatype log_op =
    SetSession "string option"
  | SetCode string
  | SetLatency f64
  | SetCommand string
  | SetProfile string
  | SetJob string
  | SetCorrelation string
  | Namespaced string json

fun log_op_apply :: "log_op \<Rightarrow> log_builder \<Rightarrow> log_validation_error + log_builder" where
  "log_op_apply (SetSession s) b = Inr (b\<lparr>lb_session_id := s\<rparr>)"
| "log_op_apply (SetCode c) b = Inr (b\<lparr>lb_code := c\<rparr>)"
| "log_op_apply (SetLatency l) b = Inr (b\<lparr>lb_latency_ms := Some l\<rparr>)"
| "log_op_apply (SetCommand s) b = Inr (b\<lparr>lb_command_id := Some s\<rparr>)"
| "log_op_apply (SetProfile s) b = Inr (b\<lparr>lb_profile_id := Some s\<rparr>)"
| "log_op_apply (SetJob s) b = Inr (b\<lparr>lb_job_id := Some s\<rparr>)"
| "log_op_apply (SetCorrelation s) b = Inr (b\<lparr>lb_correlation_id := Some s\<rparr>)"
| "log_op_apply (Namespaced k v) b = lb_add_namespaced k v b"

fun log_step :: "log_validation_error + log_builder \<Rightarrow> log_op \<Rightarrow> log_validation_error + log_builder" where
  "log_step (Inl e) op = Inl e"
| "log_step (Inr b) op = log_op_apply op b"

section \<open>Reserved keys cannot be overwritten\<close>

definition lb_keys_ok :: "log_builder \<Rightarrow> bool" where
  "lb_keys_ok b \<longleftrightarrow>
     distinct_keys (lb_namespaced b) \<and> (\<forall>k \<in> fst ` set (lb_namespaced b). validate_namespaced_key k = Inr ())"

fun lb_ok :: "log_validation_error + log_builder \<Rightarrow> bool" where
  "lb_ok (Inl e) = True"
| "lb_ok (Inr b) = lb_keys_ok b"

lemma log_step_ok: "lb_ok r \<Longrightarrow> lb_ok (log_step r op)"
  by (cases r; cases op)
    (auto simp: lb_keys_ok_def lb_add_namespaced_def dom_update alist.ok_put split: sum.splits)


interpretation builder: handler_system log_step lb_ok
  by unfold_locales (rule log_step_ok)

lemma lb_ok_new: "lb_ok (Inr (log_builder_new ev a s))"
  by (simp add: lb_keys_ok_def log_builder_new_def)

lemma fresh_key: "distinct_keys ((k, v) # m) \<Longrightarrow> map_of m k = None \<and> distinct_keys m"
  by (simp add: distinct_keys_def map_of_eq_None_iff)

lemma map_of_append_or_else: "map_of (xs @ ys) k = or_else (map_of xs k) (map_of ys k)"
  by (simp add: or_else_def map_add_def)

lemma map_of_inserts:
  "distinct_keys ns \<Longrightarrow>
   map_of (foldl (\<lambda>obj (k, v). AList.update k v obj) base ns) j = or_else (map_of ns j) (map_of base j)"
proof (induction ns arbitrary: base)
  case Nil
  then show ?case by simp
next
  case (Cons kv ns)
  obtain k v where kv: "kv = (k, v)" by (cases kv)
  with fresh_key [of k v ns] Cons show ?case by (cases "map_of ns j") (auto simp: update_conv')
qed

lemma map_of_optional_entries:
  "distinct_keys ks \<Longrightarrow> map_of (optional_entries ks) j = map_option JStr (Option.bind (map_of ks j) id)"
proof (induction ks)
  case Nil
  then show ?case by (simp add: optional_entries_def)
next
  case (Cons kv ks)
  obtain k v where kv: "kv = (k, v)" by (cases kv)
  with fresh_key [of k v ks] Cons show ?case
    by (cases v) (auto simp: optional_entries_def List.map_filter_simps)
qed

lemma lb_build_lookup:
  assumes "lb_build b = Inr v" and "lb_keys_ok b"
  shows "jget k v = or_else (map_of (lb_namespaced b) k)
     (or_else (map_of (required_entries b) k)
        (map_option JStr (Option.bind (map_of (optional_keys b) k) id)))"
proof -
  have "distinct_keys (optional_keys b)" by (simp add: optional_keys_def distinct_keys_def)
  note opts = map_of_optional_entries [OF this]
  have ns: "distinct_keys (lb_namespaced b)" using assms(2) by (simp add: lb_keys_ok_def)
  have "v = JObj (foldl (\<lambda>obj (k, v). AList.update k v obj)
      (required_entries b @ optional_entries (optional_keys b)) (lb_namespaced b))"
    using assms(1) by (auto simp: lb_build_def split: sum.splits option.splits)
  then show ?thesis by (simp add: map_of_inserts [OF ns] map_of_append_or_else opts del: map_of_append)
qed

lemma namespaced_not_reserved:
  "lb_keys_ok b \<Longrightarrow> k \<in> set reserved_top_level_keys \<Longrightarrow> map_of (lb_namespaced b) k = None"
  by (force simp: lb_keys_ok_def map_of_eq_None_iff validate_namespaced_key_def)

text \<open>
  Structured log entries are what their builder says. Whatever setters are chained, an entry
  that builds carries the event, session, actor, severity and code of its builder under the
  reserved keys (a namespaced key can never replace one), every namespaced value under its own
  key, and nothing else; and it goes to the audit shard of its session.
\<close>
theorem log_entry_faithful:
  assumes "foldl log_step (Inr (log_builder_new ev a s)) ops = Inr b" and "lb_build b = Inr v"
  shows "get_str ''event'' v = Some (lb_event b) \<and> get_str ''session_id'' v = lb_session_id b
    \<and> get_str ''actor'' v = Some (log_actor_str (lb_actor b))
    \<and> get_str ''severity'' v = Some (log_severity_str (lb_severity b))
    \<and> get_str ''code'' v = Some (lb_code b) \<and> get_str ''command_id'' v = lb_command_id b
    \<and> (k \<notin> set reserved_top_level_keys \<longrightarrow> jget k v = map_of (lb_namespaced b) k)
    \<and> map_option au_session (case log_structured sub b of Inr c \<Rightarrow> Some c | Inl _ \<Rightarrow> None)
        = Some (unwrap_or ''_sessionless'' (lb_session_id b))"
proof -
  have ok: "lb_keys_ok b"
    using builder.run_inv [OF lb_ok_new, of ev a s ops] assms(1) by simp
  note look = lb_build_lookup [OF assms(2) ok]
  have none: "map_of (lb_namespaced b) k = None" if "k \<in> set reserved_top_level_keys" for k
    using namespaced_not_reserved [OF ok that] .
  note keys = get_str_def look none reserved_top_level_keys_def optional_keys_def required_entries_def
    required_entries_def
  have "get_str ''event'' v = Some (lb_event b)" by (simp add: keys)
  moreover have "get_str ''session_id'' v = lb_session_id b" by (simp add: keys json_opt_str)
  moreover have "get_str ''actor'' v = Some (log_actor_str (lb_actor b))" by (simp add: keys)
  moreover have "get_str ''severity'' v = Some (log_severity_str (lb_severity b))" by (simp add: keys)
  moreover have "get_str ''code'' v = Some (lb_code b)" by (simp add: keys)
  moreover have "get_str ''command_id'' v = lb_command_id b"
    by (cases "lb_command_id b") (simp_all add: keys)
  moreover have "jget k v = map_of (lb_namespaced b) k" if "k \<notin> set reserved_top_level_keys"
    using that
    by (cases "map_of (lb_namespaced b) k")
      (simp_all add: look reserved_top_level_keys_def optional_keys_def required_entries_def)
  ultimately show ?thesis
    using assms(2) by (simp add: log_structured_def session_id_for_audit_def)
qed

theorem log_entry_faithful_witness:
  "\<exists>v. lb_build ((log_builder_new ''session.started'' User LInfo)
           \<lparr>lb_code := ''c'', lb_namespaced := [(''ws.n'', JUint 1)]\<rparr>) = Inr v
     \<and> get_str ''event'' v = Some ''session.started'' \<and> jget ''ws.n'' v = Some (JUint 1)"
proof -
  let ?b = "(log_builder_new ''session.started'' User LInfo)
           \<lparr>lb_code := ''c'', lb_namespaced := [(''ws.n'', JUint 1)]\<rparr>"
  have run: "foldl log_step (Inr (log_builder_new ''session.started'' User LInfo))
      [SetCode ''c'', Namespaced ''ws.n'' (JUint 1)] = Inr ?b"
    by (simp add: lb_add_namespaced_def validate_namespaced_key_def reserved_top_level_keys_def
        allowed_namespace_prefixes_def log_builder_new_def str_simps)
  obtain v where "lb_build ?b = Inr v"
    by (simp add: lb_build_def validate_event_id_def event_char_ok_def ascii_lower_def ascii_digit_def
        log_builder_new_def optional_keys_def)
  from log_entry_faithful [OF run this, of "''ws.n''"] this show ?thesis
    by (simp add: log_builder_new_def reserved_top_level_keys_def)
qed

end
