(* ===== verification/Extension_Trust.thy ===== *)
theory Extension_Trust
  imports Prelude
begin

text \<open>
  \<open>packages/profile-core/src/extension_trust.rs\<close>: the trust configuration and the
  classification of an extension, deny by default.
\<close>

datatype trust_decision = DAllowedBundled | DAllowedSigned | DQuarantined | DRevoked

datatype extension_tier = AllowedBundled | AllowedSigned | Quarantined | Revoked

datatype extension_source = Bundled | Signed

record extension_entry =
  ee_id :: string
  ee_tier :: extension_tier
  ee_source :: extension_source
  ee_publisher :: "string option"

record extension_trust_config =
  etc_version :: nat
  etc_allow_unsigned :: bool
  etc_publishers :: "string list"
  etc_extensions :: "extension_entry list"

definition etc_empty :: extension_trust_config where
  "etc_empty = \<lparr>etc_version = 1, etc_allow_unsigned = False, etc_publishers = [], etc_extensions = []\<rparr>"

text \<open>\<open>ExtensionTrustConfig::load\<close> after the file has been read and parsed.\<close>

definition etc_check_version :: "extension_trust_config \<Rightarrow> string + extension_trust_config" where
  "etc_check_version cfg =
     (if etc_version cfg \<noteq> 1
      then Inl (''unsupported extension-trust schema version: '' @ dec_digits (etc_version cfg)
                @ '' (expected 1)'')
      else Inr cfg)"

record enforce_context =
  ctx_extension_id :: string
  ctx_signature_b64 :: "string option"
  ctx_publisher_pubkey_b64 :: "string option"

fun enforce_entry :: "enforce_context \<Rightarrow> extension_trust_config \<Rightarrow> extension_entry \<Rightarrow> trust_decision" where
  "enforce_entry ctx cfg e =
     (case (ee_tier e, ee_source e) of
        (Revoked, _) \<Rightarrow> DRevoked
      | (Quarantined, _) \<Rightarrow> DQuarantined
      | (AllowedBundled, Bundled) \<Rightarrow> DAllowedBundled
      | (AllowedSigned, Signed) \<Rightarrow>
          (let publisher_match =
                 (case (ee_publisher e, ctx_publisher_pubkey_b64 ctx) of
                    (Some expected, Some provided) \<Rightarrow>
                      expected = provided \<and> list_ex (\<lambda>p. p = provided) (etc_publishers cfg)
                  | _ \<Rightarrow> False);
               has_signature = unwrap_or False (map_option (\<lambda>s. s \<noteq> []) (ctx_signature_b64 ctx))
           in if publisher_match \<and> has_signature then DAllowedSigned else DQuarantined)
      | _ \<Rightarrow> DQuarantined)"

definition enforce_extension_trust :: "enforce_context \<Rightarrow> extension_trust_config \<Rightarrow> trust_decision" where
  "enforce_extension_trust ctx cfg =
     (case find (\<lambda>e. ee_id e = ctx_extension_id ctx) (etc_extensions cfg) of
        Some e \<Rightarrow> enforce_entry ctx cfg e
      | None \<Rightarrow> if etc_allow_unsigned cfg then DAllowedBundled else DQuarantined)"

section \<open>What a decision means\<close>

lemma enforce_entry_cases:
  "enforce_entry ctx cfg e = DRevoked \<longleftrightarrow> ee_tier e = Revoked"
  "enforce_entry ctx cfg e = DAllowedBundled \<longleftrightarrow> ee_tier e = AllowedBundled \<and> ee_source e = Bundled"
  "enforce_entry ctx cfg e = DAllowedSigned \<longleftrightarrow>
     ee_tier e = AllowedSigned \<and> ee_source e = Signed
     \<and> (\<exists>k. ee_publisher e = Some k \<and> ctx_publisher_pubkey_b64 ctx = Some k \<and> k \<in> set (etc_publishers cfg))
     \<and> (\<exists>s. ctx_signature_b64 ctx = Some s \<and> s \<noteq> [])"
  by (auto simp: list_ex_iff Let_def unwrap_or_def
      split: extension_tier.splits extension_source.splits option.splits if_splits)

text \<open>
  The trust decision, case by case. An id is allowed as signed exactly when its first entry
  declares the signed tier and source, the caller presents its publisher's key, that key is on the
  allow list and a signature is present; allowed as bundled exactly for a bundled entry or, with
  \<open>allow_unsigned\<close>, for an unregistered id; revoked exactly for a revoked entry; quarantined
  otherwise. Nothing outside these conditions is ever loaded with privileges.
\<close>
theorem extension_trust_decision:
  "(enforce_extension_trust ctx cfg = DAllowedSigned \<longleftrightarrow>
     (\<exists>e k s. find (\<lambda>e. ee_id e = ctx_extension_id ctx) (etc_extensions cfg) = Some e
        \<and> ee_tier e = AllowedSigned \<and> ee_source e = Signed \<and> ee_publisher e = Some k
        \<and> ctx_publisher_pubkey_b64 ctx = Some k \<and> k \<in> set (etc_publishers cfg)
        \<and> ctx_signature_b64 ctx = Some s \<and> s \<noteq> []))
   \<and> (enforce_extension_trust ctx cfg = DAllowedBundled \<longleftrightarrow>
     (case find (\<lambda>e. ee_id e = ctx_extension_id ctx) (etc_extensions cfg) of
        Some e \<Rightarrow> ee_tier e = AllowedBundled \<and> ee_source e = Bundled
      | None \<Rightarrow> etc_allow_unsigned cfg))
   \<and> (enforce_extension_trust ctx cfg = DRevoked \<longleftrightarrow>
     (\<exists>e. find (\<lambda>e. ee_id e = ctx_extension_id ctx) (etc_extensions cfg) = Some e \<and> ee_tier e = Revoked))"
  by (cases "find (\<lambda>e. ee_id e = ctx_extension_id ctx) (etc_extensions cfg)")
    (auto simp: enforce_extension_trust_def enforce_entry_cases simp del: enforce_entry.simps)

text \<open>Without a signature nothing is allowed as signed.\<close>

lemma unsigned_never_allowed_signed:
  "ctx_signature_b64 ctx = None \<Longrightarrow> enforce_extension_trust ctx cfg \<noteq> DAllowedSigned"
  by (auto simp: enforce_extension_trust_def enforce_entry_cases simp del: enforce_entry.simps split: option.splits)

end
