(* ===== verification/Extensions.thy ===== *)
theory Extensions
  imports Extension_Trust Observability "HOL-Library.Word"
begin

text \<open>
  \<open>apps/local-bridge/src/extensions/\<close>: the trust file and the approvals file with their locks,
  and the handlers of \<open>extensions.*\<close>. Both files are values of the state (\<open>None\<close>: no file); an
  \<open>ext_io\<close> says which of the file operations of the call fail, with the error text. A handler
  runs under the advisory locks, so it is one step.
\<close>

section \<open>Stores\<close>

datatype approval_status = Pending | Approved | Denied

record approval_request =
  ar_request_id :: string
  ar_extension_id :: string
  ar_requested_tier :: string
  ar_requested_by_session_id :: string
  ar_requested_by_profile_id :: string
  ar_created_at :: string
  ar_status :: approval_status
  ar_decided_at :: "string option"
  ar_decided_by_session_id :: "string option"
  ar_decided_by_profile_id :: "string option"

record approvals_config =
  ap_version :: nat
  ap_requests :: "approval_request list"

definition approvals_default :: approvals_config where
  "approvals_default = \<lparr>ap_version = 1, ap_requests = []\<rparr>"

record ext_io =
  trust_read_err :: "string option"
  trust_write_err :: "string option"
  approvals_read_err :: "string option"
  approvals_write_err :: "string option"

record ext_state =
  ext_trust :: "extension_trust_config option"
  ext_approvals :: "approvals_config option"
  ext_counter :: "64 word"
  ext_sessions :: "string \<rightharpoonup> string"

text \<open>\<open>store::load\<close> and \<open>LockedConfig::acquire\<close> read the same way.\<close>

definition trust_load :: "ext_io \<Rightarrow> ext_state \<Rightarrow> string + extension_trust_config" where
  "trust_load io st =
     (case trust_read_err io of
        Some e \<Rightarrow> Inl e
      | None \<Rightarrow> (case ext_trust st of None \<Rightarrow> Inr etc_empty | Some cfg \<Rightarrow> etc_check_version cfg))"

definition trust_commit :: "ext_io \<Rightarrow> extension_trust_config \<Rightarrow> ext_state \<Rightarrow> string + ext_state" where
  "trust_commit io cfg st =
     (case trust_write_err io of Some e \<Rightarrow> Inl e | None \<Rightarrow> Inr (st\<lparr>ext_trust := Some cfg\<rparr>))"

definition approvals_load :: "ext_io \<Rightarrow> ext_state \<Rightarrow> string + approvals_config" where
  "approvals_load io st =
     (case approvals_read_err io of
        Some e \<Rightarrow> Inl e
      | None \<Rightarrow> Inr (unwrap_or approvals_default (ext_approvals st)))"

definition approvals_commit :: "ext_io \<Rightarrow> approvals_config \<Rightarrow> ext_state \<Rightarrow> string + ext_state" where
  "approvals_commit io cfg st =
     (case approvals_write_err io of Some e \<Rightarrow> Inl e | None \<Rightarrow> Inr (st\<lparr>ext_approvals := Some cfg\<rparr>))"

text \<open>\<open>{:x}\<close> of a \<open>u64\<close>; a negative \<open>i64\<close> prints its two's complement.\<close>

definition hex_digit :: "nat \<Rightarrow> char" where
  "hex_digit d = char_of (if d < 10 then 48 + d else 87 + d)"

fun hex_digits :: "nat \<Rightarrow> string" where
  "hex_digits n = (if n < 16 then [hex_digit n] else hex_digits (n div 16) @ [hex_digit (n mod 16)])"

declare hex_digits.simps [simp del]

definition timestamp_nanos :: "int \<Rightarrow> 64 word" where
  "timestamp_nanos t = (if - (2 ^ 63) \<le> t \<and> t < 2 ^ 63 then word_of_int t else 0)"

definition new_request_id :: "clock \<Rightarrow> ext_state \<Rightarrow> string \<times> ext_state" where
  "new_request_id clk st =
     (''req-'' @ hex_digits (unat (timestamp_nanos (now clk))) @ ''-''
        @ hex_digits (unat (ext_counter st)),
      st\<lparr>ext_counter := ext_counter st + 1\<rparr>)"

section \<open>Names and payloads\<close>

fun tier_str :: "extension_tier \<Rightarrow> string" where
  "tier_str AllowedBundled = ''allowed_bundled''"
| "tier_str AllowedSigned = ''allowed_signed''"
| "tier_str Quarantined = ''quarantined''"
| "tier_str Revoked = ''revoked''"

fun source_str :: "extension_source \<Rightarrow> string" where
  "source_str Bundled = ''bundled''"
| "source_str Signed = ''signed''"

fun decision_str :: "trust_decision \<Rightarrow> string" where
  "decision_str DAllowedBundled = ''allowed_bundled''"
| "decision_str DAllowedSigned = ''allowed_signed''"
| "decision_str DQuarantined = ''quarantined''"
| "decision_str DRevoked = ''revoked''"

definition parse_tier :: "string \<Rightarrow> extension_tier option" where
  "parse_tier s =
     (if s = ''allowed_bundled'' then Some AllowedBundled
      else if s = ''allowed_signed'' then Some AllowedSigned
      else if s = ''quarantined'' then Some Quarantined
      else if s = ''revoked'' then Some Revoked
      else None)"

lemma parse_tier_str [simp]: "parse_tier (tier_str t) = Some t"
  by (cases t) (simp_all add: parse_tier_def)

definition entry_payload :: "extension_entry \<Rightarrow> trust_decision \<Rightarrow> json" where
  "entry_payload e d =
     JObj [(''id'', JStr (ee_id e)), (''tier'', JStr (tier_str (ee_tier e))),
           (''source'', JStr (source_str (ee_source e))), (''publisher'', json_opt JStr (ee_publisher e)),
           (''decision'', JStr (decision_str d))]"

fun approval_status_str :: "approval_status \<Rightarrow> string" where
  "approval_status_str Pending = ''pending''"
| "approval_status_str Approved = ''approved''"
| "approval_status_str Denied = ''denied''"

definition approval_payload :: "approval_request \<Rightarrow> json" where
  "approval_payload r =
     JObj [(''request_id'', JStr (ar_request_id r)), (''extension_id'', JStr (ar_extension_id r)),
           (''requested_tier'', JStr (ar_requested_tier r)),
           (''requested_by_session_id'', JStr (ar_requested_by_session_id r)),
           (''requested_by_profile_id'', JStr (ar_requested_by_profile_id r)),
           (''created_at'', JStr (ar_created_at r)), (''status'', JStr (approval_status_str (ar_status r))),
           (''decided_at'', json_opt JStr (ar_decided_at r)),
           (''decided_by_session_id'', json_opt JStr (ar_decided_by_session_id r)),
           (''decided_by_profile_id'', json_opt JStr (ar_decided_by_profile_id r))]"

section \<open>Audit entries\<close>

definition cmd_actor :: "client_command \<Rightarrow> log_actor" where
  "cmd_actor cmd = (if cmd_session_id cmd = [] then System else User)"

text \<open>
  \<open>approval_audit\<close>, which \<open>audit_update_trust\<close> spells out: a builder with the command's
  session, then the namespaced keys; a validation error drops the entry.
\<close>

definition approval_audit ::
    "client_command \<Rightarrow> string \<Rightarrow> string \<Rightarrow> log_severity \<Rightarrow> (string \<times> string) list \<Rightarrow> audit_call list" where
  "approval_audit cmd event_id code sev ns =
     (let b0 = (log_builder_new event_id (cmd_actor cmd) sev)\<lparr>lb_code := code, lb_command_id := Some (cmd_id cmd)\<rparr>;
          b1 = (if cmd_session_id cmd = [] then b0 else b0\<lparr>lb_session_id := Some (cmd_session_id cmd)\<rparr>)
      in (case foldl log_step (Inr b1) (map (\<lambda>(k, v). Namespaced k (JStr v)) ns) of
            Inl _ \<Rightarrow> []
          | Inr b \<Rightarrow> (case log_structured ''extensions'' b of Inl _ \<Rightarrow> [] | Inr c \<Rightarrow> [c])))"

datatype update_outcome = UAllowed | UDenied | USaveFailed

fun uo_event_id :: "update_outcome \<Rightarrow> string" where
  "uo_event_id UAllowed = ''extensions.update_trust.allowed''"
| "uo_event_id UDenied = ''extensions.update_trust.denied''"
| "uo_event_id USaveFailed = ''extensions.update_trust.save_failed''"

fun uo_severity :: "update_outcome \<Rightarrow> log_severity" where
  "uo_severity UAllowed = LInfo"
| "uo_severity UDenied = LWarning"
| "uo_severity USaveFailed = LError"

fun uo_label :: "update_outcome \<Rightarrow> string" where
  "uo_label UAllowed = ''allowed''"
| "uo_label UDenied = ''denied''"
| "uo_label USaveFailed = ''save_failed''"

definition audit_update_trust ::
    "client_command \<Rightarrow> update_outcome \<Rightarrow> string \<Rightarrow> string \<Rightarrow> extension_tier option
      \<Rightarrow> extension_tier option \<Rightarrow> audit_call list" where
  "audit_update_trust cmd out code ext prev nxt =
     approval_audit cmd (uo_event_id out) code (uo_severity out)
       ([(''extensions.extension_id'', ext), (''extensions.decision'', uo_label out)]
        @ (case prev of Some p \<Rightarrow> [(''extensions.prev_tier'', tier_str p)] | None \<Rightarrow> [])
        @ (case nxt of Some n \<Rightarrow> [(''extensions.next_tier'', tier_str n)] | None \<Rightarrow> []))"


section \<open>Changing a tier\<close>

record update_trust_outcome =
  uto_entry :: extension_entry
  uto_prev_tier :: extension_tier
  uto_next_tier :: extension_tier

datatype update_trust_error =
    BadPayload string
  | UnknownId string
  | DisallowedTransition string extension_tier extension_tier

definition set_tier :: "nat \<Rightarrow> extension_tier \<Rightarrow> extension_trust_config \<Rightarrow> extension_trust_config" where
  "set_tier i t cfg =
     cfg\<lparr>etc_extensions := (etc_extensions cfg)[i := (etc_extensions cfg ! i)\<lparr>ee_tier := t\<rparr>]\<rparr>"

definition nonempty_str :: "string \<Rightarrow> json \<Rightarrow> string option" where
  "nonempty_str k v = filter_opt (\<lambda>s. s \<noteq> []) (get_str k v)"

definition apply_update_trust ::
    "json \<Rightarrow> extension_trust_config
      \<Rightarrow> update_trust_error + update_trust_outcome \<times> extension_trust_config" where
  "apply_update_trust payload cfg =
     (case nonempty_str ''extension_id'' payload of
        None \<Rightarrow> Inl (BadPayload ''extension_id is required'')
      | Some ext \<Rightarrow>
          (case Option.bind (get_str ''tier'' payload) parse_tier of
             None \<Rightarrow> Inl (BadPayload ''tier must be one of allowed_bundled|allowed_signed|quarantined|revoked'')
           | Some nxt \<Rightarrow>
               (case position (\<lambda>e. ee_id e = ext) (etc_extensions cfg) of
                  None \<Rightarrow> Inl (UnknownId ext)
                | Some i \<Rightarrow>
                    (let prev = ee_tier (etc_extensions cfg ! i) in
                     if prev = Revoked \<and> nxt \<in> {AllowedBundled, AllowedSigned}
                     then Inl (DisallowedTransition ext prev nxt)
                     else (let cfg' = set_tier i nxt cfg in
                           Inr (\<lparr>uto_entry = etc_extensions cfg' ! i, uto_prev_tier = prev,
                                  uto_next_tier = nxt\<rparr>, cfg'))))))"

definition apply_promotion_with_approval ::
    "string \<Rightarrow> extension_tier \<Rightarrow> extension_trust_config
      \<Rightarrow> update_trust_error + update_trust_outcome \<times> extension_trust_config" where
  "apply_promotion_with_approval ext nxt cfg =
     (case position (\<lambda>e. ee_id e = ext) (etc_extensions cfg) of
        None \<Rightarrow> Inl (UnknownId ext)
      | Some i \<Rightarrow>
          (let cfg' = set_tier i nxt cfg in
           Inr (\<lparr>uto_entry = etc_extensions cfg' ! i, uto_prev_tier = ee_tier (etc_extensions cfg ! i),
                  uto_next_tier = nxt\<rparr>, cfg')))"

text \<open>Every handler classifies without a signature.\<close>

definition listed_decision :: "extension_trust_config \<Rightarrow> extension_entry \<Rightarrow> trust_decision" where
  "listed_decision cfg e =
     enforce_extension_trust
       \<lparr>ctx_extension_id = ee_id e, ctx_signature_b64 = None, ctx_publisher_pubkey_b64 = ee_publisher e\<rparr> cfg"

definition unknown_id_message :: "string \<Rightarrow> string" where
  "unknown_id_message ext =
     ''extension '' @ [CHR 0x27] @ ext @ [CHR 0x27]
     @ '' is not registered; add it to config/extension-trust.yaml first''"

section \<open>Handlers\<close>

definition handle_list :: "ext_io \<Rightarrow> clock \<Rightarrow> client_command \<Rightarrow> ext_state \<Rightarrow> reply" where
  "handle_list io clk cmd st =
     (case trust_load io st of
        Inl e \<Rightarrow> refuse cmd ''extensions.config_load_failed'' e
      | Inr cfg \<Rightarrow>
          reply_with (ack_ok_for cmd)
            [mk_event (cmd_session_id cmd) ''extensions.list_response''
               (JObj [(''version'', JUint (etc_version cfg)),
                      (''allow_unsigned'', JBool (etc_allow_unsigned cfg)),
                      (''publishers'', json_strs (etc_publishers cfg)),
                      (''entries'', JArr (map (\<lambda>e. entry_payload e (listed_decision cfg e)) (etc_extensions cfg)))])
               (now_iso clk)] [] [])"

definition update_trust_refusal :: "client_command \<Rightarrow> update_trust_error \<Rightarrow> reply" where
  "update_trust_refusal cmd err =
     (case err of
        BadPayload msg \<Rightarrow>
          reply_with (ack_err_for cmd ''extensions.bad_payload'' msg) [] []
            (audit_update_trust cmd UDenied ''extensions.bad_payload''
               (unwrap_or ''<missing>'' (get_str ''extension_id'' (cmd_payload cmd))) None None)
      | UnknownId i \<Rightarrow>
          reply_with (ack_err_for cmd ''extensions.unknown_id'' (unknown_id_message i)) [] []
            (audit_update_trust cmd UDenied ''extensions.unknown_id'' i None None)
      | DisallowedTransition i prev nxt \<Rightarrow>
          reply_with (ack_err_for cmd ''extensions.permission_denied''
              (''transition '' @ tier_str prev @ '' -> '' @ tier_str nxt
               @ '' requires two-party approval; edit config/extension-trust.yaml manually'')) [] []
            (audit_update_trust cmd UDenied ''extensions.permission_denied'' i (Some prev) (Some nxt)))"

definition handle_update_trust ::
    "ext_io \<Rightarrow> clock \<Rightarrow> client_command \<Rightarrow> ext_state \<Rightarrow> reply \<times> ext_state" where
  "handle_update_trust io clk cmd st =
     (case trust_load io st of
        Inl e \<Rightarrow> (refuse cmd ''extensions.config_load_failed'' e, st)
      | Inr cfg \<Rightarrow>
          (case apply_update_trust (cmd_payload cmd) cfg of
             Inl err \<Rightarrow> (update_trust_refusal cmd err, st)
           | Inr (out, cfg') \<Rightarrow>
               (let e = uto_entry out; d = listed_decision cfg' e in
                case trust_commit io cfg' st of
                  Inl err \<Rightarrow>
                    (reply_with (ack_err_for cmd ''extensions.config_save_failed'' err) [] []
                       (audit_update_trust cmd USaveFailed ''extensions.config_save_failed'' (ee_id e)
                          (Some (uto_prev_tier out)) (Some (uto_next_tier out))), st)
                | Inr st' \<Rightarrow>
                    (reply_with (ack_ok_for cmd)
                       [mk_event (cmd_session_id cmd) ''extensions.updated''
                          (JObj [(''entry'', entry_payload e d)]) (now_iso clk)] []
                       (audit_update_trust cmd UAllowed [] (ee_id e)
                          (Some (uto_prev_tier out)) (Some (uto_next_tier out))), st'))))"

definition session_profile_id :: "ext_state \<Rightarrow> string \<Rightarrow> string option" where
  "session_profile_id st sid = (if sid = [] then None else ext_sessions st sid)"

abbreviation promotion_refused ::
    "client_command \<Rightarrow> string \<Rightarrow> string \<Rightarrow> (string \<times> string) list \<Rightarrow> reply" where
  "promotion_refused cmd code msg ns \<equiv>
     reply_with (ack_err_for cmd code msg) [] []
       (approval_audit cmd ''extensions.promotion_requested'' code LWarning ns)"

definition handle_request_promotion ::
    "ext_io \<Rightarrow> clock \<Rightarrow> client_command \<Rightarrow> ext_state \<Rightarrow> reply \<times> ext_state" where
  "handle_request_promotion io clk cmd st =
     (case nonempty_str ''extension_id'' (cmd_payload cmd) of
        None \<Rightarrow> (promotion_refused cmd ''extensions.bad_payload'' ''extension_id is required''
                   [(''extensions.decision'', ''denied'')], st)
      | Some ext \<Rightarrow>
     (case filter_opt (\<lambda>s. s \<in> {''allowed_bundled'', ''allowed_signed''})
              (get_str ''target_tier'' (cmd_payload cmd)) of
        None \<Rightarrow> (promotion_refused cmd ''extensions.bad_payload''
                   ''target_tier must be allowed_bundled|allowed_signed''
                   [(''extensions.extension_id'', ext), (''extensions.decision'', ''denied'')], st)
      | Some target \<Rightarrow>
     (case trust_load io st of
        Inl e \<Rightarrow> (refuse cmd ''extensions.config_load_failed'' e, st)
      | Inr cfg \<Rightarrow>
     (case find (\<lambda>e. ee_id e = ext) (etc_extensions cfg) of
        None \<Rightarrow> (promotion_refused cmd ''extensions.unknown_id'' (unknown_id_message ext)
                   [(''extensions.extension_id'', ext), (''extensions.decision'', ''denied'')], st)
      | Some entry \<Rightarrow>
     if ee_tier entry \<noteq> Revoked then
       (promotion_refused cmd ''extensions.target_not_revoked''
          (''extension '' @ [CHR 0x27] @ ext @ [CHR 0x27] @ '' is currently '' @ tier_str (ee_tier entry)
           @ '' (only revoked extensions can be promoted)'')
          [(''extensions.extension_id'', ext), (''extensions.decision'', ''denied''),
           (''extensions.prev_tier'', tier_str (ee_tier entry))], st)
     else
     (case session_profile_id st (cmd_session_id cmd) of
        None \<Rightarrow> (refuse cmd ''extensions.permission_denied'' ''no active session for requester'', st)
      | Some prof \<Rightarrow>
     (case approvals_load io st of
        Inl e \<Rightarrow> (refuse cmd ''extensions.config_load_failed'' e, st)
      | Inr appr \<Rightarrow>
          (let (rid, st1) = new_request_id clk st;
               req = \<lparr>ar_request_id = rid, ar_extension_id = ext, ar_requested_tier = target,
                      ar_requested_by_session_id = cmd_session_id cmd,
                      ar_requested_by_profile_id = prof, ar_created_at = now_iso clk,
                      ar_status = Pending, ar_decided_at = None, ar_decided_by_session_id = None,
                      ar_decided_by_profile_id = None\<rparr>
           in case approvals_commit io (appr\<lparr>ap_requests := ap_requests appr @ [req]\<rparr>) st1 of
                Inl e \<Rightarrow>
                  (reply_with (ack_err_for cmd ''extensions.config_save_failed'' e) [] []
                     (approval_audit cmd ''extensions.promotion_requested'' ''extensions.config_save_failed''
                        LError [(''extensions.extension_id'', ext), (''extensions.decision'', ''save_failed'')]), st1)
              | Inr st2 \<Rightarrow>
                  (reply_with (ack_ok_for cmd)
                     [mk_event (cmd_session_id cmd) ''extensions.promotion_requested''
                        (JObj [(''request'', approval_payload req)]) (now_iso clk)] []
                     (approval_audit cmd ''extensions.promotion_requested'' [] LInfo
                        [(''extensions.extension_id'', ext), (''extensions.decision'', ''pending''),
                         (''extensions.request_id'', rid), (''extensions.requested_tier'', target),
                         (''extensions.prev_tier'', tier_str (ee_tier entry))]), st2))))))))"

definition mark_approved ::
    "clock \<Rightarrow> client_command \<Rightarrow> string \<Rightarrow> approval_request \<Rightarrow> approval_request" where
  "mark_approved clk cmd prof r =
     r\<lparr>ar_status := Approved, ar_decided_at := Some (now_iso clk),
       ar_decided_by_session_id := Some (cmd_session_id cmd), ar_decided_by_profile_id := Some prof\<rparr>"

definition handle_approve_promotion ::
    "ext_io \<Rightarrow> clock \<Rightarrow> client_command \<Rightarrow> ext_state \<Rightarrow> reply \<times> ext_state" where
  "handle_approve_promotion io clk cmd st =
     (case nonempty_str ''request_id'' (cmd_payload cmd) of
        None \<Rightarrow> (refuse cmd ''extensions.bad_payload'' ''request_id is required'', st)
      | Some rid \<Rightarrow>
     (case session_profile_id st (cmd_session_id cmd) of
        None \<Rightarrow> (refuse cmd ''extensions.permission_denied'' ''no active session for approver'', st)
      | Some prof \<Rightarrow>
     (case approvals_load io st of
        Inl e \<Rightarrow> (refuse cmd ''extensions.config_load_failed'' e, st)
      | Inr appr \<Rightarrow>
     (case position (\<lambda>r. ar_request_id r = rid) (ap_requests appr) of
        None \<Rightarrow>
          (reply_with (ack_err_for cmd ''extensions.approval_not_found''
              (''approval '' @ [CHR 0x27] @ rid @ [CHR 0x27] @ '' not found'')) [] []
            (approval_audit cmd ''extensions.promotion_denied'' ''extensions.approval_not_found'' LWarning
               [(''extensions.decision'', ''denied''), (''extensions.request_id'', rid)]), st)
      | Some i \<Rightarrow>
     (let req = ap_requests appr ! i in
      if ar_status req \<noteq> Pending then
        (refuse cmd ''extensions.bad_payload'' ''request is not pending'', st)
      else if prof = ar_requested_by_profile_id req then
        (reply_with (ack_err_for cmd ''extensions.approver_is_requester''
            ''approver must have a different profile than the requester'') [] []
          (approval_audit cmd ''extensions.promotion_denied'' ''extensions.approver_is_requester'' LWarning
             [(''extensions.decision'', ''denied''), (''extensions.request_id'', rid),
              (''extensions.extension_id'', ar_extension_id req)]), st)
      else
     (case parse_tier (ar_requested_tier req) of
        None \<Rightarrow> (refuse cmd ''extensions.bad_payload'' ''stored requested_tier is invalid'', st)
      | Some nxt \<Rightarrow>
     (case trust_load io st of
        Inl e \<Rightarrow> (refuse cmd ''extensions.config_load_failed'' e, st)
      | Inr cfg \<Rightarrow>
     (case apply_promotion_with_approval (ar_extension_id req) nxt cfg of
        Inl (UnknownId x) \<Rightarrow> (refuse cmd ''extensions.unknown_id'' (unknown_id_message x), st)
      | Inl _ \<Rightarrow> (refuse cmd ''extensions.bad_payload'' ''internal: unexpected promotion error'', st)
      | Inr (out, cfg') \<Rightarrow>
          (let entry = uto_entry out; d = listed_decision cfg' entry in
           case trust_commit io cfg' st of
             Inl e \<Rightarrow>
               (reply_with (ack_err_for cmd ''extensions.config_save_failed'' e) [] []
                  (approval_audit cmd ''extensions.promotion_approved'' ''extensions.config_save_failed'' LError
                     [(''extensions.extension_id'', ee_id entry), (''extensions.request_id'', rid),
                      (''extensions.decision'', ''save_failed'')]), st)
           | Inr st1 \<Rightarrow>
               (let req' = mark_approved clk cmd prof req in
                case approvals_commit io (appr\<lparr>ap_requests := (ap_requests appr)[i := req']\<rparr>) st1 of
                  Inl e \<Rightarrow> (refuse cmd ''extensions.config_save_failed'' e, st1)
                | Inr st2 \<Rightarrow>
                    (reply_with (ack_ok_for cmd)
                       [mk_event (cmd_session_id cmd) ''extensions.promotion_approved''
                          (JObj [(''request'', approval_payload req')]) (now_iso clk),
                        mk_event (cmd_session_id cmd) ''extensions.updated''
                          (JObj [(''entry'', entry_payload entry d)]) (now_iso clk)] []
                       (approval_audit cmd ''extensions.promotion_approved'' [] LInfo
                          [(''extensions.extension_id'', ee_id entry), (''extensions.request_id'', rid),
                           (''extensions.decision'', ''allowed''),
                           (''extensions.prev_tier'', tier_str (uto_prev_tier out)),
                           (''extensions.next_tier'', tier_str (uto_next_tier out))]), st2)))))))))))"

definition handle_list_approvals :: "ext_io \<Rightarrow> clock \<Rightarrow> client_command \<Rightarrow> ext_state \<Rightarrow> reply" where
  "handle_list_approvals io clk cmd st =
     (case approvals_load io st of
        Inl e \<Rightarrow> refuse cmd ''extensions.config_load_failed'' e
      | Inr appr \<Rightarrow>
          reply_with (ack_ok_for cmd)
            [mk_event (cmd_session_id cmd) ''extensions.approvals_list_response''
               (JObj [(''requests'', JArr (map approval_payload (ap_requests appr)))]) (now_iso clk)] [] [])"

datatype ext_command = ListExt | UpdateTrust | RequestPromotion | ApprovePromotion | ListApprovals

fun ext_handle ::
    "ext_command \<Rightarrow> ext_io \<Rightarrow> clock \<Rightarrow> client_command \<Rightarrow> ext_state \<Rightarrow> reply \<times> ext_state" where
  "ext_handle ListExt io clk cmd st = (handle_list io clk cmd st, st)"
| "ext_handle UpdateTrust io clk cmd st = handle_update_trust io clk cmd st"
| "ext_handle RequestPromotion io clk cmd st = handle_request_promotion io clk cmd st"
| "ext_handle ApprovePromotion io clk cmd st = handle_approve_promotion io clk cmd st"
| "ext_handle ListApprovals io clk cmd st = (handle_list_approvals io clk cmd st, st)"

definition ext_step ::
    "ext_state \<Rightarrow> ext_command \<times> ext_io \<times> clock \<times> client_command \<Rightarrow> ext_state" where
  "ext_step st c = (case c of (k, io, clk, cmd) \<Rightarrow> snd (ext_handle k io clk cmd st))"


section \<open>What a call does to the tiers\<close>

definition tier_of :: "ext_state \<Rightarrow> string \<Rightarrow> extension_tier option" where
  "tier_of st x =
     map_option ee_tier (find (\<lambda>e. ee_id e = x) (etc_extensions (unwrap_or etc_empty (ext_trust st))))"

definition ext_requests :: "ext_state \<Rightarrow> approval_request list" where
  "ext_requests st = ap_requests (unwrap_or approvals_default (ext_approvals st))"

lemma find_update_first:
  assumes "position (\<lambda>e. f e = x) xs = Some i" and "f e' = x"
  shows "find (\<lambda>e. f e = y) (xs[i := e']) = (if y = x then Some e' else find (\<lambda>e. f e = y) xs)"
  using assms(1)
proof (induction xs arbitrary: i)
  case Nil
  then show ?case by simp
next
  case (Cons a xs)
  then show ?case using assms(2) by (auto split: if_splits)
qed

lemma tier_after_set:
  assumes "position (\<lambda>e. ee_id e = x) (etc_extensions cfg) = Some i"
  shows "map_option ee_tier (find (\<lambda>e. ee_id e = y) (etc_extensions (set_tier i t cfg)))
       = (if y = x then Some t else map_option ee_tier (find (\<lambda>e. ee_id e = y) (etc_extensions cfg)))"
  using find_update_first [OF assms, of "(etc_extensions cfg ! i)\<lparr>ee_tier := t\<rparr>"]
    position_SomeD [OF assms] by (simp add: set_tier_def)

lemma trust_load_tier:
  "trust_load io st = Inr cfg \<Longrightarrow>
   map_option ee_tier (find (\<lambda>e. ee_id e = y) (etc_extensions cfg)) = tier_of st y"
  by (auto simp: trust_load_def tier_of_def etc_check_version_def split: option.splits if_splits)

lemma trust_commit_cases:
  "trust_commit io cfg st = Inr st' \<Longrightarrow> st' = st\<lparr>ext_trust := Some cfg\<rparr>"
  by (simp add: trust_commit_def split: option.splits)

lemma approvals_commit_cases:
  "approvals_commit io cfg st = Inr st' \<Longrightarrow> st' = st\<lparr>ext_approvals := Some cfg\<rparr>"
  by (simp add: approvals_commit_def split: option.splits)

lemma approvals_load_requests: "approvals_load io st = Inr appr \<Longrightarrow> ap_requests appr = ext_requests st"
  by (auto simp: approvals_load_def ext_requests_def split: option.splits)

lemma tier_of_simps [simp]:
  "tier_of (st\<lparr>ext_approvals := a\<rparr>) x = tier_of st x"
  "tier_of (st\<lparr>ext_counter := c\<rparr>) x = tier_of st x"
  by (simp_all add: tier_of_def)

lemma ext_requests_simps [simp]:
  "ext_requests (st\<lparr>ext_trust := t\<rparr>) = ext_requests st"
  "ext_requests (st\<lparr>ext_counter := c\<rparr>) = ext_requests st"
  "ext_requests (st\<lparr>ext_approvals := Some a\<rparr>) = ap_requests a"
  by (simp_all add: ext_requests_def)

lemma tier_of_commit:
  assumes "trust_load io st = Inr cfg" and "position (\<lambda>e. ee_id e = x) (etc_extensions cfg) = Some i"
  shows "tier_of (st\<lparr>ext_trust := Some (set_tier i t cfg)\<rparr>) y = (if y = x then Some t else tier_of st y)"
  using tier_after_set [OF assms(2), of y t] trust_load_tier [OF assms(1), of y]
  by (simp add: tier_of_def)

text \<open>\<open>update_trust\<close> changes at most the named extension, and never promotes a revoked one.\<close>

lemma handle_update_trust_tiers:
  assumes "handle_update_trust io clk cmd st = (r, st')"
  shows "st' = st \<or> (\<exists>x t. tier_of st x \<noteq> None \<and> \<not> (tier_of st x = Some Revoked \<and> t \<in> {AllowedBundled, AllowedSigned})
      \<and> (\<forall>y. tier_of st' y = (if y = x then Some t else tier_of st y)) \<and> ext_requests st' = ext_requests st)"
proof (cases "\<exists>cfg out cfg'. trust_load io st = Inr cfg \<and> apply_update_trust (cmd_payload cmd) cfg = Inr (out, cfg')")
  case False
  then have "st' = st"
    using assms by (auto simp: handle_update_trust_def split: sum.splits prod.splits)
  then show ?thesis ..
next
  case True
  then obtain cfg out cfg' where l: "trust_load io st = Inr cfg"
    and a: "apply_update_trust (cmd_payload cmd) cfg = Inr (out, cfg')" by blast
  from a obtain x t i where i: "position (\<lambda>e. ee_id e = x) (etc_extensions cfg) = Some i"
    and cfg': "cfg' = set_tier i t cfg"
    and ok: "\<not> (ee_tier (etc_extensions cfg ! i) = Revoked \<and> t \<in> {AllowedBundled, AllowedSigned})"
    by (auto simp: apply_update_trust_def Let_def split: option.splits if_splits)
  have prev: "tier_of st x = Some (ee_tier (etc_extensions cfg ! i))"
    using trust_load_tier [OF l, of x] i by (simp add: position_find)
  have "st' = st \<or> st' = st\<lparr>ext_trust := Some cfg'\<rparr>"
    using assms l a by (auto simp: handle_update_trust_def Let_def dest: trust_commit_cases split: sum.splits)
  then show ?thesis
    using tier_of_commit [OF l i, of t] prev ok cfg' by auto
qed

lemma handle_update_trust_no_promotion:
  assumes "handle_update_trust io clk cmd st = (r, st')" and "tier_of st x = Some Revoked"
  shows "tier_of st' x \<notin> {Some AllowedBundled, Some AllowedSigned}"
  using handle_update_trust_tiers [OF assms(1)]
proof (elim disjE exE conjE)
  fix y t
  assume t: "\<not> (tier_of st y = Some Revoked \<and> t \<in> {AllowedBundled, AllowedSigned})"
    and all: "\<forall>z. tier_of st' z = (if z = y then Some t else tier_of st z)"
  show ?thesis
    using t assms(2) spec [OF all, of x] by (cases "x = y") auto
qed (use assms(2) in simp)

lemma new_request_id_state: "snd (new_request_id clk st) = st\<lparr>ext_counter := ext_counter st + 1\<rparr>"
  by (simp add: new_request_id_def)

lemma handle_request_promotion_state:
  assumes "handle_request_promotion io clk cmd st = (r, st')"
  shows "(\<forall>y. tier_of st' y = tier_of st y)
     \<and> (ext_requests st' = ext_requests st
        \<or> (\<exists>q. ext_requests st' = ext_requests st @ [q] \<and> ar_status q = Pending
              \<and> ar_decided_by_profile_id q = None))"
  using assms
  by (auto simp: handle_request_promotion_def new_request_id_def Let_def approvals_load_requests
      dest!: approvals_commit_cases split: option.splits sum.splits if_splits)

text \<open>The one successful path of \<open>approve_promotion\<close>, and the path that stops half way.\<close>

lemma handle_approve_promotion_cases:
  assumes "handle_approve_promotion io clk cmd st = (r, st')"
  obtains (refused) "st' = st" "\<not> ack_ok (rp_ack r)"
  | (promoted) i req p t where "position (\<lambda>q. ar_request_id q = ar_request_id req) (ext_requests st) = Some i"
      "ext_requests st ! i = req" "nonempty_str ''request_id'' (cmd_payload cmd) = Some (ar_request_id req)"
      "session_profile_id st (cmd_session_id cmd) = Some p"
      "ar_status req = Pending" "p \<noteq> ar_requested_by_profile_id req"
      "parse_tier (ar_requested_tier req) = Some t" "tier_of st (ar_extension_id req) \<noteq> None"
      "\<forall>y. tier_of st' y = (if y = ar_extension_id req then Some t else tier_of st y)"
      "ext_sessions st' = ext_sessions st"
      "(\<not> ack_ok (rp_ack r) \<and> ext_requests st' = ext_requests st)
       \<or> (ack_ok (rp_ack r) \<and> ext_requests st' = (ext_requests st)[i := mark_approved clk cmd p req])"
proof -
  let ?full = "\<lambda>rid p appr i t cfg out cfg' st1.
      nonempty_str ''request_id'' (cmd_payload cmd) = Some rid
      \<and> session_profile_id st (cmd_session_id cmd) = Some p \<and> approvals_load io st = Inr appr
      \<and> position (\<lambda>q. ar_request_id q = rid) (ap_requests appr) = Some i
      \<and> ar_status (ap_requests appr ! i) = Pending \<and> p \<noteq> ar_requested_by_profile_id (ap_requests appr ! i)
      \<and> parse_tier (ar_requested_tier (ap_requests appr ! i)) = Some t \<and> trust_load io st = Inr cfg
      \<and> apply_promotion_with_approval (ar_extension_id (ap_requests appr ! i)) t cfg = Inr (out, cfg')
      \<and> trust_commit io cfg' st = Inr st1
      \<and> ((\<not> ack_ok (rp_ack r) \<and> st' = st1)
       \<or> (ack_ok (rp_ack r) \<and> approvals_commit io (appr\<lparr>ap_requests := (ap_requests appr)
            [i := mark_approved clk cmd p (ap_requests appr ! i)]\<rparr>) st1 = Inr st'))"
  have "(st' = st \<and> \<not> ack_ok (rp_ack r)) \<or> (\<exists>rid p appr i t cfg out cfg' st1. ?full rid p appr i t cfg out cfg' st1)"
    using assms unfolding handle_approve_promotion_def Let_def
    by (auto split: option.splits sum.splits if_splits prod.splits update_trust_error.splits)
  then consider "st' = st \<and> \<not> ack_ok (rp_ack r)"
    | rid p appr i t cfg out cfg' st1 where "?full rid p appr i t cfg out cfg' st1" by blast
  then show thesis
  proof cases
    case 1
    then show ?thesis using refused by blast
  next
    case (2 rid p appr i t cfg out cfg' st1)
    then have load: "approvals_load io st = Inr appr" "trust_load io st = Inr cfg"
      and i: "position (\<lambda>q. ar_request_id q = rid) (ap_requests appr) = Some i"
      and app: "apply_promotion_with_approval (ar_extension_id (ap_requests appr ! i)) t cfg = Inr (out, cfg')"
      and com: "trust_commit io cfg' st = Inr st1" by blast+
    have reqs: "ap_requests appr = ext_requests st" using load(1) by (rule approvals_load_requests)
    let ?req = "ext_requests st ! i"
    have rid: "ar_request_id ?req = rid" using position_SomeD [OF i] reqs by simp
    from app obtain j where j: "position (\<lambda>e. ee_id e = ar_extension_id ?req) (etc_extensions cfg) = Some j"
      and cfg': "cfg' = set_tier j t cfg"
      by (auto simp: apply_promotion_with_approval_def reqs Let_def split: option.splits)
    have st1: "st1 = st\<lparr>ext_trust := Some cfg'\<rparr>" using com by (rule trust_commit_cases)
    have ex: "tier_of st (ar_extension_id ?req) \<noteq> None"
      using trust_load_tier [OF load(2), of "ar_extension_id ?req", symmetric] j
      by (simp add: position_find)
    have tiers: "tier_of st1 y = (if y = ar_extension_id ?req then Some t else tier_of st y)" for y
      using tier_of_commit [OF load(2) j] st1 cfg' by simp
    show ?thesis
      by (rule promoted [of ?req i p t])
        (use 2 reqs rid ex tiers st1 in \<open>auto dest!: approvals_commit_cases\<close>)
  qed
qed


section \<open>Two parties for every promotion\<close>

definition request_ok :: "approval_request \<Rightarrow> bool" where
  "request_ok r \<longleftrightarrow>
     (case ar_status r of
        Pending \<Rightarrow> ar_decided_by_profile_id r = None
      | Approved \<Rightarrow>
          (case ar_decided_by_profile_id r of
             None \<Rightarrow> False
           | Some p \<Rightarrow> p \<noteq> ar_requested_by_profile_id r)
      | Denied \<Rightarrow> False)"

definition approvals_ok :: "ext_state \<Rightarrow> bool" where
  "approvals_ok st \<longleftrightarrow> list_all request_ok (ext_requests st)"

text \<open>Who asked for what; fixed for the life of a request.\<close>

definition request_core :: "approval_request \<Rightarrow> string \<times> string \<times> string \<times> string \<times> string" where
  "request_core r = (ar_request_id r, ar_extension_id r, ar_requested_tier r,
     ar_requested_by_session_id r, ar_requested_by_profile_id r)"

definition request_le :: "approval_request \<Rightarrow> approval_request \<Rightarrow> bool" where
  "request_le r r' \<longleftrightarrow>
     request_core r' = request_core r \<and> (if ar_status r = Pending then True else r' = r)"

definition requests_le :: "ext_state \<Rightarrow> ext_state \<Rightarrow> bool" where
  "requests_le st st' \<longleftrightarrow>
     length (ext_requests st) \<le> length (ext_requests st')
     \<and> list_all2 request_le (ext_requests st) (take (length (ext_requests st)) (ext_requests st'))"

lemma request_le_refl: "request_le r r"
  by (simp add: request_le_def)

lemma request_le_trans: "request_le a b \<Longrightarrow> request_le b c \<Longrightarrow> request_le a c"
  by (auto simp: request_le_def split: if_splits)

lemma requests_le_refl: "requests_le st st"
  by (simp add: requests_le_def list_all2_refl request_le_refl)

lemma requests_le_trans:
  assumes "requests_le a b" and "requests_le b c"
  shows "requests_le a c"
proof -
  let ?n = "length (ext_requests a)"
  have n: "?n \<le> length (ext_requests b)" "length (ext_requests b) \<le> length (ext_requests c)"
    using assms by (auto simp: requests_le_def)
  have "list_all2 request_le (take ?n (ext_requests b)) (take ?n (take (length (ext_requests b)) (ext_requests c)))"
    using assms(2) unfolding requests_le_def by (blast intro: list_all2_takeI)
  then have "list_all2 request_le (take ?n (ext_requests b)) (take ?n (ext_requests c))"
    using n by (simp add: min_absorb1)
  note bc = this
  have ab: "list_all2 request_le (ext_requests a) (take ?n (ext_requests b))"
    using assms(1) by (simp add: requests_le_def)
  have "list_all2 request_le (ext_requests a) (take ?n (ext_requests c))"
    by (rule list_all2_trans [OF _ ab bc]) (rule request_le_trans)
  with n show ?thesis by (simp add: requests_le_def)
qed

lemma approve_request:
  assumes "request_ok req" and "ar_status req = Pending" and "p \<noteq> ar_requested_by_profile_id req"
  shows "request_ok (mark_approved clk cmd p req)" and "request_le req (mark_approved clk cmd p req)"
  using assms by (simp_all add: request_ok_def mark_approved_def request_le_def request_core_def)

lemma requests_le_update:
  assumes "i < length (ext_requests st)" and "request_le (ext_requests st ! i) r"
    and "ext_requests st' = (ext_requests st)[i := r]"
  shows "requests_le st st'"
  using assms by (auto simp: requests_le_def list_all2_conv_all_nth nth_list_update request_le_refl)

lemma requests_le_append:
  "ext_requests st' = ext_requests st @ qs \<Longrightarrow> requests_le st st'"
  by (simp add: requests_le_def list_all2_refl request_le_refl)

lemma ext_step_requests:
  assumes ok: "approvals_ok st"
  shows "approvals_ok (ext_step st c) \<and> requests_le st (ext_step st c)"
proof -
  obtain k io clk cmd where c: "c = (k, io, clk, cmd)" by (cases c)
  obtain r st' where h: "ext_handle k io clk cmd st = (r, st')" by (cases "ext_handle k io clk cmd st")
  have "approvals_ok st' \<and> requests_le st st'"
  proof (cases k)
    case ListExt
    then show ?thesis using h ok by (simp add: requests_le_refl)
  next
    case ListApprovals
    then show ?thesis using h ok by (simp add: requests_le_refl)
  next
    case UpdateTrust
    then have "ext_requests st' = ext_requests st"
      using h handle_update_trust_tiers [of io clk cmd st r st'] by auto
    then show ?thesis using ok by (simp add: approvals_ok_def requests_le_append [where qs = "[]"])
  next
    case RequestPromotion
    then show ?thesis
      using h ok handle_request_promotion_state [of io clk cmd st r st']
        requests_le_append [of st' st "[]"] requests_le_append [of st' st]
      by (auto simp: approvals_ok_def request_ok_def)
  next
    case ApprovePromotion
    then have "handle_approve_promotion io clk cmd st = (r, st')" using h by simp
    then show ?thesis
    proof (cases rule: handle_approve_promotion_cases)
      case refused
      then show ?thesis using ok by (simp add: requests_le_refl)
    next
      case (promoted i req p t)
      from promoted(1) have i: "i < length (ext_requests st)" by (auto dest: position_SomeD)
      then have req: "request_ok req"
        using ok promoted(2) by (auto simp: approvals_ok_def list_all_length)
      note a = approve_request [OF req promoted(5,6), of clk cmd]
      show ?thesis
        using promoted(11)
      proof
        assume "\<not> ack_ok (rp_ack r) \<and> ext_requests st' = ext_requests st"
        then show ?thesis using ok by (simp add: approvals_ok_def requests_le_append [where qs = "[]"])
      next
        assume "ack_ok (rp_ack r) \<and> ext_requests st' = (ext_requests st)[i := mark_approved clk cmd p req]"
        then show ?thesis
          using ok a i promoted(2) requests_le_update [OF i, of "mark_approved clk cmd p req" st']
          by (auto simp: approvals_ok_def list_all_iff dest!: set_update_subset_insert [THEN subsetD])
      qed
    qed
  qed
  then show ?thesis by (simp add: c ext_step_def h)
qed

interpretation promotions: monotone_system ext_step approvals_ok requests_le
  by unfold_locales (auto simp: ext_step_requests requests_le_refl intro: requests_le_trans)

text \<open>
  C2: promotions need two parties. Starting without an approvals file, after any sequence of
  \<open>extensions.*\<close> calls, whatever files fail to read or write: every request is pending and
  undecided, or approved by a profile different from the requester's; and from any point on, no
  request disappears or changes what it asks for, and a decided one never changes again.
\<close>
theorem promotions_are_two_party:
  "list_all (\<lambda>r. case ar_status r of
        Pending \<Rightarrow> ar_decided_by_profile_id r = None
      | Approved \<Rightarrow> (case ar_decided_by_profile_id r of
            None \<Rightarrow> False | Some p \<Rightarrow> p \<noteq> ar_requested_by_profile_id r)
      | Denied \<Rightarrow> False)
     (ext_requests (foldl ext_step (st\<lparr>ext_approvals := None\<rparr>) cs))
   \<and> requests_le (foldl ext_step (st\<lparr>ext_approvals := None\<rparr>) cs)
       (foldl ext_step (st\<lparr>ext_approvals := None\<rparr>) (cs @ ds))"
proof -
  have ok: "approvals_ok (st\<lparr>ext_approvals := None\<rparr>)"
    by (simp add: approvals_ok_def ext_requests_def approvals_default_def)
  then show ?thesis
    using promotions.run_inv [OF ok, of cs] promotions.run_le_between [OF ok, of cs ds]
    by (simp add: approvals_ok_def request_ok_def [abs_def])
qed

text \<open>
  C6: a revoked extension regains privileges only by an approval. If a single call moves an
  extension from \<open>revoked\<close> to an allowed tier, the call is \<open>approve_promotion\<close>, it names a
  pending request for exactly this extension and tier, and it comes from a session whose profile
  differs from the requester's.
\<close>
theorem revoked_regains_only_by_approval:
  assumes "tier_of st x = Some Revoked"
    and "tier_of (ext_step st (k, io, clk, cmd)) x \<in> {Some AllowedBundled, Some AllowedSigned}"
  shows "k = ApprovePromotion \<and> (\<exists>req \<in> set (ext_requests st). \<exists>p t.
      get_str ''request_id'' (cmd_payload cmd) = Some (ar_request_id req) \<and> ar_status req = Pending
      \<and> ar_extension_id req = x \<and> parse_tier (ar_requested_tier req) = Some t
      \<and> tier_of (ext_step st (k, io, clk, cmd)) x = Some t
      \<and> ext_sessions st (cmd_session_id cmd) = Some p \<and> p \<noteq> ar_requested_by_profile_id req)"
proof -
  obtain r st' where h: "ext_handle k io clk cmd st = (r, st')" by (cases "ext_handle k io clk cmd st")
  then have st': "ext_step st (k, io, clk, cmd) = st'" by (simp add: ext_step_def)
  have new: "tier_of st' x \<in> {Some AllowedBundled, Some AllowedSigned}"
    using assms(2) by (simp only: st')
  then have changed: "tier_of st' x \<noteq> tier_of st x" using assms(1) by auto
  show ?thesis
  proof (cases k)
    case UpdateTrust
    then show ?thesis
      using handle_update_trust_no_promotion [of io clk cmd st r st' x] h assms(1) new by simp
  next
    case RequestPromotion
    then show ?thesis using handle_request_promotion_state [of io clk cmd st r st'] h changed by auto
  next
    case ApprovePromotion
    then have "handle_approve_promotion io clk cmd st = (r, st')" using h by simp
    then show ?thesis
    proof (cases rule: handle_approve_promotion_cases)
      case refused
      then show ?thesis using changed by simp
    next
      case (promoted i req p t)
      have "req \<in> set (ext_requests st)" using promoted(1,2) by (auto dest: position_SomeD)
      moreover have "ar_extension_id req = x" using promoted(9) changed by metis
      moreover from this have "tier_of st' x = Some t" using promoted(9) by simp
      moreover have "get_str ''request_id'' (cmd_payload cmd) = Some (ar_request_id req)"
        using promoted(3) by (simp add: nonempty_str_def filter_opt_Some_iff)
      moreover have "ext_sessions st (cmd_session_id cmd) = Some p"
        using promoted(4) by (simp add: session_profile_id_def split: if_splits)
      ultimately show ?thesis
        unfolding st' using promoted(5-7) ApprovePromotion by blast
    qed
  qed (use h changed in auto)
qed


section \<open>Examples\<close>

definition example_io :: ext_io where
  "example_io = \<lparr>trust_read_err = None, trust_write_err = None, approvals_read_err = None,
     approvals_write_err = None\<rparr>"

definition example_clock :: clock where
  "example_clock = \<lparr>fmt_time = (\<lambda>t. dec_digits (nat t)), parse_time = (\<lambda>_. None), now = 5\<rparr>"

definition revoked_ext :: extension_entry where
  "revoked_ext = \<lparr>ee_id = ''x'', ee_tier = Revoked, ee_source = Bundled, ee_publisher = None\<rparr>"

definition pending_request :: approval_request where
  "pending_request = \<lparr>ar_request_id = ''r1'', ar_extension_id = ''x'', ar_requested_tier = ''allowed_bundled'',
     ar_requested_by_session_id = ''s1'', ar_requested_by_profile_id = ''p1'', ar_created_at = ''t'',
     ar_status = Pending, ar_decided_at = None, ar_decided_by_session_id = None,
     ar_decided_by_profile_id = None\<rparr>"

definition example_ext_state :: ext_state where
  "example_ext_state = \<lparr>ext_trust = Some (etc_empty\<lparr>etc_extensions := [revoked_ext]\<rparr>),
     ext_approvals = Some \<lparr>ap_version = 1, ap_requests = [pending_request]\<rparr>, ext_counter = 0,
     ext_sessions = [''s1'' \<mapsto> ''p1'', ''s2'' \<mapsto> ''p2'']\<rparr>"

definition example_cmd :: "string \<Rightarrow> json \<Rightarrow> client_command" where
  "example_cmd sid payload =
     \<lparr>cmd_id = ''c1'', cmd_session_id = sid, cmd_type = ''extensions.x'', cmd_payload = payload, cmd_v = 1\<rparr>"

lemmas ext_eval = ext_step_def example_io_def example_clock_def revoked_ext_def pending_request_def
  example_ext_state_def example_cmd_def tier_of_def trust_load_def trust_commit_def approvals_load_def
  approvals_commit_def etc_empty_def etc_check_version_def session_profile_id_def nonempty_str_def
  filter_opt_def get_str_def parse_tier_def set_tier_def

theorem revoked_regains_only_by_approval_witness:
  "\<exists>req \<in> set (ext_requests example_ext_state). ar_extension_id req = ''x'' \<and> ar_requested_by_profile_id req \<noteq> ''p2''"
proof -
  let ?cmd = "example_cmd ''s2'' (JObj [(''request_id'', JStr ''r1'')])"
  have "tier_of example_ext_state ''x'' = Some Revoked" by (simp add: ext_eval)
  moreover have "tier_of (ext_step example_ext_state (ApprovePromotion, example_io, example_clock, ?cmd)) ''x''
      \<in> {Some AllowedBundled, Some AllowedSigned}"
    by (simp add: handle_approve_promotion_def apply_promotion_with_approval_def ext_eval Let_def)
  ultimately show ?thesis
    using revoked_regains_only_by_approval [of example_ext_state "''x''" ApprovePromotion example_io example_clock ?cmd]
    by (auto simp: example_ext_state_def example_cmd_def)
qed

text \<open>
  The transition test looks at one call only: \<open>update_trust\<close> may take a revoked extension to
  \<open>quarantined\<close>, and a second call from there to an allowed tier, with no second party.
\<close>

lemma revoked_promoted_through_quarantine:
  "let upd = (\<lambda>t. (UpdateTrust, example_io, example_clock,
                 example_cmd ''s1'' (JObj [(''extension_id'', JStr ''x''), (''tier'', JStr t)])));
       st1 = ext_step example_ext_state (upd ''quarantined'');
       st2 = ext_step st1 (upd ''allowed_bundled'')
   in tier_of example_ext_state ''x'' = Some Revoked \<and> tier_of st2 ''x'' = Some AllowedBundled"
  by (simp add: handle_update_trust_def apply_update_trust_def ext_eval Let_def)

text \<open>A failed write of the approvals file leaves the promotion in force and the request pending.\<close>

lemma promotion_survives_failed_approval_write:
  "let cmd = example_cmd ''s2'' (JObj [(''request_id'', JStr ''r1'')]);
       io = example_io\<lparr>approvals_write_err := Some ''disk full''\<rparr>;
       (r, st') = handle_approve_promotion io example_clock cmd example_ext_state
   in \<not> ack_ok (rp_ack r) \<and> rp_audit r = [] \<and> tier_of st' ''x'' = Some AllowedBundled
      \<and> ext_requests st' = [pending_request]"
  by (simp add: handle_approve_promotion_def apply_promotion_with_approval_def ext_eval Let_def ext_requests_def)

text \<open>The list never reports an extension as signed, since it classifies without a signature.\<close>

lemma listed_never_signed: "listed_decision cfg e \<noteq> DAllowedSigned"
  by (simp add: listed_decision_def unsigned_never_allowed_signed)

end
