(* ===== verification/Handoff_Packet.thy ===== *)
theory Handoff_Packet
  imports Wire "HOL-Library.Word" "HOL-Library.List_Lexorder" "HOL-Library.Char_ord"
begin

text \<open>
  \<open>apps/local-bridge/src/handoff/packet.rs\<close>, \<open>pin.rs\<close> and \<open>registry.rs\<close>: the packet types, the
  pin computed from the local repository, and the registry. Git, the files of the worktree,
  SHA-256, the Unicode tables and the JSON printer are the fields of a \<open>host\<close>.
\<close>

section \<open>The host\<close>

text \<open>
  \<open>host_git project args\<close> is the standard output of a successful \<open>git\<close> run that is valid
  UTF-8, \<open>host_ls_files\<close> the raw output of \<open>git ls-files -z\<close>, \<open>host_read\<close> the bytes of a file
  (empty when unreadable, as in \<open>unwrap_or_default\<close>).
\<close>

record host =
  host_git :: "string \<Rightarrow> string list \<Rightarrow> string option"
  host_ls_files :: "string \<Rightarrow> string option"
  host_read :: "string \<Rightarrow> string"
  host_sha256_hex :: "string \<Rightarrow> string"
  host_utf8_lossy :: "string \<Rightarrow> string"
  host_unicode_lower :: "string \<Rightarrow> string"
  host_json :: "json \<Rightarrow> string"

section \<open>Packet types\<close>

text \<open>Two names that differ only in surrounding white space or letter case are one actor.\<close>

definition canonical_signer_id :: "host \<Rightarrow> string \<Rightarrow> string" where
  "canonical_signer_id h name = to_lowercase (host_unicode_lower h) (trim name)"

datatype pin_policy = Strict | Lenient

fun pin_policy_str :: "pin_policy \<Rightarrow> string" where
  "pin_policy_str Strict = ''strict''"
| "pin_policy_str Lenient = ''lenient''"

definition pin_policy_from_str :: "string \<Rightarrow> pin_policy" where
  "pin_policy_from_str s = (if s = ''lenient'' then Lenient else Strict)"

record connector_snapshot =
  cs_connector_id :: string
  cs_kind :: string
  cs_snapshot_id :: string
  cs_captured_at :: string
  cs_etag :: "string option"

record handoff_pin =
  pin_repo_ref :: string
  pin_base_commit_sha :: string
  pin_worktree_digest :: string
  pin_assessment_snapshot_at :: string
  pin_connector_snapshots :: "connector_snapshot list"
  pin_expires_at :: string
  pin_invalidate_on_repo_change :: bool
  pin_policy :: pin_policy

definition pin_is_complete :: "handoff_pin \<Rightarrow> bool" where
  "pin_is_complete p \<longleftrightarrow>
     pin_repo_ref p \<noteq> [] \<and> pin_base_commit_sha p \<noteq> [] \<and> pin_worktree_digest p \<noteq> []
     \<and> pin_assessment_snapshot_at p \<noteq> [] \<and> pin_expires_at p \<noteq> []"

text \<open>An expiry that does not parse counts as expired.\<close>

definition pin_is_expired :: "clock \<Rightarrow> handoff_pin \<Rightarrow> bool" where
  "pin_is_expired clk p =
     unwrap_or True (map_option (\<lambda>t. t < now clk) (parse_time clk (pin_expires_at p)))"

record packet_task =
  pt_id :: string
  pt_title :: string
  pt_rationale :: string
  pt_source_finding_ids :: "string list"
  pt_evidence_refs :: "json list"
  pt_steps :: "string list"
  pt_constraints :: "string list"
  pt_risk_notes :: "string list"
  pt_est_effort :: "string option"
  pt_depends_on :: "string list"
  pt_touches_paths :: "string list"
  pt_requires_approval_per_step :: bool
  pt_rollback_steps :: "string list"

record handoff_target =
  ht_kind :: string
  ht_executor_profile_id :: string
  ht_session_title :: "string option"

record handoff_approval =
  ha_required :: bool
  ha_approvers :: "string list"
  ha_approver_notes :: "string option"
  ha_approved_at :: "string option"
  ha_two_party :: bool
  ha_required_roles :: "string list"

record history_entry =
  he_state :: string
  he_at :: string
  he_by :: "string option"
  he_reason :: "string option"

record signer =
  sg_name :: string
  sg_role :: string
  sg_signed_at :: string
  sg_reason :: "string option"

record task_progress =
  tp_task_id :: string
  tp_status :: string
  tp_updated_at :: string
  tp_completed :: "32 word"
  tp_total :: "32 word"
  tp_message :: "string option"

record execution_outcome =
  eo_status :: string
  eo_tasks_completed :: "string list"
  eo_tasks_failed :: "string list"
  eo_changeset_summary :: "string option"
  eo_reassessment_run_id :: "string option"

text \<open>A field with \<open>skip_serializing_if = "Option::is_none"\<close> is absent when it is \<open>None\<close>.\<close>

definition opt_field :: "string \<Rightarrow> string option \<Rightarrow> (string \<times> json) list" where
  "opt_field k v = (case v of Some s \<Rightarrow> [(k, JStr s)] | None \<Rightarrow> [])"

definition execution_outcome_payload :: "execution_outcome \<Rightarrow> json" where
  "execution_outcome_payload o' =
     JObj ([(''status'', JStr (eo_status o')), (''tasks_completed'', json_strs (eo_tasks_completed o')),
            (''tasks_failed'', json_strs (eo_tasks_failed o'))]
           @ opt_field ''changeset_summary'' (eo_changeset_summary o')
           @ opt_field ''reassessment_run_id'' (eo_reassessment_run_id o'))"

datatype packet_status =
  Draft | PendingApproval | Approved | Rejected | Dispatched | Executing | Completed | Failed
  | Invalidated | Expired

fun packet_status_str :: "packet_status \<Rightarrow> string" where
  "packet_status_str Draft = ''draft''"
| "packet_status_str PendingApproval = ''pending_approval''"
| "packet_status_str Approved = ''approved''"
| "packet_status_str Rejected = ''rejected''"
| "packet_status_str Dispatched = ''dispatched''"
| "packet_status_str Executing = ''executing''"
| "packet_status_str Completed = ''completed''"
| "packet_status_str Failed = ''failed''"
| "packet_status_str Invalidated = ''invalidated''"
| "packet_status_str Expired = ''expired''"

record packet =
  pk_id :: string
  pk_title :: string
  pk_summary :: "string option"
  pk_source_run_ids :: "string list"
  pk_accepted_finding_ids :: "string list"
  pk_created_by :: string
  pk_created_at :: string
  pk_pin :: handoff_pin
  pk_tasks :: "packet_task list"
  pk_order_hint :: "string list option"
  pk_target :: handoff_target
  pk_approval :: handoff_approval
  pk_status :: packet_status
  pk_state_history :: "history_entry list"
  pk_signers :: "signer list"
  pk_required_signers :: "32 word"
  pk_execution_session_id :: "string option"
  pk_execution_progress :: "(string \<times> task_progress) list option"
  pk_execution_outcome :: "json option"
  pk_convergence_count :: "32 word"
  pk_updated_at :: string

definition can_dispatch :: "clock \<Rightarrow> packet \<Rightarrow> bool" where
  "can_dispatch clk p \<longleftrightarrow>
     pk_status p = Approved \<and> pin_is_complete (pk_pin p) \<and> \<not> pin_is_expired clk (pk_pin p)"

definition add_signer :: "signer \<Rightarrow> packet \<Rightarrow> packet" where
  "add_signer s p =
     (if list_ex (\<lambda>x. sg_name x = sg_name s) (pk_signers p) then p
      else p\<lparr>pk_signers := pk_signers p @ [s]\<rparr>)"

section \<open>The pin\<close>

definition worktree_digest_exclude :: "string list" where
  "worktree_digest_exclude = [''.git'', ''node_modules'', ''target'', ''.next'', ''dist'', ''build'']"

definition git_output :: "host \<Rightarrow> string \<Rightarrow> string list \<Rightarrow> string option" where
  "git_output h project args = map_option trim (host_git h project args)"

fun split_nul :: "string \<Rightarrow> string list" where
  "split_nul [] = [[]]"
| "split_nul (c # s) =
     (if c = CHR 0x00 then [] # split_nul s
      else (case split_nul s of [] \<Rightarrow> [[c]] | p # ps \<Rightarrow> (c # p) # ps))"

definition digest_excluded :: "string \<Rightarrow> bool" where
  "digest_excluded rel = list_ex (\<lambda>exc. starts_with rel exc) worktree_digest_exclude"

definition digest_part :: "host \<Rightarrow> string \<Rightarrow> string \<Rightarrow> string" where
  "digest_part h project rel =
     rel @ '':'' @ host_sha256_hex h (host_read h (path_join project rel))"

definition compute_worktree_digest :: "host \<Rightarrow> string \<Rightarrow> string option" where
  "compute_worktree_digest h project =
     map_option (\<lambda>out.
       let rels = map (host_utf8_lossy h) (filter (\<lambda>e. e \<noteq> []) (split_nul out));
           parts = map (digest_part h project) (filter (\<lambda>r. \<not> digest_excluded r) rels)
       in host_sha256_hex h (str_join [CHR 0x0A] (sort parts)))
     (host_ls_files h project)"

record pin_options =
  po_project_root :: string
  po_repo_ref :: "string option"
  po_base_commit_sha :: "string option"
  po_assessment_snapshot_at :: "string option"
  po_connector_snapshots :: "connector_snapshot list"
  po_policy :: pin_policy

definition compute_pin :: "host \<Rightarrow> clock \<Rightarrow> pin_options \<Rightarrow> handoff_pin" where
  "compute_pin h clk o' =
     (let root = po_project_root o';
          from_git = (\<lambda>args pre. map_option (\<lambda>b. pre @ b) (filter_opt (\<lambda>b. b \<noteq> []) (git_output h root args)))
      in \<lparr>pin_repo_ref =
            unwrap_or (unwrap_or [] (map_option (\<lambda>sha. ''sha:'' @ sha) (po_base_commit_sha o')))
              (or_else (po_repo_ref o')
                (or_else (from_git [''branch'', ''--show-current''] ''branch:'')
                   (from_git [''describe'', ''--tags'', ''--exact-match''] ''tag:''))),
          pin_base_commit_sha =
            unwrap_or [] (or_else (po_base_commit_sha o') (git_output h root [''rev-parse'', ''HEAD''])),
          pin_worktree_digest = unwrap_or [] (compute_worktree_digest h root),
          pin_assessment_snapshot_at = unwrap_or (now_iso clk) (po_assessment_snapshot_at o'),
          pin_connector_snapshots = po_connector_snapshots o',
          pin_expires_at = fmt_time clk (now clk + days_ns 7),
          pin_invalidate_on_repo_change = (po_policy o' = Strict),
          pin_policy = po_policy o'\<rparr>)"

section \<open>The registry\<close>

type_synonym registry = "(string \<times> packet) list"

definition reg_insert :: "packet \<Rightarrow> registry \<Rightarrow> registry" where
  "reg_insert p r = AList.update (pk_id p) p r"

definition reg_get :: "registry \<Rightarrow> string \<Rightarrow> packet option" where
  "reg_get r i = map_of r i"

definition reg_update :: "string \<Rightarrow> (packet \<Rightarrow> packet) \<Rightarrow> registry \<Rightarrow> registry option" where
  "reg_update i f r =
     (case map_of r i of Some p \<Rightarrow> Some (AList.update i (f p) r) | None \<Rightarrow> None)"

definition reg_remove :: "string \<Rightarrow> registry \<Rightarrow> packet option \<times> registry" where
  "reg_remove i r = (map_of r i, AList.delete i r)"

definition reg_list :: "registry \<Rightarrow> packet list" where
  "reg_list r = map snd r"

definition project_key_for_packet :: "packet \<Rightarrow> string" where
  "project_key_for_packet p = pin_repo_ref (pk_pin p) @ ''::'' @ pin_base_commit_sha (pk_pin p)"

definition active_executor_packet :: "string \<Rightarrow> string \<Rightarrow> registry \<Rightarrow> packet option" where
  "active_executor_packet profile key r =
     find (\<lambda>p. pk_status p \<in> {Dispatched, Executing}
           \<and> ht_executor_profile_id (pk_target p) = profile
           \<and> project_key_for_packet p = key) (reg_list r)"

definition reg_set_status :: "clock \<Rightarrow> string \<Rightarrow> packet_status \<Rightarrow> registry \<Rightarrow> registry option" where
  "reg_set_status clk i st r =
     reg_update i (\<lambda>p. p\<lparr>pk_status := st, pk_updated_at := now_iso clk,
        pk_state_history := pk_state_history p
          @ [\<lparr>he_state = packet_status_str st, he_at = now_iso clk, he_by = None, he_reason = None\<rparr>]\<rparr>) r"

section \<open>Facts about pins\<close>

lemma path_join_rel: "hd rel \<noteq> CHR ''/'' \<Longrightarrow> rel \<noteq> [] \<Longrightarrow> \<exists>sep. path_join dir rel = dir @ sep @ rel"
  by (cases rel) (auto simp: path_join_def str_simps intro: exI [of _ "''/''"])

text \<open>A digest depends only on the contents of the files that are listed and not excluded.\<close>

lemma digest_cong:
  assumes "host_ls_files h p = host_ls_files h' p" and "host_sha256_hex h = host_sha256_hex h'"
    and "host_utf8_lossy h = host_utf8_lossy h'"
    and "\<And>rel. \<not> digest_excluded rel \<Longrightarrow> host_read h (path_join p rel) = host_read h' (path_join p rel)"
  shows "compute_worktree_digest h p = compute_worktree_digest h' p"
proof -
  have eq: "map (digest_part h p) (filter (\<lambda>r. \<not> digest_excluded r) rels)
      = map (digest_part h' p) (filter (\<lambda>r. \<not> digest_excluded r) rels)" for rels
    using assms(2,4) by (simp add: digest_part_def)
  show ?thesis
    by (simp only: compute_worktree_digest_def Let_def assms(1-3) eq)
qed

text \<open>
  The exclusions are prefixes of the path, not directories: a tracked \<open>build.rs\<close> or a file under
  \<open>.github/\<close> is not covered, so a change to it is no drift.
\<close>

lemma build_script_not_in_digest:
  "digest_excluded ''build.rs'' \<and> digest_excluded ''.github/workflows/ci.yml''"
  by (simp add: digest_excluded_def worktree_digest_exclude_def str_simps)

end
