(* ===== verification/Handoff_Validate.thy ===== *)
theory Handoff_Validate
  imports Prelude
begin

text \<open>
  \<open>apps/local-bridge/src/handoff/validate.rs\<close>: the checks on a \<open>handoff.create\<close> payload. The
  errors are collected in the order of the code, except that a missing \<open>tasks\<close> array stops.
\<close>

record validation_error =
  ve_code :: string
  ve_message :: string

definition invalid_payload :: "string \<Rightarrow> validation_error" where
  "invalid_payload msg = \<lparr>ve_code = ''handoff.invalid_payload'', ve_message = msg\<rparr>"

definition when_err :: "bool \<Rightarrow> string \<Rightarrow> validation_error list" where
  "when_err b msg = (if b then [invalid_payload msg] else [])"

lemma when_err_Nil [simp]: "when_err b msg = [] \<longleftrightarrow> \<not> b"
  by (simp add: when_err_def)

definition evidence_refs :: "json \<Rightarrow> json list" where
  "evidence_refs t = unwrap_or [] (get_arr ''evidence_refs'' t)"

definition has_evidence_uri :: "json list \<Rightarrow> bool" where
  "has_evidence_uri ev =
     list_ex (\<lambda>e. unwrap_or False (map_option (\<lambda>s. s \<noteq> []) (get_str ''uri'' e))) ev"

text \<open>The checks of one task; \<open>n\<close> counts from 1.\<close>

definition validate_task :: "nat \<Rightarrow> json \<Rightarrow> validation_error list" where
  "validate_task n t =
     when_err (get_strs ''source_finding_ids'' t = [])
       (''task '' @ dec_digits n @ '' must have at least one source_finding_id'')
     @ when_err (evidence_refs t = [])
       (''task '' @ dec_digits n @ '' must have at least one evidence_ref'')
     @ when_err (get_strs ''touches_paths'' t = [] \<and> \<not> has_evidence_uri (evidence_refs t))
       (''task '' @ dec_digits n @ '' must have touches_paths or evidence_refs with uri'')"

definition target_profile_str :: "json \<Rightarrow> string" where
  "target_profile_str t =
     unwrap_or [] (or_else (get_str ''executor_profile_id'' t)
       (or_else (get_str ''executorProfileId'' t) (get_str ''profile_id'' t)))"

definition validate_target :: "json \<Rightarrow> validation_error list" where
  "validate_target payload =
     (case jget ''target'' payload of
        None \<Rightarrow> [invalid_payload ''target is required'']
      | Some t \<Rightarrow>
          when_err (trim (target_profile_str t) = []) ''target.executor_profile_id is required'')"

definition validate_pin :: "json \<Rightarrow> validation_error list" where
  "validate_pin payload =
     (case jget ''pin'' payload of
        None \<Rightarrow> []
      | Some pin \<Rightarrow>
          (let policy = unwrap_or ''strict'' (or_else (get_str ''invalidation_policy'' pin)
             (or_else (get_str ''invalidationPolicy'' pin) (get_str ''policy'' pin)))
           in when_err (policy \<noteq> ''strict'' \<and> policy \<noteq> ''lenient'')
                (''pin.invalidation_policy must be '' @ [CHR 0x27] @ ''strict'' @ [CHR 0x27] @ '' or ''
                 @ [CHR 0x27] @ ''lenient'' @ [CHR 0x27])))"

definition validate_handoff_create :: "json \<Rightarrow> validation_error list + unit" where
  "validate_handoff_create payload =
     (let e1 = when_err (trim (unwrap_or [] (get_str ''created_by'' payload)) = []) ''created_by is required'';
          e2 = when_err (get_strs ''accepted_finding_ids'' payload = []) ''accepted_finding_ids must be non-empty'';
          tasks = get_arr ''tasks'' payload;
          e3 = when_err (tasks = None \<or> tasks = Some []) ''tasks must be non-empty''
      in case tasks of
           None \<Rightarrow> Inl (e1 @ e2 @ e3)
         | Some ts \<Rightarrow>
             (let errors = e1 @ e2 @ e3
                    @ concat (map (\<lambda>(i, t). validate_task (Suc i) t) (enumerate 0 ts))
                    @ validate_target payload @ validate_pin payload
              in if errors = [] then Inr () else Inl errors))"

text \<open>Acceptance, without the bookkeeping of the messages.\<close>

definition task_ok :: "json \<Rightarrow> bool" where
  "task_ok t \<longleftrightarrow>
     get_strs ''source_finding_ids'' t \<noteq> [] \<and> evidence_refs t \<noteq> []
     \<and> (get_strs ''touches_paths'' t \<noteq> [] \<or> has_evidence_uri (evidence_refs t))"

lemma validate_task_ok: "validate_task n t = [] \<longleftrightarrow> task_ok t"
  by (auto simp: validate_task_def task_ok_def)

lemma validate_tasks_ok:
  "concat (map (\<lambda>(i, t). validate_task (f i) t) (enumerate k ts)) = [] \<longleftrightarrow> list_all task_ok ts"
  by (induction ts arbitrary: k) (auto simp: validate_task_ok)

lemma validate_handoff_create_iff:
  "validate_handoff_create payload = Inr () \<longleftrightarrow>
     trim (unwrap_or [] (get_str ''created_by'' payload)) \<noteq> []
     \<and> get_strs ''accepted_finding_ids'' payload \<noteq> []
     \<and> (\<exists>ts. get_arr ''tasks'' payload = Some ts \<and> ts \<noteq> [] \<and> list_all task_ok ts)
     \<and> validate_target payload = [] \<and> validate_pin payload = []"
  using validate_tasks_ok [of Suc 0]
  by (auto simp: validate_handoff_create_def Let_def split: option.splits)

lemma validate_handoff_create_nonempty: "validate_handoff_create payload = Inl es \<Longrightarrow> es \<noteq> []"
  by (auto simp: validate_handoff_create_def Let_def split: option.splits if_splits)

end
