(* ===== verification/Handoff.thy ===== *)
theory Handoff
  imports Handoff_Packet Handoff_Validate
begin

text \<open>
  \<open>apps/local-bridge/src/handoff/mod.rs\<close>: the handoff service. An operation takes the host, the
  clock and the registry, and returns the error (code and message) or the packet with its
  events, together with the registry it leaves. The two reads of the registry around an update
  are one atomic step here; the section on races separates them.
\<close>

section \<open>Payloads\<close>

definition connector_json :: "connector_snapshot \<Rightarrow> json" where
  "connector_json c =
     JObj ([(''connectorId'', JStr (cs_connector_id c)), (''kind'', JStr (cs_kind c)),
            (''snapshotId'', JStr (cs_snapshot_id c)), (''capturedAt'', JStr (cs_captured_at c))]
           @ opt_field ''etag'' (cs_etag c))"

text \<open>\<open>pin_to_payload\<close>, with the aliases kept for the front end.\<close>

definition pin_payload :: "handoff_pin \<Rightarrow> json" where
  "pin_payload p =
     JObj [(''repo_ref'', JStr (pin_repo_ref p)), (''base_commit_sha'', JStr (pin_base_commit_sha p)),
           (''worktree_digest'', JStr (pin_worktree_digest p)),
           (''assessment_snapshot_at'', JStr (pin_assessment_snapshot_at p)),
           (''connector_snapshots'', JArr (map connector_json (pin_connector_snapshots p))),
           (''expires_at'', JStr (pin_expires_at p)),
           (''invalidate_on_repo_change'', JBool (pin_invalidate_on_repo_change p)),
           (''invalidation_policy'', JStr (pin_policy_str (pin_policy p))),
           (''base_sha'', JStr (pin_base_commit_sha p)),
           (''captured_at'', JStr (pin_assessment_snapshot_at p)),
           (''policy'', JStr (pin_policy_str (pin_policy p)))]"

definition task_json :: "packet_task \<Rightarrow> json" where
  "task_json t =
     JObj ([(''id'', JStr (pt_id t)), (''title'', JStr (pt_title t)), (''rationale'', JStr (pt_rationale t)),
            (''sourceFindingIds'', json_strs (pt_source_finding_ids t)),
            (''evidenceRefs'', JArr (pt_evidence_refs t)), (''steps'', json_strs (pt_steps t)),
            (''constraints'', json_strs (pt_constraints t)), (''riskNotes'', json_strs (pt_risk_notes t))]
           @ opt_field ''estEffort'' (pt_est_effort t)
           @ [(''dependsOn'', json_strs (pt_depends_on t)), (''touchesPaths'', json_strs (pt_touches_paths t)),
              (''requiresApprovalPerStep'', JBool (pt_requires_approval_per_step t)),
              (''rollbackSteps'', json_strs (pt_rollback_steps t))])"

definition target_json :: "handoff_target \<Rightarrow> json" where
  "target_json t =
     JObj ([(''kind'', JStr (ht_kind t)), (''executorProfileId'', JStr (ht_executor_profile_id t))]
           @ opt_field ''sessionTitle'' (ht_session_title t))"

definition approval_json :: "handoff_approval \<Rightarrow> json" where
  "approval_json a =
     JObj ([(''required'', JBool (ha_required a)), (''approvers'', json_strs (ha_approvers a))]
           @ opt_field ''approverNotes'' (ha_approver_notes a) @ opt_field ''approvedAt'' (ha_approved_at a)
           @ [(''twoParty'', JBool (ha_two_party a)), (''requiredRoles'', json_strs (ha_required_roles a))])"

definition signer_json :: "signer \<Rightarrow> json" where
  "signer_json s =
     JObj ([(''name'', JStr (sg_name s)), (''role'', JStr (sg_role s)), (''signedAt'', JStr (sg_signed_at s))]
           @ opt_field ''reason'' (sg_reason s))"

definition history_json :: "history_entry \<Rightarrow> json" where
  "history_json e =
     JObj ([(''state'', JStr (he_state e)), (''at'', JStr (he_at e))]
           @ opt_field ''by'' (he_by e) @ opt_field ''reason'' (he_reason e))"

definition progress_json :: "task_progress \<Rightarrow> json" where
  "progress_json t =
     JObj ([(''taskId'', JStr (tp_task_id t)), (''status'', JStr (tp_status t)),
            (''updatedAt'', JStr (tp_updated_at t)), (''completed'', JUint (unat (tp_completed t))),
            (''total'', JUint (unat (tp_total t)))] @ opt_field ''message'' (tp_message t))"

definition build_upsert_payload :: "packet \<Rightarrow> json" where
  "build_upsert_payload p =
     JObj [(''packet_id'', JStr (pk_id p)), (''title'', JStr (pk_title p)),
           (''summary'', json_opt JStr (pk_summary p)), (''source_run_ids'', json_strs (pk_source_run_ids p)),
           (''accepted_finding_ids'', json_strs (pk_accepted_finding_ids p)),
           (''created_by'', JStr (pk_created_by p)), (''created_at'', JStr (pk_created_at p)),
           (''pin'', pin_payload (pk_pin p)), (''tasks'', JArr (map task_json (pk_tasks p))),
           (''order_hint'', json_opt json_strs (pk_order_hint p)), (''target'', target_json (pk_target p)),
           (''approval'', approval_json (pk_approval p)), (''status'', JStr (packet_status_str (pk_status p))),
           (''signers'', JArr (map signer_json (pk_signers p))),
           (''required_signers'', JUint (unat (pk_required_signers p))),
           (''state_history'', JArr (map history_json (pk_state_history p))),
           (''execution_session_id'', json_opt JStr (pk_execution_session_id p)),
           (''execution_progress'',
              json_opt (\<lambda>m. JObj (map (\<lambda>(k, v). (k, progress_json v)) m)) (pk_execution_progress p)),
           (''execution_outcome'', json_opt id (pk_execution_outcome p)),
           (''convergence_count'', JUint (unat (pk_convergence_count p))),
           (''updated_at'', JStr (pk_updated_at p))]"

definition status_event :: "clock \<Rightarrow> string \<Rightarrow> packet \<Rightarrow> server_event" where
  "status_event clk sid p =
     mk_event sid ''handoff.status''
       (JObj [(''packet_id'', JStr (pk_id p)), (''status'', JStr (packet_status_str (pk_status p)))])
       (now_iso clk)"

definition upsert_event :: "clock \<Rightarrow> string \<Rightarrow> packet \<Rightarrow> server_event" where
  "upsert_event clk sid p = mk_event sid ''handoff.upserted'' (build_upsert_payload p) (now_iso clk)"

definition failed_outcome :: "string \<Rightarrow> bool" where
  "failed_outcome status \<longleftrightarrow> trim status \<in> {''failed'', ''cancelled''}"

definition execution_state_from_outcome_status :: "string \<Rightarrow> packet_status" where
  "execution_state_from_outcome_status status = (if failed_outcome status then Failed else Completed)"

definition execution_terminal_event_type :: "string \<Rightarrow> string" where
  "execution_terminal_event_type status =
     (if failed_outcome status then ''handoff.failed'' else ''handoff.completed'')"

text \<open>The prompt of the executor session.\<close>

definition prompt_list :: "string \<Rightarrow> string list \<Rightarrow> string" where
  "prompt_list heading xs =
     (if xs = [] then [] else ''   '' @ heading @ '':'' @ nl @ concat (map (\<lambda>s. ''   - '' @ s @ nl) xs))"

definition prompt_task :: "host \<Rightarrow> nat \<Rightarrow> packet_task \<Rightarrow> string" where
  "prompt_task h i t =
     dec_digits (Suc i) @ ''. '' @ pt_id t @ '' ('' @ pt_title t @ '')'' @ nl
     @ (if pt_rationale t = [] then [] else ''   Rationale: '' @ pt_rationale t @ nl)
     @ (if pt_evidence_refs t = [] then []
        else ''   Evidence refs: '' @ str_join '', '' (map (host_json h) (pt_evidence_refs t)) @ nl)
     @ prompt_list ''Steps'' (pt_steps t) @ prompt_list ''Constraints'' (pt_constraints t)
     @ prompt_list ''Touches paths'' (pt_touches_paths t) @ prompt_list ''Rollback'' (pt_rollback_steps t)"

definition build_executor_initial_prompt :: "host \<Rightarrow> packet \<Rightarrow> string" where
  "build_executor_initial_prompt h p =
     ''VAC Web Handoff Packet'' @ nl @ nl
     @ ''Packet: '' @ pk_id p @ nl @ ''Title: '' @ pk_title p @ nl
     @ ''Pinned repo: '' @ pin_repo_ref (pk_pin p) @ '' @ '' @ pin_base_commit_sha (pk_pin p) @ nl
     @ ''Executor profile: '' @ ht_executor_profile_id (pk_target p) @ nl @ nl
     @ ''Rules:'' @ nl @ ''- Execute only the tasks listed below.'' @ nl
     @ ''- Respect constraints and touches_paths.'' @ nl @ ''- Do not expand scope.'' @ nl
     @ ''- Emit task progress events when each task starts/completes/fails.'' @ nl @ nl
     @ ''Tasks:'' @ nl
     @ (if pk_tasks p = [] then ''- (none)'' @ nl
        else concat (map (\<lambda>(i, t). prompt_task h i t) (enumerate 0 (pk_tasks p))))"

section \<open>Creation\<close>

type_synonym 'a outcome = "(string \<times> string) + 'a"

definition pin_field :: "string list \<Rightarrow> json \<Rightarrow> string option" where
  "pin_field ks payload = Option.bind (Option.bind (jget ''pin'' payload) (jget_any ks)) as_str"

definition parse_connector :: "clock \<Rightarrow> json \<Rightarrow> connector_snapshot option" where
  "parse_connector clk s =
     (case (get_str ''connector_id'' s, get_str ''snapshot_id'' s) of
        (Some cid, Some snap) \<Rightarrow>
          Some \<lparr>cs_connector_id = cid, cs_kind = unwrap_or ''unknown'' (get_str ''kind'' s),
                cs_snapshot_id = snap, cs_captured_at = unwrap_or (now_iso clk) (get_str ''captured_at'' s),
                cs_etag = get_str ''etag'' s\<rparr>
      | _ \<Rightarrow> None)"

definition parse_packet_task :: "json \<Rightarrow> packet_task" where
  "parse_packet_task t =
     \<lparr>pt_id = unwrap_or ''task'' (get_str ''id'' t), pt_title = unwrap_or ''Task'' (get_str ''title'' t),
      pt_rationale = unwrap_or [] (get_str ''rationale'' t),
      pt_source_finding_ids = get_strs ''source_finding_ids'' t,
      pt_evidence_refs = unwrap_or [] (get_arr ''evidence_refs'' t),
      pt_steps = get_strs ''steps'' t, pt_constraints = get_strs ''constraints'' t,
      pt_risk_notes = get_strs ''risk_notes'' t, pt_est_effort = get_str ''est_effort'' t,
      pt_depends_on = get_strs ''depends_on'' t, pt_touches_paths = get_strs ''touches_paths'' t,
      pt_requires_approval_per_step =
        unwrap_or False (Option.bind (jget_any [''requires_approval_per_step'', ''requiresApprovalPerStep''] t) as_bool),
      pt_rollback_steps = get_strs ''rollback_steps'' t\<rparr>"

definition target_field :: "string list \<Rightarrow> json \<Rightarrow> string option" where
  "target_field ks payload = Option.bind (Option.bind (jget ''target'' payload) (jget_any ks)) as_str"

definition parse_target :: "json \<Rightarrow> handoff_target" where
  "parse_target payload =
     \<lparr>ht_kind = unwrap_or ''dispatch_to_local_vac'' (target_field [''kind''] payload),
      ht_executor_profile_id =
        unwrap_or [] (target_field [''executor_profile_id'', ''executorProfileId'', ''profile_id''] payload),
      ht_session_title = target_field [''session_title'', ''sessionTitle''] payload\<rparr>"

definition create_pin :: "host \<Rightarrow> clock \<Rightarrow> string \<Rightarrow> json \<Rightarrow> handoff_pin" where
  "create_pin h clk root payload =
     compute_pin h clk
       \<lparr>po_project_root = root, po_repo_ref = None, po_base_commit_sha = None,
        po_assessment_snapshot_at =
          pin_field [''assessment_snapshot_at'', ''assessmentSnapshotAt'', ''captured_at''] payload,
        po_connector_snapshots =
          unwrap_or [] (map_option (List.map_filter (parse_connector clk))
            (Option.bind (jget ''pin'' payload) (get_arr ''connector_snapshots''))),
        po_policy = unwrap_or Strict (map_option pin_policy_from_str
          (pin_field [''invalidation_policy'', ''invalidationPolicy'', ''policy''] payload))\<rparr>"

definition new_packet :: "clock \<Rightarrow> string \<Rightarrow> string \<Rightarrow> json \<Rightarrow> handoff_pin \<Rightarrow> packet" where
  "new_packet clk ulid author payload pin =
     (let ts = now_iso clk;
          tasks = unwrap_or [] (map_option (map parse_packet_task) (get_arr ''tasks'' payload));
          target = parse_target payload;
          two_party = (list_ex pt_requires_approval_per_step tasks
                       \<or> starts_with (ht_executor_profile_id target) ''executor.release@'')
      in \<lparr>pk_id = ''pkt_'' @ ulid,
          pk_title = unwrap_or ''Handoff'' (get_str ''title'' payload),
          pk_summary = get_str ''summary'' payload,
          pk_source_run_ids = get_strs ''source_run_ids'' payload,
          pk_accepted_finding_ids = get_strs ''accepted_finding_ids'' payload,
          pk_created_by = author, pk_created_at = ts, pk_pin = pin, pk_tasks = tasks,
          pk_order_hint = (if tasks = [] then None else Some (map pt_id tasks)),
          pk_target = target,
          pk_approval = \<lparr>ha_required = True, ha_approvers = [], ha_approver_notes = None,
             ha_approved_at = None, ha_two_party = two_party,
             ha_required_roles = (if two_party then [''approver''] else [])\<rparr>,
          pk_status = PendingApproval,
          pk_state_history =
            [\<lparr>he_state = ''draft'', he_at = ts, he_by = Some author, he_reason = None\<rparr>,
             \<lparr>he_state = ''pending_approval'', he_at = ts, he_by = Some author, he_reason = Some ''created''\<rparr>],
          pk_signers = [\<lparr>sg_name = author, sg_role = ''author'', sg_signed_at = ts, sg_reason = None\<rparr>],
          pk_required_signers = (if two_party then 2 else 1),
          pk_execution_session_id = None, pk_execution_progress = None, pk_execution_outcome = None,
          pk_convergence_count = 0, pk_updated_at = ts\<rparr>)"

definition create_handoff ::
    "host \<Rightarrow> clock \<Rightarrow> string \<Rightarrow> string \<Rightarrow> string \<Rightarrow> string \<Rightarrow> json \<Rightarrow> registry
      \<Rightarrow> (packet \<times> server_event list) outcome \<times> registry" where
  "create_handoff h clk ulid root sid author payload r =
     (case validate_handoff_create payload of
        Inl errors \<Rightarrow>
          (Inl (case errors of e # _ \<Rightarrow> ve_code e | [] \<Rightarrow> ''handoff.invalid_payload'',
                str_join ''; '' (map ve_message errors)), r)
      | Inr _ \<Rightarrow>
          (let pin = create_pin h clk root payload in
           if pin_policy pin = Strict
              \<and> (pin_repo_ref pin = [] \<or> pin_base_commit_sha pin = [] \<or> pin_worktree_digest pin = [])
           then (Inl (''handoff.pin_compute_failed'',
                   ''could not derive repo identity from project_root via git; ensure the session is rooted in a git repository or relax pin.invalidation_policy to '' @ [CHR 0x27] @ ''lenient'' @ [CHR 0x27]), r)
           else (let p = new_packet clk ulid author payload pin in
                 (Inr (p, [upsert_event clk sid p, status_event clk sid p]), reg_insert p r))))"


section \<open>Approval and rejection\<close>

abbreviation not_found :: "string \<Rightarrow> (string \<times> string) + 'a" where
  "not_found i \<equiv> Inl (''handoff.not_found'', ''packet '' @ i @ '' not found'')"

text \<open>An update of the registry followed by the second read of the packet.\<close>

definition update_packet :: "string \<Rightarrow> (packet \<Rightarrow> packet) \<Rightarrow> registry \<Rightarrow> (packet \<times> registry) option" where
  "update_packet i f r =
     (case reg_update i f r of
        None \<Rightarrow> None
      | Some r' \<Rightarrow> (case reg_get r' i of None \<Rightarrow> None | Some p \<Rightarrow> Some (p, r')))"

definition push_history :: "string \<Rightarrow> string \<Rightarrow> string option \<Rightarrow> string option \<Rightarrow> packet \<Rightarrow> packet" where
  "push_history state at by' reason p =
     p\<lparr>pk_state_history := pk_state_history p
         @ [\<lparr>he_state = state, he_at = at, he_by = by', he_reason = reason\<rparr>]\<rparr>"

definition signed_by :: "host \<Rightarrow> string \<Rightarrow> packet \<Rightarrow> bool" where
  "signed_by h actor p \<longleftrightarrow> list_ex (\<lambda>s. canonical_signer_id h (sg_name s) = actor) (pk_signers p)"

text \<open>The checks of \<open>approve_handoff\<close> on the packet it read.\<close>

definition approve_check :: "host \<Rightarrow> string \<Rightarrow> packet \<Rightarrow> (string \<times> string) option" where
  "approve_check h name p =
     (if trim name = [] then Some (''handoff.invalid_payload'', ''approver name is required'')
      else if canonical_signer_id h (pk_created_by p) = canonical_signer_id h name
        then Some (''handoff.self_sign_denied'', ''author cannot approve their own handoff packet'')
      else if pk_status p \<noteq> PendingApproval
        then Some (''handoff.invalid_state'',
          ''approve requires status=pending_approval, got '' @ packet_status_str (pk_status p))
      else if signed_by h (canonical_signer_id h name) p
        then Some (''handoff.duplicate_signer'', ''signer '' @ trim name @ '' has already approved this packet'')
      else None)"

definition enough_signers :: "packet \<Rightarrow> bool" where
  "enough_signers p \<longleftrightarrow> (of_nat (length (pk_signers p)) :: 32 word) \<ge> max (pk_required_signers p) 1"

text \<open>The closure \<open>approve_handoff\<close> passes to the registry.\<close>

definition approve_update ::
    "host \<Rightarrow> clock \<Rightarrow> string \<Rightarrow> string \<Rightarrow> string option \<Rightarrow> packet \<Rightarrow> packet" where
  "approve_update h clk name role reason p =
     (let ts = now_iso clk; trimmed = trim name; actor = canonical_signer_id h name;
          p1 = p\<lparr>pk_signers := pk_signers p @
                 [\<lparr>sg_name = trimmed, sg_role = (if trim role = [] then ''approver'' else role),
                   sg_signed_at = ts, sg_reason = reason\<rparr>]\<rparr>;
          a = pk_approval p1;
          p2 = (if list_ex (\<lambda>x. canonical_signer_id h x = actor) (ha_approvers a) then p1
                else p1\<lparr>pk_approval := a\<lparr>ha_approvers := ha_approvers a @ [trimmed]\<rparr>\<rparr>);
          p3 = (if pk_status p2 = PendingApproval \<and> enough_signers p2
                then push_history ''approved'' ts (Some trimmed) None
                       (p2\<lparr>pk_status := Approved,
                           pk_approval := (pk_approval p2)\<lparr>ha_approved_at := Some ts\<rparr>\<rparr>)
                else p2)
      in p3\<lparr>pk_updated_at := ts\<rparr>)"

definition approve_handoff ::
    "host \<Rightarrow> clock \<Rightarrow> string \<Rightarrow> string \<Rightarrow> string \<Rightarrow> string \<Rightarrow> string option \<Rightarrow> registry
      \<Rightarrow> (packet \<times> server_event list \<times> bool) outcome \<times> registry" where
  "approve_handoff h clk sid i name role reason r =
     (case reg_get r i of
        None \<Rightarrow> (not_found i, r)
      | Some p \<Rightarrow>
          (case approve_check h name p of
             Some err \<Rightarrow> (Inl err, r)
           | None \<Rightarrow>
               (case update_packet i (approve_update h clk name role reason) r of
                  None \<Rightarrow> (not_found i, r)
                | Some (p', r') \<Rightarrow>
                    (Inr (p', [upsert_event clk sid p', status_event clk sid p'],
                          pk_status p = PendingApproval \<and> pk_status p' = Approved), r'))))"

definition reject_update :: "clock \<Rightarrow> string \<Rightarrow> string option \<Rightarrow> packet \<Rightarrow> packet" where
  "reject_update clk name reason p =
     (push_history ''rejected'' (now_iso clk) (Some (trim name)) reason (p\<lparr>pk_status := Rejected\<rparr>))
       \<lparr>pk_updated_at := now_iso clk\<rparr>"

definition reject_handoff ::
    "clock \<Rightarrow> string \<Rightarrow> string \<Rightarrow> string \<Rightarrow> string option \<Rightarrow> registry
      \<Rightarrow> (packet \<times> server_event list) outcome \<times> registry" where
  "reject_handoff clk sid i name reason r =
     (case reg_get r i of
        None \<Rightarrow> (not_found i, r)
      | Some p \<Rightarrow>
          if trim name = [] then (Inl (''handoff.invalid_payload'', ''rejector name is required''), r)
          else if pk_status p \<noteq> PendingApproval
            then (Inl (''handoff.invalid_state'',
                    ''reject requires status=pending_approval, got '' @ packet_status_str (pk_status p)), r)
          else
            (case update_packet i (reject_update clk name reason) r of
               None \<Rightarrow> (not_found i, r)
             | Some (p', r') \<Rightarrow> (Inr (p', [upsert_event clk sid p', status_event clk sid p']), r')))"

section \<open>Dispatch\<close>

datatype dispatch_error =
    DispatchNotFound
  | NotApproved
  | PinIncomplete
  | PinExpired
  | PinDrift string
  | ExecutorBusy string string

fun dispatch_error_code :: "dispatch_error \<Rightarrow> string" where
  "dispatch_error_code DispatchNotFound = ''handoff.not_found''"
| "dispatch_error_code NotApproved = ''handoff.not_approved''"
| "dispatch_error_code PinIncomplete = ''handoff.pin_incomplete''"
| "dispatch_error_code PinExpired = ''handoff.pin_expired''"
| "dispatch_error_code (PinDrift _) = ''handoff.pin_drift''"
| "dispatch_error_code (ExecutorBusy _ _) = ''handoff.executor_busy''"

definition current_pin :: "host \<Rightarrow> clock \<Rightarrow> string \<Rightarrow> packet \<Rightarrow> handoff_pin" where
  "current_pin h clk root p =
     compute_pin h clk \<lparr>po_project_root = root, po_repo_ref = None, po_base_commit_sha = None,
       po_assessment_snapshot_at = Some (pin_assessment_snapshot_at (pk_pin p)),
       po_connector_snapshots = [], po_policy = Strict\<rparr>"

definition arrow :: string where "arrow = map char_of [226, 134, 146 :: nat]"

definition drift_reason :: "handoff_pin \<Rightarrow> handoff_pin \<Rightarrow> string" where
  "drift_reason old cur =
     ''strict pin drift: repo_ref '' @ pin_repo_ref old @ arrow @ pin_repo_ref cur
     @ '', base_sha '' @ take_chars 12 (pin_base_commit_sha old) @ arrow @ take_chars 12 (pin_base_commit_sha cur)
     @ '', digest '' @ take_chars 12 (pin_worktree_digest old) @ arrow @ take_chars 12 (pin_worktree_digest cur)"

definition check_dispatch ::
    "host \<Rightarrow> clock \<Rightarrow> string \<Rightarrow> string \<Rightarrow> registry \<Rightarrow> dispatch_error + packet" where
  "check_dispatch h clk root i r =
     (case reg_get r i of
        None \<Rightarrow> Inl DispatchNotFound
      | Some p \<Rightarrow>
          if pk_status p \<noteq> Approved then Inl NotApproved
          else if \<not> pin_is_complete (pk_pin p) then Inl PinIncomplete
          else if pin_is_expired clk (pk_pin p) then Inl PinExpired
          else
            (let cur = current_pin h clk root p in
             if pin_policy (pk_pin p) = Strict
                \<and> (pin_repo_ref cur \<noteq> pin_repo_ref (pk_pin p)
                   \<or> pin_base_commit_sha cur \<noteq> pin_base_commit_sha (pk_pin p)
                   \<or> pin_worktree_digest cur \<noteq> pin_worktree_digest (pk_pin p))
             then Inl (PinDrift (drift_reason (pk_pin p) cur))
             else Inr p))"

definition dispatch_update :: "clock \<Rightarrow> packet \<Rightarrow> packet" where
  "dispatch_update clk p =
     (push_history ''dispatched'' (now_iso clk) None (Some ''dispatch_allowed'') (p\<lparr>pk_status := Dispatched\<rparr>))
       \<lparr>pk_updated_at := now_iso clk\<rparr>"

definition mark_dispatched ::
    "clock \<Rightarrow> string \<Rightarrow> string \<Rightarrow> registry \<Rightarrow> (packet \<times> server_event list) outcome \<times> registry" where
  "mark_dispatched clk sid i r =
     (case reg_get r i of
        None \<Rightarrow> (not_found i, r)
      | Some p \<Rightarrow>
          if pk_status p \<noteq> Approved
            then (Inl (''handoff.invalid_state'',
                    ''dispatch requires status=approved, got '' @ packet_status_str (pk_status p)), r)
          else
            (case update_packet i (dispatch_update clk) r of
               None \<Rightarrow> (not_found i, r)
             | Some (p', r') \<Rightarrow> (Inr (p', [upsert_event clk sid p', status_event clk sid p']), r')))"

definition dispatch_rejected_update :: "clock \<Rightarrow> string \<Rightarrow> packet \<Rightarrow> packet" where
  "dispatch_rejected_update clk reason p =
     (push_history ''dispatch_rejected'' (now_iso clk) None (Some reason) p)\<lparr>pk_updated_at := now_iso clk\<rparr>"

definition record_dispatch_rejected ::
    "clock \<Rightarrow> string \<Rightarrow> string \<Rightarrow> string \<Rightarrow> string option \<Rightarrow> registry
      \<Rightarrow> (packet \<times> server_event list) outcome \<times> registry" where
  "record_dispatch_rejected clk sid i tag detail r =
     (let reason = (case detail of Some d \<Rightarrow> if d \<noteq> [] then tag @ '': '' @ d else tag | None \<Rightarrow> tag) in
      case update_packet i (dispatch_rejected_update clk reason) r of
        None \<Rightarrow> (not_found i, r)
      | Some (p', r') \<Rightarrow> (Inr (p', [upsert_event clk sid p', status_event clk sid p']), r'))"

section \<open>Execution\<close>

definition bind_update :: "clock \<Rightarrow> string \<Rightarrow> packet \<Rightarrow> packet" where
  "bind_update clk ex p =
     (push_history ''executing'' (now_iso clk) None (Some ''executor_session_bound'')
       (p\<lparr>pk_execution_session_id := Some ex,
          pk_execution_progress := Some (unwrap_or [] (pk_execution_progress p)),
          pk_status := Executing\<rparr>))\<lparr>pk_updated_at := now_iso clk\<rparr>"

definition bind_executor_session ::
    "clock \<Rightarrow> string \<Rightarrow> string \<Rightarrow> string \<Rightarrow> registry \<Rightarrow> (packet \<times> server_event list) outcome \<times> registry" where
  "bind_executor_session clk sid i ex r =
     (case reg_get r i of
        None \<Rightarrow> (not_found i, r)
      | Some p \<Rightarrow>
          if pk_status p \<noteq> Dispatched
            then (Inl (''handoff.invalid_state'',
                    ''bind_executor_session requires status=dispatched, got '' @ packet_status_str (pk_status p)), r)
          else
            (case update_packet i (bind_update clk ex) r of
               None \<Rightarrow> (not_found i, r)
             | Some (p', r') \<Rightarrow> (Inr (p', [upsert_event clk sid p', status_event clk sid p']), r')))"

definition progress_update :: "clock \<Rightarrow> task_progress \<Rightarrow> string \<Rightarrow> packet \<Rightarrow> packet" where
  "progress_update clk tp ex p =
     (let m = AList.update (tp_task_id tp) tp (unwrap_or [] (pk_execution_progress p)) in
      p\<lparr>pk_execution_progress := Some m,
        pk_execution_session_id := Some (unwrap_or ex (pk_execution_session_id p)),
        pk_updated_at := now_iso clk\<rparr>)"

definition record_execution_progress ::
    "clock \<Rightarrow> string \<Rightarrow> string \<Rightarrow> task_progress \<Rightarrow> string \<Rightarrow> registry
      \<Rightarrow> (packet \<times> server_event list) outcome \<times> registry" where
  "record_execution_progress clk sid i upd ex r =
     (case reg_get r i of
        None \<Rightarrow> (not_found i, r)
      | Some p \<Rightarrow>
          if pk_status p \<notin> {Dispatched, Executing}
            then (Inl (''handoff.invalid_state'',
                    ''execution progress requires status=dispatched|executing, got '' @ packet_status_str (pk_status p)), r)
          else if trim (tp_task_id upd) = []
            then (Inl (''handoff.invalid_payload'', ''task_id is required''), r)
          else
            (let status = (if trim (tp_status upd) = [] then ''started'' else trim (tp_status upd));
                 tp = \<lparr>tp_task_id = trim (tp_task_id upd), tp_status = status, tp_updated_at = now_iso clk,
                       tp_completed = tp_completed upd, tp_total = tp_total upd, tp_message = tp_message upd\<rparr>
             in case update_packet i (progress_update clk tp ex) r of
                  None \<Rightarrow> (not_found i, r)
                | Some (p', r') \<Rightarrow>
                    (Inr (p', [upsert_event clk sid p',
                        mk_event sid ''handoff.execution_progress''
                          (JObj [(''packet_id'', JStr i), (''executor_session_id'', JStr ex),
                                 (''task_id'', JStr (tp_task_id tp)), (''current_task'', JStr (tp_task_id tp)),
                                 (''status'', JStr status), (''completed'', JUint (unat (tp_completed tp))),
                                 (''total'', JUint (unat (tp_total tp))), (''updated_at'', JStr (now_iso clk)),
                                 (''message'', json_opt JStr (tp_message tp))]) (now_iso clk)]), r')))"

definition complete_update ::
    "clock \<Rightarrow> string \<Rightarrow> json \<Rightarrow> packet_status \<Rightarrow> string \<Rightarrow> packet \<Rightarrow> packet" where
  "complete_update clk ex payload terminal reason p =
     (push_history (packet_status_str terminal) (now_iso clk) None (Some reason)
       (p\<lparr>pk_execution_session_id := Some ex, pk_execution_outcome := Some payload,
          pk_status := terminal\<rparr>))\<lparr>pk_updated_at := now_iso clk\<rparr>"

definition complete_execution ::
    "host \<Rightarrow> clock \<Rightarrow> string \<Rightarrow> string \<Rightarrow> string \<Rightarrow> execution_outcome \<Rightarrow> registry
      \<Rightarrow> (packet \<times> server_event list) outcome \<times> registry" where
  "complete_execution h clk sid i ex out r =
     (case reg_get r i of
        None \<Rightarrow> (not_found i, r)
      | Some p \<Rightarrow>
          if pk_status p \<notin> {Dispatched, Executing}
            then (Inl (''handoff.invalid_state'',
                    ''complete_execution requires status=dispatched|executing, got '' @ packet_status_str (pk_status p)), r)
          else
            (let status = trim (eo_status out);
                 terminal = execution_state_from_outcome_status status;
                 reason = ''execution_'' @ to_lowercase (host_unicode_lower h) status;
                 payload = execution_outcome_payload out
             in case update_packet i (complete_update clk ex payload terminal reason) r of
                  None \<Rightarrow> (not_found i, r)
                | Some (p', r') \<Rightarrow>
                    (Inr (p', [upsert_event clk sid p', status_event clk sid p',
                        mk_event sid (execution_terminal_event_type status)
                          (JObj [(''packet_id'', JStr i), (''executor_session_id'', JStr ex),
                                 (''status'', JStr (packet_status_str terminal)), (''outcome'', payload),
                                 (''updated_at'', JStr (now_iso clk))]) (now_iso clk)]), r')))"

section \<open>The service as a machine\<close>

text \<open>\<open>Create\<close> carries the fresh ULID; identifiers are never reused, so a taken one is no call.\<close>

datatype handoff_op =
    Create string string string json
  | Approve string string string "string option"
  | Reject string string "string option"
  | MarkDispatched string
  | RecordRejected string string "string option"
  | Bind string string
  | Progress string task_progress string
  | Complete string string execution_outcome

fun handoff_step :: "host \<Rightarrow> registry \<Rightarrow> clock \<times> string \<times> handoff_op \<Rightarrow> registry" where
  "handoff_step h r (clk, sid, Create ulid root author payload) =
     (if reg_get r (''pkt_'' @ ulid) = None then snd (create_handoff h clk ulid root sid author payload r) else r)"
| "handoff_step h r (clk, sid, Approve i name role reason) = snd (approve_handoff h clk sid i name role reason r)"
| "handoff_step h r (clk, sid, Reject i name reason) = snd (reject_handoff clk sid i name reason r)"
| "handoff_step h r (clk, sid, MarkDispatched i) = snd (mark_dispatched clk sid i r)"
| "handoff_step h r (clk, sid, RecordRejected i tag detail) = snd (record_dispatch_rejected clk sid i tag detail r)"
| "handoff_step h r (clk, sid, Bind i ex) = snd (bind_executor_session clk sid i ex r)"
| "handoff_step h r (clk, sid, Progress i upd ex) = snd (record_execution_progress clk sid i upd ex r)"
| "handoff_step h r (clk, sid, Complete i ex out) = snd (complete_execution h clk sid i ex out r)"


section \<open>What an operation does to one packet\<close>

text \<open>The abstract machine: the transitions the hand-off contract allows.\<close>

inductive status_step :: "packet_status \<Rightarrow> packet_status \<Rightarrow> bool" where
  approve: "status_step PendingApproval Approved"
| reject: "status_step PendingApproval Rejected"
| dispatch: "status_step Approved Dispatched"
| bind: "status_step Dispatched Executing"
| finish: "s = Dispatched \<or> s = Executing \<Longrightarrow> t = Completed \<or> t = Failed \<Longrightarrow> status_step s t"

code_pred status_step .

inductive_simps status_from_rejected [simp]: "status_step Rejected t"
inductive_simps status_from_completed [simp]: "status_step Completed t"
inductive_simps status_from_failed [simp]: "status_step Failed t"
inductive_cases status_stepE: "status_step s t"

declare status_step.intros(1-4) [simp]

lemma status_finish [simp]:
  "status_step Dispatched Completed" "status_step Dispatched Failed"
  "status_step Executing Completed" "status_step Executing Failed"
  by (auto intro: status_step.finish)

text \<open>The packet-level transitions, with the checks that guard them.\<close>

inductive packet_step :: "host \<Rightarrow> packet \<Rightarrow> packet \<Rightarrow> bool" for h where
  approve: "approve_check h name p = None \<Longrightarrow> packet_step h p (approve_update h clk name role reason p)"
| reject: "pk_status p = PendingApproval \<Longrightarrow> packet_step h p (reject_update clk name reason p)"
| dispatch: "pk_status p = Approved \<Longrightarrow> packet_step h p (dispatch_update clk p)"
| rejected: "packet_step h p (dispatch_rejected_update clk why p)"
| bind: "pk_status p = Dispatched \<Longrightarrow> packet_step h p (bind_update clk ex p)"
| progress: "packet_step h p (progress_update clk tp ex p)"
| finish: "pk_status p \<in> {Dispatched, Executing} \<Longrightarrow> t \<in> {Completed, Failed} \<Longrightarrow>
    packet_step h p (complete_update clk ex payload t why p)"

lemma update_packet_eq:
  "update_packet i f r = (case reg_get r i of None \<Rightarrow> None | Some p \<Rightarrow> Some (f p, AList.update i (f p) r))"
  by (simp add: update_packet_def reg_update_def reg_get_def update_conv' split: option.splits)

text \<open>An operation leaves the registry, adds a new pending packet, or takes one packet one step.\<close>

definition touches :: "host \<Rightarrow> registry \<Rightarrow> registry \<Rightarrow> bool" where
  "touches h r r' \<longleftrightarrow>
     (\<exists>i p p'. reg_get r i = Some p \<and> packet_step h p p' \<and> r' = AList.update i p' r)"

definition adds :: "host \<Rightarrow> registry \<Rightarrow> registry \<Rightarrow> bool" where
  "adds h r r' \<longleftrightarrow>
     (\<exists>clk ulid root author payload pin. let p = new_packet clk ulid author payload pin in
        reg_get r (pk_id p) = None \<and> r' = reg_insert p r
        \<and> validate_handoff_create payload = Inr () \<and> pin = create_pin h clk root payload)"

lemma touchesI: "reg_get r i = Some p \<Longrightarrow> packet_step h p p' \<Longrightarrow> touches h r (AList.update i p' r)"
  by (auto simp: touches_def)

lemma addsI:
  "reg_get r (pk_id (new_packet clk ulid author payload (create_pin h clk root payload))) = None \<Longrightarrow>
   validate_handoff_create payload = Inr () \<Longrightarrow>
   adds h r (reg_insert (new_packet clk ulid author payload (create_pin h clk root payload)) r)"
  unfolding adds_def Let_def by blast

lemma create_cases: "snd (create_handoff h clk ulid root sid author payload r) = r
   \<or> (snd (create_handoff h clk ulid root sid author payload r)
        = reg_insert (new_packet clk ulid author payload (create_pin h clk root payload)) r
      \<and> validate_handoff_create payload = Inr ())"
  by (auto simp: create_handoff_def Let_def split: sum.splits)

lemma handoff_step_cases:
  "handoff_step h r c = r \<or> adds h r (handoff_step h r c) \<or> touches h r (handoff_step h r c)"
proof -
  obtain clk sid op where c: "c = (clk, sid, op)" by (cases c)
  show ?thesis
  proof (cases op)
    case (Create ulid root author payload)
    have "pk_id (new_packet clk ulid author payload pin) = ''pkt_'' @ ulid" for pin
      by (simp add: new_packet_def Let_def)
    then show ?thesis
      using create_cases [of h clk ulid root sid author payload r]
      by (auto simp: c Create intro!: addsI)
  next
    case (Approve i name role reason)
    then show ?thesis
      by (auto simp: c approve_handoff_def update_packet_eq intro!: touchesI packet_step.approve split: option.splits)
  next
    case (Reject i name reason)
    then show ?thesis
      by (auto simp: c reject_handoff_def update_packet_eq intro!: touchesI packet_step.reject split: option.splits)
  next
    case (MarkDispatched i)
    then show ?thesis
      by (auto simp: c mark_dispatched_def update_packet_eq intro!: touchesI packet_step.dispatch split: option.splits)
  next
    case (RecordRejected i tag detail)
    then show ?thesis
      by (auto simp: c record_dispatch_rejected_def update_packet_eq Let_def
          intro!: touchesI packet_step.rejected split: option.splits)
  next
    case (Bind i ex)
    then show ?thesis
      by (auto simp: c bind_executor_session_def update_packet_eq intro!: touchesI packet_step.bind split: option.splits)
  next
    case (Progress i upd ex)
    then show ?thesis
      by (auto simp: c record_execution_progress_def update_packet_eq Let_def
          intro!: touchesI packet_step.progress split: option.splits)
  next
    case (Complete i ex out)
    then show ?thesis
      by (auto simp: c complete_execution_def update_packet_eq Let_def execution_state_from_outcome_status_def
          intro!: touchesI packet_step.finish split: option.splits)
  qed
qed

lemmas update_defs = approve_update_def reject_update_def dispatch_update_def dispatch_rejected_update_def
  bind_update_def progress_update_def complete_update_def push_history_def Let_def

lemma approve_check_None:
  "approve_check h name p = None \<longleftrightarrow>
     trim name \<noteq> [] \<and> canonical_signer_id h (pk_created_by p) \<noteq> canonical_signer_id h name
     \<and> pk_status p = PendingApproval \<and> \<not> signed_by h (canonical_signer_id h name) p"
  by (simp add: approve_check_def)

lemma packet_step_status: "packet_step h p p' \<Longrightarrow> pk_status p' = pk_status p \<or> status_step (pk_status p) (pk_status p')"
  by (cases rule: packet_step.cases)
    (auto simp: update_defs approve_check_None)

lemma packet_step_fixed:
  "packet_step h p p' \<Longrightarrow> pk_created_by p' = pk_created_by p \<and> pk_pin p' = pk_pin p \<and> pk_tasks p' = pk_tasks p
     \<and> pk_target p' = pk_target p \<and> pk_required_signers p' = pk_required_signers p \<and> pk_id p' = pk_id p
     \<and> prefix (pk_state_history p) (pk_state_history p')"
  by (cases rule: packet_step.cases) (auto simp: update_defs)


section \<open>The registry's invariant and order\<close>

text \<open>
  The first signer is the author; the others are approvers with pairwise different canonical
  ids. The threshold is 1 or 2 and counts the author, so one approval always decides.
\<close>

definition packet_ok :: "host \<Rightarrow> packet \<Rightarrow> bool" where
  "packet_ok h p \<longleftrightarrow>
     pk_signers p \<noteq> [] \<and> sg_name (hd (pk_signers p)) = pk_created_by p
     \<and> distinct (map (\<lambda>s. canonical_signer_id h (sg_name s)) (pk_signers p))
     \<and> pk_status p \<notin> {Draft, Invalidated, Expired}
     \<and> length (pk_signers p) = (if pk_status p \<in> {PendingApproval, Rejected} then 1 else 2)
     \<and> pk_required_signers p \<in> {1, 2}"

definition registry_ok :: "host \<Rightarrow> registry \<Rightarrow> bool" where
  "registry_ok h r \<longleftrightarrow> distinct_keys r \<and> alist.every (\<lambda>i p. packet_ok h p \<and> pk_id p = i) r"

definition packet_le :: "packet \<Rightarrow> packet \<Rightarrow> bool" where
  "packet_le p p' \<longleftrightarrow>
     status_step\<^sup>*\<^sup>* (pk_status p) (pk_status p')
     \<and> pk_created_by p' = pk_created_by p \<and> pk_pin p' = pk_pin p \<and> pk_tasks p' = pk_tasks p
     \<and> pk_target p' = pk_target p \<and> prefix (pk_state_history p) (pk_state_history p')"

definition registry_le :: "registry \<Rightarrow> registry \<Rightarrow> bool" where
  "registry_le r r' \<longleftrightarrow> (\<forall>i p. reg_get r i = Some p \<longrightarrow> (\<exists>p'. reg_get r' i = Some p' \<and> packet_le p p'))"

lemma canonical_trim [simp]: "canonical_signer_id h (trim n) = canonical_signer_id h n"
  by (simp add: canonical_signer_id_def)

lemma new_packet_ok: "packet_ok h (new_packet clk ulid author payload pin)"
  by (simp add: packet_ok_def new_packet_def Let_def)

lemma approve_update_status:
  assumes "pk_status p = PendingApproval" and "length (pk_signers p) = 1" and "pk_required_signers p \<in> {1, 2}"
  shows "pk_status (approve_update h clk name role reason p) = Approved"
  using assms by (auto simp: update_defs enough_signers_def max_def)

lemma approve_update_signers:
  "map (\<lambda>s. canonical_signer_id h (sg_name s)) (pk_signers (approve_update h clk name role reason p))
     = map (\<lambda>s. canonical_signer_id h (sg_name s)) (pk_signers p) @ [canonical_signer_id h name]"
  "length (pk_signers (approve_update h clk name role reason p)) = Suc (length (pk_signers p))"
  "pk_signers (approve_update h clk name role reason p) \<noteq> []"
  by (auto simp: update_defs)

lemma approve_update_author:
  "pk_signers p \<noteq> [] \<Longrightarrow> hd (pk_signers (approve_update h clk name role reason p)) = hd (pk_signers p)"
  by (auto simp: update_defs)

lemma packet_step_ok:
  assumes "packet_step h p p'" and "packet_ok h p"
  shows "packet_ok h p'"
  using assms(1)
proof cases
  case (approve name clk role reason)
  then have len: "length (pk_signers p) = 1" and st: "pk_status p = PendingApproval"
    using assms(2) by (auto simp: packet_ok_def approve_check_None)
  note fixed = packet_step_fixed [OF assms(1)]
  have "canonical_signer_id h name \<notin> set (map (\<lambda>s. canonical_signer_id h (sg_name s)) (pk_signers p))"
    using approve(2) by (auto simp: approve_check_None signed_by_def list_ex_iff)
  then show ?thesis
    using assms(2) len fixed approve_update_status [OF st len, of h clk name role reason]
      approve_update_signers [of h clk name role reason p]
    by (auto simp: packet_ok_def approve(1) approve_update_author)
qed (use assms(2) in \<open>auto simp: packet_ok_def update_defs\<close>)

lemma packet_le_refl: "packet_le p p"
  by (simp add: packet_le_def)

lemma packet_le_trans: "packet_le p q \<Longrightarrow> packet_le q r \<Longrightarrow> packet_le p r"
  by (auto simp: packet_le_def intro: prefix_order.trans)

lemma packet_step_le: "packet_step h p p' \<Longrightarrow> packet_le p p'"
  by (frule packet_step_status, drule packet_step_fixed) (auto simp: packet_le_def)

lemma handoff_step_ok:
  assumes "registry_ok h r"
  shows "registry_ok h (handoff_step h r c)"
proof -
  have r: "distinct_keys r" "alist.every (\<lambda>i p. packet_ok h p \<and> pk_id p = i) r"
    using assms by (simp_all add: registry_ok_def)
  consider "handoff_step h r c = r" | "adds h r (handoff_step h r c)" | "touches h r (handoff_step h r c)"
    using handoff_step_cases by blast
  then show ?thesis
  proof cases
    case 1
    then show ?thesis using assms by simp
  next
    case 2
    then show ?thesis
      using r by (auto simp: adds_def registry_ok_def reg_insert_def Let_def new_packet_ok
          intro!: alist.ok_put alist.every_put)
  next
    case 3
    then obtain i p p' where g: "reg_get r i = Some p" and s: "packet_step h p p'"
      and eq: "handoff_step h r c = AList.update i p' r" by (auto simp: touches_def)
    have "packet_ok h p \<and> pk_id p = i"
      using alist.everyD [OF r(2)] g by (simp add: reg_get_def)
    then show ?thesis
      using r packet_step_ok [OF s] packet_step_fixed [OF s]
      by (auto simp: eq registry_ok_def intro!: alist.ok_put alist.every_put)
  qed
qed

lemma registry_le_update:
  "reg_get r i = Some p \<Longrightarrow> packet_le p p' \<Longrightarrow> registry_le r (AList.update i p' r)"
  by (auto simp: registry_le_def reg_get_def update_conv' packet_le_refl)

lemma registry_le_insert: "reg_get r (pk_id p) = None \<Longrightarrow> registry_le r (reg_insert p r)"
  by (auto simp: registry_le_def reg_get_def reg_insert_def update_conv' packet_le_refl)

lemma registry_le_refl: "registry_le r r"
  by (auto simp: registry_le_def packet_le_refl)

lemma handoff_step_le: "registry_le r (handoff_step h r c)"
  using handoff_step_cases [of h r c]
  by (auto simp: adds_def touches_def Let_def registry_le_refl
      intro!: registry_le_update registry_le_insert dest: packet_step_le)

lemma registry_le_trans: "registry_le a b \<Longrightarrow> registry_le b c \<Longrightarrow> registry_le a c"
  unfolding registry_le_def by (meson packet_le_trans)

interpretation handoffs: monotone_system "handoff_step h" "registry_ok h" registry_le for h
  by unfold_locales
    (auto simp: handoff_step_ok handoff_step_le registry_le_refl intro: registry_le_trans)

lemma registry_ok_empty: "registry_ok h []"
  by (simp add: registry_ok_def alist.every_def)

lemma terminal_status: "status_step\<^sup>*\<^sup>* s t \<Longrightarrow> s \<in> {Rejected, Completed, Failed} \<Longrightarrow> t = s"
  by (induction rule: converse_rtranclp_induct) auto




section \<open>Dispatch is bound to the repository\<close>

text \<open>What git and the worktree say about a project: branch or tag, commit, digest.\<close>

definition repo_identity :: "host \<Rightarrow> string \<Rightarrow> string \<times> string \<times> string" where
  "repo_identity h root =
     (let from_git = (\<lambda>args pre. map_option (\<lambda>b. pre @ b) (filter_opt (\<lambda>b. b \<noteq> []) (git_output h root args)))
      in (unwrap_or [] (or_else (from_git [''branch'', ''--show-current''] ''branch:'')
            (from_git [''describe'', ''--tags'', ''--exact-match''] ''tag:'')),
          unwrap_or [] (git_output h root [''rev-parse'', ''HEAD'']),
          unwrap_or [] (compute_worktree_digest h root)))"

definition pin_identity :: "handoff_pin \<Rightarrow> string \<times> string \<times> string" where
  "pin_identity p = (pin_repo_ref p, pin_base_commit_sha p, pin_worktree_digest p)"

lemma create_pin_identity: "pin_identity (create_pin h clk root payload) = repo_identity h root"
  by (simp add: pin_identity_def create_pin_def compute_pin_def repo_identity_def Let_def)

lemma current_pin_identity: "pin_identity (current_pin h clk root p) = repo_identity h root"
  by (simp add: pin_identity_def current_pin_def compute_pin_def repo_identity_def Let_def)

lemma create_pin_expiry: "pin_expires_at (create_pin h clk root payload) = fmt_time clk (now clk + days_ns 7)"
  by (simp add: create_pin_def compute_pin_def Let_def)

lemma check_dispatch_iff:
  "check_dispatch h clk root i r = Inr p \<longleftrightarrow>
     reg_get r i = Some p \<and> can_dispatch clk p
     \<and> (pin_policy (pk_pin p) = Strict \<longrightarrow> repo_identity h root = pin_identity (pk_pin p))"
  using current_pin_identity [of h clk root p, symmetric]
  by (auto simp: check_dispatch_def can_dispatch_def pin_identity_def Let_def split: option.splits if_splits)

lemma create_handoff_Inr:
  assumes "create_handoff h clk ulid root sid author payload r = (Inr (p, evs), r')"
  shows "p = new_packet clk ulid author payload (create_pin h clk root payload)"
    and "reg_get r' (pk_id p) = Some p" and "r' = reg_insert p r"
  using assms by (auto simp: create_handoff_def Let_def reg_get_def reg_insert_def update_conv'
      split: sum.splits if_splits)

lemma new_packet_pin: "pk_pin (new_packet clk ulid author payload pin) = pin"
  "pk_status (new_packet clk ulid author payload pin) = PendingApproval"
  "pk_created_by (new_packet clk ulid author payload pin) = author"
  by (simp_all add: new_packet_def Let_def)

lemma approve_handoff_Inr:
  assumes "approve_handoff h clk sid i name role reason r = (Inr (p', evs, b), r')"
  obtains p where "reg_get r i = Some p" "approve_check h name p = None"
    "p' = approve_update h clk name role reason p" "reg_get r' i = Some p'" "r' = AList.update i p' r"
    "b = (pk_status p' = Approved)"
  using assms that
  by (auto simp: approve_handoff_def update_packet_eq approve_check_None reg_get_def update_conv' split: option.splits)




section \<open>Examples\<close>

definition example_host :: host where
  "example_host =
     \<lparr>host_git = (\<lambda>root args. if args = [''rev-parse'', ''HEAD''] then Some ''abc'' else Some ''main''),
      host_ls_files = (\<lambda>root. Some ''f''), host_read = (\<lambda>path. ''x''), host_sha256_hex = (\<lambda>bs. ''d''),
      host_utf8_lossy = id, host_unicode_lower = id, host_json = (\<lambda>_. ''{}'')\<rparr>"

definition example_task :: "bool \<Rightarrow> json" where
  "example_task per_step =
     JObj [(''id'', JStr ''t1''), (''source_finding_ids'', JArr [JStr ''f1'']),
           (''evidence_refs'', JArr [JObj [(''uri'', JStr ''u'')]]),
           (''requires_approval_per_step'', JBool per_step)]"

definition example_payload :: "bool \<Rightarrow> json" where
  "example_payload per_step =
     JObj [(''created_by'', JStr ''ann''), (''accepted_finding_ids'', JArr [JStr ''f1'']),
           (''tasks'', JArr [example_task per_step]),
           (''target'', JObj [(''executor_profile_id'', JStr ''executor.code'')])]"

lemma trim_examples [simp]:
  "trim ''ann'' = ''ann''" "trim ''bob'' = ''bob''" "trim ''eve'' = ''eve''" "trim ''main'' = ''main''"
  "trim ''abc'' = ''abc''" "trim ''executor.code'' = ''executor.code''" "trim ''done'' = ''done''"
  by (rule trim_plain, simp add: plain_char_def)+

lemma canonical_examples [simp]:
  "canonical_signer_id example_host ''ann'' = ''ann''" "canonical_signer_id example_host ''bob'' = ''bob''"
  "canonical_signer_id example_host ''eve'' = ''eve''"
  by (simp_all add: canonical_signer_id_def to_lowercase_def to_ascii_lowercase_def
      char_to_ascii_lowercase_def ascii_upper_def is_ascii_def)

lemma example_payload_valid: "validate_handoff_create (example_payload b) = Inr ()"
  by (simp add: validate_handoff_create_iff example_payload_def example_task_def get_defs get_strs_def
      List.map_filter_simps task_ok_def evidence_refs_def has_evidence_uri_def validate_target_def
      validate_pin_def target_profile_str_def)

definition example_packet :: "bool \<Rightarrow> packet" where
  "example_packet b = new_packet (unary_clock 0) ''1'' ''ann'' (example_payload b)
     (create_pin example_host (unary_clock 0) ''/p'' (example_payload b))"

lemma example_pin: "pin_repo_ref (pk_pin (example_packet b)) = ''branch:main''"
  "pin_base_commit_sha (pk_pin (example_packet b)) = ''abc''"
  "pin_worktree_digest (pk_pin (example_packet b)) = ''d''"
  "pin_policy (pk_pin (example_packet b)) = Strict"
  "pin_is_complete (pk_pin (example_packet b))"
  by (simp_all add: example_packet_def new_packet_pin create_pin_def compute_pin_def Let_def git_output_def
      example_host_def compute_worktree_digest_def filter_opt_def pin_field_def example_payload_def
      digest_excluded_def worktree_digest_exclude_def str_simps digest_part_def str_join_def
      pin_is_complete_def now_iso_def unary_clock_def)

lemma example_create:
  "create_handoff example_host (unary_clock 0) ''1'' ''/p'' ''s'' ''ann'' (example_payload b) r
     = (Inr (example_packet b, [upsert_event (unary_clock 0) ''s'' (example_packet b),
          status_event (unary_clock 0) ''s'' (example_packet b)]), reg_insert (example_packet b) r)"
  using example_pin [of b]
  by (simp add: create_handoff_def example_payload_valid Let_def example_packet_def new_packet_pin)

lemma example_packet_facts:
  "pk_id (example_packet b) = ''pkt_1''" "pk_created_by (example_packet b) = ''ann''"
  "pk_status (example_packet b) = PendingApproval"
  "pk_required_signers (example_packet b) = (if b then 2 else 1)"
  "map sg_name (pk_signers (example_packet b)) = [''ann'']"
  "ha_two_party (pk_approval (example_packet b)) = b"
  by (simp_all add: example_packet_def new_packet_def Let_def example_payload_def example_task_def get_defs
      parse_packet_task_def jget_any_def parse_target_def target_field_def str_simps or_else_def)

lemma example_signers: "length (pk_signers (example_packet b)) = Suc 0"
  using example_packet_facts(5) [of b] by (cases "pk_signers (example_packet b)") auto

lemma example_check: "name \<in> {''bob'', ''eve''} \<Longrightarrow> approve_check example_host name (example_packet b) = None"
  using example_packet_facts [of b]
  by (cases "pk_signers (example_packet b)") (auto simp: approve_check_None signed_by_def)


lemma example_run_create:
  "foldl (handoff_step example_host) [] [(unary_clock 0, ''s'', Create ''1'' ''/p'' ''ann'' (example_payload b))]
     = [(''pkt_1'', example_packet b)]"
  by (simp add: reg_get_def example_create reg_insert_def example_packet_facts)

definition example_approved :: "bool \<Rightarrow> packet" where
  "example_approved b = approve_update example_host (unary_clock 1) ''bob'' [] None (example_packet b)"

lemma example_approve:
  "approve_handoff example_host (unary_clock 1) ''s'' ''pkt_1'' ''bob'' [] None [(''pkt_1'', example_packet b)]
     = (Inr (example_approved b, [upsert_event (unary_clock 1) ''s'' (example_approved b),
          status_event (unary_clock 1) ''s'' (example_approved b)], True), [(''pkt_1'', example_approved b)])"
proof -
  have "pk_status (example_approved b) = Approved"
    unfolding example_approved_def
    by (intro approve_update_status)
      (auto simp: example_packet_facts example_signers)
  then show ?thesis
    by (simp add: approve_handoff_def update_packet_eq reg_get_def example_check example_approved_def
        example_packet_facts)
qed





section \<open>Observations\<close>

text \<open>A two-party packet needs one approver: the author's signature counts towards the two.\<close>

lemma two_party_needs_one_approver:
  "ha_two_party (pk_approval (example_packet True)) \<and> pk_required_signers (example_packet True) = 2
   \<and> pk_status (example_approved True) = Approved"
  using example_approve [of True] approve_handoff_Inr [of example_host "unary_clock 1"] example_packet_facts [of True]
  by fastforce

text \<open>
  The duplicate check reads the registry before the update takes the entry. Two calls by the
  same person that both pass the check before either updates leave the person signed twice.
\<close>

lemma racing_approvals_sign_twice:
  "let p = example_packet False; upd = approve_update example_host (unary_clock 1) ''bob'' [] None
   in approve_check example_host ''bob'' p = None
      \<and> map sg_name (pk_signers (upd (upd p))) = [''ann'', ''bob'', ''bob'']"
  using example_packet_facts(5) [of False] by (simp add: example_check) (auto simp: update_defs)

end
