(* ===== verification/Gates.thy ===== *)
theory Gates
  imports Wire
begin

text \<open>
  The release gates of \<open>apps/local-bridge/src/gate.rs\<close>: the per-session gate map, the rules
  that turn signatures and overrides into a state (\<open>touch_gate\<close>), the test the release plane
  asks (\<open>missing_gate_ids\<close>), the five commands, and the reconstruction of the map from the
  persisted event log. A gate map is \<open>string \<rightharpoonup> gate_snapshot\<close> (the code's \<open>BTreeMap\<close> is
  only used by key). Every command reads the clock once. A poisoned mutex is the flag
  \<open>gs_gate_poisoned\<close>; it is never set by the code of this theory, which has no panic under
  the lock.
\<close>

section \<open>Data\<close>

definition default_override_days :: int where
  "default_override_days = 7"

definition known_gates :: "string list" where
  "known_gates = [''DevComplete'', ''QAComplete'', ''ReadyForStaging'', ''ReadyToDeploy'',
     ''ReadyToPublish'', ''ReadyForGrowth'', ''MutationAuditClean'']"

record gate_criterion =
  gc_id :: string
  gc_label :: string
  gc_satisfied :: bool

record gate_signer =
  gsg_name :: string
  gsg_signed_at :: string

record gate_snapshot =
  gt_id :: string
  gt_state :: string
  gt_summary :: string
  gt_blockers :: "string list"
  gt_criteria :: "gate_criterion list"
  gt_signers :: "gate_signer list"
  gt_required_signers :: nat
  gt_overridden :: bool
  gt_last_changed_at :: string
  gt_override_reason :: "string option"
  gt_override_expires_at :: "string option"

type_synonym gate_state = "string \<rightharpoonup> gate_snapshot"

section \<open>Gate rules\<close>

text \<open>The expiry instant of an override, when there is one and it can be read.\<close>

definition expiry_instant :: "clock \<Rightarrow> gate_snapshot \<Rightarrow> int option" where
  "expiry_instant clk g = Option.bind (gt_override_expires_at g) (parse_time clk)"

definition gate_is_effectively_pass :: "clock \<Rightarrow> gate_snapshot \<Rightarrow> bool" where
  "gate_is_effectively_pass clk g =
     (if gt_overridden g then
        (case gt_override_expires_at g of
           None \<Rightarrow> True
         | Some e \<Rightarrow> (case parse_time clk e of None \<Rightarrow> False | Some t \<Rightarrow> t > now clk))
      else gt_state g = ''pass'')"

definition override_is_expired :: "clock \<Rightarrow> gate_snapshot \<Rightarrow> bool" where
  "override_is_expired clk g =
     (if \<not> gt_overridden g then False
      else (case gt_override_expires_at g of
              None \<Rightarrow> False
            | Some e \<Rightarrow> (case parse_time clk e of None \<Rightarrow> False | Some t \<Rightarrow> t \<le> now clk)))"

definition clear_override :: "gate_snapshot \<Rightarrow> gate_snapshot" where
  "clear_override g =
     g\<lparr>gt_overridden := False, gt_override_reason := None, gt_override_expires_at := None\<rparr>"

definition drop_expired :: "clock \<Rightarrow> gate_snapshot \<Rightarrow> gate_snapshot" where
  "drop_expired clk g =
     (case gt_override_expires_at g of
        None \<Rightarrow> g
      | Some e \<Rightarrow> (case parse_time clk e of
            None \<Rightarrow> g
          | Some t \<Rightarrow> if t \<le> now clk then clear_override g else g))"

definition gate_satisfied :: "gate_snapshot \<Rightarrow> bool" where
  "gate_satisfied g \<longleftrightarrow> gt_overridden g \<or> length (gt_signers g) \<ge> max (gt_required_signers g) 1"

text \<open>The texts \<open>touch_gate\<close> writes beside the state.\<close>

definition gate_label :: "nat \<Rightarrow> string" where
  "gate_label required =
     (if required = 1 then ''1 sign-off required'' else dec_digits required @ '' sign-offs required'')"

definition gate_blocker :: "nat \<Rightarrow> nat \<Rightarrow> string" where
  "gate_blocker required signed =
     (if required = 1 then ''Awaiting 1 sign-off''
      else ''Awaiting '' @ dec_digits (required - signed) @ '' more sign-off(s)'')"

definition gate_summary_text :: "gate_snapshot \<Rightarrow> string" where
  "gate_summary_text g =
     (let signed = length (gt_signers g); required = max (gt_required_signers g) 1 in
      if gt_overridden g then
        (case filter_opt (\<lambda>s. trim s \<noteq> []) (gt_override_reason g) of
           Some reason \<Rightarrow> ''override: '' @ reason
         | None \<Rightarrow> ''override active'')
      else if gate_satisfied g then
        (if signed = 0 then ''Gate approved'' else ''Approved with '' @ dec_digits signed @ '' sign-off(s)'')
      else if required = 1 then ''Awaiting sign-off''
      else ''Awaiting '' @ dec_digits (required - signed) @ '' sign-off(s)'')"

definition touch_gate :: "clock \<Rightarrow> gate_snapshot \<Rightarrow> gate_snapshot" where
  "touch_gate clk g0 =
     (if gt_id g0 = ''MutationAuditClean'' then g0\<lparr>gt_last_changed_at := now_iso clk\<rparr>
      else
        let g = drop_expired clk g0;
            required = max (gt_required_signers g) 1
        in g\<lparr>gt_state := (if gate_satisfied g then ''pass'' else ''open''),
             gt_criteria := [\<lparr>gc_id = ''signoffs_complete'', gc_label = gate_label required,
                              gc_satisfied = gate_satisfied g\<rparr>],
             gt_blockers := (if gate_satisfied g then [] else [gate_blocker required (length (gt_signers g))]),
             gt_summary := gate_summary_text g,
             gt_last_changed_at := now_iso clk\<rparr>)"

definition mutation_criterion :: "bool \<Rightarrow> gate_criterion" where
  "mutation_criterion b =
     \<lparr>gc_id = ''no_blocking_mutations'', gc_label = ''No blocking mutations'', gc_satisfied = b\<rparr>"

definition default_gate_snapshot :: "clock \<Rightarrow> string \<Rightarrow> gate_snapshot" where
  "default_gate_snapshot clk gate_id =
     (if gate_id = ''MutationAuditClean'' then
        \<lparr>gt_id = gate_id, gt_state = ''pass'', gt_summary = ''No blocking mutations'', gt_blockers = [],
         gt_criteria = [mutation_criterion True], gt_signers = [], gt_required_signers = 0,
         gt_overridden = False, gt_last_changed_at = now_iso clk, gt_override_reason = None,
         gt_override_expires_at = None\<rparr>
      else touch_gate clk
        \<lparr>gt_id = gate_id, gt_state = ''open'', gt_summary = [], gt_blockers = [], gt_criteria = [],
         gt_signers = [],
         gt_required_signers = (if gate_id = ''ReadyToDeploy'' \<or> gate_id = ''ReadyToPublish'' then 2 else 1),
         gt_overridden = False, gt_last_changed_at = now_iso clk, gt_override_reason = None,
         gt_override_expires_at = None\<rparr>)"

section \<open>The gate map\<close>

definition ensure_known :: "clock \<Rightarrow> string \<Rightarrow> gate_state \<Rightarrow> (gate_snapshot \<times> gate_state) option" where
  "ensure_known clk gate_id m =
     (if gate_id \<notin> set known_gates then None
      else let m1 = (if m gate_id = None then m(gate_id \<mapsto> default_gate_snapshot clk gate_id) else m)
           in map_option (\<lambda>g. (g, m1)) (m1 gate_id))"

definition gate_upsert :: "gate_snapshot \<Rightarrow> gate_state \<Rightarrow> gate_state" where
  "gate_upsert g m = m(gt_id g \<mapsto> g)"

definition emit_known_defaults :: "clock \<Rightarrow> gate_state \<Rightarrow> gate_state" where
  "emit_known_defaults clk m =
     foldl (\<lambda>m k. if m k = None then m(k \<mapsto> default_gate_snapshot clk k) else m) m known_gates"

definition required_gate_ids_for_environment :: "string \<Rightarrow> string list" where
  "required_gate_ids_for_environment env =
     (if env = ''staging'' then [''DevComplete'', ''ReadyToDeploy'', ''ReadyForStaging'', ''MutationAuditClean'']
      else [''DevComplete'', ''ReadyToDeploy'', ''MutationAuditClean''])"

definition required_publish_gate_ids :: "string list" where
  "required_publish_gate_ids = [''ReadyToPublish'']"

definition missing_gate_ids :: "clock \<Rightarrow> gate_state \<Rightarrow> string list \<Rightarrow> bool \<times> string list" where
  "missing_gate_ids clk m required =
     (let missing = filter (\<lambda>k. map_option (gate_is_effectively_pass clk) (m k) \<noteq> Some True) required
      in (missing = [], missing))"

definition ready_for_target :: "clock \<Rightarrow> string \<Rightarrow> gate_state \<Rightarrow> bool \<times> string list" where
  "ready_for_target clk env m = missing_gate_ids clk m (required_gate_ids_for_environment env)"

section \<open>Persistence\<close>

definition criterion_json :: "gate_criterion \<Rightarrow> json" where
  "criterion_json c = JObj [(''id'', JStr (gc_id c)), (''label'', JStr (gc_label c)),
     (''satisfied'', JBool (gc_satisfied c))]"

definition signer_json :: "gate_signer \<Rightarrow> json" where
  "signer_json s = JObj [(''name'', JStr (gsg_name s)), (''signed_at'', JStr (gsg_signed_at s))]"

definition gate_payload :: "gate_snapshot \<Rightarrow> json" where
  "gate_payload g = JObj [(''id'', JStr (gt_id g)), (''state'', JStr (gt_state g)),
     (''summary'', JStr (gt_summary g)), (''blockers'', json_strs (gt_blockers g)),
     (''criteria'', JArr (map criterion_json (gt_criteria g))),
     (''signers'', JArr (map signer_json (gt_signers g))),
     (''required_signers'', JUint (gt_required_signers g)), (''overridden'', JBool (gt_overridden g)),
     (''last_changed_at'', JStr (gt_last_changed_at g)),
     (''override_reason'', json_opt JStr (gt_override_reason g)),
     (''override_expires_at'', json_opt JStr (gt_override_expires_at g))]"

definition gate_snapshot_event :: "clock \<Rightarrow> string \<Rightarrow> gate_snapshot \<Rightarrow> server_event" where
  "gate_snapshot_event clk sid g = mk_event sid ''gate.changed'' (gate_payload g) (now_iso clk)"

definition criterion_from_json :: "json \<Rightarrow> gate_criterion option" where
  "criterion_from_json v =
     (case get_str ''id'' v of None \<Rightarrow> None
      | Some i \<Rightarrow> (case get_str ''label'' v of None \<Rightarrow> None
      | Some l \<Rightarrow> Some \<lparr>gc_id = i, gc_label = l, gc_satisfied = unwrap_or False (get_bool ''satisfied'' v)\<rparr>))"

definition signer_from_json :: "json \<Rightarrow> gate_signer option" where
  "signer_from_json v =
     (case get_str ''name'' v of None \<Rightarrow> None
      | Some n \<Rightarrow> (case get_str ''signed_at'' v of None \<Rightarrow> None
      | Some t \<Rightarrow> Some \<lparr>gsg_name = n, gsg_signed_at = t\<rparr>))"

definition snapshot_from_payload :: "clock \<Rightarrow> json \<Rightarrow> gate_snapshot option" where
  "snapshot_from_payload clk v =
     (case get_str ''id'' v of None \<Rightarrow> None
      | Some i \<Rightarrow> Some
        \<lparr>gt_id = i,
         gt_state = unwrap_or ''open'' (get_str ''state'' v),
         gt_summary = unwrap_or [] (get_str ''summary'' v),
         gt_blockers = get_strs ''blockers'' v,
         gt_criteria = unwrap_or [] (map_option (List.map_filter criterion_from_json) (get_arr ''criteria'' v)),
         gt_signers = unwrap_or [] (map_option (List.map_filter signer_from_json) (get_arr ''signers'' v)),
         gt_required_signers = unwrap_or 1 (get_u64 ''required_signers'' v),
         gt_overridden = unwrap_or False (get_bool ''overridden'' v),
         gt_last_changed_at = unwrap_or (now_iso clk) (get_str ''last_changed_at'' v),
         gt_override_reason = get_str ''override_reason'' v,
         gt_override_expires_at = get_str ''override_expires_at'' v\<rparr>)"

text \<open>The persisted log as pairs of event type and payload.\<close>

definition gate_apply_event :: "clock \<Rightarrow> gate_state \<Rightarrow> string \<times> json \<Rightarrow> gate_state" where
  "gate_apply_event clk m ev =
     (if starts_with (fst ev) ''gate.'' then
        (case snapshot_from_payload clk (snd ev) of
           Some g \<Rightarrow> m(gt_id g \<mapsto> g)
         | None \<Rightarrow> m)
      else m)"

definition gates_from_events :: "clock \<Rightarrow> (string \<times> json) list \<Rightarrow> gate_state" where
  "gates_from_events clk evs = foldl (gate_apply_event clk) Map.empty evs"

text \<open>\<open>persistence\<close>: no store, a store that fails, or the events it returns.\<close>

definition build_session_gate_state :: "clock \<Rightarrow> (unit + (string \<times> json) list) option \<Rightarrow> gate_state" where
  "build_session_gate_state clk persistence =
     (case persistence of Some (Inr evs) \<Rightarrow> gates_from_events clk evs | _ \<Rightarrow> Map.empty)"

section \<open>Commands\<close>

text \<open>The part of a session handle the gate commands use; the release plane extends it.\<close>

record gate_session =
  gs_id :: string
  gs_gates :: gate_state
  gs_gate_poisoned :: bool

type_synonym 'a gate_sessions = "string \<rightharpoonup> 'a gate_session_scheme"

definition session_not_found :: "client_command \<Rightarrow> reply" where
  "session_not_found cmd =
     refuse cmd ''session.not_found'' (''session '' @ cmd_session_id cmd @ '' not found'')"

definition gate_not_found :: "client_command \<Rightarrow> string \<Rightarrow> reply" where
  "gate_not_found cmd gate_id = refuse cmd ''gate.not_found'' (''gate '' @ gate_id @ '' not found'')"

definition gate_lock_poisoned :: "client_command \<Rightarrow> reply" where
  "gate_lock_poisoned cmd = refuse cmd ''persistence.write_failed'' ''gate state lock poisoned''"

definition require_gate_actor :: "client_command \<Rightarrow> string option \<Rightarrow> string \<Rightarrow> reply + string" where
  "require_gate_actor cmd who command =
     (case filter_opt (\<lambda>p. p \<noteq> []) (map_option trim who) of
        Some actor \<Rightarrow> Inr actor
      | None \<Rightarrow> Inl (refuse cmd ''gate.signer_required'' (command @ '' requires an authenticated principal'')))"

definition parse_expiry :: "clock \<Rightarrow> string option \<Rightarrow> string + string" where
  "parse_expiry clk raw =
     (let default_expiry_iso = fmt_time clk (now clk + days_ns default_override_days) in
      case raw of
        None \<Rightarrow> Inr default_expiry_iso
      | Some s \<Rightarrow>
          if trim s = [] then Inr default_expiry_iso
          else (case parse_time clk s of
                  None \<Rightarrow> Inl ''gate.expiry_required''
                | Some t \<Rightarrow> if t \<le> now clk then Inl ''gate.expiry_in_past'' else Inr (fmt_time clk t)))"

definition gate_audit :: "client_command \<Rightarrow> (string \<times> json) list \<Rightarrow> audit_call" where
  "gate_audit cmd kvs =
     \<lparr>au_session = cmd_session_id cmd, au_subsystem = ''gate'', au_severity = ''info'', au_fields = JObj kvs\<rparr>"

text \<open>The gate id of \<open>gate.signoff\<close>, \<open>gate.override\<close> and \<open>gate.revoke_override\<close>.\<close>

definition payload_gate_id :: "json \<Rightarrow> string" where
  "payload_gate_id v = trim (unwrap_or [] (Option.bind (jget_any [''id'', ''gate_id''] v) as_str))"

definition evaluate_gate_id :: "json \<Rightarrow> string" where
  "evaluate_gate_id v = trim (unwrap_or [] (or_else (get_str ''gate'' v) (get_str ''id'' v)))"

definition with_gate :: "'a gate_session_scheme \<Rightarrow> gate_state \<Rightarrow> gate_snapshot \<Rightarrow> string
    \<Rightarrow> 'a gate_session_scheme" where
  "with_gate h m g k = h\<lparr>gs_gates := m(k \<mapsto> g)\<rparr>"

definition handle_evaluate :: "clock \<Rightarrow> client_command \<Rightarrow> 'a gate_sessions \<Rightarrow> reply \<times> 'a gate_sessions" where
  "handle_evaluate clk cmd ss =
     (let sid = cmd_session_id cmd; gate_id = evaluate_gate_id (cmd_payload cmd) in
      case ss sid of
        None \<Rightarrow> (session_not_found cmd, ss)
      | Some h \<Rightarrow>
          if gate_id = [] then (refuse cmd ''gate.not_found'' ''gate id is required'', ss)
          else if gs_gate_poisoned h then (gate_lock_poisoned cmd, ss)
          else (case ensure_known clk gate_id (gs_gates h) of
              None \<Rightarrow> (gate_not_found cmd gate_id, ss)
            | Some (g, m) \<Rightarrow>
                let g' = (if override_is_expired clk g then touch_gate clk (clear_override g) else g)
                in (reply_with (ack_ok_for cmd) [] [gate_snapshot_event clk (gs_id h) g']
                      [gate_audit cmd [(''command'', JStr ''gate.evaluate''), (''gate_id'', JStr gate_id),
                         (''decision'', JStr ''allow'')]],
                    ss(sid \<mapsto> with_gate h m g' gate_id))))"

definition add_gate_signer :: "clock \<Rightarrow> string \<Rightarrow> gate_snapshot \<Rightarrow> gate_snapshot" where
  "add_gate_signer clk signer g =
     (if list_ex (\<lambda>s. gsg_name s = signer) (gt_signers g) then g
      else g\<lparr>gt_signers := gt_signers g @ [\<lparr>gsg_name = signer, gsg_signed_at = now_iso clk\<rparr>]\<rparr>)"

definition handle_signoff :: "clock \<Rightarrow> client_command \<Rightarrow> string option \<Rightarrow> 'a gate_sessions
    \<Rightarrow> reply \<times> 'a gate_sessions" where
  "handle_signoff clk cmd who ss =
     (let sid = cmd_session_id cmd; gate_id = payload_gate_id (cmd_payload cmd) in
      case ss sid of
        None \<Rightarrow> (session_not_found cmd, ss)
      | Some h \<Rightarrow>
          if gate_id = [] then (refuse cmd ''gate.not_found'' ''gate id is required'', ss)
          else (case require_gate_actor cmd who ''gate.signoff'' of
              Inl r \<Rightarrow> (r, ss)
            | Inr signer \<Rightarrow>
                if gs_gate_poisoned h then (gate_lock_poisoned cmd, ss)
                else (case ensure_known clk gate_id (gs_gates h) of
                    None \<Rightarrow> (gate_not_found cmd gate_id, ss)
                  | Some (g, m) \<Rightarrow>
                      let g' = touch_gate clk (add_gate_signer clk signer g)
                      in (reply_with (ack_ok_for cmd) [] [gate_snapshot_event clk (gs_id h) g']
                            [gate_audit cmd [(''command'', JStr ''gate.signoff''), (''gate_id'', JStr gate_id),
                               (''signer'', JStr signer), (''decision'', JStr ''allow'')]],
                          ss(sid \<mapsto> with_gate h m g' gate_id)))))"

definition override_reason_of :: "json \<Rightarrow> string" where
  "override_reason_of v =
     unwrap_or [] (filter_opt (\<lambda>s. s \<noteq> []) (map_option trim (get_str ''reason'' v)))"

definition set_override :: "string \<Rightarrow> string \<Rightarrow> gate_snapshot \<Rightarrow> gate_snapshot" where
  "set_override reason expiry g =
     g\<lparr>gt_overridden := True, gt_override_reason := Some reason, gt_override_expires_at := Some expiry\<rparr>"

definition handle_override :: "clock \<Rightarrow> client_command \<Rightarrow> string option \<Rightarrow> 'a gate_sessions
    \<Rightarrow> reply \<times> 'a gate_sessions" where
  "handle_override clk cmd who ss =
     (let sid = cmd_session_id cmd; gate_id = payload_gate_id (cmd_payload cmd);
          reason = override_reason_of (cmd_payload cmd) in
      case ss sid of
        None \<Rightarrow> (session_not_found cmd, ss)
      | Some h \<Rightarrow>
          if gate_id = [] then (refuse cmd ''gate.not_found'' ''gate id is required'', ss)
          else (case require_gate_actor cmd who ''gate.override'' of
              Inl r \<Rightarrow> (r, ss)
            | Inr actor \<Rightarrow>
                if reason = [] then
                  (refuse cmd ''gate.reason_required'' ''a reason is required for gate override'', ss)
                else (case parse_expiry clk
                        (Option.bind (jget_any [''expires_at'', ''expiresAt''] (cmd_payload cmd)) as_str) of
                    Inl code \<Rightarrow> (refuse cmd code ''override expiry must be in the future'', ss)
                  | Inr expiry \<Rightarrow>
                      if gs_gate_poisoned h then (gate_lock_poisoned cmd, ss)
                      else (case ensure_known clk gate_id (gs_gates h) of
                          None \<Rightarrow> (gate_not_found cmd gate_id, ss)
                        | Some (g, m) \<Rightarrow>
                            let g' = touch_gate clk (set_override reason expiry g)
                            in (reply_with (ack_ok_for cmd) [] [gate_snapshot_event clk (gs_id h) g']
                                  [gate_audit cmd [(''command'', JStr ''gate.override''),
                                     (''gate_id'', JStr gate_id), (''reason'', JStr reason),
                                     (''decision'', JStr ''allow''), (''actor'', JStr actor)]],
                                ss(sid \<mapsto> with_gate h m g' gate_id))))))"

definition handle_revoke_override :: "clock \<Rightarrow> client_command \<Rightarrow> string option \<Rightarrow> 'a gate_sessions
    \<Rightarrow> reply \<times> 'a gate_sessions" where
  "handle_revoke_override clk cmd who ss =
     (let sid = cmd_session_id cmd; gate_id = payload_gate_id (cmd_payload cmd) in
      case ss sid of
        None \<Rightarrow> (session_not_found cmd, ss)
      | Some h \<Rightarrow>
          if gate_id = [] then (refuse cmd ''gate.not_found'' ''gate id is required'', ss)
          else (case require_gate_actor cmd who ''gate.revoke_override'' of
              Inl r \<Rightarrow> (r, ss)
            | Inr actor \<Rightarrow>
                if gs_gate_poisoned h then (gate_lock_poisoned cmd, ss)
                else (case ensure_known clk gate_id (gs_gates h) of
                    None \<Rightarrow> (gate_not_found cmd gate_id, ss)
                  | Some (g, m) \<Rightarrow>
                      let g' = touch_gate clk (clear_override g)
                      in (reply_with (ack_ok_for cmd) [] [gate_snapshot_event clk (gs_id h) g']
                            [gate_audit cmd [(''command'', JStr ''gate.revoke_override''),
                               (''gate_id'', JStr gate_id), (''decision'', JStr ''allow''), (''actor'', JStr actor)]],
                          ss(sid \<mapsto> with_gate h m g' gate_id)))))"

definition sync_mutation_gate :: "clock \<Rightarrow> nat \<Rightarrow> gate_snapshot \<Rightarrow> gate_snapshot" where
  "sync_mutation_gate clk n g =
     (if n = 0 then
        g\<lparr>gt_state := ''pass'', gt_summary := ''No blocking mutations'', gt_blockers := [],
          gt_criteria := [mutation_criterion True], gt_last_changed_at := now_iso clk\<rparr>
      else
        let s = (if n = 1 then [] else ''s'') in
        g\<lparr>gt_state := ''open'',
          gt_summary := dec_digits n @ '' blocking mutation'' @ s @ '' pending review'',
          gt_blockers := [''Awaiting review of '' @ dec_digits n @ '' blocking mutation'' @ s],
          gt_criteria := [mutation_criterion False], gt_last_changed_at := now_iso clk\<rparr>)"

definition handle_sync_mutation_audit :: "clock \<Rightarrow> client_command \<Rightarrow> string option \<Rightarrow> 'a gate_sessions
    \<Rightarrow> reply \<times> 'a gate_sessions" where
  "handle_sync_mutation_audit clk cmd who ss =
     (let sid = cmd_session_id cmd; n = unwrap_or 0 (get_u64 ''blocking_count'' (cmd_payload cmd)) in
      case ss sid of
        None \<Rightarrow> (session_not_found cmd, ss)
      | Some h \<Rightarrow>
          (case require_gate_actor cmd who ''gate.sync_mutation_audit'' of
              Inl r \<Rightarrow> (r, ss)
            | Inr actor \<Rightarrow>
                if gs_gate_poisoned h then (gate_lock_poisoned cmd, ss)
                else
                  let g = unwrap_or (default_gate_snapshot clk ''MutationAuditClean'')
                            (gs_gates h ''MutationAuditClean'');
                      g' = sync_mutation_gate clk n g
                  in (reply_with (ack_ok_for cmd) [] [gate_snapshot_event clk (gs_id h) g']
                        [gate_audit cmd [(''command'', JStr ''gate.sync_mutation_audit''),
                           (''blocking_count'', JUint n), (''new_state'', JStr (gt_state g')),
                           (''decision'', JStr ''allow''), (''actor'', JStr actor)]],
                      ss(sid \<mapsto> h\<lparr>gs_gates := gate_upsert g' (gs_gates h)\<rparr>))))"

text \<open>The commands as the operations of one system.\<close>

datatype gate_command = Evaluate | Signoff | Override | RevokeOverride | SyncMutationAudit

record gate_call =
  gcl_kind :: gate_command
  gcl_clock :: clock
  gcl_principal :: "string option"
  gcl_cmd :: client_command

definition gate_exec :: "gate_call \<Rightarrow> 'a gate_sessions \<Rightarrow> reply \<times> 'a gate_sessions" where
  "gate_exec c =
     (case gcl_kind c of
        Evaluate \<Rightarrow> handle_evaluate (gcl_clock c) (gcl_cmd c)
      | Signoff \<Rightarrow> handle_signoff (gcl_clock c) (gcl_cmd c) (gcl_principal c)
      | Override \<Rightarrow> handle_override (gcl_clock c) (gcl_cmd c) (gcl_principal c)
      | RevokeOverride \<Rightarrow> handle_revoke_override (gcl_clock c) (gcl_cmd c) (gcl_principal c)
      | SyncMutationAudit \<Rightarrow> handle_sync_mutation_audit (gcl_clock c) (gcl_cmd c) (gcl_principal c))"

definition gate_step :: "'a gate_sessions \<Rightarrow> gate_call \<Rightarrow> 'a gate_sessions" where
  "gate_step ss c = snd (gate_exec c ss)"

section \<open>What a call does to its gate\<close>

text \<open>
  The commands share one shape: a call names a gate and an edit of it, or is refused before it
  looks at a gate. \<open>gate_edit\<close> is that specification; \<open>gate_exec_accepted\<close> and
  \<open>gate_exec_refused\<close> show that the five handlers implement it.
\<close>

definition current_gate :: "clock \<Rightarrow> string \<Rightarrow> gate_state \<Rightarrow> gate_snapshot" where
  "current_gate clk k m = unwrap_or (default_gate_snapshot clk k) (m k)"

lemma ensure_known_eq:
  "ensure_known clk k m =
     (if k \<in> set known_gates then Some (current_gate clk k m, m(k \<mapsto> current_gate clk k m)) else None)"
  by (cases "m k") (auto simp: ensure_known_def current_gate_def Let_def fun_upd_idem)

definition known_edit :: "string \<Rightarrow> (gate_snapshot \<Rightarrow> gate_snapshot)
    \<Rightarrow> (string \<times> (gate_snapshot \<Rightarrow> gate_snapshot)) option" where
  "known_edit k f = (if k \<in> set known_gates then Some (k, f) else None)"

definition gate_actor :: "string option \<Rightarrow> string option" where
  "gate_actor who = filter_opt (\<lambda>p. p \<noteq> []) (map_option trim who)"

definition gate_edit :: "gate_call \<Rightarrow> (string \<times> (gate_snapshot \<Rightarrow> gate_snapshot)) option" where
  "gate_edit c =
     (let clk = gcl_clock c; v = cmd_payload (gcl_cmd c); k = payload_gate_id v in
      case gcl_kind c of
        Evaluate \<Rightarrow> known_edit (evaluate_gate_id v)
          (\<lambda>g. if override_is_expired clk g then touch_gate clk (clear_override g) else g)
      | Signoff \<Rightarrow> Option.bind (gate_actor (gcl_principal c))
          (\<lambda>who. known_edit k (\<lambda>g. touch_gate clk (add_gate_signer clk who g)))
      | Override \<Rightarrow> Option.bind (gate_actor (gcl_principal c))
          (\<lambda>_. if override_reason_of v = [] then None
               else case parse_expiry clk (Option.bind (jget_any [''expires_at'', ''expiresAt''] v) as_str) of
                  Inl _ \<Rightarrow> None
                | Inr e \<Rightarrow> known_edit k (\<lambda>g. touch_gate clk (set_override (override_reason_of v) e g)))
      | RevokeOverride \<Rightarrow> Option.bind (gate_actor (gcl_principal c))
          (\<lambda>_. known_edit k (\<lambda>g. touch_gate clk (clear_override g)))
      | SyncMutationAudit \<Rightarrow> Option.bind (gate_actor (gcl_principal c))
          (\<lambda>_. Some (''MutationAuditClean'', sync_mutation_gate clk (unwrap_or 0 (get_u64 ''blocking_count'' v)))))"

lemma known_edit_Some: "known_edit k f = Some (j, e) \<longleftrightarrow> k \<in> set known_gates \<and> j = k \<and> e = f"
  by (auto simp: known_edit_def)

lemma empty_not_known: "[] \<notin> set known_gates"
  by (simp add: known_gates_def)

text \<open>Every stored snapshot carries the key it is stored under.\<close>

definition gates_keyed :: "gate_state \<Rightarrow> bool" where
  "gates_keyed m \<longleftrightarrow> (\<forall>k g. m k = Some g \<longrightarrow> gt_id g = k)"

lemma gt_id_simps [simp]:
  "gt_id (clear_override g) = gt_id g"
  "gt_id (drop_expired clk g) = gt_id g"
  "gt_id (touch_gate clk g) = gt_id g"
  "gt_id (default_gate_snapshot clk k) = k"
  "gt_id (add_gate_signer clk s g) = gt_id g"
  "gt_id (set_override r e g) = gt_id g"
  "gt_id (sync_mutation_gate clk n g) = gt_id g"
proof -
  show c: "gt_id (clear_override g) = gt_id g" for g by (simp add: clear_override_def)
  show d: "gt_id (drop_expired clk g) = gt_id g" for g
    by (simp add: drop_expired_def c split: option.splits)
  show t: "gt_id (touch_gate clk g) = gt_id g" for g by (simp add: touch_gate_def Let_def d)
  show "gt_id (default_gate_snapshot clk k) = k" by (simp add: default_gate_snapshot_def t)
qed (simp_all add: add_gate_signer_def set_override_def sync_mutation_gate_def Let_def)

lemma current_gate_id: "gates_keyed m \<Longrightarrow> gt_id (current_gate clk k m) = k"
  by (cases "m k") (auto simp: current_gate_def gates_keyed_def)

lemma gate_edit_id: "gate_edit c = Some (k, f) \<Longrightarrow> gt_id (f g) = gt_id g"
  by (auto simp: gate_edit_def Let_def known_edit_Some bind_eq_Some_conv
      split: gate_command.splits if_splits sum.splits)

lemma gate_edit_known: "gate_edit c = Some (k, f) \<Longrightarrow> k \<in> set known_gates"
  by (auto simp: gate_edit_def Let_def known_edit_Some bind_eq_Some_conv known_gates_def
      split: gate_command.splits if_splits sum.splits)

abbreviation gcl_session :: "gate_call \<Rightarrow> string" where
  "gcl_session c \<equiv> cmd_session_id (gcl_cmd c)"

lemmas gate_handler_defs = handle_evaluate_def handle_signoff_def handle_override_def
  handle_revoke_override_def handle_sync_mutation_audit_def

lemma require_gate_actor_eq:
  "require_gate_actor cmd who command = (case gate_actor who of
     Some a \<Rightarrow> Inr a
   | None \<Rightarrow> Inl (refuse cmd ''gate.signer_required'' (command @ '' requires an authenticated principal'')))"
  by (simp add: require_gate_actor_def gate_actor_def)

lemmas gate_exec_eqs = gate_exec_def gate_handler_defs gate_edit_def Let_def require_gate_actor_eq
  ensure_known_eq with_gate_def gate_upsert_def current_gate_id
  current_gate_def [of _ "''MutationAuditClean''", symmetric]

lemma gate_exec_accepted:
  assumes edit: "gate_edit c = Some (k, f)" and s: "ss (gcl_session c) = Some h" "\<not> gs_gate_poisoned h"
    and keyed: "gates_keyed (gs_gates h)"
  shows "fst (gate_exec c ss) = reply_with (ack_ok_for (gcl_cmd c)) []
           [gate_snapshot_event (gcl_clock c) (gs_id h) (f (current_gate (gcl_clock c) k (gs_gates h)))]
           (rp_audit (fst (gate_exec c ss)))
     \<and> snd (gate_exec c ss) = ss(gcl_session c \<mapsto>
           h\<lparr>gs_gates := (gs_gates h)(k \<mapsto> f (current_gate (gcl_clock c) k (gs_gates h)))\<rparr>)"
proof -
  have ne: "k \<noteq> []" using gate_edit_known [OF edit] empty_not_known by metis
  show ?thesis
  proof (cases "gcl_kind c")
    case Evaluate
    with edit ne s show ?thesis by (auto simp: gate_exec_eqs known_edit_Some)
  next
    case Signoff
    with edit ne s show ?thesis by (auto simp: gate_exec_eqs known_edit_Some bind_eq_Some_conv)
  next
    case Override
    with edit ne s show ?thesis
      by (auto simp: gate_exec_eqs known_edit_Some bind_eq_Some_conv split: if_splits sum.splits)
  next
    case RevokeOverride
    with edit ne s show ?thesis by (auto simp: gate_exec_eqs known_edit_Some bind_eq_Some_conv)
  next
    case SyncMutationAudit
    with edit ne s keyed show ?thesis by (auto simp: gate_exec_eqs bind_eq_Some_conv)
  qed
qed

lemma gate_exec_refused:
  assumes "gate_edit c = None \<or> ss (gcl_session c) = None
    \<or> (\<exists>h. ss (gcl_session c) = Some h \<and> gs_gate_poisoned h)"
  shows "snd (gate_exec c ss) = ss \<and> \<not> ack_ok (rp_ack (fst (gate_exec c ss)))
    \<and> rp_emitted (fst (gate_exec c ss)) = []"
proof (cases "ss (gcl_session c)")
  case None
  then show ?thesis
    by (cases "gcl_kind c") (simp_all add: gate_exec_def gate_handler_defs Let_def session_not_found_def)
next
  case (Some h)
  note refusals = gate_not_found_def gate_lock_poisoned_def known_edit_def
  show ?thesis
  proof (cases "gcl_kind c")
    case Evaluate
    with assms Some show ?thesis by (auto simp: gate_exec_eqs refusals split: if_splits)
  next
    case Signoff
    with assms Some show ?thesis by (cases "gate_actor (gcl_principal c)") (auto simp: gate_exec_eqs refusals split: if_splits)
  next
    case Override
    with assms Some show ?thesis
      by (cases "gate_actor (gcl_principal c)") (auto simp: gate_exec_eqs refusals split: if_splits sum.splits)
  next
    case RevokeOverride
    with assms Some show ?thesis by (cases "gate_actor (gcl_principal c)") (auto simp: gate_exec_eqs refusals split: if_splits)
  next
    case SyncMutationAudit
    with assms Some show ?thesis by (cases "gate_actor (gcl_principal c)") (auto simp: gate_exec_eqs refusals)
  qed
qed

section \<open>Persisted gates\<close>

lemma criterion_roundtrip [json_simps]: "criterion_from_json (criterion_json c) = Some c"
  by (simp add: criterion_from_json_def criterion_json_def get_defs)

lemma signer_roundtrip [json_simps]: "signer_from_json (signer_json s) = Some s"
  by (simp add: signer_from_json_def signer_json_def get_defs)

lemma snapshot_roundtrip: "snapshot_from_payload clk (gate_payload g) = Some g"
  by (simp add: snapshot_from_payload_def gate_payload_def get_defs get_strs_def json_strs_def
      json_simps map_filter_map_Some)

lemma gate_apply_own_event:
  "gate_apply_event clk' m (ev_type (gate_snapshot_event clk sid g), ev_payload (gate_snapshot_event clk sid g))
     = m(gt_id g \<mapsto> g)"
  by (simp add: gate_apply_event_def gate_snapshot_event_def snapshot_roundtrip starts_with_def)

lemma gate_event_session [simp]: "ev_session_id (gate_snapshot_event clk sid g) = sid"
  by (simp add: gate_snapshot_event_def)

primrec gate_emitted :: "'a gate_sessions \<Rightarrow> gate_call list \<Rightarrow> server_event list" where
  "gate_emitted ss [] = []"
| "gate_emitted ss (c # cs) = rp_emitted (fst (gate_exec c ss)) @ gate_emitted (gate_step ss c) cs"

text \<open>What the log of a session holds after the given events were emitted.\<close>

definition session_log :: "string \<Rightarrow> server_event list \<Rightarrow> (string \<times> json) list" where
  "session_log sid evs = map (\<lambda>e. (ev_type e, ev_payload e)) (filter (\<lambda>e. ev_session_id e = sid) evs)"

definition sessions_named :: "'a gate_sessions \<Rightarrow> bool" where
  "sessions_named ss \<longleftrightarrow> (\<forall>s h. ss s = Some h \<longrightarrow> gs_id h = s \<and> gates_keyed (gs_gates h))"

lemma gate_step_cases:
  assumes "sessions_named ss"
  obtains (refused) "gate_step ss c = ss" "rp_emitted (fst (gate_exec c ss)) = []"
      "\<not> ack_ok (rp_ack (fst (gate_exec c ss)))"
    | (accepted) k f h where "gate_edit c = Some (k, f)" "ss (gcl_session c) = Some h"
      "\<not> gs_gate_poisoned h" "gs_id h = gcl_session c" "ack_ok (rp_ack (fst (gate_exec c ss)))"
      "rp_emitted (fst (gate_exec c ss)) =
         [gate_snapshot_event (gcl_clock c) (gcl_session c) (f (current_gate (gcl_clock c) k (gs_gates h)))]"
      "gate_step ss c = ss(gcl_session c \<mapsto>
         h\<lparr>gs_gates := (gs_gates h)(k \<mapsto> f (current_gate (gcl_clock c) k (gs_gates h)))\<rparr>)"
      "gt_id (f (current_gate (gcl_clock c) k (gs_gates h))) = k"
proof (cases "gate_edit c = None \<or> ss (gcl_session c) = None
    \<or> (\<exists>h. ss (gcl_session c) = Some h \<and> gs_gate_poisoned h)")
  case True
  from gate_exec_refused [where ss = ss, OF this] show thesis by (intro refused) (auto simp: gate_step_def)
next
  case False
  then obtain k f h where e: "gate_edit c = Some (k, f)" and h: "ss (gcl_session c) = Some h"
    and p: "\<not> gs_gate_poisoned h" by auto
  from assms h have n: "gs_id h = gcl_session c" and key: "gates_keyed (gs_gates h)"
    by (auto simp: sessions_named_def)
  from gate_exec_accepted [where ss = ss, OF e h p key]
  have "fst (gate_exec c ss) = reply_with (ack_ok_for (gcl_cmd c)) []
      [gate_snapshot_event (gcl_clock c) (gcl_session c) (f (current_gate (gcl_clock c) k (gs_gates h)))]
      (rp_audit (fst (gate_exec c ss)))"
    and "gate_step ss c = ss(gcl_session c \<mapsto>
         h\<lparr>gs_gates := (gs_gates h)(k \<mapsto> f (current_gate (gcl_clock c) k (gs_gates h)))\<rparr>)"
    by (auto simp: gate_step_def n)
  with e h p n key show thesis
    by (intro accepted) (auto simp: gate_edit_id [OF e] current_gate_id dest: arg_cong [where f = rp_emitted] arg_cong [where f = rp_ack])
qed

lemma gate_step_named: "sessions_named ss \<Longrightarrow> sessions_named (gate_step ss c)"
  by (rule gate_step_cases [of ss c], assumption) (auto simp: sessions_named_def gates_keyed_def)

lemma gate_step_replay:
  assumes "sessions_named ss" and "ss sid = Some h"
  shows "\<exists>h'. gate_step ss c sid = Some h' \<and> gs_gates h' =
    foldl (gate_apply_event clk) (gs_gates h) (session_log sid (rp_emitted (fst (gate_exec c ss))))"
  using assms(1)
proof (cases rule: gate_step_cases [of ss c])
  case refused
  with assms show ?thesis by (simp add: session_log_def)
next
  case (accepted k f h2)
  then show ?thesis using assms(2)
    by (cases "gcl_session c = sid") (auto simp: session_log_def gate_apply_own_event)
qed

lemma gate_run_replay:
  assumes "sessions_named ss" and "ss sid = Some h"
  shows "\<exists>h'. foldl gate_step ss cs sid = Some h' \<and> gs_gates h' =
    foldl (gate_apply_event clk) (gs_gates h) (session_log sid (gate_emitted ss cs))"
  using assms
proof (induction cs arbitrary: ss h)
  case Nil
  then show ?case by (simp add: session_log_def)
next
  case (Cons c cs)
  from gate_step_replay [OF Cons.prems] obtain h1 where h1: "gate_step ss c sid = Some h1"
    and g1: "gs_gates h1 = foldl (gate_apply_event clk) (gs_gates h)
      (session_log sid (rp_emitted (fst (gate_exec c ss))))" by blast
  from Cons.IH [OF gate_step_named [OF Cons.prems(1)] h1] g1 show ?case
    by (simp add: session_log_def)
qed

section \<open>Why a gate passes\<close>

text \<open>The signatures accepted calls of a run may have put on gate \<open>k\<close> of session \<open>sid\<close>.\<close>

definition signoff_by :: "string \<Rightarrow> string \<Rightarrow> string \<Rightarrow> gate_call \<Rightarrow> bool" where
  "signoff_by sid k name c \<longleftrightarrow> gcl_kind c = Signoff \<and> gcl_session c = sid
     \<and> payload_gate_id (cmd_payload (gcl_cmd c)) = k \<and> gate_actor (gcl_principal c) = Some name"

definition override_by :: "string \<Rightarrow> string \<Rightarrow> string \<Rightarrow> gate_call \<Rightarrow> bool" where
  "override_by sid k reason c \<longleftrightarrow> gcl_kind c = Override \<and> gcl_session c = sid
     \<and> payload_gate_id (cmd_payload (gcl_cmd c)) = k \<and> gate_actor (gcl_principal c) \<noteq> None
     \<and> override_reason_of (cmd_payload (gcl_cmd c)) = reason \<and> reason \<noteq> []"

definition signers_required :: "string \<Rightarrow> nat" where
  "signers_required k = (if k = ''ReadyToDeploy'' \<or> k = ''ReadyToPublish'' then 2 else 1)"

definition gate_ok :: "string \<Rightarrow> gate_call list \<Rightarrow> string \<Rightarrow> gate_snapshot \<Rightarrow> bool" where
  "gate_ok sid cs k g \<longleftrightarrow>
     distinct (map gsg_name (gt_signers g))
     \<and> (\<forall>s \<in> set (gt_signers g). \<exists>c \<in> set cs. signoff_by sid k (gsg_name s) c)
     \<and> (gt_overridden g \<longrightarrow> gt_override_expires_at g \<noteq> None
          \<and> (\<exists>r. gt_override_reason g = Some r \<and> (\<exists>c \<in> set cs. override_by sid k r c)))
     \<and> gt_required_signers g = (if k = ''MutationAuditClean'' then 0 else signers_required k)
     \<and> (k \<noteq> ''MutationAuditClean'' \<longrightarrow> (gt_state g = ''pass'' \<longleftrightarrow> gate_satisfied g))"

definition gates_inv :: "string \<Rightarrow> gate_call list \<Rightarrow> 'a gate_sessions \<Rightarrow> bool" where
  "gates_inv sid cs ss \<longleftrightarrow> sessions_named ss
     \<and> (\<forall>h k g. ss sid = Some h \<longrightarrow> gs_gates h k = Some g \<longrightarrow> gate_ok sid cs k g)"

lemma gate_ok_mono: "gate_ok sid cs k g \<Longrightarrow> gate_ok sid (cs @ [c]) k g"
  unfolding gate_ok_def by (simp only: set_append Bex_def Ball_def Un_iff) blast

text \<open>Each edit keeps the reasons of a gate, given the call that makes it.\<close>

lemma gate_ok_touch:
  assumes "distinct (map gsg_name (gt_signers g))"
    and "\<forall>s \<in> set (gt_signers g). \<exists>c \<in> set cs. signoff_by sid k (gsg_name s) c"
    and "gt_overridden g \<longrightarrow> gt_override_expires_at g \<noteq> None
          \<and> (\<exists>r. gt_override_reason g = Some r \<and> (\<exists>c \<in> set cs. override_by sid k r c))"
    and "gt_required_signers g = (if k = ''MutationAuditClean'' then 0 else signers_required k)"
    and "gt_id g = k"
  shows "gate_ok sid cs k (touch_gate clk g)"
  using assms
  by (cases "gt_override_expires_at g")
    (auto simp: gate_ok_def touch_gate_def drop_expired_def clear_override_def gate_satisfied_def Let_def
      split: option.splits)

lemma gate_ok_clear:
  assumes "gate_ok sid cs k g" and "gt_id g = k"
  shows "gate_ok sid cs k (touch_gate clk (clear_override g))"
  by (rule gate_ok_touch) (use assms in \<open>simp_all add: gate_ok_def clear_override_def\<close>)

lemma gate_ok_default: "gate_ok sid cs k (default_gate_snapshot clk k)"
proof (cases "k = ''MutationAuditClean''")
  case True
  then show ?thesis by (simp add: default_gate_snapshot_def gate_ok_def)
next
  case False
  then show ?thesis
    by (subst default_gate_snapshot_def, simp only: False if_False, intro gate_ok_touch)
      (auto simp: signers_required_def)
qed

lemma gate_ok_current:
  "\<forall>g. m k = Some g \<longrightarrow> gate_ok sid cs k g \<Longrightarrow> gate_ok sid cs k (current_gate clk k m)"
  by (cases "m k") (auto simp: current_gate_def gate_ok_default)

lemma gate_ok_edit:
  assumes edit: "gate_edit c = Some (k, f)" and ok: "gate_ok (gcl_session c) cs k g" and id: "gt_id g = k"
  shows "gate_ok (gcl_session c) (cs @ [c]) k (f g)"
proof -
  note ok' = gate_ok_mono [OF ok, of c]
  show ?thesis
  proof (cases "gcl_kind c")
    case Evaluate
    then have "f g = g \<or> f g = touch_gate (gcl_clock c) (clear_override g)"
      using edit by (auto simp: gate_edit_def Let_def known_edit_Some)
    then show ?thesis using ok' id gate_ok_clear by metis
  next
    case Signoff
    then obtain who where who: "gate_actor (gcl_principal c) = Some who"
      and k: "k = payload_gate_id (cmd_payload (gcl_cmd c))"
      and f: "f g = touch_gate (gcl_clock c) (add_gate_signer (gcl_clock c) who g)"
      using edit by (auto simp: gate_edit_def Let_def known_edit_Some bind_eq_Some_conv)
    have "signoff_by (gcl_session c) k who c" by (simp add: signoff_by_def Signoff who k)
    with ok' id show ?thesis unfolding f
      by (intro gate_ok_touch) (auto simp: gate_ok_def add_gate_signer_def list_ex_iff)
  next
    case Override
    then obtain e where f: "f g = touch_gate (gcl_clock c) (set_override (override_reason_of (cmd_payload (gcl_cmd c))) e g)"
      and o: "override_by (gcl_session c) k (override_reason_of (cmd_payload (gcl_cmd c))) c"
      using edit by (auto simp: gate_edit_def Let_def known_edit_Some bind_eq_Some_conv override_by_def
          split: if_splits sum.splits)
    from ok' id o show ?thesis unfolding f
      by (intro gate_ok_touch) (auto simp: gate_ok_def set_override_def)
  next
    case RevokeOverride
    then have "f g = touch_gate (gcl_clock c) (clear_override g)"
      using edit by (auto simp: gate_edit_def Let_def known_edit_Some bind_eq_Some_conv)
    then show ?thesis using ok' id gate_ok_clear by metis
  next
    case SyncMutationAudit
    then obtain n where "f g = sync_mutation_gate (gcl_clock c) n g" "k = ''MutationAuditClean''"
      using edit by (auto simp: gate_edit_def Let_def bind_eq_Some_conv)
    then show ?thesis using ok' by (simp add: gate_ok_def sync_mutation_gate_def Let_def)
  qed
qed

interpretation gates: traced_system gate_step "gates_inv sid" for sid
proof unfold_locales
  fix cs and ss :: "'a gate_sessions" and c
  assume inv: "gates_inv sid cs ss"
  then have named: "sessions_named ss" by (simp add: gates_inv_def)
  then show "gates_inv sid (cs @ [c]) (gate_step ss c)"
  proof (cases rule: gate_step_cases [of ss c])
    case refused
    with inv show ?thesis by (auto simp: gates_inv_def intro: gate_ok_mono)
  next
    case (accepted k f h)
    have "gate_ok sid (cs @ [c]) j g" if "gate_step ss c sid = Some h'" "gs_gates h' j = Some g" for j g h'
    proof (cases "gcl_session c = sid \<and> j = k")
      case True
      with inv accepted have "gate_ok sid cs k (current_gate (gcl_clock c) k (gs_gates h))"
        by (intro gate_ok_current) (auto simp: gates_inv_def)
      moreover have "gt_id (current_gate (gcl_clock c) k (gs_gates h)) = k"
        using named accepted by (intro current_gate_id) (auto simp: sessions_named_def)
      ultimately have "gate_ok sid (cs @ [c]) k (f (current_gate (gcl_clock c) k (gs_gates h)))"
        using gate_ok_edit [OF accepted(1)] True by blast
      with True that accepted show ?thesis by auto
    next
      case False
      have "\<exists>h2. ss sid = Some h2 \<and> gs_gates h2 j = Some g"
      proof (cases "gcl_session c = sid")
        case True
        with False that accepted show ?thesis by auto
      next
        case other: False
        with that accepted show ?thesis by auto
      qed
      with inv show ?thesis by (auto simp: gates_inv_def intro: gate_ok_mono)
    qed
    with named show ?thesis by (auto simp: gates_inv_def gate_step_named)
  qed
qed

lemma gates_inv_fresh:
  "sessions_named ss \<Longrightarrow> ss sid = Some h \<Longrightarrow> gs_gates h = Map.empty \<Longrightarrow> gates_inv sid [] ss"
  by (simp add: gates_inv_def)

section \<open>Overrides\<close>

lemma parse_expiry_future:
  "codec_ok clk \<Longrightarrow> parse_expiry clk raw = Inr e \<Longrightarrow> \<exists>t. parse_time clk e = Some t \<and> now clk < t"
  by (auto simp: parse_expiry_def codec_ok_def Let_def days_ns_def default_override_days_def
      split: option.splits if_splits)

lemma handle_override_ok:
  assumes "sessions_named ss" and "ack_ok (rp_ack (fst (handle_override clk cmd who ss)))"
  obtains h e where "ss (cmd_session_id cmd) = Some h"
    and "payload_gate_id (cmd_payload cmd) \<in> set known_gates" and "gate_actor who \<noteq> None"
    and "override_reason_of (cmd_payload cmd) \<noteq> []"
    and "parse_expiry clk (Option.bind (jget_any [''expires_at'', ''expiresAt''] (cmd_payload cmd)) as_str) = Inr e"
    and "snd (handle_override clk cmd who ss) (cmd_session_id cmd) = Some (h\<lparr>gs_gates :=
          (gs_gates h)(payload_gate_id (cmd_payload cmd) \<mapsto> touch_gate clk
             (set_override (override_reason_of (cmd_payload cmd)) e
               (current_gate clk (payload_gate_id (cmd_payload cmd)) (gs_gates h))))\<rparr>)"
proof -
  let ?c = "\<lparr>gcl_kind = Override, gcl_clock = clk, gcl_principal = who, gcl_cmd = cmd\<rparr>"
  have x: "gate_exec ?c ss = handle_override clk cmd who ss" by (simp add: gate_exec_def)
  from assms(1) show thesis
  proof (cases rule: gate_step_cases [of ss ?c])
    case refused
    with assms x show ?thesis by simp
  next
    case (accepted k f h)
    then obtain e where
      "parse_expiry clk (Option.bind (jget_any [''expires_at'', ''expiresAt''] (cmd_payload cmd)) as_str) = Inr e"
      "f = (\<lambda>g. touch_gate clk (set_override (override_reason_of (cmd_payload cmd)) e g))"
      "k = payload_gate_id (cmd_payload cmd)" "k \<in> set known_gates" "gate_actor who \<noteq> None"
      "override_reason_of (cmd_payload cmd) \<noteq> []"
      by (auto simp: gate_edit_def Let_def known_edit_Some bind_eq_Some_conv split: if_splits sum.splits)
    with accepted x show ?thesis by (intro that [of h e]) (auto simp: gate_step_def)
  qed
qed

lemma override_lasts:
  assumes "parse_time clk e = Some t" and "now clk < t"
  shows "gate_is_effectively_pass (clk\<lparr>now := u\<rparr>) (touch_gate clk (set_override r e g)) \<longleftrightarrow> u < t"
  using assms
  by (auto simp: gate_is_effectively_pass_def touch_gate_def set_override_def drop_expired_def Let_def)

text \<open>Who stands behind a gate that passes.\<close>

definition overridden_by_call :: "clock \<Rightarrow> string \<Rightarrow> gate_call list \<Rightarrow> string \<Rightarrow> gate_snapshot \<Rightarrow> bool" where
  "overridden_by_call clk sid cs k g \<longleftrightarrow>
     gt_overridden g \<and> (\<exists>t. expiry_instant clk g = Some t \<and> now clk < t)
     \<and> (\<exists>r. gt_override_reason g = Some r \<and> (\<exists>c \<in> set cs. override_by sid k r c))"

definition signed_by_people :: "string \<Rightarrow> gate_call list \<Rightarrow> string \<Rightarrow> bool" where
  "signed_by_people sid cs k \<longleftrightarrow>
     (\<exists>people. finite people \<and> card people \<ge> signers_required k
        \<and> (\<forall>p \<in> people. \<exists>c \<in> set cs. signoff_by sid k p c))"

lemma gate_ok_justified:
  assumes ok: "gate_ok sid cs k g" and pass: "gate_is_effectively_pass clk g"
  shows "overridden_by_call clk sid cs k g
    \<or> (k = ''MutationAuditClean'' \<and> \<not> gt_overridden g \<and> gt_state g = ''pass'')
    \<or> signed_by_people sid cs k"
proof (cases "gt_overridden g")
  case True
  with ok pass show ?thesis
    by (auto simp: gate_ok_def gate_is_effectively_pass_def expiry_instant_def overridden_by_call_def
        split: option.splits)
next
  case False
  with pass have "gt_state g = ''pass''" by (simp add: gate_is_effectively_pass_def)
  moreover have "card (gsg_name ` set (gt_signers g)) = length (gt_signers g)"
    using ok distinct_card [of "map gsg_name (gt_signers g)"] by (simp add: gate_ok_def)
  ultimately show ?thesis using ok False
    by (cases "k = ''MutationAuditClean''")
      (auto simp: gate_ok_def gate_satisfied_def signed_by_people_def
        intro!: exI [of _ "gsg_name ` set (gt_signers g)"])
qed

section \<open>Properties\<close>

text \<open>
  C7: no gate passes by itself. Starting from a session without gate records, after any
  sequence of gate commands of any sessions: a gate the release plane accepts at some instant is
  overridden until a later instant, by a call of an authenticated principal with a reason; or it
  is \<open>MutationAuditClean\<close> in state \<open>pass\<close>; or as many different people as the gate requires
  (two for \<open>ReadyToDeploy\<close> and \<open>ReadyToPublish\<close>) signed it off, each in a call made under that
  person's own authenticated name.
\<close>
theorem gate_pass_is_justified:
  assumes "sessions_named ss" and "ss sid = Some h0" and "gs_gates h0 = Map.empty"
    and "foldl gate_step ss cs sid = Some h" and "gs_gates h k = Some g"
    and "gate_is_effectively_pass clk g"
  shows "overridden_by_call clk sid cs k g
    \<or> (k = ''MutationAuditClean'' \<and> \<not> gt_overridden g \<and> gt_state g = ''pass'')
    \<or> signed_by_people sid cs k"
proof -
  have "gates_inv sid cs (foldl gate_step ss cs)"
    by (rule gates.run_inv) (rule gates_inv_fresh [OF assms(1-3)])
  with assms(4,5) have "gate_ok sid cs k g" by (auto simp: gates_inv_def)
  from gate_ok_justified [OF this assms(6)] show ?thesis .
qed

text \<open>
  Gates survive a restart. Rebuilding the gate map from the events a session emitted, in
  order, gives exactly the gate map the session has: no accepted command is lost, none is
  applied twice and every field of every gate is read back as it was written.
\<close>
theorem gates_survive_restart:
  assumes "sessions_named ss" and "ss sid = Some h0" and "gs_gates h0 = Map.empty"
  shows "\<exists>h. foldl gate_step ss cs sid = Some h
    \<and> build_session_gate_state clk (Some (Inr (session_log sid (gate_emitted ss cs)))) = gs_gates h"
  using gate_run_replay [OF assms(1,2), of cs clk] assms(3)
  by (auto simp: build_session_gate_state_def gates_from_events_def)

text \<open>
  Overrides are bounded in time. An accepted \<open>gate.override\<close> comes from an authenticated
  principal and names a known gate and a reason; it opens the gate from the call on up to, and
  not including, an expiry later than the call: the requested one, or seven days when none is
  given.
\<close>
theorem override_is_time_bounded:
  assumes "sessions_named ss" and "codec_ok clk"
    and "ack_ok (rp_ack (fst (handle_override clk cmd who ss)))"
  shows "gate_actor who \<noteq> None \<and> override_reason_of (cmd_payload cmd) \<noteq> []
    \<and> payload_gate_id (cmd_payload cmd) \<in> set known_gates
    \<and> (\<exists>h g t. snd (handle_override clk cmd who ss) (cmd_session_id cmd) = Some h
        \<and> gs_gates h (payload_gate_id (cmd_payload cmd)) = Some g \<and> now clk < t
        \<and> (\<forall>u. gate_is_effectively_pass (clk\<lparr>now := u\<rparr>) g \<longleftrightarrow> u < t)
        \<and> t = (case Option.bind (jget_any [''expires_at'', ''expiresAt''] (cmd_payload cmd)) as_str of
                 Some s \<Rightarrow> if trim s = [] then now clk + days_ns 7 else the (parse_time clk s)
               | None \<Rightarrow> now clk + days_ns 7))"
  using assms(1,3)
proof (cases rule: handle_override_ok)
  case (1 h e)
  let ?raw = "Option.bind (jget_any [''expires_at'', ''expiresAt''] (cmd_payload cmd)) as_str"
  from parse_expiry_future [OF assms(2) 1(5)] obtain t where t: "parse_time clk e = Some t" "now clk < t"
    by blast
  have "t = (case ?raw of Some s \<Rightarrow> if trim s = [] then now clk + days_ns 7 else the (parse_time clk s)
               | None \<Rightarrow> now clk + days_ns 7)"
    using 1(5) t(1) assms(2)
    by (auto simp: parse_expiry_def codec_ok_def Let_def default_override_days_def split: option.splits if_splits)
  with 1 t override_lasts [OF t] show ?thesis by auto
qed

text \<open>A session without gate records, and the calls two people make on it.\<close>

definition example_gate_session :: "gate_state \<Rightarrow> gate_session" where
  "example_gate_session m = \<lparr>gs_id = ''s'', gs_gates = m, gs_gate_poisoned = False\<rparr>"

definition example_gate_sessions :: "unit gate_sessions" where
  "example_gate_sessions = [''s'' \<mapsto> example_gate_session Map.empty]"

lemma example_gate_session_simps [simp]:
  "gs_id (example_gate_session m) = ''s''"
  "gs_gates (example_gate_session m) = m"
  "\<not> gs_gate_poisoned (example_gate_session m)"
  "(example_gate_session m)\<lparr>gs_gates := m'\<rparr> = example_gate_session m'"
  "example_gate_sessions ''s'' = Some (example_gate_session Map.empty)"
  by (simp_all add: example_gate_session_def example_gate_sessions_def)

definition example_gate_cmd :: "string \<Rightarrow> client_command" where
  "example_gate_cmd k = \<lparr>cmd_id = ''1'', cmd_session_id = ''s'', cmd_type = ''gate.signoff'',
     cmd_payload = JObj [(''id'', JStr k), (''reason'', JStr ''urgent'')], cmd_v = 1\<rparr>"

definition example_signoff :: "string \<Rightarrow> string \<Rightarrow> gate_call" where
  "example_signoff k who = \<lparr>gcl_kind = Signoff, gcl_clock = unary_clock 0, gcl_principal = Some who,
     gcl_cmd = example_gate_cmd k\<rparr>"

lemma example_gate_sessions_named: "sessions_named example_gate_sessions"
  by (simp add: example_gate_sessions_def sessions_named_def gates_keyed_def)

lemma example_signoff_edit:
  assumes "list_all plain_char k" "k \<in> set known_gates" "list_all plain_char who" "who \<noteq> []"
  shows "gate_edit (example_signoff k who)
    = Some (k, \<lambda>g. touch_gate (unary_clock 0) (add_gate_signer (unary_clock 0) who g))"
  using assms
  by (simp add: gate_edit_def example_signoff_def example_gate_cmd_def payload_gate_id_def jget_any_def
      trim_plain gate_actor_def filter_opt_def known_edit_def Let_def)

definition example_gate :: "string \<Rightarrow> string list \<Rightarrow> gate_snapshot" where
  "example_gate k who = foldl (\<lambda>g w. touch_gate (unary_clock 0) (add_gate_signer (unary_clock 0) w g))
     (default_gate_snapshot (unary_clock 0) k) who"

lemma example_signoff_step:
  assumes "list_all plain_char k" "k \<in> set known_gates" "list_all plain_char who" "who \<noteq> []"
    and "ss ''s'' = Some h" "\<not> gs_gate_poisoned h" "gates_keyed (gs_gates h)"
  shows "gate_step ss (example_signoff k who) = ss(''s'' \<mapsto> h\<lparr>gs_gates :=
     (gs_gates h)(k \<mapsto> touch_gate (unary_clock 0) (add_gate_signer (unary_clock 0) who
        (current_gate (unary_clock 0) k (gs_gates h))))\<rparr>)"
  using gate_exec_accepted [where ss = ss, OF example_signoff_edit [OF assms(1-4)]] assms(5-7)
  by (simp add: gate_step_def example_signoff_def example_gate_cmd_def)

lemma example_two_signoffs:
  "foldl gate_step example_gate_sessions
     [example_signoff ''ReadyToDeploy'' ''ann'', example_signoff ''ReadyToDeploy'' ''bob'']
   = [''s'' \<mapsto> example_gate_session [''ReadyToDeploy'' \<mapsto> example_gate ''ReadyToDeploy'' [''ann'', ''bob'']]]"
  by (simp add: example_signoff_step plain_char_def example_gate_sessions_def gates_keyed_def
      known_gates_def current_gate_def example_gate_def add_gate_signer_def)

lemmas example_gate_eval = example_gate_def default_gate_snapshot_def touch_gate_def drop_expired_def
  add_gate_signer_def gate_satisfied_def gate_is_effectively_pass_def Let_def

lemma example_gate_passes:
  "gate_is_effectively_pass clk (example_gate ''ReadyToDeploy'' [''ann'', ''bob''])"
  "gate_is_effectively_pass clk (example_gate ''DevComplete'' [''ann''])"
  by (simp_all add: example_gate_eval)

theorem gate_pass_is_justified_witness:
  "signed_by_people ''s'' [example_signoff ''ReadyToDeploy'' ''ann'', example_signoff ''ReadyToDeploy'' ''bob'']
     ''ReadyToDeploy''"
proof -
  have "\<not> gt_overridden (example_gate ''ReadyToDeploy'' [''ann'', ''bob''])"
    by (simp add: example_gate_eval)
  then show ?thesis
    using gate_pass_is_justified [OF example_gate_sessions_named example_gate_session_simps(5)
        example_gate_session_simps(2) fun_cong [OF example_two_signoffs, of "''s''", simplified fun_upd_same],
        of "''ReadyToDeploy''" "example_gate ''ReadyToDeploy'' [''ann'', ''bob'']" "unary_clock 5"]
    by (simp add: example_gate_passes overridden_by_call_def)
qed

theorem gates_survive_restart_witness:
  "\<exists>h. foldl gate_step example_gate_sessions [example_signoff ''ReadyToDeploy'' ''ann''] ''s'' = Some h
    \<and> build_session_gate_state (unary_clock 9) (Some (Inr (session_log ''s''
        (gate_emitted example_gate_sessions [example_signoff ''ReadyToDeploy'' ''ann''])))) = gs_gates h"
  by (rule gates_survive_restart [OF example_gate_sessions_named example_gate_session_simps(5)
        example_gate_session_simps(2)])

theorem override_is_time_bounded_witness:
  "\<exists>h g t. snd (handle_override (unary_clock 0) (example_gate_cmd ''ReadyToDeploy'') (Some ''ann'')
        example_gate_sessions) ''s'' = Some h
     \<and> gs_gates h ''ReadyToDeploy'' = Some g \<and> 0 < t
     \<and> (\<forall>u. gate_is_effectively_pass (unary_clock 0\<lparr>now := u\<rparr>) g \<longleftrightarrow> u < t) \<and> t = days_ns 7"
proof -
  have k: "payload_gate_id (cmd_payload (example_gate_cmd ''ReadyToDeploy'')) = ''ReadyToDeploy''"
    "override_reason_of (cmd_payload (example_gate_cmd ''ReadyToDeploy'')) = ''urgent''"
    "cmd_session_id (example_gate_cmd ''ReadyToDeploy'') = ''s''"
    "jget_any [''expires_at'', ''expiresAt''] (cmd_payload (example_gate_cmd ''ReadyToDeploy'')) = None"
    "gate_actor (Some ''ann'') = Some ''ann''"
    by (simp_all add: example_gate_cmd_def payload_gate_id_def jget_any_def override_reason_of_def
        get_defs filter_opt_def trim_plain plain_char_def gate_actor_def)
  have "ack_ok (rp_ack (fst (handle_override (unary_clock 0) (example_gate_cmd ''ReadyToDeploy'') (Some ''ann'')
        example_gate_sessions)))"
    by (simp add: handle_override_def k require_gate_actor_eq parse_expiry_def ensure_known_eq known_gates_def
        Let_def)
  from override_is_time_bounded [OF example_gate_sessions_named unary_codec this] show ?thesis
    by (simp add: k unary_clock_def)
qed

end
