(* ===== verification/Release.thy ===== *)
theory Release
  imports Gates
begin

text \<open>
  The release plane of \<open>apps/local-bridge/src/release.rs\<close>: deploy targets, dry-run deploys and
  publishes behind the gates of theory \<open>Gates\<close>, release notes, and the reconstruction of the
  per-session release state from the persisted events. \<open>git\<close> and \<open>ulid\<close> are parameters
  (\<open>release_env\<close>, \<open>ulid\<close>): git answers with its success flag and its standard output when
  that is UTF-8. \<open>targets\<close> is an association list (the code asks whether it is empty), the
  maps that are only written by key are \<open>\<rightharpoonup>\<close>.
\<close>

section \<open>Data\<close>

datatype release_provider = NotWired | DryRun

text \<open>\<open>from_env\<close> on the value of \<open>VAC_RELEASE_PROVIDER\<close>.\<close>

definition provider_from_env :: "string option \<Rightarrow> release_provider" where
  "provider_from_env var =
     (case map_option trim var of
        None \<Rightarrow> NotWired
      | Some s \<Rightarrow> if s \<in> {''dry_run'', ''dryrun'', ''dry-run''} then DryRun else NotWired)"

fun provider_label :: "release_provider \<Rightarrow> string" where
  "provider_label NotWired = ''not_wired''"
| "provider_label DryRun = ''dry_run''"

record deploy_target =
  dt_id :: string
  dt_label :: string
  dt_environment :: string
  dt_region :: "string option"
  dt_last_status :: string
  dt_last_commit :: "string option"
  dt_last_deployed_at :: "string option"

record deploy_event =
  de_id :: string
  de_target_id :: string
  de_commit :: string
  de_status :: string
  de_started_at :: string
  de_finished_at :: "string option"
  de_packet_id :: "string option"

record source_ref =
  sr_kind :: string
  sr_ref :: string

record notes_draft =
  nd_id :: string
  nd_target_id :: string
  nd_commit_range :: string
  nd_markdown :: string
  nd_source_refs :: "source_ref list"
  nd_generated_at :: string

record observation =
  ob_id :: string
  ob_target_id :: string
  ob_connector :: string
  ob_severity :: string
  ob_message :: string
  ob_observed_at :: string

record release_state =
  rl_targets :: "(string \<times> deploy_target) list"
  rl_deploys :: "string \<rightharpoonup> deploy_event"
  rl_notes :: "string \<rightharpoonup> notes_draft"
  rl_observations :: "observation list"

definition release_state_default :: release_state where
  "release_state_default = \<lparr>rl_targets = [], rl_deploys = Map.empty, rl_notes = Map.empty, rl_observations = []\<rparr>"

definition idle_target :: "string \<times> string \<times> string \<Rightarrow> deploy_target" where
  "idle_target t = (case t of (i, l, e) \<Rightarrow>
     \<lparr>dt_id = i, dt_label = l, dt_environment = e, dt_region = None, dt_last_status = ''idle'',
      dt_last_commit = None, dt_last_deployed_at = None\<rparr>)"

definition default_targets :: "(string \<times> string \<times> string) list" where
  "default_targets = [(''staging'', ''Staging'', ''staging''), (''prod'', ''Production'', ''production'')]"

section \<open>Operations on the state\<close>

definition seed_default_targets :: "release_state \<Rightarrow> release_state" where
  "seed_default_targets st =
     (if rl_targets st = [] then
        st\<lparr>rl_targets := foldl (\<lambda>m t. AList.update (fst t) (idle_target t) m) (rl_targets st) default_targets\<rparr>
      else st)"

definition target_list :: "release_state \<Rightarrow> deploy_target list" where
  "target_list st = List.map_filter (\<lambda>t. map_of (rl_targets st) (fst t)) default_targets"

definition get_target :: "release_state \<Rightarrow> string \<Rightarrow> deploy_target option" where
  "get_target st i = map_of (rl_targets st) i"

definition modify_target :: "string \<Rightarrow> (deploy_target \<Rightarrow> deploy_target) \<Rightarrow> release_state \<Rightarrow> release_state" where
  "modify_target i f st =
     (case map_of (rl_targets st) i of
        None \<Rightarrow> st
      | Some t \<Rightarrow> st\<lparr>rl_targets := AList.update i (f t) (rl_targets st)\<rparr>)"

definition apply_deploy :: "deploy_event \<Rightarrow> release_state \<Rightarrow> release_state" where
  "apply_deploy e st =
     modify_target (de_target_id e)
       (\<lambda>t. let t1 = t\<lparr>dt_last_status := de_status e, dt_last_commit := Some (de_commit e)\<rparr> in
            case de_finished_at e of
              Some f \<Rightarrow> t1\<lparr>dt_last_deployed_at := Some f\<rparr>
            | None \<Rightarrow> t1)
       (st\<lparr>rl_deploys := (rl_deploys st)(de_id e \<mapsto> e)\<rparr>)"

definition add_note :: "notes_draft \<Rightarrow> release_state \<Rightarrow> release_state" where
  "add_note d st = st\<lparr>rl_notes := (rl_notes st)(nd_id d \<mapsto> d)\<rparr>"

definition append_observation :: "observation \<Rightarrow> release_state \<Rightarrow> release_state" where
  "append_observation ob st =
     (let obs = rl_observations st @ [ob] in
      st\<lparr>rl_observations := (if length obs > 200 then drop (length obs - 200) obs else obs)\<rparr>)"

definition static_targets :: "deploy_target list" where
  "static_targets = map idle_target default_targets"

section \<open>Persistence\<close>

definition opt_field :: "string \<Rightarrow> string option \<Rightarrow> (string \<times> json) list" where
  "opt_field k a = (case a of Some s \<Rightarrow> [(k, JStr s)] | None \<Rightarrow> [])"

definition target_json :: "deploy_target \<Rightarrow> json" where
  "target_json t = JObj ([(''id'', JStr (dt_id t)), (''label'', JStr (dt_label t)),
     (''environment'', JStr (dt_environment t))] @ opt_field ''region'' (dt_region t)
     @ [(''last_status'', JStr (dt_last_status t))] @ opt_field ''last_commit'' (dt_last_commit t)
     @ opt_field ''last_deployed_at'' (dt_last_deployed_at t))"

definition any_str :: "string list \<Rightarrow> json \<Rightarrow> string option" where
  "any_str ks v = Option.bind (jget_any ks v) as_str"

definition target_from_value :: "json \<Rightarrow> deploy_target option" where
  "target_from_value v =
     (case (get_str ''id'' v, get_str ''label'' v, get_str ''environment'' v) of
        (Some i, Some l, Some e) \<Rightarrow> Some
          \<lparr>dt_id = i, dt_label = l, dt_environment = e, dt_region = get_str ''region'' v,
           dt_last_status = unwrap_or ''idle'' (any_str [''last_status'', ''lastStatus''] v),
           dt_last_commit = any_str [''last_commit'', ''lastCommit''] v,
           dt_last_deployed_at = any_str [''last_deployed_at'', ''lastDeployedAt''] v\<rparr>
      | _ \<Rightarrow> None)"

definition deploy_event_from_value :: "json \<Rightarrow> deploy_event option" where
  "deploy_event_from_value v =
     (case (get_str ''deploy_id'' v, get_str ''target_id'' v, get_str ''commit'' v,
            get_str ''status'' v, get_str ''started_at'' v) of
        (Some i, Some t, Some c, Some s, Some st) \<Rightarrow> Some
          \<lparr>de_id = i, de_target_id = t, de_commit = c, de_status = s, de_started_at = st,
           de_finished_at = get_str ''finished_at'' v, de_packet_id = get_str ''packet_id'' v\<rparr>
      | _ \<Rightarrow> None)"

definition source_ref_from_value :: "json \<Rightarrow> source_ref option" where
  "source_ref_from_value v =
     (case (get_str ''kind'' v, any_str [''ref'', ''ref_''] v) of
        (Some k, Some r) \<Rightarrow> Some \<lparr>sr_kind = k, sr_ref = r\<rparr>
      | _ \<Rightarrow> None)"

definition notes_draft_from_value :: "json \<Rightarrow> notes_draft option" where
  "notes_draft_from_value v =
     (case (get_str ''id'' v, get_str ''target_id'' v, get_str ''commit_range'' v,
            get_str ''markdown'' v, get_str ''generated_at'' v) of
        (Some i, Some t, Some c, Some m, Some g) \<Rightarrow> Some
          \<lparr>nd_id = i, nd_target_id = t, nd_commit_range = c, nd_markdown = m,
           nd_source_refs = unwrap_or [] (map_option (List.map_filter source_ref_from_value) (get_arr ''source_refs'' v)),
           nd_generated_at = g\<rparr>
      | _ \<Rightarrow> None)"

definition observation_from_value :: "json \<Rightarrow> observation option" where
  "observation_from_value v =
     (case (get_str ''id'' v, get_str ''target_id'' v, get_str ''connector'' v,
            get_str ''severity'' v, get_str ''message'' v, get_str ''observed_at'' v) of
        (Some i, Some t, Some c, Some s, Some m, Some ts) \<Rightarrow> Some
          \<lparr>ob_id = i, ob_target_id = t, ob_connector = c, ob_severity = s, ob_message = m, ob_observed_at = ts\<rparr>
      | _ \<Rightarrow> None)"

definition restore_targets :: "json \<Rightarrow> release_state \<Rightarrow> release_state" where
  "restore_targets payload st =
     (case get_arr ''targets'' payload of
        None \<Rightarrow> st
      | Some ts \<Rightarrow> st\<lparr>rl_targets :=
          foldl (\<lambda>m t. AList.update (dt_id t) t m) [] (List.map_filter target_from_value ts)\<rparr>)"

definition release_apply_event :: "release_state \<Rightarrow> string \<times> json \<Rightarrow> release_state" where
  "release_apply_event st ev =
     (let ty = fst ev; payload = snd ev in
      if ty = ''release.targets'' then restore_targets payload st
      else if ty = ''release.deploy_progress'' then
        (case deploy_event_from_value payload of Some e \<Rightarrow> apply_deploy e st | None \<Rightarrow> st)
      else if ty = ''release.notes_draft'' then
        (case notes_draft_from_value payload of Some d \<Rightarrow> add_note d st | None \<Rightarrow> st)
      else if ty = ''release.post_deploy_observation'' then
        (case observation_from_value payload of
           Some ob \<Rightarrow> st\<lparr>rl_observations := rl_observations st @ [ob]\<rparr>
         | None \<Rightarrow> st)
      else st)"

definition release_from_events :: "(string \<times> json) list \<Rightarrow> release_state" where
  "release_from_events evs = foldl release_apply_event (seed_default_targets release_state_default) evs"

definition build_session_release_state :: "(unit + (string \<times> json) list) option \<Rightarrow> release_state" where
  "build_session_release_state persistence =
     (case persistence of
        Some (Inr evs) \<Rightarrow> release_from_events evs
      | Some (Inl _) \<Rightarrow> release_state_default
      | None \<Rightarrow> seed_default_targets release_state_default)"

section \<open>Commands\<close>

record release_session = gate_session +
  rs_release :: release_state
  rs_release_poisoned :: bool
  rs_project_root :: string

type_synonym release_sessions = "string \<rightharpoonup> release_session"

record release_env =
  re_provider :: release_provider
  re_git :: "string \<Rightarrow> string list \<Rightarrow> (bool \<times> string option) option"

definition git_rev_parse :: "release_env \<Rightarrow> string \<Rightarrow> string list \<Rightarrow> string option" where
  "git_rev_parse env root args =
     (case re_git env root args of
        Some (True, Some out) \<Rightarrow> if trim out = [] then None else Some (trim out)
      | _ \<Rightarrow> None)"

definition current_commit_short :: "release_env \<Rightarrow> string \<Rightarrow> string option" where
  "current_commit_short env root = git_rev_parse env root [''rev-parse'', ''--short=8'', ''HEAD'']"

definition previous_commit_short :: "release_env \<Rightarrow> string \<Rightarrow> string option" where
  "previous_commit_short env root = git_rev_parse env root [''rev-parse'', ''--short=8'', ''HEAD^'']"

definition release_audit :: "client_command \<Rightarrow> (string \<times> json) list \<Rightarrow> audit_call" where
  "release_audit cmd kvs =
     \<lparr>au_session = cmd_session_id cmd, au_subsystem = ''release'', au_severity = ''info'', au_fields = JObj kvs\<rparr>"

definition target_required :: "client_command \<Rightarrow> reply" where
  "target_required cmd = refuse cmd ''release.target_not_found'' ''target id is required''"

definition target_not_found :: "client_command \<Rightarrow> string \<Rightarrow> reply" where
  "target_not_found cmd t =
     refuse cmd ''release.target_not_found'' (''release target '' @ t @ '' not found'')"

definition release_internal_error :: "client_command \<Rightarrow> string \<Rightarrow> reply" where
  "release_internal_error cmd msg = refuse cmd ''persistence.write_failed'' msg"

definition handle_list_targets :: "release_env \<Rightarrow> clock \<Rightarrow> client_command \<Rightarrow> release_sessions \<Rightarrow> reply" where
  "handle_list_targets env clk cmd ss =
     (let answer = (\<lambda>ts. reply_with (ack_ok_for cmd)
            [mk_event (cmd_session_id cmd) ''release.targets''
               (JObj [(''targets'', JArr (map target_json ts)),
                      (''provider'', JStr (provider_label (re_provider env)))]) (now_iso clk)] []
            [release_audit cmd [(''command'', JStr ''release.list_targets''),
               (''count'', JUint (length ts)), (''decision'', JStr ''allow'')]])
      in if cmd_session_id cmd = [] then answer static_targets
         else (case ss (cmd_session_id cmd) of
             None \<Rightarrow> session_not_found cmd
           | Some h \<Rightarrow> answer (if rs_release_poisoned h then static_targets else target_list (rs_release h))))"

definition make_draft :: "release_env \<Rightarrow> clock \<Rightarrow> string \<Rightarrow> string \<Rightarrow> string \<Rightarrow> deploy_target \<Rightarrow> notes_draft" where
  "make_draft env clk ulid root target_id target =
     (let commit_head = unwrap_or ''unknown'' (current_commit_short env root);
          baseline = unwrap_or commit_head (or_else (dt_last_commit target) (previous_commit_short env root));
          commit_range = baseline @ ''..'' @ commit_head
      in \<lparr>nd_id = ''notes_'' @ target_id @ ''_'' @ ulid,
          nd_target_id = target_id,
          nd_commit_range = commit_range,
          nd_markdown = ''## What changed'' @ nl @ nl @ ''- Release notes draft for '' @ dt_label target
            @ '' ('' @ target_id @ '')'' @ nl @ ''- Generated from the bridge release plane'' @ nl
            @ ''- Commit range: '' @ commit_range @ nl,
          nd_source_refs = [\<lparr>sr_kind = ''commit'', sr_ref = baseline\<rparr>,
                            \<lparr>sr_kind = ''packet'', sr_ref = ''release:'' @ target_id\<rparr>],
          nd_generated_at = now_iso clk\<rparr>)"

definition source_ref_json :: "source_ref \<Rightarrow> json" where
  "source_ref_json r = JObj [(''kind'', JStr (sr_kind r)), (''ref_'', JStr (sr_ref r))]"

definition notes_payload :: "notes_draft \<Rightarrow> json" where
  "notes_payload d = JObj [(''id'', JStr (nd_id d)), (''target_id'', JStr (nd_target_id d)),
     (''commit_range'', JStr (nd_commit_range d)), (''markdown'', JStr (nd_markdown d)),
     (''source_refs'', JArr (map source_ref_json (nd_source_refs d))),
     (''generated_at'', JStr (nd_generated_at d))]"

definition with_release :: "release_session \<Rightarrow> release_state \<Rightarrow> release_session" where
  "with_release h st = h\<lparr>rs_release := st\<rparr>"

definition handle_generate_notes :: "release_env \<Rightarrow> clock \<Rightarrow> string \<Rightarrow> client_command \<Rightarrow> release_sessions
    \<Rightarrow> reply \<times> release_sessions" where
  "handle_generate_notes env clk ulid cmd ss =
     (let sid = cmd_session_id cmd in
      case ss sid of
        None \<Rightarrow> (session_not_found cmd, ss)
      | Some h \<Rightarrow>
          (case get_str ''target_id'' (cmd_payload cmd) of
             None \<Rightarrow> (target_required cmd, ss)
           | Some target_id \<Rightarrow>
               if rs_release_poisoned h then (release_internal_error cmd ''release state lock poisoned'', ss)
               else
                 let st = seed_default_targets (rs_release h) in
                 (case get_target st target_id of
                    None \<Rightarrow> (target_not_found cmd target_id, ss(sid \<mapsto> with_release h st))
                  | Some target \<Rightarrow>
                      let draft = make_draft env clk ulid (rs_project_root h) target_id target in
                      (reply_with (ack_ok_for cmd) []
                         [mk_event (gs_id h) ''release.notes_draft'' (notes_payload draft) (now_iso clk)]
                         [release_audit cmd [(''command'', JStr ''release.generate_notes''),
                            (''target_id'', JStr target_id), (''decision'', JStr ''allow'')]],
                       ss(sid \<mapsto> with_release h (add_note draft st))))))"

text \<open>What a refused deploy or publish returns; \<open>extra\<close> is the environment field of deploys.\<close>

definition provider_refusal :: "client_command \<Rightarrow> string \<Rightarrow> string \<Rightarrow> reply" where
  "provider_refusal cmd command target_id =
     reply_with (ack_err_for cmd ''release.provider_not_wired''
         ''no release provider is wired; set VAC_RELEASE_PROVIDER=dry_run to enable explicit demo mode'') [] []
       [release_audit cmd [(''command'', JStr command), (''target_id'', JStr target_id),
          (''decision'', JStr ''deny''), (''reason'', JStr ''release.provider_not_wired'')]]"

definition gates_refusal :: "clock \<Rightarrow> client_command \<Rightarrow> string \<Rightarrow> string \<Rightarrow> string \<Rightarrow> (string \<times> json) list
    \<Rightarrow> string list \<Rightarrow> reply" where
  "gates_refusal clk cmd sid command target_id extra missing =
     (let blocked_by_mutation = (''MutationAuditClean'' \<in> set missing) in
      reply_with (ack_err_for cmd ''release.gate_not_ready'' (''release gates not ready: '' @ str_join '', '' missing))
        [mk_event sid ''release.audit''
           (JObj ([(''command'', JStr command), (''target_id'', JStr target_id)] @ extra @
              [(''decision'', JStr ''deny''), (''blocked_by'', json_strs missing),
               (''mutation_audit_blocked'', JBool blocked_by_mutation), (''ts'', JStr (now_iso clk))]))
           (now_iso clk)] []
        [release_audit cmd ([(''command'', JStr command), (''target_id'', JStr target_id)] @ extra @
           [(''decision'', JStr ''deny''),
            (''reason'', JStr (if blocked_by_mutation then ''mutation_audit_unclean'' else ''gate_not_ready'')),
            (''missing_gates'', json_strs missing)])])"

definition dry_run_event :: "release_env \<Rightarrow> clock \<Rightarrow> client_command \<Rightarrow> string \<Rightarrow> string \<Rightarrow> string \<Rightarrow> deploy_event" where
  "dry_run_event env clk cmd root deploy_id target_id =
     \<lparr>de_id = deploy_id, de_target_id = target_id,
      de_commit = unwrap_or ''unknown'' (current_commit_short env root), de_status = ''dry_run'',
      de_started_at = now_iso clk, de_finished_at = Some (now_iso clk), de_packet_id = Some (cmd_id cmd)\<rparr>"

definition dry_run_target :: "deploy_event \<Rightarrow> string \<Rightarrow> deploy_target \<Rightarrow> deploy_target" where
  "dry_run_target e ts t =
     t\<lparr>dt_last_status := ''dry_run'', dt_last_commit := Some (de_commit e), dt_last_deployed_at := Some ts\<rparr>"

definition progress_payload :: "release_env \<Rightarrow> deploy_event \<Rightarrow> json" where
  "progress_payload env e = JObj [(''deploy_id'', JStr (de_id e)), (''target_id'', JStr (de_target_id e)),
     (''commit'', JStr (de_commit e)), (''status'', JStr (de_status e)),
     (''started_at'', JStr (de_started_at e)), (''finished_at'', json_opt JStr (de_finished_at e)),
     (''packet_id'', json_opt JStr (de_packet_id e)),
     (''provider'', JStr (provider_label (re_provider env))), (''dry_run'', JBool True)]"

definition handle_deploy :: "release_env \<Rightarrow> clock \<Rightarrow> string \<Rightarrow> client_command \<Rightarrow> release_sessions
    \<Rightarrow> reply \<times> release_sessions" where
  "handle_deploy env clk ulid cmd ss =
     (let sid = cmd_session_id cmd in
      case ss sid of
        None \<Rightarrow> (session_not_found cmd, ss)
      | Some h \<Rightarrow>
          (case get_str ''target_id'' (cmd_payload cmd) of
             None \<Rightarrow> (target_required cmd, ss)
           | Some target_id \<Rightarrow>
               if re_provider env = NotWired then (provider_refusal cmd ''release.deploy'' target_id, ss)
               else if rs_release_poisoned h then (release_internal_error cmd ''release state lock poisoned'', ss)
               else
                 let st = seed_default_targets (rs_release h) in
                 (case get_target st target_id of
                    None \<Rightarrow> (target_not_found cmd target_id, ss(sid \<mapsto> with_release h st))
                  | Some target \<Rightarrow>
                      if gs_gate_poisoned h then
                        (release_internal_error cmd ''gate state lock poisoned'', ss(sid \<mapsto> with_release h st))
                      else
                        let required = required_gate_ids_for_environment (dt_environment target);
                            (ready, missing) = missing_gate_ids clk (gs_gates h) required
                        in if \<not> ready then
                             (gates_refusal clk cmd (gs_id h) ''release.deploy'' target_id
                                [(''environment'', JStr (dt_environment target))] missing,
                              ss(sid \<mapsto> with_release h st))
                           else
                             let deploy_id = ''dep_'' @ ulid;
                                 e = dry_run_event env clk cmd (rs_project_root h) deploy_id target_id;
                                 st2 = modify_target target_id (dry_run_target e (now_iso clk)) (apply_deploy e st)
                             in (reply_with (ack_ok_for cmd) []
                                   [mk_event (gs_id h) ''release.deploy_progress'' (progress_payload env e) (now_iso clk)]
                                   [release_audit cmd [(''command'', JStr ''release.deploy''),
                                      (''target_id'', JStr target_id), (''deploy_id'', JStr deploy_id),
                                      (''decision'', JStr ''allow''),
                                      (''provider'', JStr (provider_label (re_provider env)))]],
                                 ss(sid \<mapsto> with_release h st2)))))"

definition handle_publish :: "release_env \<Rightarrow> clock \<Rightarrow> string \<Rightarrow> client_command \<Rightarrow> release_sessions
    \<Rightarrow> reply \<times> release_sessions" where
  "handle_publish env clk ulid cmd ss =
     (let sid = cmd_session_id cmd in
      case ss sid of
        None \<Rightarrow> (session_not_found cmd, ss)
      | Some h \<Rightarrow>
          (case get_str ''target_id'' (cmd_payload cmd) of
             None \<Rightarrow> (target_required cmd, ss)
           | Some target_id \<Rightarrow>
               if re_provider env = NotWired then (provider_refusal cmd ''release.publish'' target_id, ss)
               else if rs_release_poisoned h then (release_internal_error cmd ''release state lock poisoned'', ss)
               else
                 let st = seed_default_targets (rs_release h) in
                 (case get_target st target_id of
                    None \<Rightarrow> (target_not_found cmd target_id, ss(sid \<mapsto> with_release h st))
                  | Some target \<Rightarrow>
                      if gs_gate_poisoned h then
                        (release_internal_error cmd ''gate state lock poisoned'', ss(sid \<mapsto> with_release h st))
                      else
                        let (ready, missing) = missing_gate_ids clk (gs_gates h) required_publish_gate_ids
                        in if \<not> ready then
                             (gates_refusal clk cmd (gs_id h) ''release.publish'' target_id [] missing,
                              ss(sid \<mapsto> with_release h st))
                           else
                             let deploy_id = ''pub_'' @ target_id @ ''_'' @ ulid;
                                 e = dry_run_event env clk cmd (rs_project_root h) deploy_id target_id;
                                 st2 = modify_target target_id (dry_run_target e (now_iso clk)) (apply_deploy e st)
                             in (reply_with (ack_ok_for cmd) []
                                   [mk_event (gs_id h) ''release.deploy_progress'' (progress_payload env e) (now_iso clk)]
                                   [release_audit cmd [(''command'', JStr ''release.publish''),
                                      (''target_id'', JStr target_id), (''deploy_id'', JStr deploy_id),
                                      (''decision'', JStr ''allow''),
                                      (''provider'', JStr (provider_label (re_provider env)))]],
                                 ss(sid \<mapsto> with_release h st2)))))"

section \<open>The release plane as one system\<close>

datatype release_command = ListTargets | GenerateNotes | Deploy | Publish

record release_call =
  rcl_kind :: release_command
  rcl_env :: release_env
  rcl_clock :: clock
  rcl_ulid :: string
  rcl_cmd :: client_command

definition release_exec :: "release_call \<Rightarrow> release_sessions \<Rightarrow> reply \<times> release_sessions" where
  "release_exec c ss =
     (case rcl_kind c of
        ListTargets \<Rightarrow> (handle_list_targets (rcl_env c) (rcl_clock c) (rcl_cmd c) ss, ss)
      | GenerateNotes \<Rightarrow> handle_generate_notes (rcl_env c) (rcl_clock c) (rcl_ulid c) (rcl_cmd c) ss
      | Deploy \<Rightarrow> handle_deploy (rcl_env c) (rcl_clock c) (rcl_ulid c) (rcl_cmd c) ss
      | Publish \<Rightarrow> handle_publish (rcl_env c) (rcl_clock c) (rcl_ulid c) (rcl_cmd c) ss)"

text \<open>Gate and release commands of all sessions, in the order the bridge handles them.\<close>

datatype plane_call = GateCall gate_call | ReleaseCall release_call

fun plane_exec :: "plane_call \<Rightarrow> release_sessions \<Rightarrow> reply \<times> release_sessions" where
  "plane_exec (GateCall c) ss = gate_exec c ss"
| "plane_exec (ReleaseCall c) ss = release_exec c ss"

definition plane_step :: "release_sessions \<Rightarrow> plane_call \<Rightarrow> release_sessions" where
  "plane_step ss c = snd (plane_exec c ss)"

fun plane_gate_call :: "plane_call \<Rightarrow> gate_call option" where
  "plane_gate_call (GateCall c) = Some c"
| "plane_gate_call (ReleaseCall c) = None"

definition gate_calls :: "plane_call list \<Rightarrow> gate_call list" where
  "gate_calls cs = List.map_filter plane_gate_call cs"

section \<open>Persisted release events\<close>

lemma source_ref_roundtrip [json_simps]: "source_ref_from_value (source_ref_json r) = Some r"
  by (simp add: source_ref_from_value_def source_ref_json_def get_defs any_str_def jget_any_def)

lemma notes_roundtrip: "notes_draft_from_value (notes_payload d) = Some d"
  by (simp add: notes_draft_from_value_def notes_payload_def get_defs json_simps map_filter_map_Some)

lemma progress_roundtrip: "deploy_event_from_value (progress_payload env e) = Some e"
  by (simp add: deploy_event_from_value_def progress_payload_def get_defs json_simps)

lemma target_roundtrip: "target_from_value (target_json t) = Some t"
  by (cases "dt_region t"; cases "dt_last_commit t"; cases "dt_last_deployed_at t")
    (simp_all add: target_from_value_def target_json_def opt_field_def get_defs any_str_def jget_any_def)

lemma replay_notes:
  "release_apply_event st (''release.notes_draft'', notes_payload d) = add_note d st"
  by (simp add: release_apply_event_def notes_roundtrip)

lemma replay_progress:
  "release_apply_event st (''release.deploy_progress'', progress_payload env e) = apply_deploy e st"
  by (simp add: release_apply_event_def progress_roundtrip)

lemma replay_gate_event:
  "release_apply_event st (''gate.changed'', v) = st"
  by (simp add: release_apply_event_def)

lemma gate_replay_release_event:
  "ty \<in> {''release.notes_draft'', ''release.deploy_progress''} \<Longrightarrow> gate_apply_event clk m (ty, v) = m"
  by (auto simp: gate_apply_event_def starts_with_def)

lemma update_twice: "AList.update k v (AList.update k w m) = AList.update k v m"
  by (induction m) auto

lemma dry_run_twice:
  assumes "de_status e = ''dry_run''" and "de_finished_at e = Some ts"
  shows "modify_target (de_target_id e) (dry_run_target e ts) (apply_deploy e st) = apply_deploy e st"
  using assms
  by (cases "map_of (rl_targets st) (de_target_id e)")
    (simp_all add: modify_target_def apply_deploy_def dry_run_target_def update_twice Let_def update_conv')

section \<open>What a release command does\<close>

definition seeded :: "release_session \<Rightarrow> release_state" where
  "seeded h = seed_default_targets (rs_release h)"

lemma update_not_Nil [simp]: "AList.update k v m \<noteq> []"
  by (cases m) auto

lemma seed_not_Nil [simp]: "rl_targets (seed_default_targets st) \<noteq> []"
  by (simp add: seed_default_targets_def default_targets_def)

lemma seed_idem: "rl_targets st \<noteq> [] \<Longrightarrow> seed_default_targets st = st"
  by (simp add: seed_default_targets_def)

lemma targets_not_Nil:
  "rl_targets st \<noteq> [] \<Longrightarrow> rl_targets (add_note d st) \<noteq> []"
  "rl_targets st \<noteq> [] \<Longrightarrow> rl_targets (apply_deploy e st) \<noteq> []"
  by (simp_all add: add_note_def apply_deploy_def modify_target_def split: option.splits)

abbreviation rcl_session :: "release_call \<Rightarrow> string" where
  "rcl_session c \<equiv> cmd_session_id (rcl_cmd c)"

lemma with_release_simps [simp]:
  "gs_id (with_release h st) = gs_id h"
  "gs_gates (with_release h st) = gs_gates h"
  "gs_gate_poisoned (with_release h st) = gs_gate_poisoned h"
  "rs_release (with_release h st) = st"
  "rs_release_poisoned (with_release h st) = rs_release_poisoned h"
  "rs_project_root (with_release h st) = rs_project_root h"
  by (simp_all add: with_release_def)

text \<open>The three effects a release command can have on its session, and no other.\<close>

inductive release_effect :: "release_call \<Rightarrow> release_session \<Rightarrow> release_state \<Rightarrow> server_event list \<Rightarrow> bool"
  for c :: release_call and h :: release_session where
  Nothing: "st \<in> {rs_release h, seeded h} \<Longrightarrow> release_effect c h st []"
| Noted: "release_effect c h (add_note d (seeded h))
    [mk_event (gs_id h) ''release.notes_draft'' (notes_payload d) (now_iso (rcl_clock c))]"
| Deployed: "de_status e = ''dry_run'' \<Longrightarrow>
    release_effect c h (apply_deploy e (seeded h))
    [mk_event (gs_id h) ''release.deploy_progress'' (progress_payload (rcl_env c) e) (now_iso (rcl_clock c))]"

inductive_cases release_effectE: "release_effect c h st evs"

lemma dry_run_event_simps [simp]:
  "de_id (dry_run_event env clk cmd root i t) = i"
  "de_target_id (dry_run_event env clk cmd root i t) = t"
  "de_status (dry_run_event env clk cmd root i t) = ''dry_run''"
  "de_finished_at (dry_run_event env clk cmd root i t) = Some (now_iso clk)"
  by (simp_all add: dry_run_event_def)

lemma dry_run_event_twice:
  "modify_target t (dry_run_target (dry_run_event env clk cmd root i t) (now_iso clk))
     (apply_deploy (dry_run_event env clk cmd root i t) st) = apply_deploy (dry_run_event env clk cmd root i t) st"
  using dry_run_twice [of "dry_run_event env clk cmd root i t" "now_iso clk" st] by simp

lemma with_release_same: "with_release h (rs_release h) = h"
  by (simp add: with_release_def)

lemma missing_gate_ids_eq:
  "missing_gate_ids clk m required =
     (list_all (\<lambda>k. map_option (gate_is_effectively_pass clk) (m k) = Some True) required,
      filter (\<lambda>k. map_option (gate_is_effectively_pass clk) (m k) \<noteq> Some True) required)"
  by (auto simp: missing_gate_ids_def Let_def filter_empty_conv list_all_iff)

lemma effect_exI:
  "release_effect c h (rs_release h) evs \<Longrightarrow>
     \<exists>st. release_effect c h st evs \<and> m(k \<mapsto> with_release h (rs_release h)) = m(k \<mapsto> with_release h st)"
  "release_effect c h st' evs \<Longrightarrow>
     \<exists>st. release_effect c h st evs \<and> m(k \<mapsto> with_release h st') = m(k \<mapsto> with_release h st)"
  "release_effect c h (rs_release h) evs \<Longrightarrow> m k = Some h \<Longrightarrow>
     \<exists>st. release_effect c h st evs \<and> m = m(k \<mapsto> with_release h st)"
  by (auto simp: with_release_same fun_upd_idem intro: exI [of _ "rs_release h"])

lemma handle_generate_notes_effect:
  assumes "ss (cmd_session_id cmd) = Some h" and "rcl_env c = env" "rcl_clock c = clk"
  shows "\<exists>st. release_effect c h st (rp_emitted (fst (handle_generate_notes env clk ulid cmd ss)))
    \<and> snd (handle_generate_notes env clk ulid cmd ss) = ss(cmd_session_id cmd \<mapsto> with_release h st)"
  using assms
  by (auto simp: handle_generate_notes_def Let_def provider_refusal_def gates_refusal_def target_required_def
      target_not_found_def release_internal_error_def missing_gate_ids_eq dry_run_event_twice
      with_release_same seeded_def [symmetric] fun_upd_idem
      intro!: effect_exI intro: release_effect.intros
      split: option.splits)

lemma handle_deploy_effect:
  assumes "ss (cmd_session_id cmd) = Some h" and "rcl_env c = env" "rcl_clock c = clk"
  shows "\<exists>st. release_effect c h st (rp_emitted (fst (handle_deploy env clk ulid cmd ss)))
    \<and> snd (handle_deploy env clk ulid cmd ss) = ss(cmd_session_id cmd \<mapsto> with_release h st)"
  using assms
  by (auto simp: handle_deploy_def Let_def provider_refusal_def gates_refusal_def target_required_def
      target_not_found_def release_internal_error_def missing_gate_ids_eq dry_run_event_twice
      with_release_same seeded_def [symmetric] fun_upd_idem
      intro!: effect_exI intro: release_effect.intros
      split: option.splits)

lemma handle_publish_effect:
  assumes "ss (cmd_session_id cmd) = Some h" and "rcl_env c = env" "rcl_clock c = clk"
  shows "\<exists>st. release_effect c h st (rp_emitted (fst (handle_publish env clk ulid cmd ss)))
    \<and> snd (handle_publish env clk ulid cmd ss) = ss(cmd_session_id cmd \<mapsto> with_release h st)"
  using assms
  by (auto simp: handle_publish_def Let_def provider_refusal_def gates_refusal_def target_required_def
      target_not_found_def release_internal_error_def missing_gate_ids_eq dry_run_event_twice
      with_release_same seeded_def [symmetric] fun_upd_idem
      intro!: effect_exI intro: release_effect.intros
      split: option.splits)

lemma release_exec_effect:
  assumes "ss (rcl_session c) = Some h"
  shows "\<exists>st. release_effect c h st (rp_emitted (fst (release_exec c ss)))
    \<and> snd (release_exec c ss) = ss(rcl_session c \<mapsto> with_release h st)"
proof (cases "rcl_kind c")
  case ListTargets
  then have "rp_emitted (fst (release_exec c ss)) = []" "snd (release_exec c ss) = ss"
    using assms by (simp_all add: release_exec_def handle_list_targets_def Let_def)
  moreover have "release_effect c h (rs_release h) []" by (rule Nothing) simp
  ultimately show ?thesis using assms by (metis effect_exI(3))
qed (use assms handle_generate_notes_effect handle_deploy_effect handle_publish_effect
      in \<open>simp_all add: release_exec_def\<close>)

lemma release_exec_no_session:
  assumes "ss (rcl_session c) = None"
  shows "rp_emitted (fst (release_exec c ss)) = [] \<and> snd (release_exec c ss) = ss"
  using assms
  by (auto simp: release_exec_def handle_list_targets_def handle_generate_notes_def handle_deploy_def
      handle_publish_def session_not_found_def Let_def split: release_command.splits)

section \<open>Runs of gate and release commands\<close>

primrec plane_emitted :: "release_sessions \<Rightarrow> plane_call list \<Rightarrow> server_event list" where
  "plane_emitted ss [] = []"
| "plane_emitted ss (c # cs) = rp_emitted (fst (plane_exec c ss)) @ plane_emitted (plane_step ss c) cs"

lemma gate_calls_simps [simp]:
  "gate_calls [] = []"
  "gate_calls (cs @ [GateCall c]) = gate_calls cs @ [c]"
  "gate_calls (cs @ [ReleaseCall r]) = gate_calls cs"
  by (simp_all add: gate_calls_def List.map_filter_def)

text \<open>Release commands leave the gates of every session alone.\<close>

lemma release_step_gates:
  "map_option (\<lambda>h. (gs_id h, gs_gates h)) (snd (release_exec c ss) s)
     = map_option (\<lambda>h. (gs_id h, gs_gates h)) (ss s)"
proof (cases "ss (rcl_session c)")
  case None
  then show ?thesis by (simp add: release_exec_no_session)
next
  case (Some h)
  from release_exec_effect [of ss c h, OF Some] Some show ?thesis by (auto split: if_splits)
qed

lemma release_step_back:
  "snd (release_exec c ss) s = Some h \<Longrightarrow>
     \<exists>h0. ss s = Some h0 \<and> gs_id h0 = gs_id h \<and> gs_gates h0 = gs_gates h"
  using release_step_gates [of c ss s] by (cases "ss s") auto

lemma release_step_named: "sessions_named ss \<Longrightarrow> sessions_named (snd (release_exec c ss))"
  by (fastforce simp: sessions_named_def dest: release_step_back)

lemma release_step_inv: "gates_inv sid cs ss \<Longrightarrow> gates_inv sid cs (snd (release_exec c ss))"
  by (fastforce simp: gates_inv_def release_step_named dest: release_step_back)

interpretation plane: traced_system plane_step "\<lambda>cs. gates_inv sid (gate_calls cs)" for sid
proof unfold_locales
  fix cs ss c
  assume inv: "gates_inv sid (gate_calls cs) (ss :: release_sessions)"
  show "gates_inv sid (gate_calls (cs @ [c])) (plane_step ss c)"
  proof (cases c)
    case (GateCall x)
    with gates.step_inv [OF inv, of x] show ?thesis by (simp add: plane_step_def gate_step_def)
  next
    case (ReleaseCall x)
    with release_step_inv [OF inv] show ?thesis by (simp add: plane_step_def)
  qed
qed

lemma plane_gate_ok:
  assumes "sessions_named ss" "ss sid = Some h0" "gs_gates h0 = Map.empty"
    and "foldl plane_step ss cs sid = Some h" "gs_gates h k = Some g"
  shows "gate_ok sid (gate_calls cs) k g"
proof -
  have "gates_inv sid (gate_calls []) ss"
    using gates_inv_fresh [OF assms(1-3)] by simp
  from plane.run_inv [OF this] assms(4,5) show ?thesis by (auto simp: gates_inv_def)
qed

text \<open>Replaying the events of one command brings both parts of the session up to date.\<close>

definition replayed :: "clock \<Rightarrow> (string \<times> json) list \<Rightarrow> release_session \<Rightarrow> release_session \<Rightarrow> bool" where
  "replayed clk evs h h' \<longleftrightarrow> rl_targets (rs_release h') \<noteq> []
     \<and> gs_gates h' = foldl (gate_apply_event clk) (gs_gates h) evs
     \<and> rs_release h' = foldl release_apply_event (rs_release h) evs"

lemma replayed_trans:
  "replayed clk e1 h h1 \<Longrightarrow> replayed clk e2 h1 h2 \<Longrightarrow> replayed clk (e1 @ e2) h h2"
  unfolding replayed_def by (metis foldl_append)

lemma session_log_simps [simp]:
  "session_log sid [] = []"
  "session_log sid (mk_event sid ty v ts # evs) = (ty, v) # session_log sid evs"
  "s \<noteq> sid \<Longrightarrow> session_log sid (mk_event s ty v ts # evs) = session_log sid evs"
  "session_log sid (evs @ evs') = session_log sid evs @ session_log sid evs'"
  by (simp_all add: session_log_def)

lemma release_step_replay:
  assumes "sessions_named ss" "ss sid = Some h" "rl_targets (rs_release h) \<noteq> []"
  shows "\<exists>h'. snd (release_exec c ss) sid = Some h'
    \<and> replayed clk (session_log sid (rp_emitted (fst (release_exec c ss)))) h h'"
proof (cases "ss (rcl_session c)")
  case None
  with assms show ?thesis by (simp add: release_exec_no_session replayed_def)
next
  case (Some h2)
  from release_exec_effect [of ss c h2, OF Some] obtain st where
    e: "release_effect c h2 st (rp_emitted (fst (release_exec c ss)))"
    and s: "snd (release_exec c ss) = ss(rcl_session c \<mapsto> with_release h2 st)" by blast
  have id: "gs_id h2 = rcl_session c" using assms(1) Some by (simp add: sessions_named_def)
  show ?thesis
  proof (cases "rcl_session c = sid")
    case True
    with Some assms have "h2 = h" "seeded h2 = rs_release h2" by (simp_all add: seeded_def seed_idem)
    with e s id True assms(3) show ?thesis
      by (auto elim!: release_effectE simp: replayed_def replay_notes replay_progress
          gate_replay_release_event targets_not_Nil)
  next
    case False
    with e s id assms(2,3) show ?thesis by (auto elim!: release_effectE simp: replayed_def)
  qed
qed

lemma gate_step_frame:
  assumes "sessions_named ss" and "ss sid = Some h"
  shows "\<exists>m. gate_step ss c sid = Some (h\<lparr>gs_gates := m\<rparr>)"
  using assms(1)
proof (cases rule: gate_step_cases [of ss c])
  case refused
  with assms show ?thesis by (auto intro!: exI [of _ "gs_gates h"])
next
  case (accepted k f h2)
  then show ?thesis using assms(2)
    by (cases "gcl_session c = sid") (auto intro: exI [of _ "gs_gates h"])
qed

lemma release_replay_gate_log:
  assumes "sessions_named ss"
  shows "foldl release_apply_event st (session_log sid (rp_emitted (fst (gate_exec c ss)))) = st"
  using assms
proof (cases rule: gate_step_cases [of ss c])
  case (accepted k f h)
  then show ?thesis
    by (cases "gcl_session c = sid") (simp_all add: gate_snapshot_event_def replay_gate_event)
qed simp

lemma plane_step_replay:
  assumes "sessions_named ss" "ss sid = Some h" "rl_targets (rs_release h) \<noteq> []"
  shows "\<exists>h'. plane_step ss c sid = Some h'
    \<and> replayed clk (session_log sid (rp_emitted (fst (plane_exec c ss)))) h h'"
proof (cases c)
  case (GateCall x)
  from gate_step_frame [OF assms(1,2), of x] obtain m where
    m: "gate_step ss x sid = Some (h\<lparr>gs_gates := m\<rparr>)" by blast
  with gate_step_replay [OF assms(1,2), of x clk]
  have "m = foldl (gate_apply_event clk) (gs_gates h) (session_log sid (rp_emitted (fst (gate_exec x ss))))"
    by simp
  with m assms(3) show ?thesis
    by (simp add: GateCall plane_step_def gate_step_def replayed_def release_replay_gate_log [OF assms(1)])
next
  case (ReleaseCall x)
  with release_step_replay [OF assms] show ?thesis by (simp add: plane_step_def)
qed

lemma plane_step_named: "sessions_named ss \<Longrightarrow> sessions_named (plane_step ss c)"
  by (cases c) (simp_all add: plane_step_def release_step_named gate_step_named [unfolded gate_step_def])

lemma plane_run_replay:
  assumes "sessions_named ss" "ss sid = Some h" "rl_targets (rs_release h) \<noteq> []"
  shows "\<exists>h'. foldl plane_step ss cs sid = Some h'
    \<and> replayed clk (session_log sid (plane_emitted ss cs)) h h'"
  using assms
proof (induction cs arbitrary: ss h)
  case Nil
  then show ?case by (simp add: replayed_def)
next
  case (Cons c cs)
  from plane_step_replay [OF Cons.prems] obtain h1 where h1: "plane_step ss c sid = Some h1"
    and r1: "replayed clk (session_log sid (rp_emitted (fst (plane_exec c ss)))) h h1" by blast
  from Cons.IH [OF plane_step_named [OF Cons.prems(1)] h1] r1
  show ?case by (auto simp: replayed_def)
qed

section \<open>What a deploy needs\<close>

definition gates_open :: "clock \<Rightarrow> gate_state \<Rightarrow> string list \<Rightarrow> bool" where
  "gates_open clk m ks \<longleftrightarrow>
     list_all (\<lambda>k. case m k of Some g \<Rightarrow> gate_is_effectively_pass clk g | None \<Rightarrow> False) ks"

lemma missing_gates_open:
  "missing_gate_ids clk m ks =
     (gates_open clk m ks, filter (\<lambda>k. map_option (gate_is_effectively_pass clk) (m k) \<noteq> Some True) ks)"
  by (auto simp: missing_gate_ids_eq gates_open_def list_all_iff split: option.splits)

text \<open>The code of the first failing check of a deploy, in the order of the handler.\<close>

definition deploy_refusal :: "release_env \<Rightarrow> clock \<Rightarrow> client_command \<Rightarrow> release_sessions \<Rightarrow> string option" where
  "deploy_refusal env clk cmd ss =
     (case (ss (cmd_session_id cmd), get_str ''target_id'' (cmd_payload cmd)) of
        (None, _) \<Rightarrow> Some ''session.not_found''
      | (_, None) \<Rightarrow> Some ''release.target_not_found''
      | (Some h, Some t) \<Rightarrow>
          if re_provider env = NotWired then Some ''release.provider_not_wired''
          else if rs_release_poisoned h then Some ''persistence.write_failed''
          else (case get_target (seeded h) t of
              None \<Rightarrow> Some ''release.target_not_found''
            | Some tg \<Rightarrow>
                if gs_gate_poisoned h then Some ''persistence.write_failed''
                else if \<not> gates_open clk (gs_gates h) (required_gate_ids_for_environment (dt_environment tg))
                then Some ''release.gate_not_ready'' else None))"

lemma handle_deploy_code:
  "ack_code (rp_ack (fst (handle_deploy env clk ulid cmd ss))) = deploy_refusal env clk cmd ss
   \<and> ack_ok (rp_ack (fst (handle_deploy env clk ulid cmd ss))) = (deploy_refusal env clk cmd ss = None)"
proof (cases "ss (cmd_session_id cmd)")
  case None
  then show ?thesis by (simp add: handle_deploy_def deploy_refusal_def session_not_found_def)
next
  case (Some h)
  show ?thesis
  proof (cases "get_str ''target_id'' (cmd_payload cmd)")
    case None
    with Some show ?thesis by (simp add: handle_deploy_def deploy_refusal_def target_required_def)
  next
    case t: (Some t)
    with Some show ?thesis
      by (simp add: handle_deploy_def deploy_refusal_def provider_refusal_def release_internal_error_def
          seeded_def [symmetric] Let_def target_not_found_def gates_refusal_def missing_gates_open
          split: option.splits prod.splits)
  qed
qed

lemma handle_deploy_needs:
  assumes "ack_ok (rp_ack (fst (handle_deploy env clk ulid cmd ss)))"
  shows "\<exists>h t tg. ss (cmd_session_id cmd) = Some h \<and> re_provider env = DryRun \<and> get_target (seeded h) t = Some tg
    \<and> gates_open clk (gs_gates h) (required_gate_ids_for_environment (dt_environment tg))"
proof -
  from assms have "deploy_refusal env clk cmd ss = None" by (simp add: handle_deploy_code)
  then show ?thesis
    by (cases "re_provider env") (auto simp: deploy_refusal_def split: option.splits if_splits)
qed

lemma handle_publish_needs:
  assumes "ack_ok (rp_ack (fst (handle_publish env clk ulid cmd ss)))"
  shows "\<exists>h. ss (cmd_session_id cmd) = Some h \<and> gates_open clk (gs_gates h) required_publish_gate_ids
    \<and> re_provider env = DryRun"
  using assms
  by (cases "re_provider env")
    (auto simp: handle_publish_def provider_refusal_def release_internal_error_def Let_def
      target_not_found_def gates_refusal_def missing_gates_open session_not_found_def target_required_def
      split: option.splits if_splits prod.splits)

lemma open_gate_justified:
  assumes "sessions_named ss" "ss sid = Some h0" "gs_gates h0 = Map.empty"
    and "foldl plane_step ss cs sid = Some h" "gates_open clk (gs_gates h) ks"
    and "k \<in> set ks" "k \<noteq> ''MutationAuditClean''"
  shows "signed_by_people sid (gate_calls cs) k
    \<or> (\<exists>g. gs_gates h k = Some g \<and> overridden_by_call clk sid (gate_calls cs) k g)"
proof -
  from assms(5,6) obtain g where g: "gs_gates h k = Some g" "gate_is_effectively_pass clk g"
    by (auto simp: gates_open_def list_all_iff split: option.splits)
  from gate_ok_justified [OF plane_gate_ok [OF assms(1-4) g(1)] g(2)] g(1) assms(7) show ?thesis by blast
qed

section \<open>Properties\<close>

text \<open>
  The result of \<open>release.deploy\<close>. The first failing check of the handler decides the error
  code, and a refused deploy emits no progress and records no deploy anywhere; an accepted one
  emits exactly one event, marked \<open>dry_run\<close>, records exactly that deploy, and updates the target
  to it. Nothing ever claims that a real deployment happened.
\<close>
theorem deploy_result:
  "case deploy_refusal env clk cmd ss of
     Some code \<Rightarrow>
       ack_code (rp_ack (fst (handle_deploy env clk ulid cmd ss))) = Some code
       \<and> rp_emitted (fst (handle_deploy env clk ulid cmd ss)) = []
       \<and> map_option (rl_deploys \<circ> rs_release) (snd (handle_deploy env clk ulid cmd ss) s)
           = map_option (rl_deploys \<circ> rs_release) (ss s)
   | None \<Rightarrow>
       ack_ok (rp_ack (fst (handle_deploy env clk ulid cmd ss)))
       \<and> (\<exists>h e. ss (cmd_session_id cmd) = Some h \<and> de_status e = ''dry_run'' \<and> de_id e = ''dep_'' @ ulid
            \<and> get_str ''target_id'' (cmd_payload cmd) = Some (de_target_id e)
            \<and> rp_emitted (fst (handle_deploy env clk ulid cmd ss)) =
                [mk_event (gs_id h) ''release.deploy_progress'' (progress_payload env e) (now_iso clk)]
            \<and> snd (handle_deploy env clk ulid cmd ss) =
                ss(cmd_session_id cmd \<mapsto> with_release h (apply_deploy e (seeded h))))"
proof (cases "deploy_refusal env clk cmd ss")
  case (Some code)
  have seeds: "rl_deploys (seeded h) = rl_deploys (rs_release h)" for h
    by (simp add: seeded_def seed_default_targets_def)
  from Some handle_deploy_code [of env clk ulid cmd ss] show ?thesis
    by (auto simp: handle_deploy_def deploy_refusal_def seeded_def [symmetric] seeds Let_def missing_gates_open
        session_not_found_def target_required_def provider_refusal_def release_internal_error_def
        target_not_found_def gates_refusal_def split: option.splits if_splits)
next
  case None
  with handle_deploy_code [of env clk ulid cmd ss] show ?thesis
    by (auto simp: handle_deploy_def deploy_refusal_def seeded_def [symmetric] Let_def missing_gates_open
        dry_run_event_twice split: option.splits if_splits
        intro!: exI [of _ "dry_run_event env clk cmd r d t" for r d t])
qed

text \<open>
  C10: the release plane survives a restart. Whatever gate and release commands arrive, in any
  order and on any sessions, rebuilding both states from the events a session emitted gives
  exactly its targets, deploys, notes and observations, and exactly its gates.
\<close>
theorem plane_survives_restart:
  assumes "sessions_named ss" and "ss sid = Some h0" and "gs_gates h0 = Map.empty"
    and "rs_release h0 = build_session_release_state None"
  shows "\<exists>h. foldl plane_step ss cs sid = Some h
    \<and> build_session_release_state (Some (Inr (session_log sid (plane_emitted ss cs)))) = rs_release h
    \<and> build_session_gate_state clk (Some (Inr (session_log sid (plane_emitted ss cs)))) = gs_gates h"
proof -
  have "rl_targets (rs_release h0) \<noteq> []"
    by (simp add: assms(4) build_session_release_state_def)
  from plane_run_replay [OF assms(1,2) this, of cs clk] assms(3,4) show ?thesis
    by (auto simp: replayed_def build_session_release_state_def build_session_gate_state_def
        release_from_events_def gates_from_events_def)
qed

text \<open>A fresh session, and the calls that open the gates of a production deploy.\<close>

definition example_release_session :: "gate_state \<Rightarrow> release_session" where
  "example_release_session m = \<lparr>gs_id = ''s'', gs_gates = m, gs_gate_poisoned = False,
     rs_release = build_session_release_state None, rs_release_poisoned = False, rs_project_root = ''/p''\<rparr>"

definition example_release_sessions :: release_sessions where
  "example_release_sessions = [''s'' \<mapsto> example_release_session Map.empty]"

lemma example_release_session_simps [simp]:
  "gs_id (example_release_session m) = ''s''"
  "gs_gates (example_release_session m) = m"
  "\<not> gs_gate_poisoned (example_release_session m)"
  "(example_release_session m)\<lparr>gs_gates := m'\<rparr> = example_release_session m'"
  "rs_release (example_release_session m) = build_session_release_state None"
  "\<not> rs_release_poisoned (example_release_session m)"
  "example_release_sessions ''s'' = Some (example_release_session Map.empty)"
  by (simp_all add: example_release_session_def example_release_sessions_def)

lemma example_release_sessions_named: "sessions_named example_release_sessions"
  by (simp add: example_release_sessions_def sessions_named_def gates_keyed_def)

definition example_sync :: gate_call where
  "example_sync = \<lparr>gcl_kind = SyncMutationAudit, gcl_clock = unary_clock 0, gcl_principal = Some ''ann'',
     gcl_cmd = example_gate_cmd ''x''\<rparr>"

lemma example_sync_step:
  assumes "ss ''s'' = Some h" "\<not> gs_gate_poisoned h" "gates_keyed (gs_gates h)"
  shows "gate_step ss example_sync = ss(''s'' \<mapsto> h\<lparr>gs_gates := (gs_gates h)(''MutationAuditClean'' \<mapsto>
     sync_mutation_gate (unary_clock 0) 0 (current_gate (unary_clock 0) ''MutationAuditClean'' (gs_gates h)))\<rparr>)"
proof -
  have "gate_edit example_sync = Some (''MutationAuditClean'', sync_mutation_gate (unary_clock 0) 0)"
    by (simp add: gate_edit_def example_sync_def example_gate_cmd_def gate_actor_def trim_plain
        plain_char_def filter_opt_def get_defs Let_def)
  from gate_exec_accepted [where ss = ss, OF this] assms show ?thesis
    by (simp add: gate_step_def example_sync_def example_gate_cmd_def)
qed

definition example_plane_calls :: "plane_call list" where
  "example_plane_calls = map GateCall [example_signoff ''DevComplete'' ''ann'',
     example_signoff ''ReadyToDeploy'' ''ann'', example_signoff ''ReadyToDeploy'' ''bob'', example_sync]"

definition example_open_gates :: gate_state where
  "example_open_gates = [''DevComplete'' \<mapsto> example_gate ''DevComplete'' [''ann''],
     ''ReadyToDeploy'' \<mapsto> example_gate ''ReadyToDeploy'' [''ann'', ''bob''],
     ''MutationAuditClean'' \<mapsto> sync_mutation_gate (unary_clock 0) 0
        (default_gate_snapshot (unary_clock 0) ''MutationAuditClean'')]"

lemma example_gate_id: "gt_id (example_gate k who) = k"
proof -
  have "gt_id (foldl (\<lambda>g w. touch_gate clk (add_gate_signer clk w g)) g ws) = gt_id g" for g ws clk
    by (induction ws arbitrary: g) simp_all
  then show ?thesis by (simp add: example_gate_def)
qed

lemma plane_step_gate [simp]: "plane_step ss (GateCall c) = gate_step ss c"
  by (simp add: plane_step_def gate_step_def)

lemma example_signoff_first:
  "touch_gate (unary_clock 0) (add_gate_signer (unary_clock 0) who (default_gate_snapshot (unary_clock 0) k))
     = example_gate k [who]"
  "touch_gate (unary_clock 0) (add_gate_signer (unary_clock 0) who' (example_gate k [who]))
     = example_gate k [who, who']"
  by (simp_all add: example_gate_def)

lemma example_plane_run:
  "foldl plane_step example_release_sessions example_plane_calls
     = [''s'' \<mapsto> example_release_session example_open_gates]"
  by (simp add: example_plane_calls_def example_signoff_step example_sync_step plain_char_def
      example_release_sessions_def gates_keyed_def known_gates_def current_gate_def example_gate_id
      example_open_gates_def example_signoff_first)

definition example_release_env :: release_env where
  "example_release_env = \<lparr>re_provider = DryRun, re_git = (\<lambda>root args. Some (True, Some ''abcd1234''))\<rparr>"

definition example_deploy_cmd :: client_command where
  "example_deploy_cmd = \<lparr>cmd_id = ''9'', cmd_session_id = ''s'', cmd_type = ''release.deploy'',
     cmd_payload = JObj [(''target_id'', JStr ''prod'')], cmd_v = 1\<rparr>"

lemma example_prod:
  "get_target (seed_default_targets (build_session_release_state None)) ''prod''
     = Some (idle_target (''prod'', ''Production'', ''production''))"
  by (simp add: build_session_release_state_def seed_default_targets_def
      release_state_default_def default_targets_def get_target_def idle_target_def)

lemma example_deploy_accepted:
  "deploy_refusal example_release_env (unary_clock 5) example_deploy_cmd
     (foldl plane_step example_release_sessions example_plane_calls) = None"
proof -
  have "gates_open (unary_clock 5) example_open_gates (required_gate_ids_for_environment ''production'')"
    by (simp add: gates_open_def required_gate_ids_for_environment_def example_open_gates_def example_gate_passes)
      (simp add: gate_is_effectively_pass_def sync_mutation_gate_def default_gate_snapshot_def)
  then show ?thesis
    by (simp add: deploy_refusal_def example_plane_run seeded_def example_prod example_deploy_cmd_def get_defs
        example_release_env_def idle_target_def)
qed

theorem plane_survives_restart_witness:
  "\<exists>h. foldl plane_step example_release_sessions example_plane_calls ''s'' = Some h
    \<and> build_session_release_state (Some (Inr (session_log ''s''
        (plane_emitted example_release_sessions example_plane_calls)))) = rs_release h
    \<and> build_session_gate_state (unary_clock 7) (Some (Inr (session_log ''s''
        (plane_emitted example_release_sessions example_plane_calls)))) = gs_gates h"
  by (rule plane_survives_restart [OF example_release_sessions_named example_release_session_simps(7)
        example_release_session_simps(2) example_release_session_simps(5)])

definition example_publish_calls :: "plane_call list" where
  "example_publish_calls = map GateCall [example_signoff ''ReadyToPublish'' ''ann'', example_signoff ''ReadyToPublish'' ''bob'']"

lemma example_publish_accepted:
  "ack_ok (rp_ack (fst (handle_publish example_release_env (unary_clock 5) ''u'' example_deploy_cmd
     (foldl plane_step example_release_sessions example_publish_calls))))"
proof -
  have run: "foldl plane_step example_release_sessions example_publish_calls
      = [''s'' \<mapsto> example_release_session [''ReadyToPublish'' \<mapsto> example_gate ''ReadyToPublish'' [''ann'', ''bob'']]]"
    by (simp add: example_publish_calls_def example_signoff_step plain_char_def example_release_sessions_def
        gates_keyed_def known_gates_def current_gate_def example_gate_id example_signoff_first)
  have pass: "gate_is_effectively_pass clk (example_gate ''ReadyToPublish'' [''ann'', ''bob''])" for clk
    by (simp add: example_gate_eval)
  show ?thesis
    by (simp add: handle_publish_def run example_deploy_cmd_def get_defs example_release_env_def example_prod
        missing_gates_open gates_open_def required_publish_gate_ids_def pass Let_def)
qed

end
