(* ===== verification/Relay_Tokens.thy ===== *)
theory Relay_Tokens
  imports Wire "HOL-Library.Word"
begin

unbundle bit_operations_syntax

text \<open>
  The credentials of the relay (\<open>apps/relay-service/src\<close>): the inlined HMAC and the constant-time
  comparison of \<open>hmac.rs\<close>, the bridge dial token and the teleport token store of \<open>tokens.rs\<close>, the
  admin check of \<open>auth.rs\<close>. SHA-256 and hex coding are third-party (\<open>crypto\<close>); \<open>crypto_ok\<close> is what
  the code relies on: digests have 32 bytes, a hex text can be read back, and a text with a dot in
  it is not hex. The store is also
  modelled as a machine of the single map operations of concurrent claims.
\<close>

section \<open>HMAC\<close>

type_synonym bytes = "8 word list"

record crypto =
  cr_sha256 :: "bytes \<Rightarrow> bytes"
  cr_hex_encode :: "bytes \<Rightarrow> string"
  cr_hex_decode :: "string \<Rightarrow> bytes option"

definition crypto_ok :: "crypto \<Rightarrow> bool" where
  "crypto_ok cr \<longleftrightarrow> (\<forall>x. length (cr_sha256 cr x) = 32) \<and> (\<forall>b. cr_hex_decode cr (cr_hex_encode cr b) = Some b)
     \<and> (\<forall>s. CHR ''.'' \<in> set s \<longrightarrow> cr_hex_decode cr s = None)"

text \<open>\<open>str::as_bytes\<close>.\<close>

definition as_bytes :: "string \<Rightarrow> bytes" where
  "as_bytes s = map (\<lambda>c. word_of_nat (of_char c)) s"

definition hmac_block_size :: nat where
  "hmac_block_size = 64"

definition hmac_block :: "crypto \<Rightarrow> bytes \<Rightarrow> bytes" where
  "hmac_block cr key =
     (let k = (if length key > hmac_block_size then cr_sha256 cr key else key)
      in k @ replicate (hmac_block_size - length k) 0)"

definition hmac_sha256 :: "crypto \<Rightarrow> bytes \<Rightarrow> bytes \<Rightarrow> bytes" where
  "hmac_sha256 cr key msg =
     (let k = hmac_block cr key;
          ipad = map (\<lambda>i. 0x36 XOR k ! i) [0 ..< hmac_block_size];
          opad = map (\<lambda>i. 0x5c XOR k ! i) [0 ..< hmac_block_size]
      in cr_sha256 cr (opad @ cr_sha256 cr (ipad @ msg)))"

definition ct_eq :: "bytes \<Rightarrow> bytes \<Rightarrow> bool" where
  "ct_eq a b =
     (if length a \<noteq> length b then False
      else foldl (\<lambda>diff (x, y). diff OR (x XOR y)) 0 (zip a b) = 0)"

lemma xor_zero_iff: "(a :: 'a::len word) XOR b = 0 \<longleftrightarrow> a = b"
proof
  assume "a XOR b = 0"
  then have "(a XOR b) XOR b = 0 XOR b" by simp
  then show "a = b" by (simp only: xor.assoc xor_self_eq xor.left_neutral xor.right_neutral)
qed simp

lemma foldl_diff_zero:
  "foldl (\<lambda>diff (x, y). diff OR (x XOR y)) (d :: 8 word) ps = 0 \<longleftrightarrow> d = 0 \<and> list_all (\<lambda>(x, y). x = y) ps"
proof (induction ps arbitrary: d)
  case (Cons p ps)
  obtain x y where "p = (x, y)" by force
  then show ?case using Cons [of "d OR (x XOR y)"]
    by (simp only: foldl_Cons list.pred_inject or_eq_0_iff xor_zero_iff split_conv conj_assoc)
qed simp

lemma list_all_zip_eq: "length a = length b \<Longrightarrow> list_all (\<lambda>(x, y). x = y) (zip a b) \<longleftrightarrow> a = b"
  by (induction a b rule: list_induct2) auto

lemma ct_eq_iff: "ct_eq a b \<longleftrightarrow> a = b"
  by (auto simp: ct_eq_def foldl_diff_zero list_all_zip_eq)

text \<open>The padded key always fills the block, so the loops of the code stay in bounds.\<close>

lemma hmac_block_length: "crypto_ok cr \<Longrightarrow> length (hmac_block cr key) = hmac_block_size"
  by (simp add: hmac_block_def crypto_ok_def hmac_block_size_def Let_def)

section \<open>Integers in text\<close>

text \<open>\<open>str::parse::<i64>\<close>: an optional sign, at least one digit, no overflow.\<close>

definition digit_value :: "char \<Rightarrow> nat" where
  "digit_value c = of_char c - 48"

definition digits_value :: "string \<Rightarrow> nat" where
  "digits_value ds = foldl (\<lambda>n c. n * 10 + digit_value c) 0 ds"

definition parse_digits :: "string \<Rightarrow> nat option" where
  "parse_digits ds = (if ds \<noteq> [] \<and> list_all ascii_digit ds then Some (digits_value ds) else None)"

definition i64_range :: "int \<Rightarrow> bool" where
  "i64_range i \<longleftrightarrow> - (2 ^ 63) \<le> i \<and> i < 2 ^ 63"

definition parse_i64 :: "string \<Rightarrow> int option" where
  "parse_i64 s =
     filter_opt i64_range
       (case s of
          [] \<Rightarrow> None
        | c # ds \<Rightarrow>
            if c = CHR ''-'' then map_option (\<lambda>n. - int n) (parse_digits ds)
            else if c = CHR ''+'' then map_option int (parse_digits ds)
            else map_option int (parse_digits s))"

definition show_i64 :: "int \<Rightarrow> string" where
  "show_i64 i = (if i < 0 then ''-'' @ dec_digits (nat (- i)) else dec_digits (nat i))"

lemma digit_char: "d < 10 \<Longrightarrow> ascii_digit (char_of (48 + d)) \<and> digit_value (char_of (48 + d)) = d"
  by (simp add: ascii_digit_def digit_value_def of_char_of)

lemma dec_digits_value: "digits_value (dec_digits n) = n \<and> list_all ascii_digit (dec_digits n)"
proof (induction n rule: dec_digits.induct)
  case (1 n)
  show ?case
  proof (cases "n < 10")
    case True
    then show ?thesis using digit_char [of n] by (subst (1 2) dec_digits.simps) (simp add: digits_value_def)
  next
    case False
    with 1 digit_char [of "n mod 10"] show ?thesis
      by (subst (1 2) dec_digits.simps) (simp add: digits_value_def)
  qed
qed

lemma parse_digits_dec: "parse_digits (dec_digits n) = Some n"
  using dec_digits_value [of n] by (simp add: parse_digits_def)

lemma digit_no_sign: "ascii_digit c \<Longrightarrow> c \<noteq> CHR ''-'' \<and> c \<noteq> CHR ''+'' \<and> c \<noteq> CHR ''.''"
  by (auto simp: ascii_digit_def)

lemma parse_show_i64: "parse_i64 (show_i64 i) = (if i64_range i then Some i else None)"
proof (cases "i < 0")
  case True
  then show ?thesis by (simp add: parse_i64_def show_i64_def parse_digits_dec filter_opt_def)
next
  case False
  obtain c ds where e: "dec_digits (nat i) = c # ds" using dec_digits_nonempty by (meson list.exhaust)
  with dec_digits_value [of "nat i"] have "ascii_digit c" by simp
  with digit_no_sign [of c] False e parse_digits_dec [of "nat i"] show ?thesis
    by (simp add: parse_i64_def show_i64_def filter_opt_def)
qed

lemma show_i64_no_dot: "CHR ''.'' \<notin> set (show_i64 i)"
  using dec_digits_value digit_no_sign by (auto simp: show_i64_def list_all_iff split: if_splits)

section \<open>Bridge dial tokens\<close>

text \<open>\<open>splitn(3, '.')\<close>.\<close>

definition split_dot :: "string \<Rightarrow> string \<times> string option" where
  "split_dot s =
     (takeWhile (\<lambda>c. c \<noteq> CHR ''.'') s,
      case dropWhile (\<lambda>c. c \<noteq> CHR ''.'') s of [] \<Rightarrow> None | _ # r \<Rightarrow> Some r)"

definition splitn3 :: "string \<Rightarrow> string list" where
  "splitn3 s =
     (case split_dot s of
        (a, None) \<Rightarrow> [a]
      | (a, Some r) \<Rightarrow> (case split_dot r of
            (b, None) \<Rightarrow> [a, b]
          | (b, Some c) \<Rightarrow> [a, b, c]))"

definition dial_payload :: "string \<Rightarrow> int \<Rightarrow> string" where
  "dial_payload device exp = device @ ''.'' @ show_i64 exp"

text \<open>\<open>now_s\<close> is \<open>Utc::now().timestamp()\<close>.\<close>

definition verify_bridge_dial_token :: "crypto \<Rightarrow> int \<Rightarrow> string \<Rightarrow> bytes \<Rightarrow> string \<Rightarrow> string + unit" where
  "verify_bridge_dial_token cr now_s token secret expected_device =
     (case splitn3 token of
        [device_id, exp_str, sig_hex] \<Rightarrow>
          if device_id \<noteq> expected_device then Inl ''device_mismatch''
          else (case parse_i64 exp_str of
              None \<Rightarrow> Inl ''exp_invalid''
            | Some exp \<Rightarrow>
                if exp < now_s then Inl ''token_expired''
                else
                  let expected_sig = hmac_sha256 cr secret (as_bytes (dial_payload device_id exp)) in
                  (case cr_hex_decode cr sig_hex of
                     None \<Rightarrow> Inl ''sig_invalid_hex''
                   | Some presented \<Rightarrow>
                       if \<not> ct_eq presented expected_sig then Inl ''sig_mismatch'' else Inr ()))
      | _ \<Rightarrow> Inl ''token_malformed'')"

text \<open>The token format of the module documentation, as the bridge issues it.\<close>

definition issue_dial_token :: "crypto \<Rightarrow> bytes \<Rightarrow> string \<Rightarrow> int \<Rightarrow> string" where
  "issue_dial_token cr secret device exp =
     device @ ''.'' @ show_i64 exp @ ''.''
     @ cr_hex_encode cr (hmac_sha256 cr secret (as_bytes (dial_payload device exp)))"

lemma split_dot_append: "CHR ''.'' \<notin> set a \<Longrightarrow> split_dot (a @ CHR ''.'' # r) = (a, Some r)"
proof -
  assume a: "CHR ''.'' \<notin> set a"
  then have "takeWhile (\<lambda>c. c \<noteq> CHR ''.'') (a @ CHR ''.'' # r) = a"
    and "dropWhile (\<lambda>c. c \<noteq> CHR ''.'') (a @ CHR ''.'' # r) = CHR ''.'' # r"
    by (induction a) auto
  then show ?thesis by (simp add: split_dot_def)
qed

lemma split_dot_SomeD: "split_dot s = (a, Some r) \<Longrightarrow> s = a @ CHR ''.'' # r \<and> CHR ''.'' \<notin> set a"
proof -
  assume e: "split_dot s = (a, Some r)"
  then obtain x where a: "a = takeWhile (\<lambda>c. c \<noteq> CHR ''.'') s"
    and d: "dropWhile (\<lambda>c. c \<noteq> CHR ''.'') s = x # r"
    by (auto simp: split_dot_def split: list.splits)
  then have "x = CHR ''.''" by (metis (mono_tags, lifting) hd_dropWhile list.distinct(1) list.sel(1))
  with a d show ?thesis
    by (metis (mono_tags, lifting) set_takeWhileD takeWhile_dropWhile_id)
qed

lemma splitn3_iff:
  "splitn3 s = [a, b, c] \<longleftrightarrow> s = a @ ''.'' @ b @ ''.'' @ c \<and> CHR ''.'' \<notin> set a \<and> CHR ''.'' \<notin> set b"
proof
  assume "splitn3 s = [a, b, c]"
  then obtain r where "split_dot s = (a, Some r)" "split_dot r = (b, Some c)"
    by (auto simp: splitn3_def split: prod.splits option.splits)
  then show "s = a @ ''.'' @ b @ ''.'' @ c \<and> CHR ''.'' \<notin> set a \<and> CHR ''.'' \<notin> set b"
    by (auto dest!: split_dot_SomeD)
next
  assume "s = a @ ''.'' @ b @ ''.'' @ c \<and> CHR ''.'' \<notin> set a \<and> CHR ''.'' \<notin> set b"
  then show "splitn3 s = [a, b, c]" by (simp add: splitn3_def split_dot_append)
qed

lemma verify_ok_iff:
  "verify_bridge_dial_token cr now_s token secret dev = Inr () \<longleftrightarrow>
     (\<exists>exp_str sig_hex exp. token = dev @ ''.'' @ exp_str @ ''.'' @ sig_hex
        \<and> CHR ''.'' \<notin> set dev \<and> CHR ''.'' \<notin> set exp_str
        \<and> parse_i64 exp_str = Some exp \<and> now_s \<le> exp
        \<and> cr_hex_decode cr sig_hex = Some (hmac_sha256 cr secret (as_bytes (dial_payload dev exp))))"
  (is "?l \<longleftrightarrow> ?r")
proof
  assume ?l
  then obtain e s where "splitn3 token = [dev, e, s]"
    by (auto simp: verify_bridge_dial_token_def split: list.splits if_splits)
  with \<open>?l\<close> have "token = dev @ ''.'' @ e @ ''.'' @ s \<and> CHR ''.'' \<notin> set dev \<and> CHR ''.'' \<notin> set e
      \<and> (\<exists>exp. parse_i64 e = Some exp \<and> now_s \<le> exp
        \<and> cr_hex_decode cr s = Some (hmac_sha256 cr secret (as_bytes (dial_payload dev exp))))"
    by (auto simp: verify_bridge_dial_token_def splitn3_iff Let_def ct_eq_iff split: option.splits if_splits)
  then show ?r by blast
next
  assume ?r
  then obtain e s exp where "token = dev @ ''.'' @ e @ ''.'' @ s" "CHR ''.'' \<notin> set dev" "CHR ''.'' \<notin> set e"
    and r: "parse_i64 e = Some exp" "now_s \<le> exp"
      "cr_hex_decode cr s = Some (hmac_sha256 cr secret (as_bytes (dial_payload dev exp)))"
    by blast
  then have "splitn3 token = [dev, e, s]" by (simp add: splitn3_iff)
  with r show ?l by (simp add: verify_bridge_dial_token_def Let_def ct_eq_iff)
qed

section \<open>The admin surface\<close>

record relay_security =
  rsec_admin_token :: "string option"
  rsec_bridge_secret :: "bytes option"
  rsec_allow_unsigned_dial :: bool

definition is_truthy :: "(string \<Rightarrow> string option) \<Rightarrow> string \<Rightarrow> bool" where
  "is_truthy env name =
     (case env name of
        None \<Rightarrow> False
      | Some v \<Rightarrow> to_ascii_lowercase (trim v) \<in> {''1'', ''true'', ''yes''})"

definition load_security_from_env :: "(string \<Rightarrow> string option) \<Rightarrow> string + relay_security" where
  "load_security_from_env env =
     (let admin_token = filter_opt (\<lambda>s. s \<noteq> []) (env ''RELAY_ADMIN_TOKEN'');
          bridge_secret = map_option as_bytes (filter_opt (\<lambda>s. s \<noteq> []) (env ''RELAY_BRIDGE_SECRET''))
      in if admin_token = None \<and> \<not> is_truthy env ''RELAY_ALLOW_OPEN_ADMIN''
         then Inl ''RELAY_ADMIN_TOKEN must be set''
         else if bridge_secret = None \<and> \<not> is_truthy env ''RELAY_ALLOW_UNSIGNED_DIAL''
         then Inl ''RELAY_BRIDGE_SECRET must be set''
         else Inr \<lparr>rsec_admin_token = admin_token, rsec_bridge_secret = bridge_secret,
                   rsec_allow_unsigned_dial = is_truthy env ''RELAY_ALLOW_UNSIGNED_DIAL''\<rparr>)"

text \<open>\<open>header\<close> is the Authorization header when it is printable text.\<close>

definition check_admin_auth :: "relay_security \<Rightarrow> string option \<Rightarrow> string option \<Rightarrow> bool" where
  "check_admin_auth sec header query_token =
     (case rsec_admin_token sec of
        None \<Rightarrow> True
      | Some expected \<Rightarrow>
          let header_token = map_option trim (Option.bind header (\<lambda>v. strip_prefix v ''Bearer ''));
              presented = unwrap_or [] (or_else header_token query_token)
          in presented \<noteq> [] \<and> ct_eq (as_bytes presented) (as_bytes expected))"

lemma as_bytes_inj: "as_bytes a = as_bytes b \<longleftrightarrow> a = b"
proof -
  have "inj (\<lambda>c :: char. word_of_nat (of_char c) :: 8 word)"
  proof (rule injI)
    fix c d :: char
    assume "(word_of_nat (of_char c) :: 8 word) = word_of_nat (of_char d)"
    then have "unat (word_of_nat (of_char c) :: 8 word) = unat (word_of_nat (of_char d) :: 8 word)" by simp
    then have "of_char c mod 2 ^ 8 = (of_char d mod 2 ^ 8 :: nat)" by (simp add: unat_of_nat)
    then show "c = d" by (simp add: of_char_eq_iff)
  qed
  then show ?thesis by (simp add: as_bytes_def inj_map_eq_map)
qed

section \<open>Teleport tokens\<close>

record teleport_token =
  tt_device_id :: string
  tt_session_id :: string
  tt_nonce :: string
  tt_expires_at :: string
  tt_short_code :: string
  tt_opaque :: string

definition token_ttl_ns :: int where
  "token_ttl_ns = 300 * 1000000000"

definition token_is_expired :: "clock \<Rightarrow> teleport_token \<Rightarrow> bool" where
  "token_is_expired clk t =
     (case parse_time clk (tt_expires_at t) of Some e \<Rightarrow> e < now clk | None \<Rightarrow> True)"

record token_store =
  ts_active :: "(string \<times> teleport_token) list"
  ts_claimed :: "string set"
  ts_revoked :: "string set"

definition token_store_new :: token_store where
  "token_store_new = \<lparr>ts_active = [], ts_claimed = {}, ts_revoked = {}\<rparr>"

text \<open>\<open>format!("{:x}")\<close> of a random \<open>u128\<close>.\<close>

definition hex_digit :: "nat \<Rightarrow> char" where
  "hex_digit d = (if d < 10 then char_of (48 + d) else char_of (87 + d))"

fun lower_hex :: "nat \<Rightarrow> string" where
  "lower_hex n = (if n < 16 then [hex_digit n] else lower_hex (n div 16) @ [hex_digit (n mod 16)])"

declare lower_hex.simps [simp del]

definition short_code_from :: "crypto \<Rightarrow> string \<Rightarrow> string" where
  "short_code_from cr nonce =
     (let h = cr_sha256 cr (as_bytes nonce); alphabet = ''ABCDEFGHJKLMNPQRSTUVWXYZ23456789''
      in map (\<lambda>i. alphabet ! (unat (h ! i) mod length alphabet)) [0 ..< 8])"

definition new_token :: "crypto \<Rightarrow> clock \<Rightarrow> 128 word \<Rightarrow> string \<Rightarrow> string \<Rightarrow> teleport_token" where
  "new_token cr clk random device session =
     (let nonce = lower_hex (unat random) in
      \<lparr>tt_device_id = device, tt_session_id = session, tt_nonce = nonce,
       tt_expires_at = fmt_time clk (now clk + token_ttl_ns),
       tt_short_code = short_code_from cr nonce,
       tt_opaque = cr_hex_encode cr (cr_sha256 cr (as_bytes (device @ ''|'' @ session @ ''|'' @ nonce)))\<rparr>)"

definition mint :: "crypto \<Rightarrow> clock \<Rightarrow> 128 word \<Rightarrow> string \<Rightarrow> string \<Rightarrow> token_store
    \<Rightarrow> teleport_token \<times> token_store" where
  "mint cr clk random device session st =
     (let t = new_token cr clk random device session in
      (t, st\<lparr>ts_active := AList.update (tt_opaque t) t (ts_active st)\<rparr>))"

text \<open>The checks of \<open>claim\<close> before it marks the nonce.\<close>

definition claim_check :: "clock \<Rightarrow> teleport_token \<Rightarrow> token_store \<Rightarrow> string option" where
  "claim_check clk t st =
     (if token_is_expired clk t then Some ''token expired''
      else if tt_device_id t \<in> ts_revoked st then Some ''device revoked''
      else if tt_nonce t \<in> ts_claimed st then Some ''nonce already claimed''
      else None)"

definition claim :: "clock \<Rightarrow> teleport_token \<Rightarrow> token_store \<Rightarrow> (string + unit) \<times> token_store" where
  "claim clk t st =
     (case claim_check clk t st of
        Some e \<Rightarrow> (Inl e, st)
      | None \<Rightarrow> (Inr (), st\<lparr>ts_claimed := insert (tt_nonce t) (ts_claimed st)\<rparr>))"

definition claim_by_opaque :: "clock \<Rightarrow> string \<Rightarrow> token_store
    \<Rightarrow> (string + string \<times> string) \<times> token_store" where
  "claim_by_opaque clk opaque st =
     (case map_of (ts_active st) opaque of
        None \<Rightarrow> (Inl ''token not found'', st)
      | Some t \<Rightarrow>
          (case claim clk t (st\<lparr>ts_active := AList.delete opaque (ts_active st)\<rparr>) of
             (Inl e, st') \<Rightarrow> (Inl e, st')
           | (Inr _, st') \<Rightarrow> (Inr (tt_device_id t, tt_session_id t), st')))"

definition revoke_device :: "string \<Rightarrow> token_store \<Rightarrow> token_store" where
  "revoke_device device st = st\<lparr>ts_revoked := insert device (ts_revoked st)\<rparr>"

definition is_revoked :: "string \<Rightarrow> token_store \<Rightarrow> bool" where
  "is_revoked device st \<longleftrightarrow> device \<in> ts_revoked st"

section \<open>Concurrent claims\<close>

text \<open>
  Several connections use the store at once; each \<open>DashMap\<close> operation is atomic, the sequence is
  not. A claim takes the token out of \<open>active\<close>, then passes or fails the checks, then marks the
  nonce. \<open>claim_run\<close> is one call of \<open>claim_by_opaque\<close>.
\<close>

datatype claim_phase = Taken | Passed | Failed string | Granted

record claim_run =
  cl_token :: teleport_token
  cl_phase :: claim_phase
  cl_checked_at :: int

record token_machine =
  tm_store :: token_store
  tm_claims :: "claim_run list"

datatype token_op =
    OpMint int "128 word" string string
  | OpTake string
  | OpCheck int nat
  | OpMark nat
  | OpRevoke string

definition token_machine_new :: token_machine where
  "token_machine_new = \<lparr>tm_store = token_store_new, tm_claims = []\<rparr>"

fun token_step :: "crypto \<Rightarrow> clock \<Rightarrow> token_machine \<Rightarrow> token_op \<Rightarrow> token_machine" where
  "token_step cr clk m (OpMint t random device session) =
     m\<lparr>tm_store := snd (mint cr (clk\<lparr>now := t\<rparr>) random device session (tm_store m))\<rparr>"
| "token_step cr clk m (OpTake opaque) =
     (case map_of (ts_active (tm_store m)) opaque of
        None \<Rightarrow> m
      | Some tok \<Rightarrow> m\<lparr>tm_store := (tm_store m)\<lparr>ts_active := AList.delete opaque (ts_active (tm_store m))\<rparr>,
                      tm_claims := tm_claims m @ [\<lparr>cl_token = tok, cl_phase = Taken, cl_checked_at = 0\<rparr>]\<rparr>)"
| "token_step cr clk m (OpCheck t i) =
     (if i < length (tm_claims m) \<and> cl_phase (tm_claims m ! i) = Taken then
        m\<lparr>tm_claims := (tm_claims m)[i := (tm_claims m ! i)\<lparr>cl_checked_at := t, cl_phase :=
            (case claim_check (clk\<lparr>now := t\<rparr>) (cl_token (tm_claims m ! i)) (tm_store m) of
               Some e \<Rightarrow> Failed e | None \<Rightarrow> Passed)\<rparr>]\<rparr>
      else m)"
| "token_step cr clk m (OpMark i) =
     (if i < length (tm_claims m) \<and> cl_phase (tm_claims m ! i) = Passed then
        m\<lparr>tm_claims := (tm_claims m)[i := (tm_claims m ! i)\<lparr>cl_phase := Granted\<rparr>],
          tm_store := (tm_store m)\<lparr>ts_claimed := insert (tt_nonce (cl_token (tm_claims m ! i))) (ts_claimed (tm_store m))\<rparr>\<rparr>
      else m)"
| "token_step cr clk m (OpRevoke device) = m\<lparr>tm_store := revoke_device device (tm_store m)\<rparr>"

text \<open>An undisturbed claim is \<open>claim_by_opaque\<close>.\<close>

lemma claim_undisturbed:
  assumes "map_of (ts_active (tm_store m)) opaque = Some tok" and "n = length (tm_claims m)"
  shows "tm_store (foldl (token_step cr clk) m [OpTake opaque, OpCheck t n, OpMark n])
      = snd (claim_by_opaque (clk\<lparr>now := t\<rparr>) opaque (tm_store m))
    \<and> cl_phase (tm_claims (foldl (token_step cr clk) m [OpTake opaque, OpCheck t n, OpMark n]) ! n)
      = (case fst (claim_by_opaque (clk\<lparr>now := t\<rparr>) opaque (tm_store m)) of
           Inl e \<Rightarrow> Failed e | Inr _ \<Rightarrow> Granted)"
  using assms
  by (simp add: claim_by_opaque_def claim_def nth_append split: option.splits)

section \<open>What every interleaving keeps\<close>

definition for_pair :: "string \<Rightarrow> string \<Rightarrow> teleport_token \<Rightarrow> bool" where
  "for_pair d s t \<longleftrightarrow> tt_device_id t = d \<and> tt_session_id t = s"

fun is_mint_of :: "string \<Rightarrow> string \<Rightarrow> token_op \<Rightarrow> bool" where
  "is_mint_of d s (OpMint t r device session) = (device = d \<and> session = s)"
| "is_mint_of d s _ = False"

text \<open>A claim that has not been refused still counts as a use of its token.\<close>

definition use_of :: "string \<Rightarrow> string \<Rightarrow> claim_run \<Rightarrow> bool" where
  "use_of d s c \<longleftrightarrow> for_pair d s (cl_token c) \<and> cl_phase c \<in> {Taken, Passed, Granted}"

definition granted_to :: "string \<Rightarrow> string \<Rightarrow> claim_run \<Rightarrow> bool" where
  "granted_to d s c \<longleftrightarrow> for_pair d s (cl_token c) \<and> cl_phase c = Granted"

definition minted :: "crypto \<Rightarrow> clock \<Rightarrow> token_op list \<Rightarrow> teleport_token \<Rightarrow> bool" where
  "minted cr clk ops t \<longleftrightarrow>
     (\<exists>t0 r. OpMint t0 r (tt_device_id t) (tt_session_id t) \<in> set ops
        \<and> t = new_token cr (clk\<lparr>now := t0\<rparr>) r (tt_device_id t) (tt_session_id t))"

definition tokens_inv :: "crypto \<Rightarrow> clock \<Rightarrow> string \<Rightarrow> string \<Rightarrow> token_op list \<Rightarrow> token_machine \<Rightarrow> bool" where
  "tokens_inv cr clk d s ops m \<longleftrightarrow>
     count_if (\<lambda>x. for_pair d s (snd x)) (ts_active (tm_store m)) + count_if (use_of d s) (tm_claims m)
       \<le> count_if (is_mint_of d s) ops
     \<and> (\<forall>k t. map_of (ts_active (tm_store m)) k = Some t \<longrightarrow> minted cr clk ops t)
     \<and> (\<forall>c \<in> set (tm_claims m). minted cr clk ops (cl_token c)
          \<and> (cl_phase c \<in> {Passed, Granted} \<longrightarrow>
               \<not> token_is_expired (clk\<lparr>now := cl_checked_at c\<rparr>) (cl_token c)))"

lemma minted_mono: "minted cr clk ops t \<Longrightarrow> minted cr clk (ops @ [x]) t"
  by (auto simp: minted_def)

lemma new_token_simps [simp]:
  "tt_device_id (new_token cr clk r d s) = d"
  "tt_session_id (new_token cr clk r d s) = s"
  "tt_expires_at (new_token cr clk r d s) = fmt_time clk (now clk + token_ttl_ns)"
  by (simp_all add: new_token_def Let_def)

lemma minted_new: "minted cr clk (ops @ [OpMint t r d s]) (new_token cr (clk\<lparr>now := t\<rparr>) r d s)"
  by (auto simp: minted_def)

lemma claim_check_None:
  "claim_check clk t st = None \<longleftrightarrow>
     \<not> token_is_expired clk t \<and> tt_device_id t \<notin> ts_revoked st \<and> tt_nonce t \<notin> ts_claimed st"
  by (simp add: claim_check_def)

interpretation tokens: traced_system "token_step cr clk" "tokens_inv cr clk d s" for cr clk d s
proof unfold_locales
  fix ops m x
  assume inv: "tokens_inv cr clk d s ops m"
  show "tokens_inv cr clk d s (ops @ [x]) (token_step cr clk m x)"
  proof (cases x)
    case (OpMint t r dev sess)
    let ?n = "new_token cr (clk\<lparr>now := t\<rparr>) r dev sess"
    have "count_if (\<lambda>x. for_pair d s (snd x)) (AList.update (tt_opaque ?n) ?n (ts_active (tm_store m)))
        \<le> count_if (\<lambda>x. for_pair d s (snd x)) (ts_active (tm_store m)) + (if for_pair d s ?n then 1 else 0)"
      by (rule count_if_update)
    with inv OpMint show ?thesis
      by (auto simp: tokens_inv_def mint_def Let_def update_conv' for_pair_def minted_new
          intro: minted_mono split: if_splits)
  next
    case (OpTake k)
    show ?thesis
    proof (cases "map_of (ts_active (tm_store m)) k")
      case None
      with inv OpTake show ?thesis by (auto simp: tokens_inv_def intro: minted_mono)
    next
      case (Some tok)
      from count_if_delete [OF this, of "for_pair d s"] inv OpTake Some show ?thesis
        by (auto simp: tokens_inv_def delete_conv' use_of_def intro: minted_mono split: if_splits)
    qed
  next
    case (OpCheck t i)
    show ?thesis
    proof (cases "i < length (tm_claims m) \<and> cl_phase (tm_claims m ! i) = Taken")
      case False
      with inv OpCheck show ?thesis by (auto simp: tokens_inv_def intro: minted_mono)
    next
      case True
      let ?c = "(tm_claims m ! i)\<lparr>cl_checked_at := t, cl_phase :=
            (case claim_check (clk\<lparr>now := t\<rparr>) (cl_token (tm_claims m ! i)) (tm_store m) of
               Some e \<Rightarrow> Failed e | None \<Rightarrow> Passed)\<rparr>"
      have "count_if (use_of d s) ((tm_claims m)[i := ?c]) \<le> count_if (use_of d s) (tm_claims m)"
        using True by (intro count_if_list_update) (auto simp: use_of_def)
      with inv OpCheck True show ?thesis
        by (auto simp: tokens_inv_def claim_check_None dest!: set_update_subset_insert [THEN subsetD]
            intro: minted_mono split: option.splits)
    qed
  next
    case (OpMark i)
    show ?thesis
    proof (cases "i < length (tm_claims m) \<and> cl_phase (tm_claims m ! i) = Passed")
      case False
      with inv OpMark show ?thesis by (auto simp: tokens_inv_def intro: minted_mono)
    next
      case True
      have "count_if (use_of d s) ((tm_claims m)[i := (tm_claims m ! i)\<lparr>cl_phase := Granted\<rparr>])
          \<le> count_if (use_of d s) (tm_claims m)"
        using True by (intro count_if_list_update) (auto simp: use_of_def)
      with inv OpMark True show ?thesis
        by (auto simp: tokens_inv_def dest!: set_update_subset_insert [THEN subsetD]
            intro: minted_mono)
    qed
  next
    case (OpRevoke dev)
    with inv show ?thesis by (auto simp: tokens_inv_def revoke_device_def intro: minted_mono)
  qed
qed

text \<open>A claim of a device that can still be granted: its check is over.\<close>

definition past_check :: "string \<Rightarrow> claim_run \<Rightarrow> bool" where
  "past_check d c \<longleftrightarrow> tt_device_id (cl_token c) = d \<and> cl_phase c \<in> {Passed, Granted}"

definition revoked_at_most :: "string \<Rightarrow> nat \<Rightarrow> token_machine \<Rightarrow> bool" where
  "revoked_at_most d n m \<longleftrightarrow> d \<in> ts_revoked (tm_store m) \<and> count_if (past_check d) (tm_claims m) \<le> n"

interpretation revocation: handler_system "token_step cr clk" "revoked_at_most d n" for cr clk d n
proof unfold_locales
  fix m x
  assume inv: "revoked_at_most d n m"
  show "revoked_at_most d n (token_step cr clk m x)"
  proof (cases x)
    case (OpCheck t i)
    show ?thesis
    proof (cases "i < length (tm_claims m) \<and> cl_phase (tm_claims m ! i) = Taken")
      case False
      with inv OpCheck show ?thesis by (auto simp: revoked_at_most_def)
    next
      case True
      let ?c = "(tm_claims m ! i)\<lparr>cl_checked_at := t, cl_phase :=
            (case claim_check (clk\<lparr>now := t\<rparr>) (cl_token (tm_claims m ! i)) (tm_store m) of
               Some e \<Rightarrow> Failed e | None \<Rightarrow> Passed)\<rparr>"
      have "count_if (past_check d) ((tm_claims m)[i := ?c]) \<le> count_if (past_check d) (tm_claims m)"
        using True inv
        by (intro count_if_list_update)
          (auto simp: past_check_def revoked_at_most_def claim_check_None split: option.splits)
      with inv OpCheck True show ?thesis by (simp add: revoked_at_most_def)
    qed
  next
    case (OpMark i)
    have "count_if (past_check d) ((tm_claims m)[i := (tm_claims m ! i)\<lparr>cl_phase := Granted\<rparr>])
        \<le> count_if (past_check d) (tm_claims m)"
      if "i < length (tm_claims m)" "cl_phase (tm_claims m ! i) = Passed"
      using that by (intro count_if_list_update) (auto simp: past_check_def)
    with inv OpMark show ?thesis by (auto simp: revoked_at_most_def)
  qed (use inv in \<open>auto simp: revoked_at_most_def mint_def revoke_device_def past_check_def Let_def
        split: option.splits\<close>)
qed

lemma tokens_inv_new: "tokens_inv cr clk d s [] token_machine_new"
  by (simp add: tokens_inv_def token_machine_new_def token_store_new_def)

lemma admin_presented: "ct_eq (as_bytes a) (as_bytes b) \<longleftrightarrow> a = b"
  by (simp add: ct_eq_iff as_bytes_inj)

section \<open>Properties\<close>

text \<open>
  C18: teleport tokens are single use. Under every interleaving of mints, revocations and the
  steps of concurrent claims, a device and session are granted at most as many claims as tokens
  were minted for them, and every grant was checked no later than five minutes after such a mint.
\<close>
theorem claims_bounded_by_mints:
  assumes "codec_ok clk" and "m = foldl (token_step cr clk) token_machine_new ops"
  shows "count_if (granted_to d s) (tm_claims m) \<le> count_if (is_mint_of d s) ops
    \<and> (\<forall>c \<in> set (tm_claims m). granted_to d s c \<longrightarrow>
         (\<exists>t0 r. OpMint t0 r d s \<in> set ops \<and> cl_checked_at c \<le> t0 + token_ttl_ns))"
proof -
  have inv: "tokens_inv cr clk d s ops m"
    using tokens.run_inv [OF tokens_inv_new] assms(2) by blast
  have "count_if (granted_to d s) (tm_claims m) \<le> count_if (use_of d s) (tm_claims m)"
    by (rule count_if_mono) (simp add: granted_to_def use_of_def)
  moreover have "\<exists>t0 r. OpMint t0 r d s \<in> set ops \<and> cl_checked_at c \<le> t0 + token_ttl_ns"
    if "c \<in> set (tm_claims m)" "granted_to d s c" for c
  proof -
    from inv that have "minted cr clk ops (cl_token c)"
      and fresh: "\<not> token_is_expired (clk\<lparr>now := cl_checked_at c\<rparr>) (cl_token c)"
      and pair: "tt_device_id (cl_token c) = d" "tt_session_id (cl_token c) = s"
      by (auto simp: tokens_inv_def granted_to_def for_pair_def)
    then obtain t0 r where op: "OpMint t0 r d s \<in> set ops"
      and tok: "cl_token c = new_token cr (clk\<lparr>now := t0\<rparr>) r d s"
      unfolding minted_def by metis
    have "parse_time clk (fmt_time clk (t0 + token_ttl_ns)) = Some (t0 + token_ttl_ns)"
      using assms(1) by (simp add: codec_ok_def)
    with fresh tok have "cl_checked_at c \<le> t0 + token_ttl_ns" by (simp add: token_is_expired_def)
    with op show ?thesis by blast
  qed
  ultimately show ?thesis using inv by (auto simp: tokens_inv_def)
qed

text \<open>
  Revocation takes effect at once. After a device is revoked no further claim for it passes
  its checks, whatever calls are in flight: the claims ever granted for it are at most those
  that had passed their checks before.
\<close>
theorem revocation_is_final:
  "count_if (past_check d) (tm_claims (foldl (token_step cr clk) (token_step cr clk m (OpRevoke d)) ops))
     \<le> count_if (past_check d) (tm_claims m)"
proof -
  have "revoked_at_most d (count_if (past_check d) (tm_claims m)) (token_step cr clk m (OpRevoke d))"
    by (simp add: revoked_at_most_def revoke_device_def)
  from revocation.run_inv [OF this] show ?thesis by (simp add: revoked_at_most_def)
qed

text \<open>
  Dial tokens. A token issued for a device until a time is accepted exactly for that device,
  up to and including that time, under the secret it was issued with, and only when the device
  id contains no dot (a device whose id has one can never dial).
\<close>
theorem dial_token_exact:
  assumes "crypto_ok cr" and "i64_range exp"
  shows "verify_bridge_dial_token cr now_s (issue_dial_token cr secret dev exp) secret dev' = Inr ()
    \<longleftrightarrow> dev' = dev \<and> CHR ''.'' \<notin> set dev \<and> now_s \<le> exp"
proof
  assume "verify_bridge_dial_token cr now_s (issue_dial_token cr secret dev exp) secret dev' = Inr ()"
  then obtain e s exp' where tok: "issue_dial_token cr secret dev exp = dev' @ ''.'' @ e @ ''.'' @ s"
    and dots: "CHR ''.'' \<notin> set dev'" "CHR ''.'' \<notin> set e"
    and r: "parse_i64 e = Some exp'" "now_s \<le> exp'" "cr_hex_decode cr s \<noteq> None"
    unfolding verify_ok_iff by blast
  from r(3) assms(1) have "CHR ''.'' \<notin> set s" by (auto simp: crypto_ok_def)
  with dots have "count_list (issue_dial_token cr secret dev exp) (CHR ''.'') = 2"
    by (simp add: tok count_list_0_iff)
  then have dev: "CHR ''.'' \<notin> set dev" by (simp add: issue_dial_token_def count_list_0_iff)
  have "splitn3 (issue_dial_token cr secret dev exp) = [dev', e, s]"
    using tok dots by (simp add: splitn3_iff)
  moreover have "splitn3 (issue_dial_token cr secret dev exp) = [dev, show_i64 exp,
      cr_hex_encode cr (hmac_sha256 cr secret (as_bytes (dial_payload dev exp)))]"
    using dev show_i64_no_dot by (simp add: splitn3_iff issue_dial_token_def)
  ultimately have "dev' = dev" "e = show_i64 exp" by simp_all
  with r assms(2) dev show "dev' = dev \<and> CHR ''.'' \<notin> set dev \<and> now_s \<le> exp" by (simp add: parse_show_i64)
next
  assume "dev' = dev \<and> CHR ''.'' \<notin> set dev \<and> now_s \<le> exp"
  with assms show "verify_bridge_dial_token cr now_s (issue_dial_token cr secret dev exp) secret dev' = Inr ()"
    unfolding verify_ok_iff issue_dial_token_def
    by (intro exI [of _ "show_i64 exp"] exI [of _ exp]
        exI [of _ "cr_hex_encode cr (hmac_sha256 cr secret (as_bytes (dial_payload dev exp)))"])
      (simp add: parse_show_i64 show_i64_no_dot crypto_ok_def)
qed

text \<open>
  The admin surface is closed by default. A relay that starts from its environment accepts
  an admin call only with the configured token, in the header or else in the query; without a
  configured token it starts only when the operator asked for an open surface.
\<close>
theorem admin_needs_token:
  "case load_security_from_env env of
     Inl e \<Rightarrow> env ''RELAY_ADMIN_TOKEN'' \<in> {None, Some []} \<or> env ''RELAY_BRIDGE_SECRET'' \<in> {None, Some []}
   | Inr sec \<Rightarrow>
       (case env ''RELAY_ADMIN_TOKEN'' of
          Some (c # cs) \<Rightarrow> check_admin_auth sec header query \<longleftrightarrow>
            or_else (map_option trim (Option.bind header (\<lambda>v. strip_prefix v ''Bearer ''))) query = Some (c # cs)
        | _ \<Rightarrow> is_truthy env ''RELAY_ALLOW_OPEN_ADMIN'')"
proof -
  have *: "unwrap_or [] x \<noteq> [] \<and> unwrap_or [] x = c # cs \<longleftrightarrow> x = Some (c # cs)" for x :: "string option" and c cs
    by (cases x) auto
  show ?thesis
    by (auto simp: load_security_from_env_def check_admin_auth_def filter_opt_def admin_presented * Let_def
        split: option.splits list.splits if_splits)
qed

text \<open>A digest and a hex coder, for examples.\<close>

definition hex_value :: "char \<Rightarrow> nat option" where
  "hex_value c =
     (let n = of_char c :: nat in
      if 48 \<le> n \<and> n \<le> 57 then Some (n - 48)
      else if 97 \<le> n \<and> n \<le> 102 then Some (n - 87) else None)"

fun example_hex_decode :: "string \<Rightarrow> bytes option" where
  "example_hex_decode [] = Some []"
| "example_hex_decode (a # b # r) =
     (case (hex_value a, hex_value b, example_hex_decode r) of
        (Some x, Some y, Some bs) \<Rightarrow> Some (word_of_nat (16 * x + y) # bs)
      | _ \<Rightarrow> None)"
| "example_hex_decode [c] = None"

definition example_crypto :: crypto where
  "example_crypto = \<lparr>cr_sha256 = (\<lambda>x. map (\<lambda>i. if i < length x then x ! i else 0) [0 ..< 32]),
     cr_hex_encode = (\<lambda>b. concat (map (\<lambda>w. [hex_digit (unat w div 16), hex_digit (unat w mod 16)]) b)),
     cr_hex_decode = example_hex_decode\<rparr>"

lemma hex_value_digit: "d < 16 \<Longrightarrow> hex_value (hex_digit d) = Some d"
  by (simp add: hex_value_def hex_digit_def of_char_of Let_def)

lemma hex_value_dot: "hex_value (CHR ''.'') = None"
  by (simp add: hex_value_def Let_def)

lemma example_hex_dot: "CHR ''.'' \<in> set s \<Longrightarrow> example_hex_decode s = None"
  by (induction s rule: example_hex_decode.induct) (auto simp: hex_value_dot split: option.splits)

lemma example_hex_roundtrip:
  "example_hex_decode (concat (map (\<lambda>w. [hex_digit (unat w div 16), hex_digit (unat w mod 16)]) b)) = Some b"
proof (induction b)
  case (Cons w b)
  have "unat w < 256" using unsigned_less [of w] by simp
  then have "unat w div 16 < 16" by (simp add: less_mult_imp_div_less)
  with Cons show ?case by (simp add: hex_value_digit)
qed simp

lemma example_crypto_ok: "crypto_ok example_crypto"
  by (simp add: crypto_ok_def example_crypto_def example_hex_roundtrip example_hex_dot)

theorem dial_token_exact_witness:
  "verify_bridge_dial_token example_crypto 100 (issue_dial_token example_crypto [1, 2] ''dev'' 160) [1, 2] ''dev'' = Inr ()
   \<and> verify_bridge_dial_token example_crypto 161 (issue_dial_token example_crypto [1, 2] ''dev'' 160) [1, 2] ''dev'' \<noteq> Inr ()
   \<and> verify_bridge_dial_token example_crypto 100 (issue_dial_token example_crypto [1, 2] ''dev.1'' 160) [1, 2] ''dev.1'' \<noteq> Inr ()"
  by (simp add: dial_token_exact [OF example_crypto_ok] i64_range_def)

definition example_token_ops :: "token_op list" where
  "example_token_ops = [OpMint 0 7 ''dev'' ''sess'',
     OpTake (tt_opaque (new_token example_crypto (unary_clock 0) 7 ''dev'' ''sess'')), OpCheck 5 0, OpMark 0]"

lemma example_grant:
  "count_if (granted_to ''dev'' ''sess'')
     (tm_claims (foldl (token_step example_crypto (unary_clock 0)) token_machine_new example_token_ops)) = 1"
proof -
  have "unary_clock 0\<lparr>now := 0\<rparr> = unary_clock 0" by (simp add: unary_clock_def)
  moreover have "\<not> token_is_expired (unary_clock 0\<lparr>now := 5\<rparr>) (new_token example_crypto (unary_clock 0) 7 ''dev'' ''sess'')"
    using unary_codec [of 0] by (simp add: token_is_expired_def codec_ok_def token_ttl_ns_def unary_clock_def)
  ultimately show ?thesis
    by (simp add: example_token_ops_def token_machine_new_def token_store_new_def mint_def Let_def
        claim_check_def granted_to_def for_pair_def)
qed

theorem claims_bounded_by_mints_witness:
  "count_if (granted_to ''dev'' ''sess'')
     (tm_claims (foldl (token_step example_crypto (unary_clock 0)) token_machine_new example_token_ops)) = 1
   \<and> count_if (is_mint_of ''dev'' ''sess'') example_token_ops \<ge> 1"
  using claims_bounded_by_mints [OF unary_codec [of 0] refl, where cr = example_crypto and ops = example_token_ops
      and d = "''dev''" and s = "''sess''"]
  by (auto simp: example_grant)

end
