(* ===== verification/Relay.thy ===== *)
theory Relay
  imports Relay_Tokens
begin

text \<open>
  The relay of \<open>apps/relay-service/src\<close>: the device registry of \<open>registry.rs\<close>, and the connection
  loops of \<open>route.rs\<close> with the admin handlers, over the token store of theory \<open>Relay_Tokens\<close>. A
  connection owns one outbound channel; both have the same number. A channel remembers what was
  sent into it; sending fails once its receiver is gone (\<open>ch_closed\<close>). One message handled by a
  connection loop, one accepted connection and one end of a loop are the steps of the system,
  in any interleaving. Websockets, the JSON of the outer frame and base64 are I/O: a text message
  is the parsed header and payload, or \<open>None\<close> when it does not parse.
\<close>

section \<open>Frames and channels\<close>

datatype direction = ToClient | ToBridge

record frame =
  fr_session_id :: string
  fr_seq :: "64 word"
  fr_payload :: string
  fr_direction :: direction

record channels =
  ch_sent :: "nat \<Rightarrow> frame list"
  ch_closed :: "nat set"

definition open_channel :: "nat \<Rightarrow> channels \<Rightarrow> channels" where
  "open_channel c chs = \<lparr>ch_sent = (ch_sent chs)(c := []), ch_closed = ch_closed chs - {c}\<rparr>"

definition send :: "nat \<Rightarrow> frame \<Rightarrow> channels \<Rightarrow> bool \<times> channels" where
  "send c f chs =
     (if c \<in> ch_closed chs then (False, chs)
      else (True, chs\<lparr>ch_sent := (ch_sent chs)(c := ch_sent chs c @ [f])\<rparr>))"

text \<open>\<open>list.retain(|tx| tx.send(frame.clone()).is_ok())\<close>.\<close>

fun retain_send :: "frame \<Rightarrow> nat list \<Rightarrow> channels \<Rightarrow> nat list \<times> channels" where
  "retain_send f [] chs = ([], chs)"
| "retain_send f (c # cs) chs =
     (let (sent, chs1) = send c f chs; (kept, chs2) = retain_send f cs chs1
      in (if sent then c # kept else kept, chs2))"

section \<open>The device registry\<close>

record device_entry =
  dv_bridge :: nat
  dv_clients :: "(string \<times> nat list) list"

type_synonym device_registry = "(string \<times> device_entry) list"

definition register_bridge :: "string \<Rightarrow> nat \<Rightarrow> device_registry \<Rightarrow> device_registry" where
  "register_bridge device_id tx r = AList.update device_id \<lparr>dv_bridge = tx, dv_clients = []\<rparr> r"

definition unregister_bridge :: "string \<Rightarrow> device_registry \<Rightarrow> device_registry" where
  "unregister_bridge device_id r = AList.delete device_id r"

definition attach_client :: "string \<Rightarrow> string \<Rightarrow> nat \<Rightarrow> device_registry \<Rightarrow> bool \<times> device_registry" where
  "attach_client device_id session_id tx r =
     (case map_of r device_id of
        Some e \<Rightarrow> (True, AList.update device_id
          (e\<lparr>dv_clients := AList.update session_id
               (unwrap_or [] (map_of (dv_clients e) session_id) @ [tx]) (dv_clients e)\<rparr>) r)
      | None \<Rightarrow> (False, r))"

definition detach_clients_for :: "string \<Rightarrow> string \<Rightarrow> device_registry \<Rightarrow> device_registry" where
  "detach_clients_for device_id session_id r =
     (case map_of r device_id of
        Some e \<Rightarrow> AList.update device_id (e\<lparr>dv_clients := AList.delete session_id (dv_clients e)\<rparr>) r
      | None \<Rightarrow> r)"

definition forward_to_bridge :: "string \<Rightarrow> frame \<Rightarrow> device_registry \<Rightarrow> channels \<Rightarrow> bool \<times> channels" where
  "forward_to_bridge device_id f r chs =
     (case map_of r device_id of
        Some e \<Rightarrow> send (dv_bridge e) f chs
      | None \<Rightarrow> (False, chs))"

definition forward_to_clients :: "string \<Rightarrow> string \<Rightarrow> frame \<Rightarrow> device_registry \<Rightarrow> channels
    \<Rightarrow> nat \<times> device_registry \<times> channels" where
  "forward_to_clients device_id session_id f r chs =
     (case map_of r device_id of
        None \<Rightarrow> (0, r, chs)
      | Some e \<Rightarrow> (case map_of (dv_clients e) session_id of
            None \<Rightarrow> (0, r, chs)
          | Some txs \<Rightarrow>
              let (kept, chs') = retain_send f txs chs
              in (length kept,
                  AList.update device_id (e\<lparr>dv_clients := AList.update session_id kept (dv_clients e)\<rparr>) r,
                  chs')))"

definition all_client_txs_for_device :: "string \<Rightarrow> device_registry \<Rightarrow> nat list" where
  "all_client_txs_for_device device_id r =
     (case map_of r device_id of
        None \<Rightarrow> []
      | Some e \<Rightarrow> concat (map snd (dv_clients e)))"

section \<open>Connections\<close>

text \<open>A bridge connection has no session; \<open>cn_live\<close> says that its loop is still running.\<close>

record conn =
  cn_device :: string
  cn_session :: "string option"
  cn_live :: bool

record relay =
  rel_registry :: device_registry
  rel_channels :: channels
  rel_tokens :: token_store
  rel_conns :: "conn list"

type_synonym wire_frame = "string \<times> 64 word \<times> string"

text \<open>\<open>bridge_dial_ws\<close>: may the connection be upgraded?\<close>

definition bridge_dial_check :: "crypto \<Rightarrow> relay_security \<Rightarrow> int \<Rightarrow> string \<Rightarrow> string option \<Rightarrow> string + unit" where
  "bridge_dial_check cr sec now_s device_id bridge_token =
     (case rsec_bridge_secret sec of
        Some secret \<Rightarrow>
          (case bridge_token of
             None \<Rightarrow> Inl ''missing bridge_token''
           | Some token \<Rightarrow> verify_bridge_dial_token cr now_s token secret device_id)
      | None \<Rightarrow> if rsec_allow_unsigned_dial sec then Inr () else Inl ''bridge auth disabled'')"

definition add_conn :: "conn \<Rightarrow> relay \<Rightarrow> relay" where
  "add_conn c st = st\<lparr>rel_conns := rel_conns st @ [c],
     rel_channels := open_channel (length (rel_conns st)) (rel_channels st)\<rparr>"

text \<open>\<open>bridge_dial_ws\<close> and the start of \<open>bridge_dial_loop\<close>.\<close>

definition bridge_dial :: "crypto \<Rightarrow> relay_security \<Rightarrow> int \<Rightarrow> string \<Rightarrow> string option \<Rightarrow> relay
    \<Rightarrow> (string + unit) \<times> relay" where
  "bridge_dial cr sec now_s device_id bridge_token st =
     (case bridge_dial_check cr sec now_s device_id bridge_token of
        Inl e \<Rightarrow> (Inl e, st)
      | Inr _ \<Rightarrow>
          if is_revoked device_id (rel_tokens st) then (Inl ''revoked'', st)
          else
            let tx = length (rel_conns st); st1 = add_conn \<lparr>cn_device = device_id, cn_session = None, cn_live = True\<rparr> st
            in (Inr (), st1\<lparr>rel_registry := register_bridge device_id tx (rel_registry st1)\<rparr>))"

text \<open>One text message in the loop of a bridge connection.\<close>

definition bridge_text :: "string \<Rightarrow> wire_frame option \<Rightarrow> relay \<Rightarrow> relay" where
  "bridge_text device_id msg st =
     (case msg of
        None \<Rightarrow> st
      | Some (sid, seq, payload) \<Rightarrow>
          let (n, r, chs) = forward_to_clients device_id sid
                \<lparr>fr_session_id = sid, fr_seq = seq, fr_payload = payload, fr_direction = ToClient\<rparr>
                (rel_registry st) (rel_channels st)
          in st\<lparr>rel_registry := r, rel_channels := chs\<rparr>)"

definition gone_signal :: frame where
  "gone_signal = \<lparr>fr_session_id = [], fr_seq = 0,
     fr_payload = ''{'' @ [CHR 0x22] @ ''type'' @ [CHR 0x22] @ '':'' @ [CHR 0x22] @ ''relay.bridge_gone'' @ [CHR 0x22] @ ''}'',
     fr_direction = ToClient\<rparr>"

definition close_channel :: "nat \<Rightarrow> channels \<Rightarrow> channels" where
  "close_channel c chs = chs\<lparr>ch_closed := insert c (ch_closed chs)\<rparr>"

definition end_conn :: "nat \<Rightarrow> relay \<Rightarrow> relay" where
  "end_conn i st = st\<lparr>rel_conns := (rel_conns st)[i := (rel_conns st ! i)\<lparr>cn_live := False\<rparr>],
     rel_channels := close_channel i (rel_channels st)\<rparr>"

text \<open>The end of \<open>bridge_dial_loop\<close>: signal every client, unregister the device, stop the writer.\<close>

definition bridge_end :: "nat \<Rightarrow> string \<Rightarrow> relay \<Rightarrow> relay" where
  "bridge_end i device_id st =
     (let chs = foldl (\<lambda>chs c. snd (send c gone_signal chs)) (rel_channels st)
                  (all_client_txs_for_device device_id (rel_registry st))
      in end_conn i (st\<lparr>rel_channels := chs, rel_registry := unregister_bridge device_id (rel_registry st)\<rparr>))"

definition resume_payload :: "64 word \<Rightarrow> string" where
  "resume_payload le = ''{'' @ [CHR 0x22] @ ''type'' @ [CHR 0x22] @ '':'' @ [CHR 0x22] @ ''resume'' @ [CHR 0x22]
     @ '','' @ [CHR 0x22] @ ''last_event_id'' @ [CHR 0x22] @ '':'' @ dec_digits (unat le) @ ''}''"

text \<open>\<open>client_attach_loop\<close> up to its message loop.\<close>

definition client_attach :: "clock \<Rightarrow> string \<Rightarrow> string \<Rightarrow> string \<Rightarrow> 64 word option \<Rightarrow> relay
    \<Rightarrow> (string + unit) \<times> relay" where
  "client_attach clk device_id session_id token last_event_id st =
     (if is_revoked device_id (rel_tokens st) then (Inl ''revoked'', st)
      else (case claim_by_opaque clk token (rel_tokens st) of
          (Inl reason, ts) \<Rightarrow> (Inl reason, st\<lparr>rel_tokens := ts\<rparr>)
        | (Inr (dev, sess), ts) \<Rightarrow>
            let st1 = st\<lparr>rel_tokens := ts\<rparr> in
            if dev \<noteq> device_id \<or> sess \<noteq> session_id then (Inl ''token_binding_mismatch'', st1)
            else
              (case attach_client device_id session_id (length (rel_conns st1)) (rel_registry st1) of
                 (False, _) \<Rightarrow> (Inl ''device_not_registered'', st1)
               | (True, r) \<Rightarrow>
                   let st2 = (add_conn \<lparr>cn_device = device_id, cn_session = Some session_id, cn_live = True\<rparr> st1)
                               \<lparr>rel_registry := r\<rparr>
                   in (Inr (),
                       (case last_event_id of
                          None \<Rightarrow> st2
                        | Some le \<Rightarrow> st2\<lparr>rel_channels := snd (forward_to_bridge device_id
                            \<lparr>fr_session_id = session_id, fr_seq = 0, fr_payload = resume_payload le,
                             fr_direction = ToBridge\<rparr> r (rel_channels st2))\<rparr>)))))"

text \<open>One text message in the loop of a client connection.\<close>

definition client_text :: "string \<Rightarrow> wire_frame option \<Rightarrow> relay \<Rightarrow> relay" where
  "client_text device_id msg st =
     (case msg of
        None \<Rightarrow> st
      | Some (sid, seq, payload) \<Rightarrow>
          st\<lparr>rel_channels := snd (forward_to_bridge device_id
               \<lparr>fr_session_id = sid, fr_seq = seq, fr_payload = payload, fr_direction = ToBridge\<rparr>
               (rel_registry st) (rel_channels st))\<rparr>)"

definition client_end :: "nat \<Rightarrow> string \<Rightarrow> string \<Rightarrow> relay \<Rightarrow> relay" where
  "client_end i device_id session_id st =
     end_conn i (st\<lparr>rel_registry := detach_clients_for device_id session_id (rel_registry st)\<rparr>)"

text \<open>\<open>mint_handler\<close> and \<open>revoke_handler\<close>.\<close>

definition mint_handler :: "crypto \<Rightarrow> relay_security \<Rightarrow> clock \<Rightarrow> 128 word \<Rightarrow> string option \<Rightarrow> string option
    \<Rightarrow> string \<Rightarrow> string \<Rightarrow> relay \<Rightarrow> teleport_token option \<times> relay" where
  "mint_handler cr sec clk random header query device_id session_id st =
     (if check_admin_auth sec header query then
        (case mint cr clk random device_id session_id (rel_tokens st) of
           (t, ts) \<Rightarrow> (Some t, st\<lparr>rel_tokens := ts\<rparr>))
      else (None, st))"

definition revoke_handler :: "relay_security \<Rightarrow> string option \<Rightarrow> string option \<Rightarrow> string \<Rightarrow> relay
    \<Rightarrow> bool \<times> relay" where
  "revoke_handler sec header query device_id st =
     (if check_admin_auth sec header query then
        (True, st\<lparr>rel_tokens := revoke_device device_id (rel_tokens st),
                  rel_registry := unregister_bridge device_id (rel_registry st)\<rparr>)
      else (False, st))"

section \<open>The relay as one system\<close>

datatype relay_op =
    Dial int string "string option"
  | BridgeText nat "wire_frame option"
  | BridgeEnd nat
  | Attach int string string string "64 word option"
  | ClientText nat "wire_frame option"
  | ClientEnd nat
  | WriterEnd nat
  | Mint int "128 word" "string option" "string option" string string
  | Revoke "string option" "string option" string

text \<open>A step of a connection loop that is not running changes nothing.\<close>

definition live_conn :: "nat \<Rightarrow> relay \<Rightarrow> conn option" where
  "live_conn i st =
     (if i < length (rel_conns st) \<and> cn_live (rel_conns st ! i) then Some (rel_conns st ! i) else None)"

fun relay_step :: "crypto \<Rightarrow> relay_security \<Rightarrow> clock \<Rightarrow> relay \<Rightarrow> relay_op \<Rightarrow> relay" where
  "relay_step cr sec clk st (Dial now_s d tok) = snd (bridge_dial cr sec now_s d tok st)"
| "relay_step cr sec clk st (BridgeText i msg) =
     (case live_conn i st of
        Some c \<Rightarrow> if cn_session c = None then bridge_text (cn_device c) msg st else st
      | None \<Rightarrow> st)"
| "relay_step cr sec clk st (BridgeEnd i) =
     (case live_conn i st of
        Some c \<Rightarrow> if cn_session c = None then bridge_end i (cn_device c) st else st
      | None \<Rightarrow> st)"
| "relay_step cr sec clk st (Attach t d s tok le) = snd (client_attach (clk\<lparr>now := t\<rparr>) d s tok le st)"
| "relay_step cr sec clk st (ClientText i msg) =
     (case live_conn i st of
        Some c \<Rightarrow> if cn_session c = None then st else client_text (cn_device c) msg st
      | None \<Rightarrow> st)"
| "relay_step cr sec clk st (ClientEnd i) =
     (case live_conn i st of
        Some c \<Rightarrow> (case cn_session c of None \<Rightarrow> st | Some s \<Rightarrow> client_end i (cn_device c) s st)
      | None \<Rightarrow> st)"
| "relay_step cr sec clk st (WriterEnd i) = st\<lparr>rel_channels := close_channel i (rel_channels st)\<rparr>"
| "relay_step cr sec clk st (Mint t r header query d s) =
     snd (mint_handler cr sec (clk\<lparr>now := t\<rparr>) r header query d s st)"
| "relay_step cr sec clk st (Revoke header query d) = snd (revoke_handler sec header query d st)"

definition relay_new :: relay where
  "relay_new = \<lparr>rel_registry = [], rel_channels = \<lparr>ch_sent = (\<lambda>_. []), ch_closed = {}\<rparr>,
     rel_tokens = token_store_new, rel_conns = []\<rparr>"

section \<open>Where frames come from\<close>

text \<open>Whom each channel belongs to: a device, and for clients a session of it.\<close>

type_synonym owners = "(string \<times> string option) list"

definition owners_of :: "relay \<Rightarrow> owners" where
  "owners_of st = map (\<lambda>c. (cn_device c, cn_session c)) (rel_conns st)"

definition from_bridge :: "relay_op list \<Rightarrow> owners \<Rightarrow> string \<Rightarrow> frame \<Rightarrow> bool" where
  "from_bridge ops w d f \<longleftrightarrow> (\<exists>i < length w. w ! i = (d, None)
     \<and> BridgeText i (Some (fr_session_id f, fr_seq f, fr_payload f)) \<in> set ops)"

definition from_client :: "relay_op list \<Rightarrow> owners \<Rightarrow> string \<Rightarrow> frame \<Rightarrow> bool" where
  "from_client ops w d f \<longleftrightarrow>
     (\<exists>i < length w. fst (w ! i) = d \<and> snd (w ! i) \<noteq> None
        \<and> ClientText i (Some (fr_session_id f, fr_seq f, fr_payload f)) \<in> set ops)
     \<or> (\<exists>t tok le. Attach t d (fr_session_id f) tok (Some le) \<in> set ops \<and> fr_payload f = resume_payload le)"

definition frame_ok :: "relay_op list \<Rightarrow> owners \<Rightarrow> string \<times> string option \<Rightarrow> frame \<Rightarrow> bool" where
  "frame_ok ops w x f =
     (case x of
        (d, Some s) \<Rightarrow> f = gone_signal \<or> fr_session_id f = s \<and> from_bridge ops w d f
      | (d, None) \<Rightarrow> from_client ops w d f)"

definition channels_ok :: "relay_op list \<Rightarrow> owners \<Rightarrow> channels \<Rightarrow> bool" where
  "channels_ok ops w chs \<longleftrightarrow> (\<forall>c < length w. \<forall>f \<in> set (ch_sent chs c). frame_ok ops w (w ! c) f)"

definition entry_ok :: "owners \<Rightarrow> string \<Rightarrow> device_entry \<Rightarrow> bool" where
  "entry_ok w d e \<longleftrightarrow> dv_bridge e < length w \<and> w ! dv_bridge e = (d, None)
     \<and> (\<forall>(s, txs) \<in> set (dv_clients e). \<forall>c \<in> set txs. c < length w \<and> w ! c = (d, Some s))"

definition registry_ok :: "owners \<Rightarrow> device_registry \<Rightarrow> bool" where
  "registry_ok w r \<longleftrightarrow> (\<forall>(d, e) \<in> set r. entry_ok w d e)"

lemma set_update_cases: "x \<in> set (AList.update k v m) \<Longrightarrow> x = (k, v) \<or> x \<in> set m"
  by (induction m) (auto split: if_splits)

lemma set_delete_sub: "x \<in> set (AList.delete k m) \<Longrightarrow> x \<in> set m"
  by (induction m) (auto simp: delete_simps split: if_splits)

lemma registry_okD: "registry_ok w r \<Longrightarrow> map_of r d = Some e \<Longrightarrow> entry_ok w d e"
  by (auto simp: registry_ok_def dest: map_of_SomeD)

lemma registry_ok_update: "registry_ok w r \<Longrightarrow> entry_ok w d e \<Longrightarrow> registry_ok w (AList.update d e r)"
  by (auto simp: registry_ok_def dest!: set_update_cases)

lemma registry_ok_delete: "registry_ok w r \<Longrightarrow> registry_ok w (AList.delete d r)"
  by (auto simp: registry_ok_def dest!: set_delete_sub)

lemma entry_ok_append: "entry_ok w d e \<Longrightarrow> entry_ok (w @ [x]) d e"
  by (fastforce simp: entry_ok_def nth_append)

lemma registry_ok_append: "registry_ok w r \<Longrightarrow> registry_ok (w @ [x]) r"
  by (auto simp: registry_ok_def intro: entry_ok_append)

lemma entry_ok_clients:
  "entry_ok w d e \<Longrightarrow> (\<And>c. c \<in> set txs \<Longrightarrow> c < length w \<and> w ! c = (d, Some s)) \<Longrightarrow>
     entry_ok w d (e\<lparr>dv_clients := AList.update s txs (dv_clients e)\<rparr>)"
  by (fastforce simp: entry_ok_def dest!: set_update_cases)

lemma entry_ok_client:
  "entry_ok w d e \<Longrightarrow> map_of (dv_clients e) s = Some txs \<Longrightarrow> c \<in> set txs \<Longrightarrow> c < length w \<and> w ! c = (d, Some s)"
  by (fastforce simp: entry_ok_def dest: map_of_SomeD)

lemma from_bridge_mono:
  "from_bridge ops w d f \<Longrightarrow> set ops \<subseteq> set ops' \<Longrightarrow> from_bridge ops' (w @ ys) d f"
  by (fastforce simp: from_bridge_def nth_append)

lemma from_client_mono:
  "from_client ops w d f \<Longrightarrow> set ops \<subseteq> set ops' \<Longrightarrow> from_client ops' (w @ ys) d f"
proof -
  assume "from_client ops w d f" and sub: "set ops \<subseteq> set ops'"
  then consider i where "i < length w" "fst (w ! i) = d" "snd (w ! i) \<noteq> None"
      "ClientText i (Some (fr_session_id f, fr_seq f, fr_payload f)) \<in> set ops"
    | t tok le where "Attach t d (fr_session_id f) tok (Some le) \<in> set ops" "fr_payload f = resume_payload le"
    by (auto simp: from_client_def)
  then show ?thesis
  proof cases
    case 1
    with sub show ?thesis unfolding from_client_def
      by (intro disjI1 exI [of _ i]) (auto simp: nth_append)
  next
    case 2
    with sub show ?thesis unfolding from_client_def by (intro disjI2) blast
  qed
qed

lemma frame_ok_mono:
  "frame_ok ops w x f \<Longrightarrow> set ops \<subseteq> set ops' \<Longrightarrow> frame_ok ops' (w @ ys) x f"
  by (auto simp: frame_ok_def intro: from_bridge_mono from_client_mono split: prod.splits option.splits)

lemma frame_ok_ops: "frame_ok ops w x f \<Longrightarrow> set ops \<subseteq> set ops' \<Longrightarrow> frame_ok ops' w x f"
  using frame_ok_mono [where ys = "[]"] by simp

lemma frame_ok_grow: "frame_ok ops w x f \<Longrightarrow> frame_ok ops (w @ ys) x f"
  by (rule frame_ok_mono) auto

lemma channels_ok_mono:
  "channels_ok ops w chs \<Longrightarrow> set ops \<subseteq> set ops' \<Longrightarrow> channels_ok ops' w chs"
  unfolding channels_ok_def by (blast intro: frame_ok_ops)

lemma channels_ok_open:
  assumes "channels_ok ops w chs"
  shows "channels_ok ops (w @ [x]) (open_channel (length w) chs)"
  unfolding channels_ok_def
proof (intro allI impI ballI)
  fix c f
  assume c: "c < length (w @ [x])" and f: "f \<in> set (ch_sent (open_channel (length w) chs) c)"
  show "frame_ok ops (w @ [x]) ((w @ [x]) ! c) f"
  proof (cases "c < length w")
    case True
    with f assms have "frame_ok ops w (w ! c) f" by (auto simp: channels_ok_def open_channel_def)
    then show ?thesis using frame_ok_grow True by (simp add: nth_append)
  next
    case False
    with c f show ?thesis by (simp add: open_channel_def)
  qed
qed

lemma channels_ok_send:
  "channels_ok ops w chs \<Longrightarrow> (c < length w \<Longrightarrow> frame_ok ops w (w ! c) f) \<Longrightarrow> channels_ok ops w (snd (send c f chs))"
  by (auto simp: channels_ok_def send_def)

lemma channels_ok_retain:
  "channels_ok ops w chs \<Longrightarrow> (\<And>c. c \<in> set cs \<Longrightarrow> c < length w \<Longrightarrow> frame_ok ops w (w ! c) f) \<Longrightarrow>
     channels_ok ops w (snd (retain_send f cs chs)) \<and> set (fst (retain_send f cs chs)) \<subseteq> set cs"
proof (induction cs arbitrary: chs)
  case (Cons c cs)
  have "channels_ok ops w (snd (send c f chs))" using Cons.prems by (intro channels_ok_send) auto
  from Cons.IH [OF this] Cons.prems show ?case by (auto simp: Let_def split: prod.splits)
qed simp

lemma channels_ok_signal:
  "channels_ok ops w chs \<Longrightarrow> (\<And>c. c \<in> set cs \<Longrightarrow> c < length w \<and> snd (w ! c) \<noteq> None) \<Longrightarrow>
     channels_ok ops w (foldl (\<lambda>chs c. snd (send c gone_signal chs)) chs cs)"
proof (induction cs arbitrary: chs)
  case (Cons c cs)
  have "channels_ok ops w (snd (send c gone_signal chs))"
    using Cons.prems(2) [of c] by (intro channels_ok_send Cons.prems(1))
      (auto simp: frame_ok_def split: prod.splits option.splits)
  from Cons.IH [OF this] Cons.prems show ?case by simp
qed simp

lemma channels_ok_close [simp]: "channels_ok ops w (close_channel c chs) = channels_ok ops w chs"
  by (simp add: channels_ok_def close_channel_def)

section \<open>What every step keeps\<close>

lemma owners_of_simps [simp]:
  "owners_of (add_conn c st) = owners_of st @ [(cn_device c, cn_session c)]"
  "owners_of (end_conn i st) = owners_of st"
  "owners_of (st\<lparr>rel_registry := r\<rparr>) = owners_of st"
  "owners_of (st\<lparr>rel_channels := chs\<rparr>) = owners_of st"
  "owners_of (st\<lparr>rel_tokens := ts\<rparr>) = owners_of st"
proof -
  have "map g (xs[i := x]) = map g xs" if "g x = g (xs ! i)" for g :: "conn \<Rightarrow> string \<times> string option" and xs x
    by (metis list_update_id map_update that)
  then show "owners_of (end_conn i st) = owners_of st" by (simp add: owners_of_def end_conn_def)
qed (simp_all add: owners_of_def add_conn_def)

lemma length_owners [simp]: "length (owners_of st) = length (rel_conns st)"
  by (simp add: owners_of_def)

lemma live_conn_owner:
  "live_conn i st = Some c \<Longrightarrow> i < length (owners_of st) \<and> owners_of st ! i = (cn_device c, cn_session c)"
  by (auto simp: live_conn_def owners_of_def split: if_splits)

lemma conn_field_simps [simp]:
  "rel_registry (add_conn c st) = rel_registry st"
  "rel_tokens (add_conn c st) = rel_tokens st"
  "rel_channels (add_conn c st) = open_channel (length (rel_conns st)) (rel_channels st)"
  "rel_registry (end_conn i st) = rel_registry st"
  "rel_tokens (end_conn i st) = rel_tokens st"
  "rel_channels (end_conn i st) = close_channel i (rel_channels st)"
  by (simp_all add: add_conn_def end_conn_def)

definition admin_minted :: "relay_security \<Rightarrow> relay_op list \<Rightarrow> string \<Rightarrow> string \<Rightarrow> bool" where
  "admin_minted sec ops d s \<longleftrightarrow>
     (\<exists>t r header query. Mint t r header query d s \<in> set ops \<and> check_admin_auth sec header query)"

definition dial_authorised :: "crypto \<Rightarrow> relay_security \<Rightarrow> relay_op list \<Rightarrow> string \<Rightarrow> bool" where
  "dial_authorised cr sec ops d \<longleftrightarrow>
     (\<exists>now_s tok. Dial now_s d tok \<in> set ops \<and> bridge_dial_check cr sec now_s d tok = Inr ())"

definition owner_ok :: "crypto \<Rightarrow> relay_security \<Rightarrow> relay_op list \<Rightarrow> string \<times> string option \<Rightarrow> bool" where
  "owner_ok cr sec ops x =
     (case x of (d, None) \<Rightarrow> dial_authorised cr sec ops d | (d, Some s) \<Rightarrow> admin_minted sec ops d s)"

definition active_ok :: "relay_security \<Rightarrow> relay_op list \<Rightarrow> token_store \<Rightarrow> bool" where
  "active_ok sec ops ts \<longleftrightarrow>
     (\<forall>k t. map_of (ts_active ts) k = Some t \<longrightarrow> admin_minted sec ops (tt_device_id t) (tt_session_id t))"

definition relay_inv :: "crypto \<Rightarrow> relay_security \<Rightarrow> relay_op list \<Rightarrow> relay \<Rightarrow> bool" where
  "relay_inv cr sec ops st \<longleftrightarrow>
     registry_ok (owners_of st) (rel_registry st)
     \<and> channels_ok ops (owners_of st) (rel_channels st)
     \<and> (\<forall>x \<in> set (owners_of st). owner_ok cr sec ops x)
     \<and> active_ok sec ops (rel_tokens st)"

lemma admin_minted_mono: "admin_minted sec ops d s \<Longrightarrow> admin_minted sec (ops @ [x]) d s"
  by (auto simp: admin_minted_def)

lemma owner_ok_mono: "owner_ok cr sec ops o' \<Longrightarrow> owner_ok cr sec (ops @ [x]) o'"
  by (auto simp: owner_ok_def dial_authorised_def intro: admin_minted_mono split: prod.splits option.splits)

lemma active_ok_mono: "active_ok sec ops ts \<Longrightarrow> active_ok sec (ops @ [x]) ts"
  by (auto simp: active_ok_def intro: admin_minted_mono)

lemma relay_inv_mono: "relay_inv cr sec ops st \<Longrightarrow> relay_inv cr sec (ops @ [x]) st"
  by (auto simp: relay_inv_def intro: owner_ok_mono active_ok_mono channels_ok_mono)

lemma active_ok_claim:
  assumes "active_ok sec ops ts"
  shows "active_ok sec ops (snd (claim_by_opaque clk tok ts))
    \<and> (\<forall>d s. fst (claim_by_opaque clk tok ts) = Inr (d, s) \<longrightarrow> admin_minted sec ops d s)"
  using assms
  by (auto simp: claim_by_opaque_def claim_def active_ok_def delete_conv' split: option.splits)

text \<open>The registry and the channels after forwarding.\<close>

lemma forward_to_clients_ok:
  assumes reg: "registry_ok w r" and ch: "channels_ok ops w chs" and f: "frame_ok ops w (d, Some s) f"
    and fwd: "forward_to_clients d s f r chs = (n, r', chs')"
  shows "registry_ok w r' \<and> channels_ok ops w chs'"
proof (cases "map_of r d")
  case None
  with assms show ?thesis by (simp add: forward_to_clients_def)
next
  case (Some e)
  with reg have e: "entry_ok w d e" by (rule registry_okD)
  show ?thesis
  proof (cases "map_of (dv_clients e) s")
    case None
    with assms Some show ?thesis by (simp add: forward_to_clients_def)
  next
    case txs: (Some txs)
    have own: "c < length w \<and> w ! c = (d, Some s)" if "c \<in> set txs" for c
      using entry_ok_client [OF e txs that] .
    obtain kept chs2 where k: "retain_send f txs chs = (kept, chs2)" by force
    have "channels_ok ops w chs2 \<and> set kept \<subseteq> set txs"
      using channels_ok_retain [OF ch, of txs f] own f k by auto
    moreover have "r' = AList.update d (e\<lparr>dv_clients := AList.update s kept (dv_clients e)\<rparr>) r" "chs' = chs2"
      using fwd Some txs k by (auto simp: forward_to_clients_def)
    ultimately show ?thesis
      using registry_ok_update [OF reg entry_ok_clients [OF e, of kept s]] own by blast
  qed
qed

lemma forward_to_bridge_ok:
  assumes "registry_ok w r" and "channels_ok ops w chs" and "frame_ok ops w (d, None) f"
  shows "channels_ok ops w (snd (forward_to_bridge d f r chs))"
  using assms registry_okD [OF assms(1), of d]
  by (auto simp: forward_to_bridge_def entry_ok_def intro: channels_ok_send split: option.splits)

lemma bridge_text_inv:
  assumes "relay_inv cr sec ops st" and "i < length (owners_of st)" "owners_of st ! i = (d, None)"
  shows "relay_inv cr sec (ops @ [BridgeText i msg]) (bridge_text d msg st)"
proof (cases msg)
  case None
  with assms show ?thesis by (simp add: bridge_text_def relay_inv_mono)
next
  case (Some m)
  obtain s q v where m: "m = (s, q, v)" by (cases m) auto
  let ?f = "\<lparr>fr_session_id = s, fr_seq = q, fr_payload = v, fr_direction = ToClient\<rparr>"
  obtain n r chs where fwd: "forward_to_clients d s ?f (rel_registry st) (rel_channels st) = (n, r, chs)"
    by (metis prod_cases3)
  from relay_inv_mono [OF assms(1), of "BridgeText i msg"] have inv: "relay_inv cr sec (ops @ [BridgeText i msg]) st" .
  have "frame_ok (ops @ [BridgeText i msg]) (owners_of st) (d, Some s) ?f"
    using assms(2,3) Some m by (auto simp: frame_ok_def from_bridge_def intro!: exI [of _ i])
  from forward_to_clients_ok [OF _ _ this fwd] inv
  show ?thesis by (simp add: relay_inv_def bridge_text_def Some m fwd)
qed

lemma client_text_inv:
  assumes "relay_inv cr sec ops st" and "i < length (owners_of st)" "owners_of st ! i = (d, Some s')"
  shows "relay_inv cr sec (ops @ [ClientText i msg]) (client_text d msg st)"
proof (cases msg)
  case None
  with assms show ?thesis by (simp add: client_text_def relay_inv_mono)
next
  case (Some m)
  obtain s q v where m: "m = (s, q, v)" by (cases m) auto
  from relay_inv_mono [OF assms(1), of "ClientText i msg"] have inv: "relay_inv cr sec (ops @ [ClientText i msg]) st" .
  have "frame_ok (ops @ [ClientText i msg]) (owners_of st) (d, None)
      \<lparr>fr_session_id = s, fr_seq = q, fr_payload = v, fr_direction = ToBridge\<rparr>"
    using assms(2,3) Some m by (auto simp: frame_ok_def from_client_def intro!: exI [of _ i])
  from forward_to_bridge_ok [OF _ _ this] inv
  show ?thesis by (simp add: relay_inv_def client_text_def Some m)
qed

lemma bridge_dial_inv:
  assumes "relay_inv cr sec ops st"
  shows "relay_inv cr sec (ops @ [Dial n d tok]) (snd (bridge_dial cr sec n d tok st))"
proof (cases "bridge_dial_check cr sec n d tok = Inr () \<and> \<not> is_revoked d (rel_tokens st)")
  case False
  then have "snd (bridge_dial cr sec n d tok st) = st"
    by (auto simp: bridge_dial_def split: sum.splits)
  with relay_inv_mono [OF assms] show ?thesis by simp
next
  case True
  let ?ops = "ops @ [Dial n d tok]" and ?w = "owners_of st @ [(d, None)]"
  from relay_inv_mono [OF assms, of "Dial n d tok"] have inv: "relay_inv cr sec ?ops st" .
  have "entry_ok ?w d \<lparr>dv_bridge = length (rel_conns st), dv_clients = []\<rparr>"
    by (simp add: entry_ok_def nth_append)
  moreover have "owner_ok cr sec ?ops (d, None)"
    using True by (auto simp: owner_ok_def dial_authorised_def)
  moreover have "registry_ok ?w (rel_registry st)" using inv by (simp add: relay_inv_def registry_ok_append)
  ultimately show ?thesis
    using inv True channels_ok_open [of ?ops "owners_of st" "rel_channels st" "(d, None)"]
    by (simp add: relay_inv_def bridge_dial_def register_bridge_def Let_def registry_ok_update)
qed

lemma attach_client_ok:
  assumes "registry_ok w r" and "attach_client d s (length w) r = (True, r')"
  shows "registry_ok (w @ [(d, Some s)]) r'"
proof (cases "map_of r d")
  case None
  with assms show ?thesis by (simp add: attach_client_def)
next
  case (Some e)
  let ?w = "w @ [(d, Some s)]"
  from Some assms(1) have e: "entry_ok w d e" by (blast dest: registry_okD)
  have "c < length ?w \<and> ?w ! c = (d, Some s)"
    if "c \<in> set (unwrap_or [] (map_of (dv_clients e) s) @ [length w])" for c
    using that entry_ok_client [OF e, of s _ c]
    by (cases "map_of (dv_clients e) s") (auto simp: nth_append)
  with entry_ok_clients [OF entry_ok_append [OF e, of "(d, Some s)"]]
  have "entry_ok ?w d (e\<lparr>dv_clients := AList.update s (unwrap_or [] (map_of (dv_clients e) s) @ [length w]) (dv_clients e)\<rparr>)"
    by blast
  with assms Some registry_ok_append [OF assms(1)] show ?thesis
    by (auto simp: attach_client_def intro: registry_ok_update)
qed

lemma client_attach_inv:
  assumes "relay_inv cr sec ops st"
  shows "relay_inv cr sec (ops @ [Attach t d s tok le]) (snd (client_attach clk d s tok le st))"
proof -
  let ?ops = "ops @ [Attach t d s tok le]"
  from relay_inv_mono [OF assms, of "Attach t d s tok le"] have inv: "relay_inv cr sec ?ops st" .
  obtain res ts where c: "claim_by_opaque clk tok (rel_tokens st) = (res, ts)" by force
  have ts: "active_ok sec ?ops ts" and res: "res = Inr (a, b) \<Longrightarrow> admin_minted sec ?ops a b" for a b
    using active_ok_claim [of sec ?ops "rel_tokens st" clk tok] inv c by (auto simp: relay_inv_def)
  let ?st1 = "st\<lparr>rel_tokens := ts\<rparr>"
  from inv ts have inv1: "relay_inv cr sec ?ops ?st1" by (simp add: relay_inv_def)
  show ?thesis
  proof (cases "\<not> is_revoked d (rel_tokens st) \<and> res = Inr (d, s)
      \<and> fst (attach_client d s (length (rel_conns st)) (rel_registry st))")
    case False
    with c have "snd (client_attach clk d s tok le st) = st \<or> snd (client_attach clk d s tok le st) = ?st1"
      by (auto simp: client_attach_def Let_def split: sum.splits prod.splits bool.splits)
    with inv inv1 show ?thesis by auto
  next
    case True
    then obtain r where r: "attach_client d s (length (rel_conns st)) (rel_registry st) = (True, r)"
      by (cases "attach_client d s (length (rel_conns st)) (rel_registry st)") simp
    let ?w = "owners_of st @ [(d, Some s)]"
    let ?st2 = "(add_conn \<lparr>cn_device = d, cn_session = Some s, cn_live = True\<rparr> ?st1)\<lparr>rel_registry := r\<rparr>"
    have reg: "registry_ok ?w r"
      using attach_client_ok [of "owners_of st" "rel_registry st" d s r] inv r by (simp add: relay_inv_def)
    moreover have "owner_ok cr sec ?ops (d, Some s)" using True res by (simp add: owner_ok_def)
    ultimately have inv2: "relay_inv cr sec ?ops ?st2"
      using inv1 channels_ok_open [of ?ops "owners_of st" "rel_channels st" "(d, Some s)"]
      by (simp add: relay_inv_def)
    show ?thesis
    proof (cases le)
      case None
      with True c r inv2 show ?thesis by (simp add: client_attach_def Let_def)
    next
      case (Some n)
      have "frame_ok ?ops ?w (d, None)
          \<lparr>fr_session_id = s, fr_seq = 0, fr_payload = resume_payload n, fr_direction = ToBridge\<rparr>"
        using Some unfolding frame_ok_def from_client_def prod.case option.case
        by (intro disjI2 exI [of _ t] exI [of _ tok] exI [of _ n]) simp
      from forward_to_bridge_ok [OF reg _ this] inv2 True c r Some show ?thesis
        by (simp add: client_attach_def Let_def relay_inv_def)
    qed
  qed
qed

lemma bridge_end_inv:
  assumes "relay_inv cr sec ops st"
  shows "relay_inv cr sec (ops @ [x]) (bridge_end i d st)"
proof -
  from relay_inv_mono [OF assms, of x] have inv: "relay_inv cr sec (ops @ [x]) st" .
  have "c < length (owners_of st) \<and> snd (owners_of st ! c) \<noteq> None"
    if c: "c \<in> set (all_client_txs_for_device d (rel_registry st))" for c
  proof -
    from c obtain e where e: "map_of (rel_registry st) d = Some e" and "c \<in> set (concat (map snd (dv_clients e)))"
      by (cases "map_of (rel_registry st) d") (auto simp: all_client_txs_for_device_def)
    then obtain s txs where "(s, txs) \<in> set (dv_clients e)" "c \<in> set txs" by auto
    moreover have "entry_ok (owners_of st) d e" using inv e by (auto simp: relay_inv_def dest: registry_okD)
    ultimately show ?thesis by (fastforce simp: entry_ok_def)
  qed
  with inv channels_ok_signal [of "ops @ [x]" "owners_of st" "rel_channels st"]
  show ?thesis
    by (simp add: relay_inv_def bridge_end_def Let_def unregister_bridge_def registry_ok_delete)
qed

lemma client_end_inv:
  assumes "relay_inv cr sec ops st"
  shows "relay_inv cr sec (ops @ [x]) (client_end i d s st)"
proof -
  from relay_inv_mono [OF assms, of x] have inv: "relay_inv cr sec (ops @ [x]) st" .
  have "registry_ok (owners_of st) (detach_clients_for d s (rel_registry st))"
  proof (cases "map_of (rel_registry st) d")
    case None
    with inv show ?thesis by (simp add: detach_clients_for_def relay_inv_def)
  next
    case (Some e)
    with inv have "entry_ok (owners_of st) d e" by (auto simp: relay_inv_def dest: registry_okD)
    then have "entry_ok (owners_of st) d (e\<lparr>dv_clients := AList.delete s (dv_clients e)\<rparr>)"
      by (auto simp: entry_ok_def dest!: set_delete_sub)
    with inv Some show ?thesis
      by (simp add: detach_clients_for_def relay_inv_def registry_ok_update)
  qed
  with inv show ?thesis by (simp add: relay_inv_def client_end_def)
qed

lemma admin_inv:
  assumes "relay_inv cr sec ops st"
  shows "relay_inv cr sec (ops @ [Mint t r h q d s]) (snd (mint_handler cr sec clk r h q d s st))"
    and "relay_inv cr sec (ops @ [Revoke h q d]) (snd (revoke_handler sec h q d st))"
proof -
  let ?ops = "ops @ [Mint t r h q d s]"
  from relay_inv_mono [OF assms, of "Mint t r h q d s"] have inv: "relay_inv cr sec ?ops st" .
  have "admin_minted sec ?ops d s" if "check_admin_auth sec h q"
    using that by (auto simp: admin_minted_def)
  with inv show "relay_inv cr sec ?ops (snd (mint_handler cr sec clk r h q d s st))"
    by (auto simp: relay_inv_def mint_handler_def mint_def Let_def active_ok_def update_conv')
  from relay_inv_mono [OF assms, of "Revoke h q d"] have "relay_inv cr sec (ops @ [Revoke h q d]) st" .
  then show "relay_inv cr sec (ops @ [Revoke h q d]) (snd (revoke_handler sec h q d st))"
    by (auto simp: relay_inv_def revoke_handler_def active_ok_def revoke_device_def
        unregister_bridge_def registry_ok_delete)
qed

interpretation relay_system: traced_system "relay_step cr sec clk" "relay_inv cr sec" for cr sec clk
proof unfold_locales
  fix ops st x
  assume inv: "relay_inv cr sec ops st"
  note skip = relay_inv_mono [OF inv]
  show "relay_inv cr sec (ops @ [x]) (relay_step cr sec clk st x)"
  proof (cases x)
    case (Dial n d tok)
    then show ?thesis using bridge_dial_inv [OF inv] by simp
  next
    case (BridgeText i msg)
    then show ?thesis using bridge_text_inv [OF inv, of i] live_conn_owner [of i st] skip
      by (auto split: option.splits)
  next
    case (BridgeEnd i)
    then show ?thesis using bridge_end_inv [OF inv] skip by (auto split: option.splits)
  next
    case (Attach t d s tok le)
    then show ?thesis using client_attach_inv [OF inv] by simp
  next
    case (ClientText i msg)
    then show ?thesis using client_text_inv [OF inv, of i] live_conn_owner [of i st] skip
      by (auto split: option.splits)
  next
    case (ClientEnd i)
    then show ?thesis using client_end_inv [OF inv] skip by (auto split: option.splits)
  next
    case (WriterEnd i)
    then show ?thesis using skip [of x] by (simp add: relay_inv_def)
  next
    case (Mint t r h q d s)
    then show ?thesis using admin_inv(1) [OF inv] by simp
  next
    case (Revoke h q d)
    then show ?thesis using admin_inv(2) [OF inv] by simp
  qed
qed

lemma relay_inv_new: "relay_inv cr sec [] relay_new"
  by (simp add: relay_inv_def relay_new_def owners_of_def registry_ok_def channels_ok_def active_ok_def
      token_store_new_def)

lemma relay_run_inv: "relay_inv cr sec ops (foldl (relay_step cr sec clk) relay_new ops)"
  by (rule relay_system.run_inv) (rule relay_inv_new)

section \<open>Properties\<close>

text \<open>
  C16: no frame crosses sessions on its way to a client. In every interleaving of dials,
  attachments, messages, disconnects, mints and revocations, whatever was put into the channel of
  a client of device \<open>d\<close> and session \<open>s\<close> is the notice that the bridge went away, or a message
  for exactly session \<open>s\<close> that a connection which dialled as \<open>d\<close> sent, with its payload and
  sequence number unchanged.
\<close>
theorem client_frames_confined:
  assumes "st = foldl (relay_step cr sec clk) relay_new ops"
    and "c < length (rel_conns st)" and "cn_session (rel_conns st ! c) = Some s"
    and "f \<in> set (ch_sent (rel_channels st) c)"
  shows "f = gone_signal
    \<or> (fr_session_id f = s \<and> (\<exists>i < length (rel_conns st). cn_session (rel_conns st ! i) = None
          \<and> cn_device (rel_conns st ! i) = cn_device (rel_conns st ! c)
          \<and> BridgeText i (Some (s, fr_seq f, fr_payload f)) \<in> set ops))"
proof -
  from relay_run_inv [of cr sec ops clk] assms(1) have "channels_ok ops (owners_of st) (rel_channels st)"
    by (simp add: relay_inv_def)
  with assms(2,4) have "frame_ok ops (owners_of st) (owners_of st ! c) f" by (simp add: channels_ok_def)
  with assms(2,3) show ?thesis
    by (auto simp: owners_of_def frame_ok_def from_bridge_def)
qed


section \<open>Examples\<close>

text \<open>A development relay (open admin surface, unsigned dialling) with one bridge and one client.\<close>

definition example_security :: relay_security where
  "example_security = \<lparr>rsec_admin_token = None, rsec_bridge_secret = None, rsec_allow_unsigned_dial = True\<rparr>"

abbreviation example_relay :: "relay_op list \<Rightarrow> relay" where
  "example_relay ops \<equiv> foldl (relay_step example_crypto example_security (unary_clock 0)) relay_new ops"

definition example_token :: "128 word \<Rightarrow> teleport_token" where
  "example_token r = new_token example_crypto (unary_clock 0\<lparr>now := 0\<rparr>) r ''d'' ''s''"

definition example_setup :: "relay_op list" where
  "example_setup = [Dial 0 ''d'' None, Mint 0 7 None None ''d'' ''s'',
     Attach 5 ''d'' ''s'' (tt_opaque (example_token 7)) None]"

lemma example_token_fresh: "\<not> token_is_expired (unary_clock 0\<lparr>now := 5\<rparr>) (example_token r)"
  using unary_codec [of 0]
  by (simp add: token_is_expired_def codec_ok_def token_ttl_ns_def unary_clock_def example_token_def)

lemma example_claim:
  "claim_by_opaque (unary_clock 0\<lparr>now := 5\<rparr>) (tt_opaque (example_token r))
     \<lparr>ts_active = [(tt_opaque (example_token r), example_token r)], ts_claimed = {}, ts_revoked = {}\<rparr>
   = (Inr (''d'', ''s''), \<lparr>ts_active = [], ts_claimed = {tt_nonce (example_token r)}, ts_revoked = {}\<rparr>)"
  by (simp add: claim_by_opaque_def claim_def claim_check_def example_token_fresh)
    (simp add: example_token_def)

lemma example_setup_state:
  "example_relay example_setup =
     \<lparr>rel_registry = [(''d'', \<lparr>dv_bridge = 0, dv_clients = [(''s'', [1])]\<rparr>)],
      rel_channels = \<lparr>ch_sent = (\<lambda>_. []), ch_closed = {}\<rparr>,
      rel_tokens = \<lparr>ts_active = [], ts_claimed = {tt_nonce (example_token 7)}, ts_revoked = {}\<rparr>,
      rel_conns = [\<lparr>cn_device = ''d'', cn_session = None, cn_live = True\<rparr>,
                   \<lparr>cn_device = ''d'', cn_session = Some ''s'', cn_live = True\<rparr>]\<rparr>"
proof -
  have mint: "mint example_crypto (unary_clock 0\<lparr>now := 0\<rparr>) 7 ''d'' ''s'' token_store_new
      = (example_token 7, \<lparr>ts_active = [(tt_opaque (example_token 7), example_token 7)], ts_claimed = {}, ts_revoked = {}\<rparr>)"
    by (simp add: mint_def token_store_new_def example_token_def Let_def)
  have dial: "bridge_dial_check example_crypto example_security 0 ''d'' None = Inr ()"
    by (simp add: bridge_dial_check_def example_security_def)
  have admin: "check_admin_auth example_security None None"
    by (simp add: check_admin_auth_def example_security_def)
  have revoked: "\<not> is_revoked ''d'' token_store_new"
    "\<not> is_revoked ''d'' \<lparr>ts_active = a, ts_claimed = b, ts_revoked = {}\<rparr>" for a b
    by (simp_all add: is_revoked_def token_store_new_def)
  have claim: "claim_by_opaque (unary_clock 0\<lparr>now := 5\<rparr>) (tt_opaque (example_token 7))
      \<lparr>ts_active = [(tt_opaque (example_token 7), example_token 7)], ts_claimed = {}, ts_revoked = {}\<rparr>
    = (Inr (''d'', ''s''), \<lparr>ts_active = [], ts_claimed = {tt_nonce (example_token 7)}, ts_revoked = {}\<rparr>)"
    by (rule example_claim)
  show ?thesis
    by (simp add: example_setup_def relay_new_def bridge_dial_def dial revoked mint_handler_def admin mint
        client_attach_def claim add_conn_def open_channel_def register_bridge_def attach_client_def Let_def
        fun_upd_idem)
qed

lemma example_delivery:
  "ch_sent (rel_channels (example_relay (example_setup @ [BridgeText 0 (Some (''s'', 1, ''hi''))]))) 1
     = [\<lparr>fr_session_id = ''s'', fr_seq = 1, fr_payload = ''hi'', fr_direction = ToClient\<rparr>]"
  by (simp add: example_setup_state live_conn_def bridge_text_def forward_to_clients_def send_def Let_def)

theorem client_frames_confined_witness:
  "let st = example_relay (example_setup @ [BridgeText 0 (Some (''s'', 1, ''hi''))]);
       f = \<lparr>fr_session_id = ''s'', fr_seq = 1, fr_payload = ''hi'', fr_direction = ToClient\<rparr>
   in f = gone_signal
    \<or> (\<exists>i < length (rel_conns st). cn_session (rel_conns st ! i) = None
          \<and> cn_device (rel_conns st ! i) = cn_device (rel_conns st ! 1)
          \<and> BridgeText i (Some (''s'', fr_seq f, fr_payload f))
              \<in> set (example_setup @ [BridgeText 0 (Some (''s'', 1, ''hi''))]))"
proof -
  let ?st = "example_relay (example_setup @ [BridgeText 0 (Some (''s'', 1, ''hi''))])"
  have "rel_conns ?st = [\<lparr>cn_device = ''d'', cn_session = None, cn_live = True\<rparr>,
      \<lparr>cn_device = ''d'', cn_session = Some ''s'', cn_live = True\<rparr>]"
    by (simp add: example_setup_state live_conn_def bridge_text_def split: prod.splits)
  then show ?thesis
    using client_frames_confined [of ?st _ _ _ "example_setup @ [BridgeText 0 (Some (''s'', 1, ''hi''))]" 1 "''s''",
        OF refl] example_delivery by simp
qed


section \<open>What the relay does not check\<close>

text \<open>
  The session in the header of a client's message is the client's choice: attached to session
  \<open>s\<close>, it can address any other session of the device, and the bridge sees the frame.
\<close>

lemma client_addresses_other_session:
  "ch_sent (rel_channels (example_relay (example_setup @ [ClientText 1 (Some (''other'', 1, ''stop''))]))) 0
     = [\<lparr>fr_session_id = ''other'', fr_seq = 1, fr_payload = ''stop'', fr_direction = ToBridge\<rparr>]"
  by (simp add: example_setup_state live_conn_def client_text_def forward_to_bridge_def send_def)

text \<open>When a bridge reconnects, the end of its first connection unregisters the second.\<close>

lemma reconnected_bridge_unregistered:
  "map_of (rel_registry (example_relay [Dial 0 ''d'' None, Dial 1 ''d'' None, BridgeEnd 0])) ''d'' = None
   \<and> live_conn 1 (example_relay [Dial 0 ''d'' None, Dial 1 ''d'' None, BridgeEnd 0])
       = Some \<lparr>cn_device = ''d'', cn_session = None, cn_live = True\<rparr>"
  by (simp add: relay_new_def bridge_dial_def bridge_dial_check_def example_security_def is_revoked_def
      token_store_new_def add_conn_def register_bridge_def live_conn_def bridge_end_def end_conn_def
      all_client_txs_for_device_def unregister_bridge_def Let_def)

text \<open>The disconnect of one client detaches every client of its session.\<close>

lemma disconnect_detaches_all:
  "snd (forward_to_clients ''d'' ''s'' f (detach_clients_for ''d'' ''s''
      [(''d'', \<lparr>dv_bridge = 0, dv_clients = [(''s'', [1, 2])]\<rparr>)]) chs)
     = (detach_clients_for ''d'' ''s'' [(''d'', \<lparr>dv_bridge = 0, dv_clients = [(''s'', [1, 2])]\<rparr>)], chs)"
  by (simp add: forward_to_clients_def detach_clients_for_def)

end
