(* ===== verification/Workflow.thy ===== *)
theory Workflow
  imports Wire Event_Ring
begin

text \<open>
  \<open>apps/local-bridge/src/workflows\<close>: the declarative workflow that shadows a session. A spec is
  a graph of activities (\<open>spec.rs\<close>); bridge events are classified into signals
  (\<open>adapters.rs\<close>); an executor moves the steps of one run along the graph and reports each
  change as a \<open>workflow.*\<close> event (\<open>executor.rs\<close>, \<open>events.rs\<close>); the process of a session
  (\<open>process.rs\<close>) listens to the very channel it emits to and starts a run per prompt.

  YAML parsing is a parameter (\<open>parse\<close>); the ULIDs of the steps of a run are given by their
  position, and \<open>now_iso\<close> of the clock is the time stamp of a call's events.
\<close>

section \<open>Specs\<close>

datatype activity_kind = Trigger | PromptAgent | AwaitApproval | ObserveToolActivity
  | CollectReviewDiff | CollectRuntimeLog | GateDecision | End

record workflow_metadata =
  wm_id :: string
  wm_name :: string

record activity_spec =
  as_id :: string
  as_kind :: activity_kind
  as_label :: string

record flow_edge =
  fe_from :: string
  fe_to :: string
  fe_on :: "string option"

record workflow_spec =
  wf_version :: nat
  wf_metadata :: workflow_metadata
  wf_activities :: "activity_spec list"
  wf_flows :: "flow_edge list"

text \<open>The \<open>snake_case\<close> names serde gives the kinds.\<close>

fun kind_name :: "activity_kind \<Rightarrow> string" where
  "kind_name Trigger = ''trigger''"
| "kind_name PromptAgent = ''prompt_agent''"
| "kind_name AwaitApproval = ''await_approval''"
| "kind_name ObserveToolActivity = ''observe_tool_activity''"
| "kind_name CollectReviewDiff = ''collect_review_diff''"
| "kind_name CollectRuntimeLog = ''collect_runtime_log''"
| "kind_name GateDecision = ''gate_decision''"
| "kind_name End = ''end''"

fun insert_ids :: "string list \<Rightarrow> activity_spec list \<Rightarrow> string + string list" where
  "insert_ids ids [] = Inr ids"
| "insert_ids ids (a # as) =
     (if as_id a \<in> set ids then Inl (''duplicate activity id: '' @ as_id a)
      else insert_ids (as_id a # ids) as)"

fun check_flows :: "string list \<Rightarrow> flow_edge list \<Rightarrow> string + unit" where
  "check_flows ids [] = Inr ()"
| "check_flows ids (f # fs) =
     (if fe_from f \<notin> set ids then Inl (''flow references unknown activity (from): '' @ fe_from f)
      else if fe_to f \<notin> set ids then Inl (''flow references unknown activity (to): '' @ fe_to f)
      else check_flows ids fs)"

definition validate_spec :: "workflow_spec \<Rightarrow> string + unit" where
  "validate_spec spec =
     (case insert_ids [] (wf_activities spec) of
        Inl e \<Rightarrow> Inl e
      | Inr ids \<Rightarrow> check_flows ids (wf_flows spec))"

definition from_yaml :: "(string \<Rightarrow> string + workflow_spec) \<Rightarrow> string \<Rightarrow> string + workflow_spec" where
  "from_yaml parse s =
     (case parse s of
        Inl e \<Rightarrow> Inl e
      | Inr spec \<Rightarrow> (case validate_spec spec of Inl e \<Rightarrow> Inl e | Inr _ \<Rightarrow> Inr spec))"

definition well_formed :: "workflow_spec \<Rightarrow> bool" where
  "well_formed spec \<longleftrightarrow> distinct (map as_id (wf_activities spec))
     \<and> (\<forall>f \<in> set (wf_flows spec). {fe_from f, fe_to f} \<subseteq> as_id ` set (wf_activities spec))"

lemma insert_ids_Inr:
  "insert_ids ids as = Inr ids' \<longleftrightarrow>
     distinct (map as_id as) \<and> set ids \<inter> as_id ` set as = {} \<and> ids' = rev (map as_id as) @ ids"
  by (induction ids as rule: insert_ids.induct) auto

lemma check_flows_Inr:
  "check_flows ids fs = Inr u \<longleftrightarrow> (\<forall>f \<in> set fs. {fe_from f, fe_to f} \<subseteq> set ids)"
  by (induction ids fs rule: check_flows.induct) auto

lemma validate_spec_iff: "validate_spec spec = Inr () \<longleftrightarrow> well_formed spec"
  by (auto simp: validate_spec_def well_formed_def insert_ids_Inr check_flows_Inr split: sum.splits)
    (metis insert_ids_Inr Int_empty_left list.set(1) sum.distinct(1))

text \<open>The bundled specs, by id; a spec that does not parse is logged and left out.\<close>

definition load_registry ::
  "(string \<Rightarrow> string + workflow_spec) \<Rightarrow> (string \<times> string) list \<Rightarrow> string \<rightharpoonup> workflow_spec" where
  "load_registry parse bundled =
     foldl (\<lambda>specs (id, yaml).
         case from_yaml parse yaml of Inr spec \<Rightarrow> specs(id \<mapsto> spec) | Inl e \<Rightarrow> specs)
       Map.empty bundled"

definition default_build_spec_id :: string where
  "default_build_spec_id = ''build.observe-tools''"

section \<open>Signals\<close>

datatype workflow_advance =
    PromptSubmitted
  | ApprovalPending (wa_approval_id: string)
  | ApprovalResolved (wa_approval_id: string) (wa_outcome: string)
  | ToolObserved (wa_tool: string) (wa_tool_kind: string)
  | ToolUpdated (wa_tool: string)
  | ToolFailed (wa_tool: string)
  | ReviewDiff (wa_tool: string) (wa_diff_count: "nat option")
  | RuntimeLog (wa_tool: string) (wa_command: "string option")
  | TranscriptCompleted
  | TranscriptError (wa_reason: string)

fun to_event_key :: "workflow_advance \<Rightarrow> string" where
  "to_event_key PromptSubmitted = ''message.submit''"
| "to_event_key (ApprovalPending _) = ''approval.pending''"
| "to_event_key (ApprovalResolved _ _) = ''approval.resolved''"
| "to_event_key (ToolObserved _ _) = ''tool.observed''"
| "to_event_key (ToolUpdated _) = ''tool.updated''"
| "to_event_key (ToolFailed _) = ''tool.failed''"
| "to_event_key (ReviewDiff _ _) = ''review.changeset_updated''"
| "to_event_key (RuntimeLog _ _) = ''runtime.job_log''"
| "to_event_key TranscriptCompleted = ''transcript.completed''"
| "to_event_key (TranscriptError _) = ''transcript.error''"

definition str_field :: "string \<Rightarrow> string \<Rightarrow> json \<Rightarrow> string" where
  "str_field k d payload = unwrap_or d (get_str k payload)"

text \<open>\<open>a.len() as u32\<close> keeps the low 32 bits.\<close>

definition classify_bridge_event :: "string \<Rightarrow> json \<Rightarrow> workflow_advance option" where
  "classify_bridge_event ty payload =
     (if starts_with ty ''workflow.'' \<and> \<not> starts_with ty ''workflow.input.'' then None
      else if ty = ''workflow.input.message_submit'' then Some PromptSubmitted
      else if ty = ''approval.pending'' then Some (ApprovalPending (str_field ''approval_id'' [] payload))
      else if ty = ''approval.resolved'' then
        Some (ApprovalResolved (str_field ''approval_id'' [] payload) (str_field ''outcome'' ''unknown'' payload))
      else if ty = ''tool.observed'' then
        Some (ToolObserved (str_field ''tool_call_id'' [] payload) (str_field ''kind'' ''other'' payload))
      else if ty = ''tool.updated'' then Some (ToolUpdated (str_field ''tool_call_id'' [] payload))
      else if ty = ''tool.failed'' then Some (ToolFailed (str_field ''tool_call_id'' [] payload))
      else if ty = ''review.changeset_updated'' then
        Some (ReviewDiff (str_field ''tool_call_id'' [] payload)
          (map_option (\<lambda>a. length a mod 2 ^ 32) (get_arr ''diffs'' payload)))
      else if ty = ''runtime.job_log'' then
        Some (RuntimeLog (str_field ''tool_call_id'' [] payload)
          (map_option (take_chars 120) (get_str ''command'' payload)))
      else if ty = ''transcript.completed'' then Some TranscriptCompleted
      else if ty = ''transcript.error'' then Some (TranscriptError (str_field ''reason'' ''error'' payload))
      else None)"

section \<open>Events\<close>

definition workflow_started :: "clock \<Rightarrow> string \<Rightarrow> string \<Rightarrow> string \<Rightarrow> string \<Rightarrow> server_event" where
  "workflow_started clk sid run spec_id spec_name =
     mk_event sid ''workflow.started''
       (JObj [(''run_id'', JStr run), (''spec_id'', JStr spec_id), (''spec_name'', JStr spec_name)]) (now_iso clk)"

definition workflow_step_started ::
  "clock \<Rightarrow> string \<Rightarrow> string \<Rightarrow> string \<Rightarrow> string \<Rightarrow> string \<Rightarrow> server_event" where
  "workflow_step_started clk sid run step kind label =
     mk_event sid ''workflow.step.started''
       (JObj [(''run_id'', JStr run), (''step_id'', JStr step), (''activity_kind'', JStr kind),
              (''label'', JStr label)]) (now_iso clk)"

definition workflow_step_updated :: "clock \<Rightarrow> string \<Rightarrow> string \<Rightarrow> string \<Rightarrow> json \<Rightarrow> server_event" where
  "workflow_step_updated clk sid run step detail =
     mk_event sid ''workflow.step.updated''
       (JObj [(''run_id'', JStr run), (''step_id'', JStr step), (''detail'', detail)]) (now_iso clk)"

definition workflow_step_completed :: "clock \<Rightarrow> string \<Rightarrow> string \<Rightarrow> string \<Rightarrow> server_event" where
  "workflow_step_completed clk sid run step =
     mk_event sid ''workflow.step.completed''
       (JObj [(''run_id'', JStr run), (''step_id'', JStr step)]) (now_iso clk)"

definition workflow_step_failed :: "clock \<Rightarrow> string \<Rightarrow> string \<Rightarrow> string \<Rightarrow> string \<Rightarrow> server_event" where
  "workflow_step_failed clk sid run step reason =
     mk_event sid ''workflow.step.failed''
       (JObj [(''run_id'', JStr run), (''step_id'', JStr step), (''reason'', JStr reason)]) (now_iso clk)"

text \<open>The extra fields that are not null are inserted over the base object.\<close>

definition merge_extra :: "json \<Rightarrow> (string \<times> json) list \<Rightarrow> (string \<times> json) list" where
  "merge_extra extra base =
     (case extra of
        JObj m \<Rightarrow> foldl (\<lambda>b (k, v). if v = JNull then b else AList.update k v b) base m
      | _ \<Rightarrow> base)"

definition workflow_artifact_created ::
  "clock \<Rightarrow> string \<Rightarrow> string \<Rightarrow> string \<Rightarrow> string \<Rightarrow> string \<Rightarrow> string \<Rightarrow> string \<Rightarrow> string \<Rightarrow> json \<Rightarrow> server_event" where
  "workflow_artifact_created clk sid run artifact kind step tool_call source ts extra =
     mk_event sid ''workflow.artifact.created''
       (JObj (merge_extra extra
         [(''run_id'', JStr run), (''artifact_id'', JStr artifact), (''kind'', JStr kind),
          (''step_id'', JStr step), (''tool_call_id'', JStr tool_call),
          (''source_event_type'', JStr source), (''ts'', JStr ts)])) (now_iso clk)"

definition workflow_completed :: "clock \<Rightarrow> string \<Rightarrow> string \<Rightarrow> server_event" where
  "workflow_completed clk sid run =
     mk_event sid ''workflow.completed'' (JObj [(''run_id'', JStr run)]) (now_iso clk)"

definition workflow_failed :: "clock \<Rightarrow> string \<Rightarrow> string \<Rightarrow> string \<Rightarrow> server_event" where
  "workflow_failed clk sid run reason =
     mk_event sid ''workflow.failed'' (JObj [(''run_id'', JStr run), (''reason'', JStr reason)]) (now_iso clk)"

lemmas workflow_event_defs = workflow_started_def workflow_step_started_def workflow_step_updated_def
  workflow_step_completed_def workflow_step_failed_def workflow_artifact_created_def
  workflow_completed_def workflow_failed_def

section \<open>The executor\<close>

datatype step_status = StepPending | StepStarted | StepCompleted | StepFailed

record workflow_step =
  ws_step_id :: string
  ws_activity_id :: string
  ws_activity_kind :: activity_kind
  ws_label :: string
  ws_status :: step_status

record workflow_artifact =
  art_id :: string
  art_kind :: string
  art_step_id :: string
  art_tool_call_id :: string
  art_ts :: string

datatype run_status = RunRunning | RunCompleted | RunFailed

record workflow_executor =
  ex_run_id :: string
  ex_session_id :: string
  ex_spec_id :: string
  ex_spec_name :: string
  ex_steps :: "workflow_step list"
  ex_artifacts :: "workflow_artifact list"
  ex_status :: run_status
  ex_spec :: workflow_spec

text \<open>\<open>uid i\<close> is the ULID drawn for the \<open>i\<close>-th step, \<open>run_uid\<close> the one of the run.\<close>

definition executor_new :: "(nat \<Rightarrow> string) \<Rightarrow> string \<Rightarrow> string \<Rightarrow> workflow_spec \<Rightarrow> workflow_executor" where
  "executor_new uid run_uid session_id spec =
     \<lparr>ex_run_id = ''run_'' @ run_uid, ex_session_id = session_id,
      ex_spec_id = wm_id (wf_metadata spec), ex_spec_name = wm_name (wf_metadata spec),
      ex_steps = map (\<lambda>(i, a). \<lparr>ws_step_id = ''step_'' @ as_id a @ ''_'' @ uid i, ws_activity_id = as_id a,
          ws_activity_kind = as_kind a, ws_label = as_label a, ws_status = StepPending\<rparr>)
        (enumerate 0 (wf_activities spec)),
      ex_artifacts = [], ex_status = RunRunning, ex_spec = spec\<rparr>"

text \<open>\<open>iter_mut().find(p)\<close> followed by an update of the element found.\<close>

fun update_first :: "('a \<Rightarrow> bool) \<Rightarrow> ('a \<Rightarrow> 'a) \<Rightarrow> 'a list \<Rightarrow> 'a list" where
  "update_first p f [] = []"
| "update_first p f (x # xs) = (if p x then f x # xs else x # update_first p f xs)"

definition set_status :: "step_status \<Rightarrow> workflow_step \<Rightarrow> workflow_step" where
  "set_status st s = s\<lparr>ws_status := st\<rparr>"

definition run_is_terminal :: "workflow_executor \<Rightarrow> bool" where
  "run_is_terminal ex \<longleftrightarrow> ex_status ex \<in> {RunCompleted, RunFailed}"

definition activity_is_active_or_completed :: "workflow_executor \<Rightarrow> string \<Rightarrow> bool" where
  "activity_is_active_or_completed ex aid \<longleftrightarrow>
     list_ex (\<lambda>s. ws_activity_id s = aid \<and> ws_status s \<in> {StepStarted, StepCompleted}) (ex_steps ex)"

type_synonym 's emits = "'s \<Rightarrow> server_event list \<times> 's"

text \<open>Run the operations one after the other and concatenate what they emit.\<close>

fun emit_seq :: "'s emits list \<Rightarrow> 's emits" where
  "emit_seq [] s = ([], s)"
| "emit_seq (f # fs) s = (let (e, s1) = f s; (e2, s2) = emit_seq fs s1 in (e @ e2, s2))"

definition start_activity :: "clock \<Rightarrow> string \<Rightarrow> workflow_executor emits" where
  "start_activity clk aid ex =
     (let p = (\<lambda>s. ws_activity_id s = aid \<and> ws_status s = StepPending) in
      case find p (ex_steps ex) of
        None \<Rightarrow> ([], ex)
      | Some s \<Rightarrow>
          (let sid = ex_session_id ex; run = ex_run_id ex;
               ex1 = ex\<lparr>ex_steps := update_first p (set_status StepStarted) (ex_steps ex)\<rparr>;
               evs = [workflow_step_started clk sid run (ws_step_id s) (kind_name (ws_activity_kind s)) (ws_label s)]
           in if ws_activity_kind s = End then
                (evs @ [workflow_step_completed clk sid run (ws_step_id s), workflow_completed clk sid run],
                 ex1\<lparr>ex_steps := update_first (\<lambda>t. ws_step_id t = ws_step_id s) (set_status StepCompleted) (ex_steps ex1),
                     ex_status := RunCompleted\<rparr>)
              else (evs, ex1)))"

definition complete_activity :: "clock \<Rightarrow> string \<Rightarrow> workflow_executor emits" where
  "complete_activity clk aid ex =
     (let p = (\<lambda>s. ws_activity_id s = aid \<and> ws_status s = StepStarted) in
      case find p (ex_steps ex) of
        None \<Rightarrow> ([], ex)
      | Some s \<Rightarrow>
          (let ex1 = ex\<lparr>ex_steps := update_first p (set_status StepCompleted) (ex_steps ex)\<rparr>;
               auto_edges = map fe_to (filter (\<lambda>e. fe_from e = aid \<and> fe_on e = None) (wf_flows (ex_spec ex)));
               (evs, ex2) = emit_seq (map (start_activity clk) auto_edges) ex1
           in (workflow_step_completed clk (ex_session_id ex) (ex_run_id ex) (ws_step_id s) # evs, ex2)))"

definition fail_step_by_kind :: "clock \<Rightarrow> activity_kind \<Rightarrow> string \<Rightarrow> workflow_executor emits" where
  "fail_step_by_kind clk kind reason ex =
     (let p = (\<lambda>s. ws_activity_kind s = kind \<and> ws_status s \<in> {StepStarted, StepPending}) in
      case find p (ex_steps ex) of
        None \<Rightarrow> ([], ex)
      | Some s \<Rightarrow>
          ([workflow_step_failed clk (ex_session_id ex) (ex_run_id ex) (ws_step_id s) reason],
           ex\<lparr>ex_steps := update_first p (set_status StepFailed) (ex_steps ex)\<rparr>))"

text \<open>\<open>for step in steps.iter_mut()\<close>: the steps that satisfy \<open>p\<close> change status, with one event each.\<close>

definition sweep ::
  "(workflow_step \<Rightarrow> bool) \<Rightarrow> step_status \<Rightarrow> (string \<Rightarrow> server_event) \<Rightarrow> workflow_executor emits" where
  "sweep p st ev ex =
     (map (ev \<circ> ws_step_id) (filter p (ex_steps ex)),
      ex\<lparr>ex_steps := map (\<lambda>s. if p s then set_status st s else s) (ex_steps ex)\<rparr>)"

definition terminal_complete :: "clock \<Rightarrow> workflow_executor emits" where
  "terminal_complete clk ex =
     (let end_id = map_option as_id (find (\<lambda>a. as_kind a = End) (wf_activities (ex_spec ex)));
          (evs, ex1) = sweep (\<lambda>s. ws_status s = StepStarted) StepCompleted
            (workflow_step_completed clk (ex_session_id ex) (ex_run_id ex)) ex;
          (evs2, ex2) = (case end_id of Some eid \<Rightarrow> start_activity clk eid ex1 | None \<Rightarrow> ([], ex1))
      in if ex_status ex2 \<noteq> RunCompleted then
           (evs @ evs2 @ [workflow_completed clk (ex_session_id ex) (ex_run_id ex)], ex2\<lparr>ex_status := RunCompleted\<rparr>)
         else (evs @ evs2, ex2))"

definition terminal_fail :: "clock \<Rightarrow> string \<Rightarrow> workflow_executor emits" where
  "terminal_fail clk reason ex =
     (let (evs, ex1) = sweep (\<lambda>s. ws_status s \<in> {StepStarted, StepPending} \<and> ws_activity_kind s \<noteq> Trigger)
            StepFailed (\<lambda>step. workflow_step_failed clk (ex_session_id ex) (ex_run_id ex) step reason) ex
      in (evs @ [workflow_failed clk (ex_session_id ex) (ex_run_id ex) reason], ex1\<lparr>ex_status := RunFailed\<rparr>))"

text \<open>What an artifact of a signal holds: kind, tool call, kind of the step, source event, extras.\<close>

fun artifact_of :: "workflow_advance \<Rightarrow> (string \<times> string \<times> activity_kind \<times> string \<times> json) option" where
  "artifact_of (ReviewDiff tc n) = Some (''review_diff'', tc, CollectReviewDiff, ''review.changeset_updated'',
     JObj [(''review_diff_count'', json_opt JUint n)])"
| "artifact_of (RuntimeLog tc cmd) = Some (''runtime_log'', tc, CollectRuntimeLog, ''runtime.job_log'',
     JObj [(''runtime_command_preview'', json_opt JStr cmd)])"
| "artifact_of (ToolObserved tc _) = Some (''tool_activity'', tc, ObserveToolActivity, ''tool.observed'', JObj [])"
| "artifact_of (ApprovalPending a) = Some (''approval'', a, AwaitApproval, ''approval.pending'',
     JObj [(''approval_id'', JStr a)])"
| "artifact_of _ = None"

definition maybe_create_artifact :: "clock \<Rightarrow> string \<Rightarrow> workflow_advance \<Rightarrow> workflow_executor emits" where
  "maybe_create_artifact clk ulid signal ex =
     (case artifact_of signal of
        None \<Rightarrow> ([], ex)
      | Some (kind, tool_call, step_kind, source, extra) \<Rightarrow>
          (case find (\<lambda>s. ws_activity_kind s = step_kind \<and> ws_status s = StepStarted) (ex_steps ex) of
             None \<Rightarrow> ([], ex)
           | Some s \<Rightarrow>
               (let aid = ''art_'' @ ulid; ts = now_iso clk in
                ([workflow_artifact_created clk (ex_session_id ex) (ex_run_id ex) aid kind (ws_step_id s) tool_call
                    source ts extra],
                 ex\<lparr>ex_artifacts := ex_artifacts ex @ [\<lparr>art_id = aid, art_kind = kind, art_step_id = ws_step_id s,
                     art_tool_call_id = tool_call, art_ts = ts\<rparr>]\<rparr>))))"

definition start_run_events :: "clock \<Rightarrow> workflow_executor emits" where
  "start_run_events clk ex =
     (let ev = workflow_started clk (ex_session_id ex) (ex_run_id ex) (ex_spec_id ex) (ex_spec_name ex) in
      case map_option as_id (find (\<lambda>a. as_kind a = Trigger) (wf_activities (ex_spec ex))) of
        None \<Rightarrow> ([ev], ex)
      | Some tid \<Rightarrow>
          (let (evs, ex1) = emit_seq [start_activity clk tid, complete_activity clk tid] ex in (ev # evs, ex1)))"

text \<open>The edges a signal takes: labelled with its key, out of activities that are active or done.\<close>

definition signal_edges :: "workflow_advance \<Rightarrow> workflow_executor \<Rightarrow> (string \<times> string) list" where
  "signal_edges signal ex =
     map (\<lambda>e. (fe_from e, fe_to e))
       (filter (\<lambda>e. activity_is_active_or_completed ex (fe_from e))
         (filter (\<lambda>e. fe_on e = Some (to_event_key signal)) (wf_flows (ex_spec ex))))"

definition follow_edge :: "clock \<Rightarrow> workflow_advance \<Rightarrow> string \<times> string \<Rightarrow> workflow_executor emits" where
  "follow_edge clk signal = (\<lambda>(from_id, to_id).
     emit_seq ((case signal of
         ApprovalResolved _ _ \<Rightarrow> [complete_activity clk from_id]
       | TranscriptCompleted \<Rightarrow> [complete_activity clk from_id]
       | _ \<Rightarrow> []) @ [start_activity clk to_id]))"

definition traverse :: "clock \<Rightarrow> string \<Rightarrow> workflow_advance \<Rightarrow> workflow_executor emits" where
  "traverse clk ulid signal ex =
     (let edges = signal_edges signal ex in
      if edges = [] then
        (if signal = TranscriptCompleted then terminal_complete clk ex
         else maybe_create_artifact clk ulid signal ex)
      else emit_seq (map (follow_edge clk signal) edges @ [maybe_create_artifact clk ulid signal]) ex)"

definition advance :: "clock \<Rightarrow> string \<Rightarrow> workflow_advance \<Rightarrow> workflow_executor emits" where
  "advance clk ulid signal ex =
     (if run_is_terminal ex then ([], ex)
      else case signal of
        TranscriptError reason \<Rightarrow> terminal_fail clk reason ex
      | ApprovalResolved _ outcome \<Rightarrow>
          if outcome = ''rejected'' \<or> outcome = ''timeout'' then fail_step_by_kind clk AwaitApproval outcome ex
          else traverse clk ulid signal ex
      | ToolFailed _ \<Rightarrow> fail_step_by_kind clk ObserveToolActivity ''tool_failed'' ex
      | _ \<Rightarrow> traverse clk ulid signal ex)"

section \<open>The changes an executor can make\<close>

text \<open>
  The activities a run may legitimately reach: the trigger, and what flow edges lead to from
  there.
\<close>

inductive reachable_activity :: "workflow_spec \<Rightarrow> string \<Rightarrow> bool" for spec where
  trigger: "find (\<lambda>a. as_kind a = Trigger) (wf_activities spec) = Some a \<Longrightarrow> reachable_activity spec (as_id a)"
| edge: "reachable_activity spec (fe_from e) \<Longrightarrow> e \<in> set (wf_flows spec) \<Longrightarrow> reachable_activity spec (fe_to e)"

definition single_end :: "workflow_spec \<Rightarrow> bool" where
  "single_end spec \<longleftrightarrow> length (filter (\<lambda>a. as_kind a = End) (wf_activities spec)) \<le> 1"

abbreviation with_step :: "nat \<Rightarrow> step_status \<Rightarrow> workflow_executor \<Rightarrow> workflow_executor" where
  "with_step i st ex \<equiv> ex\<lparr>ex_steps := (ex_steps ex)[i := set_status st (ex_steps ex ! i)]\<rparr>"

abbreviation step_id_at :: "workflow_executor \<Rightarrow> nat \<Rightarrow> string" where
  "step_id_at ex i \<equiv> ws_step_id (ex_steps ex ! i)"

text \<open>
  The contract of the executor: one change of a run with the events that report it. Every
  operation of the code is a sequence of these.
\<close>

inductive run_change :: "clock \<Rightarrow> workflow_executor \<Rightarrow> server_event list \<Rightarrow> workflow_executor \<Rightarrow> bool" for clk where
  start: "i < length (ex_steps ex) \<Longrightarrow> ws_status (ex_steps ex ! i) = StepPending \<Longrightarrow>
    ws_activity_kind (ex_steps ex ! i) \<noteq> End \<Longrightarrow>
    reachable_activity (ex_spec ex) (ws_activity_id (ex_steps ex ! i)) \<Longrightarrow>
    run_change clk ex [workflow_step_started clk (ex_session_id ex) (ex_run_id ex) (step_id_at ex i) k l]
      (with_step i StepStarted ex)"
| finish_end: "i < length (ex_steps ex) \<Longrightarrow> ws_status (ex_steps ex ! i) = StepPending \<Longrightarrow>
    ws_activity_kind (ex_steps ex ! i) = End \<Longrightarrow>
    run_change clk ex [workflow_step_started clk (ex_session_id ex) (ex_run_id ex) (step_id_at ex i) k l,
        workflow_step_completed clk (ex_session_id ex) (ex_run_id ex) (step_id_at ex i),
        workflow_completed clk (ex_session_id ex) (ex_run_id ex)]
      ((with_step i StepCompleted ex)\<lparr>ex_status := RunCompleted\<rparr>)"
| complete: "i < length (ex_steps ex) \<Longrightarrow> ws_status (ex_steps ex ! i) = StepStarted \<Longrightarrow>
    run_change clk ex [workflow_step_completed clk (ex_session_id ex) (ex_run_id ex) (step_id_at ex i)]
      (with_step i StepCompleted ex)"
| fail: "i < length (ex_steps ex) \<Longrightarrow> ws_status (ex_steps ex ! i) \<in> {StepStarted, StepPending} \<Longrightarrow>
    ws_activity_kind (ex_steps ex ! i) \<noteq> End \<Longrightarrow>
    run_change clk ex [workflow_step_failed clk (ex_session_id ex) (ex_run_id ex) (step_id_at ex i) reason]
      (with_step i StepFailed ex)"
| artifact: "s \<in> set (ex_steps ex) \<Longrightarrow> ws_status s = StepStarted \<Longrightarrow> ws_activity_kind s = sk \<Longrightarrow>
    artifact_of signal = Some (kind, tc, sk, source, extra) \<Longrightarrow>
    run_change clk ex [workflow_artifact_created clk (ex_session_id ex) (ex_run_id ex) aid kind (ws_step_id s) tc
        source ts extra]
      (ex\<lparr>ex_artifacts := ex_artifacts ex @ [\<lparr>art_id = aid, art_kind = kind, art_step_id = ws_step_id s,
          art_tool_call_id = tc, art_ts = ts\<rparr>]\<rparr>)"
| finish: "ex_status ex = RunRunning \<Longrightarrow>
    (single_end (ex_spec ex) \<longrightarrow> (\<forall>s \<in> set (ex_steps ex). ws_activity_kind s = End \<longrightarrow> ws_status s \<noteq> StepPending)) \<Longrightarrow>
    run_change clk ex [workflow_completed clk (ex_session_id ex) (ex_run_id ex)] (ex\<lparr>ex_status := RunCompleted\<rparr>)"
| abort: "ex_status ex = RunRunning \<Longrightarrow>
    run_change clk ex (fst (terminal_fail clk reason ex)) (snd (terminal_fail clk reason ex))"

inductive run_changes :: "clock \<Rightarrow> workflow_executor \<Rightarrow> server_event list \<Rightarrow> workflow_executor \<Rightarrow> bool" for clk where
  none: "run_changes clk ex [] ex"
| more: "run_change clk ex evs ex' \<Longrightarrow> run_changes clk ex' evs' ex'' \<Longrightarrow> run_changes clk ex (evs @ evs') ex''"

lemma run_changes_one: "run_change clk ex evs ex' \<Longrightarrow> run_changes clk ex evs ex'"
  using more [OF _ none] by fastforce

lemma run_changes_append:
  "run_changes clk ex evs ex' \<Longrightarrow> run_changes clk ex' evs' ex'' \<Longrightarrow> run_changes clk ex (evs @ evs') ex''"
  by (induction rule: run_changes.induct) (auto intro: run_changes.intros)

section \<open>Invariant of a run\<close>

definition step_info :: "workflow_step \<Rightarrow> string \<times> activity_kind \<times> string" where
  "step_info s = (ws_activity_id s, ws_activity_kind s, ws_label s)"

definition activity_info :: "activity_spec \<Rightarrow> string \<times> activity_kind \<times> string" where
  "activity_info a = (as_id a, as_kind a, as_label a)"

definition run_inv :: "workflow_executor \<Rightarrow> bool" where
  "run_inv ex \<longleftrightarrow> map step_info (ex_steps ex) = map activity_info (wf_activities (ex_spec ex))
     \<and> distinct (map ws_step_id (ex_steps ex)) \<and> distinct (map as_id (wf_activities (ex_spec ex)))
     \<and> (\<forall>s \<in> set (ex_steps ex).
          (ws_activity_kind s = End \<longrightarrow> ws_status s \<noteq> StepStarted
             \<and> (ex_status ex = RunRunning \<longrightarrow> ws_status s = StepPending)
             \<and> (ex_status ex = RunFailed \<longrightarrow> ws_status s \<noteq> StepPending))
        \<and> (ws_activity_kind s \<noteq> End \<longrightarrow> ws_status s \<in> {StepStarted, StepCompleted} \<longrightarrow>
             reachable_activity (ex_spec ex) (ws_activity_id s)))"

lemma set_status_simps [simp]:
  "ws_step_id (set_status st s) = ws_step_id s"
  "ws_activity_id (set_status st s) = ws_activity_id s"
  "ws_activity_kind (set_status st s) = ws_activity_kind s"
  "ws_label (set_status st s) = ws_label s"
  "ws_status (set_status st s) = st"
  "step_info (set_status st s) = step_info s"
  "set_status st (set_status st' s) = set_status st s"
  by (simp_all add: set_status_def step_info_def)

lemma map_list_update_same: "i < length xs \<Longrightarrow> f y = f (xs ! i) \<Longrightarrow> map f (xs[i := y]) = map f xs"
  by (metis list_update_id map_update)

lemma in_set_update: "x \<in> set (xs[i := y]) \<Longrightarrow> x = y \<or> x \<in> set xs"
  using set_update_subset_insert by fastforce

lemma terminal_fail_simps:
  "ex_spec (snd (terminal_fail clk r ex)) = ex_spec ex"
  "ex_status (snd (terminal_fail clk r ex)) = RunFailed"
  "ex_artifacts (snd (terminal_fail clk r ex)) = ex_artifacts ex"
  "ex_session_id (snd (terminal_fail clk r ex)) = ex_session_id ex"
  "ex_run_id (snd (terminal_fail clk r ex)) = ex_run_id ex"
  by (simp_all add: terminal_fail_def sweep_def)

lemma terminal_fail_steps:
  "ex_steps (snd (terminal_fail clk r ex)) =
     map (\<lambda>s. if ws_status s \<in> {StepStarted, StepPending} \<and> ws_activity_kind s \<noteq> Trigger
        then set_status StepFailed s else s) (ex_steps ex)"
  by (simp add: terminal_fail_def sweep_def)

lemma map_comp_if: "(\<And>s. f (g s) = f s) \<Longrightarrow> map f (map (\<lambda>s. if p s then g s else s) xs) = map f xs"
  by simp

lemma run_change_spec:
  "run_change clk ex evs ex' \<Longrightarrow> ex_spec ex' = ex_spec ex \<and> ex_session_id ex' = ex_session_id ex \<and> ex_run_id ex' = ex_run_id ex"
  by (induction rule: run_change.induct) (simp_all add: terminal_fail_simps)

lemma run_change_info:
  "run_change clk ex evs ex' \<Longrightarrow> map step_info (ex_steps ex') = map step_info (ex_steps ex)
     \<and> map ws_step_id (ex_steps ex') = map ws_step_id (ex_steps ex)"
  by (induction rule: run_change.induct) (simp_all add: map_list_update_same terminal_fail_steps)

lemma run_change_inv:
  assumes "run_change clk ex evs ex'" and "run_inv ex"
  shows "run_inv ex'"
proof -
  have "(ws_activity_kind s = End \<longrightarrow> ws_status s \<noteq> StepStarted
             \<and> (ex_status ex' = RunRunning \<longrightarrow> ws_status s = StepPending)
             \<and> (ex_status ex' = RunFailed \<longrightarrow> ws_status s \<noteq> StepPending))
        \<and> (ws_activity_kind s \<noteq> End \<longrightarrow> ws_status s \<in> {StepStarted, StepCompleted} \<longrightarrow>
             reachable_activity (ex_spec ex') (ws_activity_id s))" if "s \<in> set (ex_steps ex')" for s
    using assms that
  proof (induction rule: run_change.induct)
    case (abort ex reason)
    then show ?case by (auto simp: run_inv_def terminal_fail_simps terminal_fail_steps split: if_splits)
  next
    case (complete i ex)
    then have "ex_steps ex ! i \<in> set (ex_steps ex)" by simp
    with complete show ?case by (auto simp: run_inv_def dest!: in_set_update)
  qed (auto simp: run_inv_def dest!: in_set_update)
  then show ?thesis
    using run_change_info [OF assms(1)] run_change_spec [OF assms(1)] assms(2) unfolding run_inv_def by auto
qed

lemma run_changes_inv: "run_changes clk ex evs ex' \<Longrightarrow> run_inv ex \<Longrightarrow> run_inv ex' \<and> ex_spec ex' = ex_spec ex"
  by (induction rule: run_changes.induct) (auto simp: run_change_inv dest: run_change_spec)

section \<open>Every operation is a sequence of changes\<close>

lemma first_update_at:
  "find p xs = Some x \<Longrightarrow> \<exists>i < length xs. xs ! i = x \<and> p x \<and> (\<forall>f. update_first p f xs = xs[i := f x])"
proof (induction xs)
  case (Cons y xs)
  show ?case
  proof (cases "p y")
    case True
    with Cons.prems show ?thesis by (auto intro!: exI [of _ 0])
  next
    case False
    with Cons obtain i where "i < length xs" "xs ! i = x" "p x" "\<forall>f. update_first p f xs = xs[i := f x]" by auto
    with False show ?thesis by (auto intro!: exI [of _ "Suc i"])
  qed
qed simp

lemma update_first_unique:
  "distinct (map f xs) \<Longrightarrow> i < length xs \<Longrightarrow> update_first (\<lambda>t. f t = f (xs ! i)) g xs = xs[i := g (xs ! i)]"
proof (induction xs arbitrary: i)
  case (Cons x xs)
  then show ?case by (cases i) (auto simp: nth_mem)
qed simp

definition changes_by :: "clock \<Rightarrow> workflow_spec \<Rightarrow> workflow_executor emits \<Rightarrow> bool" where
  "changes_by clk spec f \<longleftrightarrow>
     (\<forall>ex. run_inv ex \<longrightarrow> ex_spec ex = spec \<longrightarrow> run_changes clk ex (fst (f ex)) (snd (f ex)))"

lemma changes_byD:
  "changes_by clk spec f \<Longrightarrow> run_inv ex \<Longrightarrow> ex_spec ex = spec \<Longrightarrow> run_changes clk ex (fst (f ex)) (snd (f ex))"
  by (simp add: changes_by_def)

lemma changes_by_seq:
  "(\<And>f. f \<in> set fs \<Longrightarrow> changes_by clk spec f) \<Longrightarrow> changes_by clk spec (emit_seq fs)"
proof (induction fs)
  case Nil
  then show ?case by (simp add: changes_by_def run_changes.none)
next
  case (Cons f fs)
  show ?case
    unfolding changes_by_def
  proof (intro allI impI)
    fix ex assume ex: "run_inv ex" "ex_spec ex = spec"
    have f: "run_changes clk ex (fst (f ex)) (snd (f ex))"
      using Cons.prems ex by (intro changes_byD [of clk spec]) auto
    from run_changes_inv [OF this ex(1)] have "run_inv (snd (f ex))" "ex_spec (snd (f ex)) = spec"
      using ex by auto
    then have "run_changes clk (snd (f ex)) (fst (emit_seq fs (snd (f ex)))) (snd (emit_seq fs (snd (f ex))))"
      using Cons by (intro changes_byD [of clk spec]) auto
    with run_changes_append [OF f] show "run_changes clk ex (fst (emit_seq (f # fs) ex)) (snd (emit_seq (f # fs) ex))"
      by (simp add: split_beta)
  qed
qed

text \<open>What starting an activity comes to, for an executor that satisfies the invariant.\<close>

lemma start_activity_cases:
  assumes "run_inv ex"
  obtains (idle) "find (\<lambda>s. ws_activity_id s = aid \<and> ws_status s = StepPending) (ex_steps ex) = None"
      "start_activity clk aid ex = ([], ex)"
  | (step) i k l where "i < length (ex_steps ex)" "ws_activity_id (ex_steps ex ! i) = aid"
      "ws_status (ex_steps ex ! i) = StepPending" "ws_activity_kind (ex_steps ex ! i) \<noteq> End"
      "start_activity clk aid ex =
         ([workflow_step_started clk (ex_session_id ex) (ex_run_id ex) (step_id_at ex i) k l], with_step i StepStarted ex)"
  | (finish) i k l where "i < length (ex_steps ex)" "ws_activity_id (ex_steps ex ! i) = aid"
      "ws_status (ex_steps ex ! i) = StepPending" "ws_activity_kind (ex_steps ex ! i) = End"
      "start_activity clk aid ex =
         ([workflow_step_started clk (ex_session_id ex) (ex_run_id ex) (step_id_at ex i) k l,
           workflow_step_completed clk (ex_session_id ex) (ex_run_id ex) (step_id_at ex i),
           workflow_completed clk (ex_session_id ex) (ex_run_id ex)],
          (with_step i StepCompleted ex)\<lparr>ex_status := RunCompleted\<rparr>)"
proof -
  define p where "p = (\<lambda>s :: workflow_step. ws_activity_id s = aid \<and> ws_status s = StepPending)"
  show thesis
  proof (cases "find p (ex_steps ex)")
    case None
    then show thesis using that(1) by (simp add: start_activity_def p_def)
  next
    case (Some s)
    from first_update_at [OF this] obtain i where i: "i < length (ex_steps ex)" "ex_steps ex ! i = s" "p s"
      and u: "\<forall>f. update_first p f (ex_steps ex) = (ex_steps ex)[i := f s]" by auto
    let ?xs = "(ex_steps ex)[i := set_status StepStarted s]"
    have "distinct (map ws_step_id ?xs)"
      using assms i by (simp add: run_inv_def map_list_update_same)
    then have u2: "update_first (\<lambda>t. ws_step_id t = ws_step_id s) (set_status StepCompleted) ?xs
        = (ex_steps ex)[i := set_status StepCompleted s]"
      using update_first_unique [of ws_step_id ?xs i "set_status StepCompleted"] i by simp
    show thesis
    proof (cases "ws_activity_kind s = End")
      case True
      show thesis
        by (rule that(3) [of i]) (use i True Some u u2 in \<open>auto simp: start_activity_def p_def Let_def\<close>)
    next
      case False
      show thesis
        by (rule that(2) [of i]) (use i False Some u in \<open>auto simp: start_activity_def p_def Let_def\<close>)
    qed
  qed
qed

text \<open>Two steps of one activity are of one kind.\<close>

lemma step_mirror:
  assumes "run_inv ex"
  shows "s \<in> set (ex_steps ex) \<Longrightarrow> \<exists>a \<in> set (wf_activities (ex_spec ex)). activity_info a = step_info s"
    and "a \<in> set (wf_activities (ex_spec ex)) \<Longrightarrow> \<exists>s \<in> set (ex_steps ex). activity_info a = step_info s"
proof -
  have "set (map step_info (ex_steps ex)) = set (map activity_info (wf_activities (ex_spec ex)))"
    using assms by (simp only: run_inv_def)
  then have img: "step_info ` set (ex_steps ex) = activity_info ` set (wf_activities (ex_spec ex))"
    by simp
  show "\<exists>a \<in> set (wf_activities (ex_spec ex)). activity_info a = step_info s" if "s \<in> set (ex_steps ex)"
    using imageI [OF that, of step_info] by (auto simp: img)
  show "\<exists>s \<in> set (ex_steps ex). activity_info a = step_info s" if "a \<in> set (wf_activities (ex_spec ex))"
    using imageI [OF that, of activity_info] by (auto simp: img [symmetric])
qed

lemma step_kind_of:
  assumes "run_inv ex" and "s \<in> set (ex_steps ex)" and "a \<in> set (wf_activities (ex_spec ex))" and "as_id a = ws_activity_id s"
  shows "as_kind a = ws_activity_kind s"
proof -
  from step_mirror(1) [OF assms(1,2)] obtain b where b: "b \<in> set (wf_activities (ex_spec ex))" "activity_info b = step_info s"
    by blast
  then have "as_id b = as_id a" using assms(4) by (simp add: activity_info_def step_info_def)
  moreover have "inj_on as_id (set (wf_activities (ex_spec ex)))"
    using assms(1) by (simp add: run_inv_def distinct_map)
  ultimately have "b = a" using b assms(3) by (auto dest: inj_onD)
  with b show ?thesis by (simp add: activity_info_def step_info_def)
qed

lemma changes_by_start:
  assumes "reachable_activity spec aid \<or> (\<exists>a \<in> set (wf_activities spec). as_kind a = End \<and> as_id a = aid)"
  shows "changes_by clk spec (start_activity clk aid)"
  unfolding changes_by_def
proof (intro allI impI)
  fix ex assume ex: "run_inv ex" "ex_spec ex = spec"
  show "run_changes clk ex (fst (start_activity clk aid ex)) (snd (start_activity clk aid ex))"
    using ex(1)
  proof (cases rule: start_activity_cases [where aid = aid and clk = clk])
    case idle
    then show ?thesis by (simp add: run_changes.none)
  next
    case (step i k l)
    have "reachable_activity spec aid"
      using assms step_kind_of [OF ex(1), of "ex_steps ex ! i"] step(1,2,4) ex(2) by (metis nth_mem)
    with step ex show ?thesis by (auto intro!: run_changes_one run_change.start)
  next
    case (finish i k l)
    then show ?thesis by (auto intro!: run_changes_one run_change.finish_end)
  qed
qed

lemma changes_by_complete:
  "changes_by clk spec (complete_activity clk aid)"
  unfolding changes_by_def
proof (intro allI impI)
  fix ex assume ex: "run_inv ex" "ex_spec ex = spec"
  define p where "p = (\<lambda>s :: workflow_step. ws_activity_id s = aid \<and> ws_status s = StepStarted)"
  show "run_changes clk ex (fst (complete_activity clk aid ex)) (snd (complete_activity clk aid ex))"
  proof (cases "find p (ex_steps ex)")
    case None
    then show ?thesis by (simp add: complete_activity_def p_def run_changes.none)
  next
    case (Some s)
    from first_update_at [OF this] obtain i where i: "i < length (ex_steps ex)" "ex_steps ex ! i = s" "p s"
      and u: "\<forall>f. update_first p f (ex_steps ex) = (ex_steps ex)[i := f s]" by auto
    let ?ex1 = "with_step i StepCompleted ex"
    let ?autos = "map fe_to (filter (\<lambda>e. fe_from e = aid \<and> fe_on e = None) (wf_flows spec))"
    from i have "s \<in> set (ex_steps ex)" by auto
    then have r: "reachable_activity spec aid"
      using ex i(3) by (auto simp: run_inv_def p_def)
    have chg: "run_change clk ex [workflow_step_completed clk (ex_session_id ex) (ex_run_id ex) (step_id_at ex i)] ?ex1"
      using i by (intro run_change.complete) (auto simp: p_def)
    have "changes_by clk spec (emit_seq (map (start_activity clk) ?autos))"
      using r by (intro changes_by_seq) (auto intro!: changes_by_start reachable_activity.edge)
    then have "run_changes clk ?ex1 (fst (emit_seq (map (start_activity clk) ?autos) ?ex1))
        (snd (emit_seq (map (start_activity clk) ?autos) ?ex1))"
      using run_change_inv [OF chg ex(1)] ex by (intro changes_byD [of clk spec]) auto
    from run_changes.more [OF chg this] show ?thesis
      using Some u i ex by (auto simp: complete_activity_def p_def split_beta Let_def)
  qed
qed

lemma changes_by_fail:
  assumes "kind \<noteq> End"
  shows "changes_by clk spec (fail_step_by_kind clk kind reason)"
  unfolding changes_by_def
proof (intro allI impI)
  fix ex assume ex: "run_inv ex" "ex_spec ex = spec"
  define p where "p = (\<lambda>s :: workflow_step. ws_activity_kind s = kind \<and> ws_status s \<in> {StepStarted, StepPending})"
  show "run_changes clk ex (fst (fail_step_by_kind clk kind reason ex)) (snd (fail_step_by_kind clk kind reason ex))"
  proof (cases "find p (ex_steps ex)")
    case None
    then show ?thesis by (simp add: fail_step_by_kind_def p_def run_changes.none)
  next
    case (Some s)
    from first_update_at [OF this] obtain i where i: "i < length (ex_steps ex)" "ex_steps ex ! i = s" "p s"
      and u: "\<forall>f. update_first p f (ex_steps ex) = (ex_steps ex)[i := f s]" by auto
    then have "run_changes clk ex [workflow_step_failed clk (ex_session_id ex) (ex_run_id ex) (step_id_at ex i) reason]
        (with_step i StepFailed ex)"
      using assms by (intro run_changes_one run_change.fail) (auto simp: p_def)
    with Some u i show ?thesis by (simp add: fail_step_by_kind_def p_def)
  qed
qed

lemma changes_by_artifact:
  "changes_by clk spec (maybe_create_artifact clk ulid signal)"
proof (cases "artifact_of signal")
  case None
  then show ?thesis by (simp add: changes_by_def maybe_create_artifact_def run_changes.none)
next
  case (Some r)
  obtain kind tc sk source extra where r: "r = (kind, tc, sk, source, extra)" by (cases r)
  show ?thesis
    unfolding changes_by_def
  proof (intro allI impI)
    fix ex
    show "run_changes clk ex (fst (maybe_create_artifact clk ulid signal ex)) (snd (maybe_create_artifact clk ulid signal ex))"
    proof (cases "find (\<lambda>s. ws_activity_kind s = sk \<and> ws_status s = StepStarted) (ex_steps ex)")
      case None
      then show ?thesis using Some r by (simp add: maybe_create_artifact_def run_changes.none)
    next
      case (Some s)
      from find_SomeD [OF this] have "s \<in> set (ex_steps ex)" "ws_status s = StepStarted" "ws_activity_kind s = sk" by auto
      from run_changes_one [OF run_change.artifact [OF this]] Some \<open>artifact_of signal = Some r\<close> r show ?thesis
        by (auto simp: maybe_create_artifact_def Let_def)
    qed
  qed
qed

lemma with_steps_upd: "ex\<lparr>ex_steps := xs, ex_steps := ys\<rparr> = ex\<lparr>ex_steps := ys\<rparr>"
  by simp

lemma sweep_completes:
  defines "p \<equiv> \<lambda>s :: workflow_step. ws_status s = StepStarted"
  shows "run_changes clk ex (fst (sweep p StepCompleted (workflow_step_completed clk (ex_session_id ex) (ex_run_id ex)) ex))
     (snd (sweep p StepCompleted (workflow_step_completed clk (ex_session_id ex) (ex_run_id ex)) ex))"
proof -
  let ?xs = "ex_steps ex"
  let ?ev = "workflow_step_completed clk (ex_session_id ex) (ex_run_id ex)"
  let ?sw = "\<lambda>s. if p s then set_status StepCompleted s else s"
  define st where "st k = ex\<lparr>ex_steps := map ?sw (take k ?xs) @ drop k ?xs\<rparr>" for k
  have "run_changes clk ex (map (?ev \<circ> ws_step_id) (filter p (take k ?xs))) (st k)" if "k \<le> length ?xs" for k
    using that
  proof (induction k)
    case 0
    show ?case by (simp add: st_def run_changes.none)
  next
    case (Suc k)
    then have k: "k < length ?xs" by simp
    have drop: "drop k ?xs = ?xs ! k # drop (Suc k) ?xs"
      using k by (simp add: Cons_nth_drop_Suc)
    have nth: "ex_steps (st k) ! k = ?xs ! k" "k < length (ex_steps (st k))"
      using k by (simp_all add: st_def nth_append)
    have IH: "run_changes clk ex (map (?ev \<circ> ws_step_id) (filter p (take k ?xs))) (st k)"
      using Suc.IH k by linarith
    have ids: "ex_session_id (st k) = ex_session_id ex" "ex_run_id (st k) = ex_run_id ex" by (simp_all add: st_def)
    show ?case
    proof (cases "p (?xs ! k)")
      case True
      have next_st: "with_step k StepCompleted (st k) = st (Suc k)"
        using k True by (simp add: st_def take_Suc_conv_app_nth drop list_update_append nth_append)
      have "run_changes clk (st k) [?ev (ws_step_id (?xs ! k))] (with_step k StepCompleted (st k))"
        using run_change.complete [of k "st k" clk] nth True
        by (intro run_changes_one) (simp add: p_def ids nth)
      with next_st have "run_changes clk (st k) [?ev (ws_step_id (?xs ! k))] (st (Suc k))" by simp
      from run_changes_append [OF IH this] show ?thesis
        using k True by (simp add: take_Suc_conv_app_nth comp_def)
    next
      case False
      then have "st (Suc k) = st k"
        using k by (simp add: st_def take_Suc_conv_app_nth drop)
      with IH False k show ?thesis by (simp add: take_Suc_conv_app_nth comp_def)
    qed
  qed
  from this [of "length ?xs"] show ?thesis by (simp add: sweep_def st_def)
qed

lemma start_end_completes:
  assumes "run_inv ex" and "ex_status ex = RunRunning"
    and "a \<in> set (wf_activities (ex_spec ex))" and "as_kind a = End"
  shows "ex_status (snd (start_activity clk (as_id a) ex)) = RunCompleted"
  using assms(1)
proof (cases rule: start_activity_cases [where aid = "as_id a" and clk = clk])
  case idle
  obtain s where s: "s \<in> set (ex_steps ex)" "activity_info a = step_info s"
    using step_mirror(2) [OF assms(1,3)] by auto
  then have "ws_activity_id s = as_id a" "ws_activity_kind s = End"
    using assms(4) by (auto simp: activity_info_def step_info_def)
  moreover have "ws_status s = StepPending"
    using assms(1,2) s(1) \<open>ws_activity_kind s = End\<close> by (auto simp: run_inv_def)
  ultimately show ?thesis using idle(1) s(1) by (auto simp: find_None_iff)
next
  case (step i k l)
  with step_kind_of [OF assms(1), of "ex_steps ex ! i" a] assms(3,4) show ?thesis by auto
next
  case (finish i k l)
  then show ?thesis by simp
qed

lemma run_changes_fields:
  "run_changes clk ex evs ex' \<Longrightarrow> ex_session_id ex' = ex_session_id ex \<and> ex_run_id ex' = ex_run_id ex"
  by (induction rule: run_changes.induct) (auto dest: run_change_spec)

lemma start_activity_status:
  "ex_status (snd (start_activity clk aid ex)) \<in> {ex_status ex, RunCompleted}"
  by (auto simp: start_activity_def Let_def split: option.splits)

lemma terminal_complete_changes:
  assumes "run_inv ex" and "ex_status ex = RunRunning"
  shows "run_changes clk ex (fst (terminal_complete clk ex)) (snd (terminal_complete clk ex))"
    and "ex_status (snd (terminal_complete clk ex)) = RunCompleted"
proof -
  let ?ev = "workflow_step_completed clk (ex_session_id ex) (ex_run_id ex)"
  define r1 where "r1 = sweep (\<lambda>s. ws_status s = StepStarted) StepCompleted ?ev ex"
  define f where "f = (case find (\<lambda>a. as_kind a = End) (wf_activities (ex_spec ex)) of
      Some a \<Rightarrow> start_activity clk (as_id a) | None \<Rightarrow> (\<lambda>ex. ([], ex)))"
  have c1: "run_changes clk ex (fst r1) (snd r1)"
    unfolding r1_def by (rule sweep_completes)
  have r: "ex_status (snd r1) = RunRunning" "ex_spec (snd r1) = ex_spec ex"
    using assms(2) by (simp_all add: r1_def sweep_def)
  have inv1: "run_inv (snd r1)" using run_changes_inv [OF c1 assms(1)] by simp
  have "changes_by clk (ex_spec ex) f"
    by (auto simp: f_def changes_by_def run_changes.none split: option.split
        intro!: changes_by_start [unfolded changes_by_def, rule_format] dest!: find_SomeD)
  then have c2: "run_changes clk (snd r1) (fst (f (snd r1))) (snd (f (snd r1)))"
    using inv1 r by (intro changes_byD [of clk "ex_spec ex"]) auto
  note c12 = run_changes_append [OF c1 c2]
  have fields: "ex_session_id (snd (f (snd r1))) = ex_session_id ex" "ex_run_id (snd (f (snd r1))) = ex_run_id ex"
    using run_changes_fields [OF c12] by auto
  have st: "ex_status (snd (f (snd r1))) \<in> {RunRunning, RunCompleted}"
    using start_activity_status [of clk _ "snd r1"] r by (auto simp: f_def split: option.split)
  have no_end: "\<forall>s \<in> set (ex_steps (snd (f (snd r1)))). ws_activity_kind s \<noteq> End"
    if "ex_status (snd (f (snd r1))) = RunRunning"
  proof -
    have none: "find (\<lambda>a. as_kind a = End) (wf_activities (ex_spec ex)) = None"
    proof (rule ccontr)
      assume "find (\<lambda>a. as_kind a = End) (wf_activities (ex_spec ex)) \<noteq> None"
      then obtain a where a: "find (\<lambda>a. as_kind a = End) (wf_activities (ex_spec ex)) = Some a" by auto
      with find_SomeD [OF a] start_end_completes [OF inv1 r(1), of a clk] r(2) that show False
        by (simp add: f_def)
    qed
    have "run_inv (snd (f (snd r1)))" "ex_spec (snd (f (snd r1))) = ex_spec ex"
      using run_changes_inv [OF c12 assms(1)] by auto
    from step_mirror(1) [OF this(1)] this(2) none show ?thesis
      by (fastforce simp: find_None_iff activity_info_def step_info_def)
  qed
  have eq: "terminal_complete clk ex =
     (if ex_status (snd (f (snd r1))) \<noteq> RunCompleted then
        ((fst r1 @ fst (f (snd r1))) @ [workflow_completed clk (ex_session_id ex) (ex_run_id ex)],
         (snd (f (snd r1)))\<lparr>ex_status := RunCompleted\<rparr>)
      else (fst r1 @ fst (f (snd r1)), snd (f (snd r1))))"
    by (simp add: terminal_complete_def r1_def f_def split_beta Let_def split: option.split)
  show "ex_status (snd (terminal_complete clk ex)) = RunCompleted"
    by (simp add: eq)
  show "run_changes clk ex (fst (terminal_complete clk ex)) (snd (terminal_complete clk ex))"
  proof (cases "ex_status (snd (f (snd r1))) = RunCompleted")
    case True
    then show ?thesis using c12 by (simp add: eq)
  next
    case False
    then have "ex_status (snd (f (snd r1))) = RunRunning" using st by auto
    then have "run_changes clk (snd (f (snd r1))) [workflow_completed clk (ex_session_id ex) (ex_run_id ex)]
        ((snd (f (snd r1)))\<lparr>ex_status := RunCompleted\<rparr>)"
      using no_end fields run_changes_one [OF run_change.finish [of "snd (f (snd r1))" clk]] by simp
    from run_changes_append [OF c12 this] show ?thesis using False by (simp add: eq)
  qed
qed

lemma signal_edges_reachable:
  assumes "run_inv ex" and "ex_status ex = RunRunning" and "(f, g) \<in> set (signal_edges signal ex)"
  shows "reachable_activity (ex_spec ex) f" and "reachable_activity (ex_spec ex) g"
proof -
  from assms(3) obtain e where e: "e \<in> set (wf_flows (ex_spec ex))" "fe_from e = f" "fe_to e = g"
    and act: "activity_is_active_or_completed ex f" by (auto simp: signal_edges_def)
  from act obtain s where "s \<in> set (ex_steps ex)" "ws_activity_id s = f" "ws_status s \<in> {StepStarted, StepCompleted}"
    by (auto simp: activity_is_active_or_completed_def list_ex_iff)
  with assms(1,2) show f: "reachable_activity (ex_spec ex) f"
    by (cases "ws_activity_kind s = End") (auto simp: run_inv_def)
  from reachable_activity.edge [of "ex_spec ex" e] f e show "reachable_activity (ex_spec ex) g" by simp
qed

lemma changes_by_follow_edge:
  "reachable_activity spec g \<Longrightarrow> changes_by clk spec (follow_edge clk signal (f, g))"
  unfolding follow_edge_def prod.case
  by (rule changes_by_seq) (auto split: workflow_advance.splits simp: changes_by_complete changes_by_start)

lemma traverse_changes:
  assumes "run_inv ex" and "ex_status ex = RunRunning"
  shows "run_changes clk ex (fst (traverse clk ulid signal ex)) (snd (traverse clk ulid signal ex))"
proof (cases "signal_edges signal ex = []")
  case True
  then show ?thesis
    using terminal_complete_changes [OF assms, of clk] changes_byD [OF changes_by_artifact assms(1) refl]
    by (simp add: traverse_def)
next
  case False
  have "changes_by clk (ex_spec ex)
      (emit_seq (map (follow_edge clk signal) (signal_edges signal ex) @ [maybe_create_artifact clk ulid signal]))"
    using signal_edges_reachable [OF assms]
    by (intro changes_by_seq) (auto intro!: changes_by_follow_edge changes_by_artifact)
  from changes_byD [OF this assms(1) refl] False show ?thesis by (simp add: traverse_def)
qed

lemma advance_changes:
  assumes "run_inv ex"
  shows "run_changes clk ex (fst (advance clk ulid signal ex)) (snd (advance clk ulid signal ex))"
proof (cases "run_is_terminal ex")
  case True
  then show ?thesis by (simp add: advance_def run_changes.none)
next
  case False
  then have run: "ex_status ex = RunRunning"
    by (cases "ex_status ex") (auto simp: run_is_terminal_def)
  note facts = traverse_changes [OF assms run] run_changes_one [OF run_change.abort [OF run]]
    changes_byD [OF changes_by_fail assms refl]
  show ?thesis using False by (cases signal) (auto simp: advance_def facts)
qed

lemma start_run_changes:
  assumes "run_inv ex"
  shows "\<exists>evs. fst (start_run_events clk ex)
      = workflow_started clk (ex_session_id ex) (ex_run_id ex) (ex_spec_id ex) (ex_spec_name ex) # evs
    \<and> run_changes clk ex evs (snd (start_run_events clk ex))"
proof (cases "find (\<lambda>a. as_kind a = Trigger) (wf_activities (ex_spec ex))")
  case None
  then show ?thesis by (simp add: start_run_events_def run_changes.none)
next
  case (Some a)
  let ?f = "emit_seq [start_activity clk (as_id a), complete_activity clk (as_id a)]"
  have "changes_by clk (ex_spec ex) ?f"
    by (rule changes_by_seq) (auto simp: changes_by_complete intro!: changes_by_start reachable_activity.trigger Some)
  from changes_byD [OF this assms refl] have "run_changes clk ex (fst (?f ex)) (snd (?f ex))" .
  with Some show ?thesis by (simp add: start_run_events_def split_beta Let_def)
qed

text \<open>ULIDs are 26 characters and different for different draws.\<close>

definition ulids_ok :: "workflow_spec \<Rightarrow> (nat \<Rightarrow> string) \<Rightarrow> bool" where
  "ulids_ok spec uid \<longleftrightarrow> distinct (map uid [0 ..< length (wf_activities spec)])
     \<and> list_all (\<lambda>i. length (uid i) = 26) [0 ..< length (wf_activities spec)]"

lemma executor_new_inv:
  assumes "ulids_ok spec uid" and "well_formed spec"
  shows "run_inv (executor_new uid ru sid spec)"
proof -
  let ?mk = "\<lambda>(i, a). \<lparr>ws_step_id = ''step_'' @ as_id a @ ''_'' @ uid i, ws_activity_id = as_id a,
          ws_activity_kind = as_kind a, ws_label = as_label a, ws_status = StepPending\<rparr>"
  let ?acts = "enumerate 0 (wf_activities spec)"
  have "inj_on (ws_step_id \<circ> ?mk) (set ?acts)"
  proof (rule inj_onI, clarsimp simp del: append.simps)
    fix i a j b
    assume m: "(i, a) \<in> set ?acts" "(j, b) \<in> set ?acts"
      and "as_id a @ ''_'' @ uid i = as_id b @ ''_'' @ uid j"
    moreover have range: "i < length (wf_activities spec)" "j < length (wf_activities spec)"
      using m by (auto simp: in_set_enumerate_eq)
    moreover have "length (uid i) = length (uid j)"
      using range assms(1) by (simp add: ulids_ok_def list_all_iff)
    ultimately have "uid i = uid j" by (metis append_eq_append_conv append.assoc)
    then have "i = j"
      using range assms(1) by (auto simp: ulids_ok_def distinct_map dest: inj_onD)
    with m show "i = j \<and> a = b" by (auto simp: in_set_enumerate_eq)
  qed
  then have "distinct (map ws_step_id (map ?mk ?acts))"
    by (simp add: distinct_map distinct_enumerate)
  moreover have "map step_info (map ?mk ?acts) = map (\<lambda>ia. activity_info (snd ia)) ?acts"
    by (auto simp: step_info_def activity_info_def)
  then have "map step_info (map ?mk ?acts) = map activity_info (map snd ?acts)"
    by (simp only: map_map comp_def)
  ultimately show ?thesis
    using assms(2) by (auto simp: run_inv_def executor_new_def well_formed_def comp_def)
qed

section \<open>What an observer of the events sees\<close>

record run_view =
  vw_steps :: "string \<Rightarrow> step_status"
  vw_artifacts :: "workflow_artifact list"
  vw_status :: run_status

definition initial_view :: run_view where
  "initial_view = \<lparr>vw_steps = (\<lambda>_. StepPending), vw_artifacts = [], vw_status = RunRunning\<rparr>"

definition observe_event :: "run_view \<Rightarrow> server_event \<Rightarrow> run_view" where
  "observe_event v e =
     (let ty = ev_type e; f = (\<lambda>k. str_field k [] (ev_payload e)); step = f ''step_id'' in
      if ty = ''workflow.step.started'' then v\<lparr>vw_steps := (vw_steps v)(step := StepStarted)\<rparr>
      else if ty = ''workflow.step.completed'' then v\<lparr>vw_steps := (vw_steps v)(step := StepCompleted)\<rparr>
      else if ty = ''workflow.step.failed'' then v\<lparr>vw_steps := (vw_steps v)(step := StepFailed)\<rparr>
      else if ty = ''workflow.artifact.created'' then
        v\<lparr>vw_artifacts := vw_artifacts v @ [\<lparr>art_id = f ''artifact_id'', art_kind = f ''kind'', art_step_id = step,
            art_tool_call_id = f ''tool_call_id'', art_ts = f ''ts''\<rparr>]\<rparr>
      else if ty = ''workflow.completed'' then v\<lparr>vw_status := RunCompleted\<rparr>
      else if ty = ''workflow.failed'' then v\<lparr>vw_status := RunFailed\<rparr>
      else v)"

definition sees_run :: "run_view \<Rightarrow> workflow_executor \<Rightarrow> bool" where
  "sees_run v ex \<longleftrightarrow> (\<forall>s \<in> set (ex_steps ex). vw_steps v (ws_step_id s) = ws_status s)
     \<and> vw_artifacts v = ex_artifacts ex \<and> vw_status v = ex_status ex"

lemma observe_simps [simp]:
  "observe_event v (workflow_started clk sid run a b) = v"
  "observe_event v (workflow_step_started clk sid run step k l) = v\<lparr>vw_steps := (vw_steps v)(step := StepStarted)\<rparr>"
  "observe_event v (workflow_step_completed clk sid run step) = v\<lparr>vw_steps := (vw_steps v)(step := StepCompleted)\<rparr>"
  "observe_event v (workflow_step_failed clk sid run step r) = v\<lparr>vw_steps := (vw_steps v)(step := StepFailed)\<rparr>"
  "observe_event v (workflow_completed clk sid run) = v\<lparr>vw_status := RunCompleted\<rparr>"
  "observe_event v (workflow_failed clk sid run r) = v\<lparr>vw_status := RunFailed\<rparr>"
  by (simp_all add: observe_event_def workflow_event_defs str_field_def get_defs)

lemma observe_artifact:
  assumes "artifact_of signal = Some (kind, tc, sk, source, extra)"
  shows "observe_event v (workflow_artifact_created clk sid run aid kind step tc source ts extra)
     = v\<lparr>vw_artifacts := vw_artifacts v @ [\<lparr>art_id = aid, art_kind = kind, art_step_id = step,
          art_tool_call_id = tc, art_ts = ts\<rparr>]\<rparr>"
  using assms
  by (cases signal)
    (auto simp: observe_event_def workflow_event_defs str_field_def get_defs merge_extra_def json_opt_def split: option.splits)

lemma sees_upd:
  assumes "sees_run v ex" and "run_inv ex" and "i < length (ex_steps ex)"
  shows "sees_run (v\<lparr>vw_steps := (vw_steps v)(step_id_at ex i := st)\<rparr>) (with_step i st ex)"
proof -
  let ?v = "v\<lparr>vw_steps := (vw_steps v)(step_id_at ex i := st)\<rparr>"
  have "vw_steps ?v (ws_step_id s) = ws_status s" if "s \<in> set (ex_steps (with_step i st ex))" for s
  proof -
    from that obtain j where j: "j < length (ex_steps ex)" "s = ex_steps (with_step i st ex) ! j"
      by (auto simp: in_set_conv_nth)
    show ?thesis
    proof (cases "j = i")
      case False
      then have "step_id_at ex j \<noteq> step_id_at ex i"
        using assms(2,3) j(1) by (metis nth_eq_iff_index_eq length_map nth_map run_inv_def)
      moreover have "vw_steps v (step_id_at ex j) = ws_status (ex_steps ex ! j)"
        using assms(1) j(1) by (simp add: sees_run_def)
      ultimately show ?thesis using False j by simp
    qed (use j in simp)
  qed
  with assms(1) show ?thesis by (simp add: sees_run_def)
qed

lemma sees_fails:
  "foldl observe_event v (map (\<lambda>s. workflow_step_failed clk sid run (ws_step_id s) r) (filter p xs))
     = v\<lparr>vw_steps := (\<lambda>k. if \<exists>s \<in> set xs. p s \<and> ws_step_id s = k then StepFailed else vw_steps v k)\<rparr>"
proof (induction xs arbitrary: v)
  case (Cons x xs)
  show ?case
    by (auto simp: Cons.IH intro!: arg_cong [where f = "\<lambda>f. v\<lparr>vw_steps := f\<rparr>"] ext)
qed simp

lemma sees_abort:
  assumes "sees_run v ex" and "run_inv ex"
  shows "sees_run (foldl observe_event v (fst (terminal_fail clk r ex))) (snd (terminal_fail clk r ex))"
proof -
  have "inj_on ws_step_id (set (ex_steps ex))" using assms(2) by (simp add: run_inv_def distinct_map)
  then have inj: "t = s" if "t \<in> set (ex_steps ex)" "s \<in> set (ex_steps ex)" "ws_step_id t = ws_step_id s" for s t
    using that by (auto dest: inj_onD)
  from assms(1) show ?thesis
    by (auto simp: terminal_fail_def sweep_def comp_def sees_fails sees_run_def dest: inj)
qed

lemma run_change_sees:
  assumes "run_change clk ex evs ex'" and "run_inv ex" and "sees_run v ex"
  shows "sees_run (foldl observe_event v evs) ex'"
  using assms
proof (induction rule: run_change.induct)
  case (finish_end i ex k l)
  from sees_upd [OF finish_end(5,4,1), of StepCompleted] show ?case by (simp add: sees_run_def)
next
  case (artifact s ex sk signal kind tc source extra aid ts)
  then show ?case by (simp add: observe_artifact sees_run_def)
next
  case (abort ex reason)
  then show ?case by (simp add: sees_abort)
next
  case (finish ex)
  then show ?case by (simp add: sees_run_def)
qed (simp_all add: sees_upd)

lemma run_changes_sees:
  "run_changes clk ex evs ex' \<Longrightarrow> run_inv ex \<Longrightarrow> sees_run v ex \<Longrightarrow> sees_run (foldl observe_event v evs) ex'"
  by (induction arbitrary: v rule: run_changes.induct) (auto simp: run_change_sees run_change_inv)

section \<open>Runs\<close>

text \<open>A signal as it arrives: the clock of the call, the ULID it may draw, the signal.\<close>

type_synonym signal_call = "clock \<times> string \<times> workflow_advance"

definition run_step :: "workflow_executor \<Rightarrow> signal_call \<Rightarrow> server_event list \<times> workflow_executor" where
  "run_step ex = (\<lambda>(clk, ulid, signal). advance clk ulid signal ex)"

text \<open>A whole run: created and started, then advanced by every signal.\<close>

definition whole_run :: "(nat \<Rightarrow> string) \<Rightarrow> string \<Rightarrow> string \<Rightarrow> workflow_spec \<Rightarrow> clock \<Rightarrow> signal_call list \<Rightarrow>
    server_event list \<times> workflow_executor" where
  "whole_run uid ru sid spec clk calls =
     (let (evs, ex) = start_run_events clk (executor_new uid ru sid spec);
          (evs', ex') = emits_run run_step calls ex
      in (evs @ evs', ex'))"

interpretation wf: event_sourced run_step run_inv observe_event sees_run
proof unfold_locales
  fix ex v and c :: signal_call assume inv: "run_inv ex"
  obtain clk ulid signal where c: "c = (clk, ulid, signal)" by (cases c)
  note chg = advance_changes [OF inv, of clk ulid signal]
  show "run_inv (snd (run_step ex c))"
    using run_changes_inv [OF chg inv] by (simp add: run_step_def c)
  assume "sees_run v ex"
  then show "sees_run (foldl observe_event v (fst (run_step ex c))) (snd (run_step ex c))"
    using run_changes_sees [OF chg inv] by (simp add: run_step_def c)
qed

lemma whole_run_started:
  assumes "ulids_ok spec uid" and "well_formed spec"
  shows "run_inv (snd (start_run_events clk (executor_new uid ru sid spec)))"
    and "sees_run (foldl observe_event initial_view (fst (start_run_events clk (executor_new uid ru sid spec))))
       (snd (start_run_events clk (executor_new uid ru sid spec)))"
    and "ex_spec (snd (start_run_events clk (executor_new uid ru sid spec))) = spec"
proof -
  let ?ex = "executor_new uid ru sid spec"
  note inv = executor_new_inv [OF assms, of ru sid]
  have v: "sees_run initial_view ?ex"
    by (auto simp: sees_run_def initial_view_def executor_new_def)
  from start_run_changes [OF inv, of clk] obtain evs
    where evs: "fst (start_run_events clk ?ex)
        = workflow_started clk (ex_session_id ?ex) (ex_run_id ?ex) (ex_spec_id ?ex) (ex_spec_name ?ex) # evs"
      and chg: "run_changes clk ?ex evs (snd (start_run_events clk ?ex))" by blast
  show "run_inv (snd (start_run_events clk ?ex))" using run_changes_inv [OF chg inv] by simp
  show "ex_spec (snd (start_run_events clk ?ex)) = spec"
    using run_changes_inv [OF chg inv] by (simp add: executor_new_def)
  show "sees_run (foldl observe_event initial_view (fst (start_run_events clk ?ex))) (snd (start_run_events clk ?ex))"
    using run_changes_sees [OF chg inv v] by (simp add: evs)
qed

text \<open>
  C19: the events tell the whole story. An observer who starts from a blank view and folds over the
  events of a run knows after any signals exactly the status of every step, the artifacts and
  the status of the run, for every well-formed spec.
\<close>
theorem observer_sees_run:
  assumes "ulids_ok spec uid" and "well_formed spec"
  shows "sees_run (foldl observe_event initial_view (fst (whole_run uid ru sid spec clk calls)))
    (snd (whole_run uid ru sid spec clk calls))"
  using wf.emits_run_sees [OF whole_run_started(1,2) [OF assms]]
  by (simp add: whole_run_def split_beta Let_def)

section \<open>Runs follow the graph and end once\<close>

lemma whole_run_inv:
  assumes "ulids_ok spec uid" and "well_formed spec"
  shows "run_inv (snd (whole_run uid ru sid spec clk calls))"
  using wf.emits_run_inv [OF whole_run_started(1) [OF assms]]
  by (simp add: whole_run_def split_beta Let_def)

lemma emits_run_changes:
  "run_inv ex \<Longrightarrow> ex_spec (snd (emits_run run_step calls ex)) = ex_spec ex"
proof (induction calls arbitrary: ex)
  case (Cons c calls)
  obtain clk ulid signal where c: "c = (clk, ulid, signal)" by (cases c)
  from run_changes_inv [OF advance_changes [OF Cons.prems, of clk ulid signal] Cons.prems]
  show ?case using Cons.IH by (simp add: split_beta c run_step_def)
qed simp

lemma whole_run_spec:
  assumes "ulids_ok spec uid" and "well_formed spec"
  shows "ex_spec (snd (whole_run uid ru sid spec clk calls)) = spec"
  using whole_run_started [OF assms] emits_run_changes
  by (simp add: whole_run_def split_beta Let_def)

definition is_terminal_event :: "server_event \<Rightarrow> bool" where
  "is_terminal_event e \<longleftrightarrow> ev_type e \<in> {''workflow.completed'', ''workflow.failed''}"

definition terminal_events :: "server_event list \<Rightarrow> nat" where
  "terminal_events evs = length (filter is_terminal_event evs)"

lemma terminal_events_simps [simp]:
  "terminal_events [] = 0"
  "terminal_events (e # es) = (if is_terminal_event e then 1 else 0) + terminal_events es"
  "terminal_events (es @ es') = terminal_events es + terminal_events es'"
  "\<not> is_terminal_event (workflow_started clk sid run a b)"
  "\<not> is_terminal_event (workflow_step_started clk sid run step k l)"
  "\<not> is_terminal_event (workflow_step_completed clk sid run step)"
  "\<not> is_terminal_event (workflow_step_failed clk sid run step r)"
  "\<not> is_terminal_event (workflow_artifact_created clk sid run aid k step tc source ts extra)"
  "is_terminal_event (workflow_completed clk sid run)"
  "is_terminal_event (workflow_failed clk sid run r)"
  by (simp_all add: terminal_events_def is_terminal_event_def workflow_event_defs)

lemma terminal_events_map [simp]:
  "terminal_events (map (\<lambda>s. workflow_step_failed clk sid run (f s) r) xs) = 0"
  by (induction xs) simp_all

text \<open>A run that is over has no End activity left to start.\<close>

definition end_spent :: "workflow_executor \<Rightarrow> bool" where
  "end_spent ex \<longleftrightarrow> (ex_status ex \<noteq> RunRunning \<longrightarrow>
     (\<forall>s \<in> set (ex_steps ex). ws_activity_kind s = End \<longrightarrow> ws_status s \<noteq> StepPending))"

lemma single_end_steps:
  assumes "run_inv ex" and "single_end (ex_spec ex)" and "i < length (ex_steps ex)" and "j < length (ex_steps ex)"
    and "ws_activity_kind (ex_steps ex ! i) = End" and "ws_activity_kind (ex_steps ex ! j) = End"
  shows "i = j"
proof (rule ccontr)
  assume "i \<noteq> j"
  let ?isend = "\<lambda>x. fst (snd x) = End"
  have kind: "?isend (step_info s) \<longleftrightarrow> ws_activity_kind s = End" for s by (simp add: step_info_def)
  have "length (filter ?isend (map step_info (ex_steps ex))) = length (filter ?isend (map activity_info (wf_activities (ex_spec ex))))"
    using assms(1) by (simp add: run_inv_def)
  then have "length (filter (\<lambda>s. ws_activity_kind s = End) (ex_steps ex)) \<le> 1"
    using assms(2) by (simp add: single_end_def filter_map comp_def step_info_def activity_info_def)
  then have "card {k. k < length (ex_steps ex) \<and> ws_activity_kind (ex_steps ex ! k) = End} \<le> 1"
    by (simp add: length_filter_conv_card)
  moreover have "card {i, j} \<le> card {k. k < length (ex_steps ex) \<and> ws_activity_kind (ex_steps ex ! k) = End}"
    using assms by (intro card_mono) auto
  ultimately have "card {i, j} \<le> 1" by linarith
  with \<open>i \<noteq> j\<close> show False by simp
qed

abbreviation over :: "workflow_executor \<Rightarrow> nat" where
  "over ex \<equiv> (if ex_status ex = RunRunning then 0 else 1)"

lemma end_spent_upd:
  assumes "end_spent ex" and "st \<noteq> StepPending"
  shows "end_spent (with_step i st ex)"
  using assms by (auto simp: end_spent_def dest!: in_set_update)

lemma run_change_count:
  assumes "run_change clk ex evs ex'" and "run_inv ex" and "single_end (ex_spec ex)" and "end_spent ex"
  shows "end_spent ex' \<and> terminal_events evs + over ex = over ex'"
  using assms
proof (induction rule: run_change.induct)
  case (finish_end i ex k l)
  then have "ex_status ex = RunRunning" by (auto simp: end_spent_def)
  moreover have "end_spent ((with_step i StepCompleted ex)\<lparr>ex_status := RunCompleted\<rparr>)"
    unfolding end_spent_def
  proof (intro impI ballI)
    fix s assume "s \<in> set (ex_steps ((with_step i StepCompleted ex)\<lparr>ex_status := RunCompleted\<rparr>))"
      and kind: "ws_activity_kind s = End"
    then obtain j where j: "j < length (ex_steps ex)" "s = (ex_steps ex)[i := set_status StepCompleted (ex_steps ex ! i)] ! j"
      by (auto simp: in_set_conv_nth)
    show "ws_status s \<noteq> StepPending"
    proof (cases "j = i")
      case False
      then show ?thesis
        using single_end_steps [OF finish_end(4,5,1) j(1) finish_end(3)] kind j by simp
    qed (use j finish_end(1) in simp)
  qed
  ultimately show ?case by simp
next
  case (finish ex)
  then show ?case by (auto simp: end_spent_def)
next
  case (abort ex reason)
  then have "end_spent (snd (terminal_fail clk reason ex))"
    by (auto simp: end_spent_def terminal_fail_steps)
  with abort show ?case
    by (simp add: terminal_fail_simps) (simp add: terminal_fail_def sweep_def comp_def)
qed (auto simp: end_spent_upd, simp add: end_spent_def)

lemma run_changes_count:
  "run_changes clk ex evs ex' \<Longrightarrow> run_inv ex \<Longrightarrow> single_end (ex_spec ex) \<Longrightarrow> end_spent ex \<Longrightarrow>
   end_spent ex' \<and> terminal_events evs + over ex = over ex'"
proof (induction rule: run_changes.induct)
  case (more ex evs ex' evs' ex'')
  from run_change_count [OF more(1,4,5,6)] run_change_inv [OF more(1,4)] run_change_spec [OF more(1)] more
  show ?case by simp
qed simp

text \<open>
  C24: a run stays inside its spec. After any signals the steps mirror the activities of the spec one
  for one, under different step ids, and a step that was started is an End or an activity the flow
  edges reach from the trigger.
\<close>
theorem run_follows_graph:
  assumes "ulids_ok spec uid" and "well_formed spec"
  shows "map step_info (ex_steps (snd (whole_run uid ru sid spec clk calls))) = map activity_info (wf_activities spec)
    \<and> distinct (map ws_step_id (ex_steps (snd (whole_run uid ru sid spec clk calls))))
    \<and> (\<forall>s \<in> set (ex_steps (snd (whole_run uid ru sid spec clk calls))).
         ws_status s \<in> {StepPending, StepFailed} \<or> ws_activity_kind s = End
       \<or> reachable_activity spec (ws_activity_id s))"
proof -
  have status: "st \<in> {StepPending, StepFailed} \<or> st \<in> {StepStarted, StepCompleted}" for st by (cases st) auto
  show ?thesis
    using whole_run_inv [OF assms, of ru sid clk calls] whole_run_spec [OF assms, of ru sid clk calls] status
    unfolding run_inv_def by metis
qed

text \<open>Steps and runs only move forward, artifacts are only added.\<close>

definition status_le :: "step_status \<Rightarrow> step_status \<Rightarrow> bool" where
  "status_le a b \<longleftrightarrow> a = b \<or> a = StepPending \<or> (a = StepStarted \<and> b \<noteq> StepPending)"

definition run_le :: "workflow_executor \<Rightarrow> workflow_executor \<Rightarrow> bool" where
  "run_le ex ex' \<longleftrightarrow> list_all2 (\<lambda>s t. step_info s = step_info t \<and> status_le (ws_status s) (ws_status t)) (ex_steps ex) (ex_steps ex')
     \<and> prefix (ex_artifacts ex) (ex_artifacts ex') \<and> (ex_status ex = RunRunning \<or> ex_status ex' = ex_status ex)"

lemma status_le_refl: "status_le a a"
  by (simp add: status_le_def)

lemma status_le_trans: "status_le a b \<Longrightarrow> status_le b c \<Longrightarrow> status_le a c"
  by (cases a; cases b; cases c) (simp_all add: status_le_def)

lemma run_le_refl: "run_le ex ex"
  by (simp add: run_le_def list_all2_refl status_le_refl)

lemma run_le_trans: "run_le ex ex' \<Longrightarrow> run_le ex' ex'' \<Longrightarrow> run_le ex ex''"
  unfolding run_le_def list_all2_conv_all_nth
  by (metis (no_types, lifting) status_le_trans prefix_order.trans)

lemma run_le_upd:
  "i < length (ex_steps ex) \<Longrightarrow> status_le (ws_status (ex_steps ex ! i)) st \<Longrightarrow> run_le ex (with_step i st ex)"
  by (auto simp: run_le_def list_all2_conv_all_nth nth_list_update status_le_refl)

lemma run_change_le: "run_change clk ex evs ex' \<Longrightarrow> run_inv ex \<Longrightarrow> run_le ex ex'"
proof (induction rule: run_change.induct)
  case (finish_end i ex k l)
  then have "run_le ex (with_step i StepCompleted ex)"
    by (intro run_le_upd) (auto simp: status_le_def)
  then show ?case
  proof -
    assume le: "run_le ex (with_step i StepCompleted ex)"
    have "ex_steps ex ! i \<in> set (ex_steps ex)" using finish_end(1) by simp
    with finish_end(2-4) have "ex_status ex \<noteq> RunFailed" by (auto simp: run_inv_def)
    then have "ex_status ex \<in> {RunRunning, RunCompleted}" by (cases "ex_status ex") auto
    with le show ?thesis by (auto simp: run_le_def)
  qed
next
  case (abort ex reason)
  then show ?case
    by (auto simp: run_le_def terminal_fail_simps terminal_fail_steps list_all2_conv_all_nth status_le_def)
qed (auto intro: run_le_upd simp: run_le_refl status_le_def, auto simp: run_le_def list_all2_refl status_le_refl)

lemma run_changes_le: "run_changes clk ex evs ex' \<Longrightarrow> run_inv ex \<Longrightarrow> run_le ex ex'"
  by (induction rule: run_changes.induct) (auto simp: run_le_refl intro: run_le_trans run_change_le dest: run_change_inv)

interpretation wfm: monotone_system "\<lambda>ex c. snd (run_step ex c)" run_inv run_le
proof unfold_locales
  fix ex and c :: signal_call assume inv: "run_inv ex"
  obtain clk ulid signal where c: "c = (clk, ulid, signal)" by (cases c)
  show "run_le ex (snd (run_step ex c))"
    using run_changes_le [OF advance_changes [OF inv] inv] by (simp add: run_step_def c)
qed (auto intro: run_le_refl run_le_trans)

lemma emits_run_foldl: "snd (emits_run step cs s) = foldl (\<lambda>s c. snd (step s c)) s cs"
  by (induction cs arbitrary: s) (simp_all add: split_beta)

lemma emits_run_terminal:
  assumes "run_is_terminal ex"
  shows "emits_run run_step calls ex = ([], ex)"
proof (induction calls)
  case (Cons c calls)
  with assms show ?case by (cases c) (simp add: run_step_def advance_def)
qed simp

lemma emits_run_all_changes:
  "run_inv ex \<Longrightarrow> single_end (ex_spec ex) \<Longrightarrow> end_spent ex \<Longrightarrow>
   terminal_events (fst (emits_run run_step calls ex)) + over ex = over (snd (emits_run run_step calls ex))"
proof (induction calls arbitrary: ex)
  case (Cons c calls)
  obtain clk ulid signal where c: "c = (clk, ulid, signal)" by (cases c)
  note chg = advance_changes [OF Cons.prems(1), of clk ulid signal]
  from run_changes_count [OF chg Cons.prems] run_changes_inv [OF chg Cons.prems(1)] Cons.prems(2)
    Cons.IH [of "snd (advance clk ulid signal ex)"]
  show ?case by (simp add: split_beta c run_step_def)
qed simp

text \<open>
  A run ends once and then is silent. For a well-formed spec with at most one End activity, the
  events of a run hold exactly one \<open>workflow.completed\<close> or \<open>workflow.failed\<close> when the run is
  over and none before; whatever signals follow, a run that is over emits nothing and does not
  change. Until then steps only move forward and artifacts are only added.
\<close>
theorem run_ends_once:
  assumes "ulids_ok spec uid" and "well_formed spec" and "single_end spec"
  shows "terminal_events (fst (whole_run uid ru sid spec clk calls))
      = (if run_is_terminal (snd (whole_run uid ru sid spec clk calls)) then 1 else 0)
    \<and> run_le (snd (whole_run uid ru sid spec clk calls)) (snd (whole_run uid ru sid spec clk (calls @ later)))
    \<and> (run_is_terminal (snd (whole_run uid ru sid spec clk calls)) \<longrightarrow>
        whole_run uid ru sid spec clk (calls @ later) = whole_run uid ru sid spec clk calls)"
proof -
  let ?ex0 = "executor_new uid ru sid spec"
  let ?r = "start_run_events clk ?ex0"
  let ?run = "\<lambda>calls. emits_run run_step calls (snd ?r)"
  note inv0 = executor_new_inv [OF assms(1,2), of ru sid]
  note inv = whole_run_started [OF assms(1,2), where ru = ru and sid = sid and clk = clk]
  have fresh: "ex_status ?ex0 = RunRunning" "ex_spec ?ex0 = spec" by (simp_all add: executor_new_def)
  from start_run_changes [OF inv0, of clk] obtain evs
    where evs: "fst ?r = workflow_started clk (ex_session_id ?ex0) (ex_run_id ?ex0) (ex_spec_id ?ex0) (ex_spec_name ?ex0) # evs"
      and chg: "run_changes clk ?ex0 evs (snd ?r)" by blast
  from run_changes_count [OF chg inv0] fresh assms(3)
  have r: "end_spent (snd ?r)" "terminal_events (fst ?r) = over (snd ?r)"
    by (simp_all add: evs end_spent_def)
  have whole: "whole_run uid ru sid spec clk cs = (fst ?r @ fst (?run cs), snd (?run cs))" for cs
    by (simp add: whole_run_def split_beta Let_def)
  have over_iff: "run_is_terminal ex \<longleftrightarrow> ex_status ex \<noteq> RunRunning" for ex
    by (cases "ex_status ex") (simp_all add: run_is_terminal_def)
  have "terminal_events (fst (whole_run uid ru sid spec clk calls)) = over (snd (whole_run uid ru sid spec clk calls))"
    using emits_run_all_changes [OF inv(1) _ r(1), of calls] inv(3) assms(3) r(2) by (simp add: whole)
  moreover have "run_le (snd (?run calls)) (snd (?run (calls @ later)))"
    using wfm.run_le_between [OF inv(1)] by (simp add: emits_run_foldl)
  moreover have "?run (calls @ later) = ?run calls" if "run_is_terminal (snd (?run calls))"
    using emits_run_terminal [OF that, of later] by (simp add: emits_run_append split_beta Let_def)
  ultimately show ?thesis by (simp add: whole over_iff)
qed

section \<open>Every turn can end a run\<close>

text \<open>Specs whose \<open>transcript.completed\<close> edges all lead to an End activity.\<close>

definition turn_ends_at_end :: "workflow_spec \<Rightarrow> bool" where
  "turn_ends_at_end spec \<longleftrightarrow> (\<forall>e \<in> set (wf_flows spec). fe_on e = Some ''transcript.completed'' \<longrightarrow>
     (\<exists>a \<in> set (wf_activities spec). as_id a = fe_to e \<and> as_kind a = End))"

lemma seq_completed_stays:
  assumes "\<And>f. f \<in> set fs \<Longrightarrow> changes_by clk (ex_spec ex) f" and "run_inv ex" and "ex_status ex = RunCompleted"
  shows "ex_status (snd (emit_seq fs ex)) = RunCompleted"
proof -
  have "run_changes clk ex (fst (emit_seq fs ex)) (snd (emit_seq fs ex))"
    using assms(1,2) by (intro changes_byD [OF changes_by_seq]) auto
  from run_changes_le [OF this assms(2)] assms(3) show ?thesis by (simp add: run_le_def)
qed

lemma start_seq_status:
  "ex_status (snd (emit_seq (map (start_activity clk) ids) ex)) \<in> {ex_status ex, RunCompleted}"
proof (induction ids arbitrary: ex)
  case (Cons i ids)
  from Cons.IH [of "snd (start_activity clk i ex)"] start_activity_status [of clk i ex]
  show ?case by (auto simp: split_beta)
qed simp

lemma complete_activity_status:
  "ex_status (snd (complete_activity clk aid ex)) \<in> {ex_status ex, RunCompleted}"
proof (cases "find (\<lambda>s. ws_activity_id s = aid \<and> ws_status s = StepStarted) (ex_steps ex)")
  case (Some s)
  let ?ex1 = "ex\<lparr>ex_steps := update_first (\<lambda>s. ws_activity_id s = aid \<and> ws_status s = StepStarted)
      (set_status StepCompleted) (ex_steps ex)\<rparr>"
  from Some start_seq_status [of clk _ ?ex1] show ?thesis
    by (auto simp: complete_activity_def split_beta Let_def simp del: map_map)
qed (simp add: complete_activity_def)

lemma advance_completed_ends:
  assumes "run_inv ex" and "turn_ends_at_end (ex_spec ex)"
  shows "run_is_terminal (snd (advance clk ulid TranscriptCompleted ex))"
proof (cases "run_is_terminal ex")
  case True
  then show ?thesis by (simp add: advance_def)
next
  case False
  then have run: "ex_status ex = RunRunning"
    by (cases "ex_status ex") (auto simp: run_is_terminal_def)
  show ?thesis
  proof (cases "signal_edges TranscriptCompleted ex")
    case Nil
    then show ?thesis
      using False terminal_complete_changes(2) [OF assms(1) run, of clk]
      by (simp add: advance_def traverse_def run_is_terminal_def)
  next
    case (Cons fg rest)
    obtain f g where fg: "fg = (f, g)" by (cases fg)
    have "(f, g) \<in> set (signal_edges TranscriptCompleted ex)" using Cons fg by simp
    then obtain a where a: "a \<in> set (wf_activities (ex_spec ex))" "as_id a = g" "as_kind a = End"
      using assms(2) by (auto simp: signal_edges_def turn_ends_at_end_def)
    let ?ex1 = "snd (complete_activity clk f ex)"
    let ?ex2 = "snd (start_activity clk g ?ex1)"
    note c1 = changes_byD [OF changes_by_complete assms(1) refl, of clk f]
    note inv1 = run_changes_inv [OF c1 assms(1)]
    have "changes_by clk (ex_spec ex) (start_activity clk g)" using a by (auto intro: changes_by_start)
    with inv1 have c2: "run_changes clk ?ex1 (fst (start_activity clk g ?ex1)) ?ex2"
      by (auto intro: changes_byD)
    note inv2 = run_changes_inv [OF c2 conjunct1 [OF inv1]]
    have "ex_status ?ex1 \<in> {RunRunning, RunCompleted}"
      using complete_activity_status [of clk f ex] run by auto
    moreover have "ex_status ?ex2 = RunCompleted" if "ex_status ?ex1 = RunRunning"
      using start_end_completes [of ?ex1 a clk] inv1 that a by auto
    moreover have "ex_status ?ex2 = RunCompleted" if "ex_status ?ex1 = RunCompleted"
      using start_activity_status [of clk g ?ex1] that by auto
    ultimately have "ex_status ?ex2 = RunCompleted" by auto
    moreover have reach: "reachable_activity (ex_spec ex) y" if "(x, y) \<in> set rest" for x y
      using signal_edges_reachable(2) [OF assms(1) run, of x y TranscriptCompleted] Cons that by simp
    moreover have "changes_by clk (ex_spec ?ex2) h"
      if "h \<in> set (map (follow_edge clk TranscriptCompleted) rest @ [maybe_create_artifact clk ulid TranscriptCompleted])" for h
      using that reach inv1 inv2
      by (auto intro!: changes_by_follow_edge changes_by_artifact)
    ultimately have "ex_status (snd (emit_seq (map (follow_edge clk TranscriptCompleted) rest
        @ [maybe_create_artifact clk ulid TranscriptCompleted]) ?ex2)) = RunCompleted"
      using inv2 by (intro seq_completed_stays) auto
    with False Cons fg show ?thesis
      by (simp add: advance_def traverse_def follow_edge_def split_beta Let_def run_is_terminal_def)
  qed
qed

text \<open>
  A turn can always end the run. In a spec whose \<open>transcript.completed\<close> edges lead to End
  activities, whatever signals came before, the end of the transcript and a transcript error make
  the run terminal.
\<close>
theorem turn_end_terminates:
  assumes "ulids_ok spec uid" and "well_formed spec" and "turn_ends_at_end spec"
    and "signal = TranscriptCompleted \<or> signal = TranscriptError reason"
  shows "run_is_terminal (snd (whole_run uid ru sid spec clk (calls @ [(clk', ulid, signal)])))"
proof -
  let ?ex = "snd (whole_run uid ru sid spec clk calls)"
  have eq: "snd (whole_run uid ru sid spec clk (calls @ [(clk', ulid, signal)])) = snd (advance clk' ulid signal ?ex)"
    by (simp add: whole_run_def split_beta Let_def emits_run_append run_step_def)
  from assms(4) show ?thesis
  proof
    assume "signal = TranscriptCompleted"
    then show ?thesis
      using advance_completed_ends [OF whole_run_inv [OF assms(1,2), of ru sid clk calls]]
        whole_run_spec [OF assms(1,2), of ru sid clk calls] assms(3)
      unfolding eq by simp
  next
    assume "signal = TranscriptError reason"
    then show ?thesis
      unfolding eq by (simp add: advance_def run_is_terminal_def terminal_fail_simps)
  qed
qed

text \<open>
  A spec is accepted exactly when its activity ids differ and every flow joins known
  activities; otherwise it is not loaded.
\<close>
theorem from_yaml_accepts:
  "from_yaml parse s = Inr spec \<longleftrightarrow> parse s = Inr spec
     \<and> distinct (map as_id (wf_activities spec))
     \<and> fe_from ` set (wf_flows spec) \<union> fe_to ` set (wf_flows spec) \<subseteq> as_id ` set (wf_activities spec)"
proof (cases "parse s")
  case (Inr sp)
  have "from_yaml parse s = Inr spec \<longleftrightarrow> validate_spec sp = Inr () \<and> sp = spec"
    using Inr by (cases "validate_spec sp") (auto simp: from_yaml_def)
  with Inr show ?thesis by (auto simp: validate_spec_iff well_formed_def)
qed (simp add: from_yaml_def)

section \<open>The bundled specs\<close>

definition activity :: "string \<Rightarrow> activity_kind \<Rightarrow> string \<Rightarrow> activity_spec" where
  "activity i k l = \<lparr>as_id = i, as_kind = k, as_label = l\<rparr>"

definition flow :: "string \<Rightarrow> string \<Rightarrow> string option \<Rightarrow> flow_edge" where
  "flow f g key = \<lparr>fe_from = f, fe_to = g, fe_on = key\<rparr>"

definition build_approval_gated_edit :: workflow_spec where
  "build_approval_gated_edit =
     \<lparr>wf_version = 1, wf_metadata = \<lparr>wm_id = ''build.approval-gated-edit'', wm_name = ''Build with Approval-Gated Edit''\<rparr>,
      wf_activities = [activity ''trigger'' Trigger ''Workflow started'', activity ''prompt_agent'' PromptAgent ''Prompt agent'',
        activity ''await_approval'' AwaitApproval ''Await approval'',
        activity ''observe_tools'' ObserveToolActivity ''Observe tool activity'',
        activity ''collect_diff'' CollectReviewDiff ''Collect review diff'', activity ''end'' End ''Workflow complete''],
      wf_flows = [flow ''trigger'' ''prompt_agent'' (Some ''message.submit''),
        flow ''prompt_agent'' ''await_approval'' (Some ''approval.pending''),
        flow ''await_approval'' ''observe_tools'' (Some ''approval.resolved''),
        flow ''observe_tools'' ''collect_diff'' (Some ''review.changeset_updated''),
        flow ''collect_diff'' ''end'' (Some ''transcript.completed'')]\<rparr>"

definition assess_report :: workflow_spec where
  "assess_report =
     \<lparr>wf_version = 1, wf_metadata = \<lparr>wm_id = ''assess.report'', wm_name = ''Assessment Report Workflow''\<rparr>,
      wf_activities = [activity ''trigger'' Trigger ''Assessment started'',
        activity ''prompt_agent'' PromptAgent ''Run assessment agent'', activity ''gate_decision'' GateDecision ''Gate decision'',
        activity ''end'' End ''Assessment complete''],
      wf_flows = [flow ''trigger'' ''prompt_agent'' (Some ''message.submit''),
        flow ''prompt_agent'' ''gate_decision'' (Some ''transcript.completed''),
        flow ''gate_decision'' ''end'' (Some ''transcript.completed'')]\<rparr>"

lemmas spec_simps = build_approval_gated_edit_def assess_report_def activity_def flow_def

lemma gated_edit_ok:
  "well_formed build_approval_gated_edit" "single_end build_approval_gated_edit" "turn_ends_at_end build_approval_gated_edit"
  by (simp_all add: spec_simps well_formed_def single_end_def turn_ends_at_end_def)

text \<open>Example draws.\<close>

definition example_ulid :: "nat \<Rightarrow> string" where
  "example_ulid i = replicate 25 (CHR ''0'') @ [char_of (48 + i)]"

lemma example_ulids_ok: "ulids_ok build_approval_gated_edit example_ulid"
  by (simp add: ulids_ok_def spec_simps example_ulid_def upt_rec)

definition sig :: "workflow_advance \<Rightarrow> signal_call" where
  "sig s = (unary_clock 1, ''u'', s)"

lemmas run_simps = whole_run_def start_run_events_def executor_new_def run_step_def advance_def traverse_def
  signal_edges_def follow_edge_def start_activity_def complete_activity_def fail_step_by_kind_def terminal_complete_def
  maybe_create_artifact_def sweep_def activity_is_active_or_completed_def run_is_terminal_def set_status_def
  enumerate_Suc_eq Let_def sig_def

text \<open>
  A rejected approval fails its step, yet the end of the turn reports the run as completed:
  no edge matches any more and the graceful path completes it.
\<close>
lemma rejected_run_completes:
  "map ws_status (ex_steps (snd (whole_run example_ulid ''r'' ''s'' build_approval_gated_edit (unary_clock 1)
     [sig PromptSubmitted, sig (ApprovalPending ''a''), sig (ApprovalResolved ''a'' ''rejected''), sig TranscriptCompleted])))
     = [StepCompleted, StepCompleted, StepFailed, StepPending, StepPending, StepCompleted]
   \<and> ex_status (snd (whole_run example_ulid ''r'' ''s'' build_approval_gated_edit (unary_clock 1)
     [sig PromptSubmitted, sig (ApprovalPending ''a''), sig (ApprovalResolved ''a'' ''rejected''), sig TranscriptCompleted]))
     = RunCompleted"
  by (simp add: run_simps spec_simps)

text \<open>
  The bundled assessment workflow needs two turns: the first \<open>transcript.completed\<close> only reaches
  the gate decision, whose own edge waits for another one.
\<close>
lemma assess_report_needs_two_turns:
  "ex_status (snd (whole_run example_ulid ''r'' ''s'' assess_report (unary_clock 1)
     [sig PromptSubmitted, sig TranscriptCompleted])) = RunRunning
   \<and> ex_status (snd (whole_run example_ulid ''r'' ''s'' assess_report (unary_clock 1)
     [sig PromptSubmitted, sig TranscriptCompleted, sig PromptSubmitted, sig TranscriptCompleted])) = RunCompleted"
  by (simp add: run_simps spec_simps)

text \<open>With two End activities one signal can report the end of the run twice.\<close>

definition two_ends :: workflow_spec where
  "two_ends = \<lparr>wf_version = 1, wf_metadata = \<lparr>wm_id = ''x'', wm_name = ''x''\<rparr>,
      wf_activities = [activity ''t'' Trigger [], activity ''e'' End [], activity ''f'' End []],
      wf_flows = [flow ''t'' ''e'' (Some ''message.submit''), flow ''t'' ''f'' (Some ''message.submit'')]\<rparr>"

lemma two_ends_complete_twice:
  "well_formed two_ends
   \<and> terminal_events (fst (whole_run example_ulid ''r'' ''s'' two_ends (unary_clock 1) [sig PromptSubmitted])) = 2"
  by (simp add: run_simps two_ends_def activity_def flow_def well_formed_def)

section \<open>Witnesses\<close>

abbreviation gated_run :: "signal_call list \<Rightarrow> server_event list \<times> workflow_executor" where
  "gated_run \<equiv> whole_run example_ulid ''r'' ''s'' build_approval_gated_edit (unary_clock 1)"

lemma observer_sees_run_witness:
  "sees_run (foldl observe_event initial_view (fst (gated_run [sig PromptSubmitted, sig (ApprovalPending ''a'')])))
     (snd (gated_run [sig PromptSubmitted, sig (ApprovalPending ''a'')]))"
  by (rule observer_sees_run [OF example_ulids_ok gated_edit_ok(1)])

lemma run_follows_graph_witness:
  "distinct (map ws_step_id (ex_steps (snd (gated_run [sig PromptSubmitted]))))"
  using run_follows_graph [OF example_ulids_ok gated_edit_ok(1)] by blast

lemma run_ends_once_witness:
  "terminal_events (fst (gated_run [sig PromptSubmitted]))
     = (if run_is_terminal (snd (gated_run [sig PromptSubmitted])) then 1 else 0)"
  using run_ends_once [OF example_ulids_ok gated_edit_ok(1,2)] by blast

lemma turn_end_terminates_witness:
  "run_is_terminal (snd (gated_run ([sig PromptSubmitted] @ [(unary_clock 1, ''u'', TranscriptCompleted)])))"
  by (rule turn_end_terminates [OF example_ulids_ok gated_edit_ok(1,3)]) simp

end
