(* ===== verification/Workflow_Process.thy ===== *)
theory Workflow_Process
  imports Workflow
begin

text \<open>
  \<open>workflows/process.rs\<close>: the task that runs the workflow of a session. It receives the
  session's broadcast channel and emits its own events to the same channel, so it sees them
  again. The model holds the pending messages of its receiver (\<open>wp_inbox\<close>) and the ring it
  shares with the session. The bundled specs used in the examples are the YAML files of
  \<open>apps/local-bridge/workflows\<close>.
\<close>

section \<open>The process\<close>

record workflow_process =
  wp_session :: string
  wp_spec :: workflow_spec
  wp_run :: "workflow_executor option"
  wp_ring :: "server_event event_ring"
  wp_inbox :: "server_event list"

text \<open>What one turn of the loop draws: the clock and the ULIDs of steps, run and artifact.\<close>

record draws =
  dr_clock :: clock
  dr_uid :: "nat \<Rightarrow> string"
  dr_run :: string
  dr_artifact :: string

definition emit_to :: "server_event \<Rightarrow> workflow_process \<Rightarrow> workflow_process" where
  "emit_to ev st =
     (let (seq, r) = ring_push ev (wp_ring st)
      in st\<lparr>wp_ring := r, wp_inbox := wp_inbox st @ [ev\<lparr>ev_seq := unat seq\<rparr>]\<rparr>)"

definition emit_all :: "server_event list \<Rightarrow> workflow_process \<Rightarrow> workflow_process" where
  "emit_all evs st = foldl (\<lambda>st ev. emit_to ev st) st evs"

text \<open>The effect of a signal on the current run, and the events of the turn.\<close>

definition handle_signal :: "draws \<Rightarrow> string \<Rightarrow> workflow_spec \<Rightarrow> workflow_advance \<Rightarrow> workflow_executor option \<Rightarrow>
    server_event list \<times> workflow_executor option" where
  "handle_signal d session_id spec signal current =
     (let need_new_run = (case current of Some r \<Rightarrow> run_is_terminal r | None \<Rightarrow> True);
          adv = advance (dr_clock d) (dr_artifact d) signal
      in if signal = PromptSubmitted \<and> need_new_run then
           (let (evs, r) = emit_seq [start_run_events (dr_clock d), adv] (executor_new (dr_uid d) (dr_run d) session_id spec)
            in (evs, Some r))
         else (case current of
             Some r \<Rightarrow> (let (evs, r') = adv r in (evs, Some r'))
           | None \<Rightarrow> ([], None)))"

datatype process_input = Published server_event | Received draws | Lagged nat

definition process_step :: "workflow_process \<Rightarrow> process_input \<Rightarrow> workflow_process" where
  "process_step st inp =
     (case inp of
        Published ev \<Rightarrow> emit_to ev st
      | Lagged n \<Rightarrow> st\<lparr>wp_inbox := drop n (wp_inbox st)\<rparr>
      | Received d \<Rightarrow>
          (case wp_inbox st of
             [] \<Rightarrow> st
           | ev # rest \<Rightarrow>
               (let st1 = st\<lparr>wp_inbox := rest\<rparr> in
                case classify_bridge_event (ev_type ev) (ev_payload ev) of
                  None \<Rightarrow> st1
                | Some signal \<Rightarrow>
                    (let (evs, run') = handle_signal d (wp_session st) (wp_spec st) signal (wp_run st)
                     in emit_all evs (st1\<lparr>wp_run := run'\<rparr>)))))"

section \<open>The process never reacts to itself\<close>

definition own_event :: "server_event \<Rightarrow> bool" where
  "own_event e \<longleftrightarrow> starts_with (ev_type e) ''workflow.'' \<and> \<not> starts_with (ev_type e) ''workflow.input.''"

lemma own_event_ignored: "own_event e \<Longrightarrow> classify_bridge_event (ev_type e) p = None"
  by (simp add: own_event_def classify_bridge_event_def)

lemma own_event_workflow [simp]:
  "own_event (workflow_started clk sid run a b)"
  "own_event (workflow_step_started clk sid run step k l)"
  "own_event (workflow_step_completed clk sid run step)"
  "own_event (workflow_step_failed clk sid run step r)"
  "own_event (workflow_artifact_created clk sid run aid k step tc source ts extra)"
  "own_event (workflow_completed clk sid run)"
  "own_event (workflow_failed clk sid run r)"
  by (simp_all add: own_event_def workflow_event_defs str_simps)

definition emits_own :: "workflow_executor emits \<Rightarrow> bool" where
  "emits_own f \<longleftrightarrow> (\<forall>ex. list_all own_event (fst (f ex)))"

lemma emits_own_seq: "(\<And>f. f \<in> set fs \<Longrightarrow> emits_own f) \<Longrightarrow> emits_own (emit_seq fs)"
proof (induction fs)
  case (Cons f fs)
  then have "emits_own f" "emits_own (emit_seq fs)" by auto
  then show ?case by (auto simp: emits_own_def split_beta)
qed (simp add: emits_own_def)

lemma emits_own_start: "emits_own (start_activity clk aid)"
  by (auto simp: emits_own_def start_activity_def Let_def split: option.splits)

lemma emits_own_complete: "emits_own (complete_activity clk aid)"
  using emits_own_seq [of "map (start_activity clk) ids" for ids] emits_own_start
  by (fastforce simp: emits_own_def complete_activity_def Let_def split_beta simp del: map_map split: option.split)

lemma emits_own_terminal_fail: "emits_own (terminal_fail clk r)"
  by (simp add: emits_own_def terminal_fail_def sweep_def list_all_iff)

lemma emits_own_terminal_complete: "emits_own (terminal_complete clk)"
  using emits_own_start [of clk]
  by (auto simp: emits_own_def terminal_complete_def sweep_def list_all_iff split_beta Let_def split: option.split)

lemma emits_own_fail: "emits_own (fail_step_by_kind clk k r)"
  by (auto simp: emits_own_def fail_step_by_kind_def Let_def split: option.splits)

lemma emits_own_artifact: "emits_own (maybe_create_artifact clk u signal)"
  by (auto simp: emits_own_def maybe_create_artifact_def Let_def split: option.splits)

lemma emits_own_traverse: "emits_own (traverse clk u signal)"
proof -
  have "emits_own (follow_edge clk signal fg)" for fg
    unfolding follow_edge_def split_beta
    by (rule emits_own_seq) (auto simp: emits_own_complete emits_own_start split: workflow_advance.splits)
  then have "emits_own (emit_seq (map (follow_edge clk signal) es @ [maybe_create_artifact clk u signal]))" for es
    by (intro emits_own_seq) (auto simp: emits_own_artifact)
  then show ?thesis
    using emits_own_terminal_complete [of clk] emits_own_artifact [of clk u signal]
    by (simp add: emits_own_def traverse_def Let_def)
qed

lemma emits_own_advance: "emits_own (advance clk u signal)"
  using emits_own_traverse [of clk u] emits_own_fail [of clk] emits_own_terminal_fail [of clk]
  by (auto simp: emits_own_def advance_def split: workflow_advance.split)

lemma emits_own_start_run: "emits_own (start_run_events clk)"
proof -
  have "emits_own (emit_seq [start_activity clk tid, complete_activity clk tid])" for tid
    by (rule emits_own_seq) (auto simp: emits_own_complete emits_own_start)
  then show ?thesis
    by (auto simp: emits_own_def start_run_events_def Let_def split_beta simp del: emit_seq.simps split: option.split)
qed

lemma handle_signal_own: "list_all own_event (fst (handle_signal d sid spec signal cur))"
proof -
  have "emits_own (emit_seq [start_run_events (dr_clock d), advance (dr_clock d) (dr_artifact d) signal])"
    by (rule emits_own_seq) (auto simp: emits_own_advance emits_own_start_run)
  then show ?thesis
    using emits_own_advance [of "dr_clock d" "dr_artifact d" signal]
    by (auto simp: emits_own_def handle_signal_def Let_def split_beta simp del: emit_seq.simps split: option.split)
qed

section \<open>Draining the inbox\<close>

definition signals :: "server_event list \<Rightarrow> workflow_advance list" where
  "signals es = List.map_filter (\<lambda>e. classify_bridge_event (ev_type e) (ev_payload e)) es"

lemma signals_simps [simp]:
  "signals [] = []"
  "signals (e # es) = (case classify_bridge_event (ev_type e) (ev_payload e) of
      Some s \<Rightarrow> s # signals es | None \<Rightarrow> signals es)"
  by (simp_all add: signals_def List.map_filter_simps split: option.split)

lemma signals_own: "list_all own_event es' \<Longrightarrow> signals (es @ es') = signals es"
proof (induction es)
  case Nil
  then show ?case by (induction es') (simp_all add: own_event_ignored)
qed (simp split: option.split)

lemma emit_all_simps:
  "wp_run (emit_all evs st) = wp_run st" "wp_session (emit_all evs st) = wp_session st"
  "wp_spec (emit_all evs st) = wp_spec st" "wp_ring (emit_all evs st) = push_all evs (wp_ring st)"
  by (induction evs arbitrary: st) (simp_all add: emit_all_def emit_to_def push_all_def split_beta)

lemma emit_all_inbox:
  "list_all own_event evs \<Longrightarrow> \<exists>es. list_all own_event es \<and> wp_inbox (emit_all evs st) = wp_inbox st @ es"
proof (induction evs arbitrary: st)
  case (Cons ev evs)
  let ?e = "ev\<lparr>ev_seq := unat (fst (ring_push ev (wp_ring st)))\<rparr>"
  from Cons obtain es where "list_all own_event es" "wp_inbox (emit_all evs (emit_to ev st)) = wp_inbox (emit_to ev st) @ es"
    by auto
  moreover from Cons.prems have "own_event ?e" by (simp add: own_event_def)
  ultimately show ?case
    by (intro exI [of _ "?e # es"]) (simp add: emit_all_def emit_to_def split_beta)
qed (simp add: emit_all_def)

text \<open>The signals and draws of a stretch, as one run of \<open>handle_signal\<close>.\<close>

definition handle_signals :: "string \<Rightarrow> workflow_spec \<Rightarrow> (workflow_advance \<times> draws) list \<Rightarrow> workflow_executor option \<Rightarrow>
    server_event list \<times> workflow_executor option" where
  "handle_signals sid spec = emits_run (\<lambda>cur (signal, d). handle_signal d sid spec signal cur)"

lemma handle_signals_simps [simp]:
  "handle_signals sid spec [] cur = ([], cur)"
  "handle_signals sid spec ((signal, d) # rest) cur =
     (let (e, cur1) = handle_signal d sid spec signal cur; (e2, cur2) = handle_signals sid spec rest cur1
      in (e @ e2, cur2))"
  by (simp_all add: handle_signals_def)

abbreviation receive_all :: "draws list \<Rightarrow> workflow_process \<Rightarrow> workflow_process" where
  "receive_all ds st \<equiv> foldl process_step st (map Received ds)"

lemma push_all_append: "push_all (xs @ ys) r = push_all ys (push_all xs r)"
  by (simp add: push_all_def)


end
