(* ===== verification/Unix_Fs.thy ===== *)
theory Unix_Fs
  imports Enforce
begin

text \<open>
  The part of \<open>std::fs\<close> and \<open>std::path\<close> on Unix that the file handlers rest on: a tree of
  directories, files and symbolic links; path resolution with the kernel's budget of link
  expansions; \<open>canonicalize\<close>, \<open>exists\<close>, \<open>create_dir\<close>, \<open>create_dir_all\<close>, \<open>read\<close> and \<open>write\<close>.
  Permissions, hard links, mount points and disk faults are left out, and one call is one step.
\<close>

section \<open>Trees and resolution\<close>

text \<open>A location is the list of names from the root; the root is the empty list.\<close>

type_synonym loc = "string list"

datatype node = Dir | File string | Link string

type_synonym fs = "loc \<rightharpoonup> node"

datatype io_error = NotFound | NotADirectory | IsADirectory | FilesystemLoop | AlreadyExists

definition proper_name :: "string \<Rightarrow> bool" where
  "proper_name c \<longleftrightarrow> c \<noteq> [] \<and> CHR ''/'' \<notin> set c \<and> c \<noteq> ''.'' \<and> c \<noteq> ''..''"

definition wf_fs :: "fs \<Rightarrow> bool" where
  "wf_fs fs \<longleftrightarrow> fs [] = Some Dir \<and> (\<forall>l c. fs (l @ [c]) \<noteq> None \<longrightarrow> fs l = Some Dir \<and> proper_name c)"

definition link_budget :: nat where
  "link_budget = 40"

definition link_base :: "loc \<Rightarrow> string \<Rightarrow> loc" where
  "link_base cur t = (if starts_with t ''/'' then [] else cur)"

text \<open>The rest of the link budget and the location the components lead to.\<close>

function resolve :: "nat \<Rightarrow> fs \<Rightarrow> loc \<Rightarrow> string list \<Rightarrow> io_error + nat \<times> loc" where
  "resolve n fs cur [] = Inr (n, cur)"
| "resolve n fs cur (c # cs) =
     (if fs cur \<noteq> Some Dir then Inl (if fs cur = None then NotFound else NotADirectory)
      else if c \<in> {[], ''.''} then resolve n fs cur cs
      else if c = ''..'' then resolve n fs (butlast cur) cs
      else (case fs (cur @ [c]) of
          None \<Rightarrow> Inl NotFound
        | Some (Link t) \<Rightarrow>
            (case n of 0 \<Rightarrow> Inl FilesystemLoop
             | Suc m \<Rightarrow> resolve m fs (link_base cur t) (split_slash t @ cs))
        | Some _ \<Rightarrow> resolve n fs (cur @ [c]) cs))"
  by pat_completeness auto
termination
  by (relation "inv_image (less_than <*lex*> less_than) (\<lambda>(n, fs, cur, cs). (n, length cs))") auto

definition resolve_path_str :: "fs \<Rightarrow> loc \<Rightarrow> string \<Rightarrow> io_error + loc" where
  "resolve_path_str fs cwd p =
     (if p = [] then Inl NotFound
      else map_sum id snd (resolve link_budget fs (link_base cwd p) (split_slash p)))"

definition render :: "loc \<Rightarrow> string" where
  "render l = (if l = [] then ''/'' else concat (map (\<lambda>c. ''/'' @ c) l))"

definition canonicalize :: "fs \<Rightarrow> loc \<Rightarrow> string \<Rightarrow> io_error + string" where
  "canonicalize fs cwd p = map_sum id render (resolve_path_str fs cwd p)"

definition path_exists :: "fs \<Rightarrow> loc \<Rightarrow> bool" where
  "path_exists fs p = (case resolve link_budget fs [] p of Inr _ \<Rightarrow> True | Inl _ \<Rightarrow> False)"

definition is_dir :: "fs \<Rightarrow> loc \<Rightarrow> bool" where
  "is_dir fs p = (case resolve link_budget fs [] p of Inr (_, l) \<Rightarrow> fs l = Some Dir | Inl _ \<Rightarrow> False)"

definition read_file :: "fs \<Rightarrow> loc \<Rightarrow> io_error + string" where
  "read_file fs p =
     (case resolve link_budget fs [] p of
        Inl e \<Rightarrow> Inl e
      | Inr (_, l) \<Rightarrow> (case fs l of Some (File b) \<Rightarrow> Inr b | _ \<Rightarrow> Inl IsADirectory))"

text \<open>\<open>create_dir\<close> does not follow a link in the last place.\<close>

definition create_dir :: "fs \<Rightarrow> loc \<Rightarrow> io_error + fs" where
  "create_dir fs p =
     (if p = [] then Inl AlreadyExists
      else (case resolve link_budget fs [] (butlast p) of
          Inl e \<Rightarrow> Inl e
        | Inr (_, d) \<Rightarrow>
            if fs d \<noteq> Some Dir then Inl NotADirectory
            else if fs (d @ [last p]) \<noteq> None then Inl AlreadyExists
            else Inr (fs(d @ [last p] \<mapsto> Dir))))"

function create_dir_all :: "fs \<Rightarrow> loc \<Rightarrow> (io_error + unit) \<times> fs" where
  "create_dir_all fs p =
     (case create_dir fs p of
        Inr fs1 \<Rightarrow> (Inr (), fs1)
      | Inl e \<Rightarrow>
          if e \<noteq> NotFound then (if is_dir fs p then Inr () else Inl e, fs)
          else if p = [] then (Inl e, fs)
          else (case create_dir_all fs (butlast p) of
              (Inl e', fs1) \<Rightarrow> (Inl e', fs1)
            | (Inr _, fs1) \<Rightarrow>
                (case create_dir fs1 p of
                   Inr fs2 \<Rightarrow> (Inr (), fs2)
                 | Inl e' \<Rightarrow> (if is_dir fs1 p then Inr () else Inl e', fs1))))"
  by pat_completeness auto
termination
  by (relation "measure (\<lambda>(fs, p). length p)") auto

declare create_dir_all.simps [simp del]

lemma resolve_budget: "resolve n fs cur cs = Inr (m, l) \<Longrightarrow> m \<le> n"
  by (induction n fs cur cs arbitrary: m l rule: resolve.induct)
    (fastforce split: if_splits option.splits node.splits nat.splits)+

text \<open>Where \<open>open\<close> with \<open>O_CREAT\<close> lands: it follows a link in the last place, dangling or not.\<close>

function open_create :: "nat \<Rightarrow> fs \<Rightarrow> loc \<Rightarrow> string list \<Rightarrow> io_error + loc" where
  "open_create n fs cur cs =
     (if cs = [] then Inl IsADirectory
      else (case resolve n fs cur (butlast cs) of
          Inl e \<Rightarrow> Inl e
        | Inr (m, d) \<Rightarrow>
            if fs d \<noteq> Some Dir then Inl NotADirectory
            else if last cs \<in> {[], ''.'', ''..''} then Inl IsADirectory
            else (case fs (d @ [last cs]) of
                None \<Rightarrow> Inr (d @ [last cs])
              | Some (File _) \<Rightarrow> Inr (d @ [last cs])
              | Some Dir \<Rightarrow> Inl IsADirectory
              | Some (Link t) \<Rightarrow>
                  if m = 0 then Inl FilesystemLoop
                  else open_create (m - 1) fs (link_base d t) (split_slash t))))"
  by pat_completeness auto
termination
proof (relation "measure (\<lambda>(n, fs, cur, cs). n)", goal_cases)
  case (2 n fs cur cs r m d node t)
  then show ?case using resolve_budget [of n fs cur "butlast cs" m d] by auto
qed simp

declare open_create.simps [simp del]

definition write_file :: "fs \<Rightarrow> loc \<Rightarrow> string \<Rightarrow> io_error + fs" where
  "write_file fs p content =
     (case open_create link_budget fs [] p of
        Inl e \<Rightarrow> Inl e
      | Inr l \<Rightarrow> Inr (fs(l \<mapsto> File content)))"

section \<open>Facts about resolution\<close>

lemma wf_fs_root: "wf_fs fs \<Longrightarrow> fs [] = Some Dir"
  by (simp add: wf_fs_def)

lemma wf_fs_parent: "wf_fs fs \<Longrightarrow> fs (l @ c # cs) \<noteq> None \<Longrightarrow> fs l = Some Dir \<and> proper_name c"
proof (induction cs rule: rev_induct)
  case Nil
  then show ?case by (simp add: wf_fs_def)
next
  case (snoc x xs)
  from snoc.prems have "fs (l @ c # xs) = Some Dir"
    unfolding wf_fs_def by (metis append.assoc append_Cons)
  with snoc show ?case by simp
qed

lemma wf_fs_proper: "wf_fs fs \<Longrightarrow> fs l \<noteq> None \<Longrightarrow> list_all proper_name l"
proof (induction l rule: rev_induct)
  case (snoc c l)
  then have "fs l = Some Dir \<and> proper_name c" by (simp add: wf_fs_def)
  with snoc show ?case by simp
qed simp

lemma resolve_append:
  "resolve n fs cur (xs @ ys) =
     (case resolve n fs cur xs of Inl e \<Rightarrow> Inl e | Inr (m, l) \<Rightarrow> resolve m fs l ys)"
  by (induction n fs cur xs rule: resolve.induct) (auto split: option.split node.split nat.split)

definition settled :: "fs \<Rightarrow> loc \<Rightarrow> bool" where
  "settled fs l \<longleftrightarrow> fs l \<noteq> None \<and> (\<forall>t. fs l \<noteq> Some (Link t))"

lemma settled_butlast: "wf_fs fs \<Longrightarrow> settled fs l \<Longrightarrow> settled fs (butlast l)"
  using wf_fs_parent [of fs "butlast l" "last l" "[]"]
  by (cases "l = []") (auto simp: settled_def)

lemma settled_root: "wf_fs fs \<Longrightarrow> settled fs []"
  by (simp add: settled_def wf_fs_root)

lemma resolve_settled:
  "resolve n fs cur cs = Inr (m, l) \<Longrightarrow> wf_fs fs \<Longrightarrow> settled fs cur \<Longrightarrow> settled fs l"
proof (induction n fs cur cs arbitrary: m l rule: resolve.induct)
  case (2 n fs cur c cs)
  have base: "settled fs (link_base cur t)" for t
    using 2(7,8) by (simp add: link_base_def settled_root)
  have child: "settled fs (cur @ [c])" if "fs (cur @ [c]) = Some x" "\<forall>t. x \<noteq> Link t" for x
    using that by (auto simp: settled_def)
  show ?case
    using 2 base child settled_butlast [of fs cur]
    by (auto split: if_splits option.splits node.splits nat.splits)
qed simp

text \<open>A location is its own resolution.\<close>

lemma resolve_location:
  "wf_fs fs \<Longrightarrow> settled fs (p @ q) \<Longrightarrow> resolve n fs p q = Inr (n, p @ q)"
proof (induction q arbitrary: p)
  case (Cons c q)
  have dir: "fs p = Some Dir" "proper_name c"
    using wf_fs_parent [of fs p c q] Cons.prems by (auto simp: settled_def)
  have "settled fs (p @ [c])"
  proof (cases q)
    case Nil
    then show ?thesis using Cons.prems by simp
  next
    case (Cons d q')
    then show ?thesis
      using wf_fs_parent [of fs "p @ [c]" d q'] Cons.prems by (auto simp: settled_def)
  qed
  moreover have "resolve n fs (p @ [c]) q = Inr (n, p @ c # q)" using Cons by simp
  ultimately show ?case
    using dir by (auto simp: settled_def proper_name_def split: option.split node.split)
qed simp

lemma split_slash_name: "CHR ''/'' \<notin> set c \<Longrightarrow> split_slash c = [c]"
  by (induction c) auto

lemma split_slash_nonempty [simp]: "split_slash s \<noteq> []"
  by (induction s) (auto split: list.split)

lemma split_slash_append: "split_slash (a @ CHR ''/'' # b) = split_slash a @ split_slash b"
proof (induction a)
  case (Cons x a)
  obtain p ps where "split_slash a = p # ps" by (cases "split_slash a") auto
  with Cons show ?case by simp
qed simp

lemma split_render:
  "list_all proper_name l \<Longrightarrow> l \<noteq> [] \<Longrightarrow> split_slash (render l) = [] # l"
proof (induction l rule: rev_induct)
  case (snoc c l)
  have c: "split_slash c = [c]" using snoc.prems by (intro split_slash_name) (simp add: proper_name_def)
  show ?case
  proof (cases "l = []")
    case False
    then have "render (l @ [c]) = render l @ CHR ''/'' # c" by (simp add: render_def)
    with snoc False c show ?thesis by (simp add: split_slash_append)
  qed (simp add: render_def c)
qed simp

lemma path_components_render: "list_all proper_name l \<Longrightarrow> path_components (render l) = ''/'' # l"
proof (cases "l = []")
  case False
  assume p: "list_all proper_name l"
  then have "filter (\<lambda>x. \<not> trivial_piece x) l = l"
    by (intro filter_True) (auto simp: list_all_iff trivial_piece_def proper_name_def)
  with False p show ?thesis by (simp add: path_components_def split_render)
qed (simp add: render_def path_components_def trivial_piece_def)

lemma render_starts: "starts_with (render l) ''/''"
  by (cases l) (simp_all add: render_def str_simps)

lemma render_nonempty [simp]: "render l \<noteq> []"
  by (cases l) (simp_all add: render_def)

lemma resolve_render:
  assumes "wf_fs fs" and "list_all proper_name l"
  shows "resolve_path_str fs cwd (render l) = map_sum id snd (resolve link_budget fs [] l)"
  using assms split_render [of l]
  by (cases "l = []")
    (simp_all add: resolve_path_str_def link_base_def render_starts wf_fs_root, simp add: render_def wf_fs_root str_simps)

lemma path_starts_render:
  "list_all proper_name l \<Longrightarrow> list_all proper_name r \<Longrightarrow> path_starts_with (render l) (render r) \<longleftrightarrow> prefix r l"
  by (simp add: path_starts_with_def path_components_render)

section \<open>What creating and writing change\<close>

lemma resolve_mono:
  "fs \<subseteq>\<^sub>m fs' \<Longrightarrow> resolve n fs cur cs = Inr r \<Longrightarrow> resolve n fs' cur cs = Inr r"
proof (induction n fs cur cs rule: resolve.induct)
  case (2 n fs cur c cs)
  have keep: "fs l = Some x \<Longrightarrow> fs' l = Some x" for l x
    using 2(6) by (metis domI map_le_def)
  show ?case
    using 2 keep by (auto split: if_splits option.splits node.splits nat.splits)
qed simp

lemma resolve_last:
  assumes "resolve n fs cur cs = Inr (m, l)" and "cs \<noteq> []"
  obtains k d where "resolve n fs cur (butlast cs) = Inr (k, d)" "resolve k fs d [last cs] = Inr (m, l)"
    "fs d = Some Dir"
proof -
  have "resolve n fs cur (butlast cs @ [last cs]) = Inr (m, l)" using assms by simp
  then obtain k d where r: "resolve n fs cur (butlast cs) = Inr (k, d)" "resolve k fs d [last cs] = Inr (m, l)"
    unfolding resolve_append by (auto split: sum.splits)
  then have "fs d = Some Dir" by (simp split: if_splits)
  with r that show thesis by blast
qed

lemma open_create_existing:
  "resolve n fs cur cs = Inr (m, c) \<Longrightarrow> open_create n fs cur cs = Inr l \<Longrightarrow> l = c"
proof (induction n fs cur cs rule: open_create.induct)
  case (1 n fs cur cs)
  have ne: "cs \<noteq> []" using 1(3) by (subst (asm) open_create.simps) (auto split: if_splits)
  obtain k d where r: "resolve n fs cur (butlast cs) = Inr (k, d)" "resolve k fs d [last cs] = Inr (m, c)"
    and d: "fs d = Some Dir"
    using resolve_last [OF 1(2) ne] .
  have name: "last cs \<notin> {[], ''.'', ''..''}"
    using 1(3) r(1) d by (subst (asm) open_create.simps) (auto split: if_splits)
  from 1(3) r(1) d ne name have oc: "(case fs (d @ [last cs]) of
                None \<Rightarrow> Inr (d @ [last cs])
              | Some (File _) \<Rightarrow> Inr (d @ [last cs])
              | Some Dir \<Rightarrow> Inl IsADirectory
              | Some (Link t) \<Rightarrow>
                  if k = 0 then Inl FilesystemLoop
                  else open_create (k - 1) fs (link_base d t) (split_slash t)) = Inr l"
    by (subst (asm) open_create.simps) simp
  show ?case
  proof (cases "fs (d @ [last cs])")
    case None
    with r(2) name show ?thesis by (simp split: if_splits)
  next
    case (Some x)
    show ?thesis
    proof (cases x)
      case (Link t)
      then obtain k' where k: "k = Suc k'" using Some oc by (cases k) auto
      have "resolve k' fs (link_base d t) (split_slash t) = Inr (m, c)"
        using r(2) name d Some Link k by simp
      moreover have "open_create k' fs (link_base d t) (split_slash t) = Inr l"
        using oc Some Link k by simp
      ultimately show ?thesis
        using 1(1) [OF ne r(1) refl _ name Some, of t] d Link k by simp
    qed (use r(2) name d Some oc in auto)
  qed
qed

lemma open_create_node:
  "open_create n fs cur cs = Inr l \<Longrightarrow> fs l = None \<or> (\<exists>b. fs l = Some (File b))"
proof (induction n fs cur cs rule: open_create.induct)
  case (1 n fs cur cs)
  have ne: "cs \<noteq> []" using 1(2) by (subst (asm) open_create.simps) (auto split: if_splits)
  obtain k d where r: "resolve n fs cur (butlast cs) = Inr (k, d)"
    using 1(2) ne by (subst (asm) open_create.simps) (auto split: sum.splits)
  have d: "fs d = Some Dir" and name: "last cs \<notin> {[], ''.'', ''..''}"
    using 1(2) ne r by (subst (asm) open_create.simps, auto split: if_splits)+
  from 1(2) r d ne name have oc: "(case fs (d @ [last cs]) of
                None \<Rightarrow> Inr (d @ [last cs])
              | Some (File _) \<Rightarrow> Inr (d @ [last cs])
              | Some Dir \<Rightarrow> Inl IsADirectory
              | Some (Link t) \<Rightarrow>
                  if k = 0 then Inl FilesystemLoop
                  else open_create (k - 1) fs (link_base d t) (split_slash t)) = Inr l"
    by (subst (asm) open_create.simps) simp
  show ?case
  proof (cases "fs (d @ [last cs])")
    case (Some x)
    show ?thesis
    proof (cases x)
      case (Link t)
      then show ?thesis
        using oc Some 1(1) [OF ne r refl _ name Some, of t] d by (auto split: if_splits)
    qed (use Some oc in auto)
  qed (use oc in auto)
qed

text \<open>The directories \<open>create_dir_all\<close> adds below \<open>e\<close>.\<close>

definition add_dirs :: "fs \<Rightarrow> loc \<Rightarrow> string list \<Rightarrow> fs" where
  "add_dirs fs e rs = (\<lambda>l. if strict_prefix e l \<and> prefix l (e @ rs) then Some Dir else fs l)"

lemma add_dirs_Nil [simp]: "add_dirs fs e [] = fs"
  by (auto simp: add_dirs_def fun_eq_iff dest: prefix_order.dual_order.strict_iff_order [THEN iffD1]
      prefix_order.antisym)

lemma add_dirs_snoc: "add_dirs fs e (rs @ [c]) = (add_dirs fs e rs)(e @ rs @ [c] \<mapsto> Dir)"
proof -
  have "prefix l (e @ rs @ [c]) \<longleftrightarrow> l = e @ rs @ [c] \<or> prefix l (e @ rs)" for l
    using prefix_snoc [of l "e @ rs" c] by simp
  then show ?thesis by (auto simp: add_dirs_def fun_eq_iff strict_prefix_def)
qed

lemma wf_upd:
  assumes "wf_fs fs" and "fs d = Some Dir" and "proper_name c" and "\<forall>k. fs (d @ c # k) = None \<or> x = Dir"
  shows "wf_fs (fs(d @ [c] \<mapsto> x))"
  unfolding wf_fs_def
proof (intro conjI allI impI)
  show "(fs(d @ [c] \<mapsto> x)) [] = Some Dir" using assms(1) by (simp add: wf_fs_root)
  fix l b assume l: "(fs(d @ [c] \<mapsto> x)) (l @ [b]) \<noteq> None"
  show "proper_name b"
  proof (cases "l @ [b] = d @ [c]")
    case False
    with l have "fs (l @ [b]) \<noteq> None" by (simp split: if_splits)
    then show ?thesis using wf_fs_parent [OF assms(1), of l b "[]"] by simp
  qed (use assms(3) in simp)
  show "(fs(d @ [c] \<mapsto> x)) l = Some Dir"
  proof (cases "l @ [b] = d @ [c]")
    case True
    then show ?thesis using assms(2) by simp
  next
    case False
    with l have old: "fs (l @ [b]) \<noteq> None" by (simp split: if_splits)
    then have "fs l = Some Dir" using wf_fs_parent [OF assms(1), of l b "[]"] by simp
    note old = old this
    show ?thesis
    proof (cases "l = d @ [c]")
      case True
      with old assms(4) [rule_format, of "[b]"] show ?thesis by auto
    qed (use old in simp)
  qed
qed

lemma wf_add_dirs:
  assumes "wf_fs fs" and "fs e = Some Dir" and "list_all proper_name rs"
  shows "wf_fs (add_dirs fs e rs)"
  using assms(3)
proof (induction rs rule: rev_induct)
  case (snoc c rs)
  let ?fs = "add_dirs fs e rs"
  have "?fs (e @ rs) = Some Dir"
    using assms(2) by (cases "rs = []") (auto simp: add_dirs_def strict_prefix_def)
  with snoc wf_upd [of ?fs "e @ rs" c Dir] show ?case by (simp add: add_dirs_snoc fun_upd_def)
qed (simp add: assms(1))

lemma fresh_below:
  assumes "wf_fs fs" and "fs (e @ [r]) = None"
  shows "fs (e @ r # xs) = None"
proof (rule ccontr)
  assume some: "fs (e @ r # xs) \<noteq> None"
  with assms(2) obtain y ys where "xs = y # ys" by (cases xs) auto
  with some wf_fs_parent [OF assms(1), of "e @ [r]" y ys] assms(2) show False by simp
qed

lemma add_dirs_le:
  assumes "wf_fs fs" and "fs (e @ [hd rs]) = None" and "rs \<noteq> []"
  shows "fs \<subseteq>\<^sub>m add_dirs fs e rs"
proof -
  have "fs l = None" if "strict_prefix e l" "prefix l (e @ rs)" for l
  proof -
    from that(1) obtain zs where zs: "l = e @ zs" "zs \<noteq> []" by (auto simp: strict_prefix_def prefix_def)
    then obtain x xs where l: "l = e @ x # xs" by (cases zs) auto
    with that(2) assms(3) have "x = hd rs" by (cases rs) auto
    with fresh_below [OF assms(1,2)] l show ?thesis by simp
  qed
  then show ?thesis by (auto simp: map_le_def add_dirs_def)
qed

lemma create_dir_existing:
  assumes "resolve link_budget fs [] p = Inr (m, l)" and "list_all proper_name p"
  shows "create_dir fs p = Inl AlreadyExists"
proof (cases "p = []")
  case False
  obtain k d where r: "resolve link_budget fs [] (butlast p) = Inr (k, d)" "resolve k fs d [last p] = Inr (m, l)"
    and d: "fs d = Some Dir"
    using resolve_last [OF assms(1) False] .
  have "proper_name (last p)" using assms(2) False by (simp add: list_all_iff)
  then have "fs (d @ [last p]) \<noteq> None"
    using r(2) d by (auto simp: proper_name_def split: option.splits)
  with False r d show ?thesis by (simp add: create_dir_def)
qed (simp add: create_dir_def)

lemma resolve_not_dir:
  "fs e \<noteq> Some Dir \<Longrightarrow> fs e \<noteq> None \<Longrightarrow> rs \<noteq> [] \<Longrightarrow> resolve n fs e rs = Inl NotADirectory"
  by (cases rs) auto

text \<open>
  Starting from the deepest ancestor \<open>E\<close> that exists, \<open>create_dir_all\<close> either changes nothing or
  adds fresh directories below what \<open>E\<close> resolves to.
\<close>

definition none_below :: "fs \<Rightarrow> string list \<Rightarrow> string list \<Rightarrow> bool" where
  "none_below fs E rs \<longleftrightarrow> (\<forall>k. 0 < k \<and> k \<le> length rs \<longrightarrow> \<not> path_exists fs (E @ take k rs))"

lemma none_below_snoc: "none_below fs E (rs @ [c]) \<longleftrightarrow> none_below fs E rs \<and> \<not> path_exists fs (E @ rs @ [c])"
  unfolding none_below_def
proof safe
  fix k assume "\<forall>k. 0 < k \<and> k \<le> length (rs @ [c]) \<longrightarrow> \<not> path_exists fs (E @ take k (rs @ [c]))"
    and "0 < k" "k \<le> length rs" "path_exists fs (E @ take k rs)"
  then show False by (auto dest!: spec [of _ k])
next
  assume "\<forall>k. 0 < k \<and> k \<le> length (rs @ [c]) \<longrightarrow> \<not> path_exists fs (E @ take k (rs @ [c]))"
    and "path_exists fs (E @ rs @ [c])"
  then show False by (auto dest!: spec [of _ "Suc (length rs)"])
next
  fix k assume "\<forall>k. 0 < k \<and> k \<le> length rs \<longrightarrow> \<not> path_exists fs (E @ take k rs)"
    and "\<not> path_exists fs (E @ rs @ [c])" "0 < k" "k \<le> length (rs @ [c])" "path_exists fs (E @ take k (rs @ [c]))"
  then show False by (cases "k = Suc (length rs)") auto
qed

definition adds_below :: "fs \<Rightarrow> loc \<Rightarrow> string list \<Rightarrow> fs \<Rightarrow> bool" where
  "adds_below fs e xs fs1 \<longleftrightarrow> fs1 = add_dirs fs e xs \<and> (xs \<noteq> [] \<longrightarrow> fs e = Some Dir \<and> fs (e @ [hd xs]) = None)"

lemma is_dir_missing: "\<not> path_exists fs p \<Longrightarrow> \<not> is_dir fs p"
  by (auto simp: path_exists_def is_dir_def split: sum.splits)

lemma added_resolve:
  assumes "wf_fs fs" and E: "resolve link_budget fs [] E = Inr (m, e)" and "list_all proper_name rs"
    and "fs e = Some Dir" and "fs (e @ [hd rs]) = None" and "rs \<noteq> []"
  shows "wf_fs (add_dirs fs e rs)" and "add_dirs fs e rs (e @ rs) = Some Dir"
    and "resolve link_budget (add_dirs fs e rs) [] (E @ rs) = Inr (m, e @ rs)"
    and "add_dirs fs e rs (e @ rs @ [c]) = None"
proof -
  let ?fs1 = "add_dirs fs e rs"
  show wf1: "wf_fs ?fs1" using wf_add_dirs [OF assms(1,4,3)] .
  show at: "?fs1 (e @ rs) = Some Dir" using assms(6) by (simp add: add_dirs_def strict_prefix_def)
  then have "settled ?fs1 (e @ rs)" by (simp add: settled_def)
  then show "resolve link_budget ?fs1 [] (E @ rs) = Inr (m, e @ rs)"
    using resolve_mono [OF add_dirs_le [OF assms(1,5,6)] E] resolve_location [OF wf1]
    by (simp add: resolve_append)
  obtain r rs' where "rs = r # rs'" using assms(6) by (cases rs) auto
  then show "?fs1 (e @ rs @ [c]) = None"
    using fresh_below [OF assms(1), of e r "rs' @ [c]"] assms(5)
    by (auto simp: add_dirs_def dest: prefix_length_le)
qed

lemma create_dir_all_adds:
  assumes "wf_fs fs" and E: "resolve link_budget fs [] E = Inr (m, e)" and "list_all proper_name (E @ rs)"
    and "none_below fs E rs"
  shows "\<exists>xs. prefix xs rs \<and> adds_below fs e xs (snd (create_dir_all fs (E @ rs)))
     \<and> (fst (create_dir_all fs (E @ rs)) = Inr () \<longrightarrow> xs = rs)"
  using assms(3,4)
proof (induction rs rule: rev_induct)
  case Nil
  then have "create_dir fs E = Inl AlreadyExists" using create_dir_existing [OF E] by simp
  then show ?case by (simp add: create_dir_all.simps [of fs E] adds_below_def)
next
  case (snoc c rs)
  let ?p = "E @ rs @ [c]"
  have miss: "none_below fs E rs" "\<not> is_dir fs ?p"
    using snoc.prems is_dir_missing by (auto simp: none_below_snoc)
  have names: "list_all proper_name (E @ rs)" "proper_name c" using snoc.prems by auto
  have e: "settled fs e" using resolve_settled [OF E assms(1) settled_root [OF assms(1)]] .
  show ?case
  proof (cases "rs = []")
    case True
    show ?thesis
    proof (cases "fs e = Some Dir \<and> fs (e @ [c]) = None")
      case fresh: True
      then have "create_dir_all fs (E @ [c]) = (Inr (), add_dirs fs e [c])"
        using E add_dirs_snoc [of fs e "[]" c]
        by (simp add: create_dir_all.simps [of fs "E @ [c]"] create_dir_def fun_upd_def)
      with True fresh show ?thesis by (auto simp: adds_below_def)
    next
      case False
      then have "create_dir_all fs (E @ [c]) = (Inl (if fs e = Some Dir then AlreadyExists else NotADirectory), fs)"
        using E miss(2) True by (auto simp: create_dir_all.simps [of fs "E @ [c]"] create_dir_def)
      with True show ?thesis by (auto intro!: exI [of _ "[]"] simp: adds_below_def)
    qed
  next
    case False
    have "\<not> path_exists fs (E @ rs)"
      using miss(1) False unfolding none_below_def by (metis length_greater_0_conv order_refl take_all)
    then obtain err where err: "resolve link_budget fs [] (E @ rs) = Inl err"
      by (auto simp: path_exists_def split: sum.splits)
    then have cd: "create_dir fs ?p = Inl err" by (simp add: create_dir_def butlast_append)
    show ?thesis
    proof (cases "err = NotFound")
      case True
      let ?r = "create_dir_all fs (E @ rs)"
      from snoc.IH [OF names(1) miss(1)] obtain xs where xs: "prefix xs rs" "adds_below fs e xs (snd ?r)"
        "fst ?r = Inr () \<longrightarrow> xs = rs" by blast
      show ?thesis
      proof (cases "fst ?r")
        case (Inl e')
        then have "create_dir_all fs ?p = (Inl e', snd ?r)"
          using cd True by (cases ?r) (simp add: create_dir_all.simps [of fs ?p] butlast_append)
        with xs show ?thesis by (auto intro!: exI [of _ xs])
      next
        case (Inr u)
        then have fs1: "snd ?r = add_dirs fs e rs" "fs e = Some Dir" "fs (e @ [hd rs]) = None"
          using xs False by (auto simp: adds_below_def)
        let ?fs1 = "add_dirs fs e rs"
        have "list_all proper_name rs" using names by simp
        note added = added_resolve [OF assms(1) E this fs1(2,3) False]
        then have "create_dir ?fs1 ?p = Inr (?fs1(e @ rs @ [c] \<mapsto> Dir))"
          by (simp add: create_dir_def butlast_append)
        then have "create_dir_all fs ?p = (Inr (), add_dirs fs e (rs @ [c]))"
          using cd True Inr fs1(1)
          by (cases ?r) (simp add: create_dir_all.simps [of fs ?p] butlast_append add_dirs_snoc fun_upd_def)
        with fs1 False show ?thesis by (auto simp: adds_below_def)
      qed
    next
      case False
      then have "create_dir_all fs ?p = (Inl err, fs)"
        using cd miss(2) by (simp add: create_dir_all.simps [of fs ?p])
      then show ?thesis by (auto intro!: exI [of _ "[]"] simp: adds_below_def)
    qed
  qed
qed

text \<open>
  A write through a path whose parent was just made lands below \<open>e\<close>, unless its last name is a
  link that was there before; if that link leads anywhere, the write lands there.
\<close>

lemma write_lands:
  assumes "wf_fs fs" and E: "resolve link_budget fs [] E = Inr (m, e)" and names: "list_all proper_name (E @ rs @ [f])"
    and "none_below fs E rs"
    and mk: "create_dir_all fs (E @ rs) = (Inr (), fs1)" and wr: "write_file fs1 (E @ rs @ [f]) content = Inr fs2"
  shows "adds_below fs e rs fs1 \<and> (\<exists>l. fs2 = fs1(l \<mapsto> File content)
    \<and> (l = e @ rs @ [f]
      \<or> rs = [] \<and> (\<exists>t. fs (e @ [f]) = Some (Link t))
        \<and> (\<forall>k c. resolve link_budget fs [] (E @ [f]) = Inr (k, c) \<longrightarrow> l = c)))"
proof -
  have add: "adds_below fs e rs fs1"
    using create_dir_all_adds [OF assms(1) E, of rs] assms(4) mk names by auto
  from wr obtain l where l: "open_create link_budget fs1 [] (E @ rs @ [f]) = Inr l" "fs2 = fs1(l \<mapsto> File content)"
    by (auto simp: write_file_def split: sum.splits)
  have f: "proper_name f" using names by simp
  show ?thesis
  proof (cases "rs = []")
    case True
    then have fs1: "fs1 = fs" using add by (simp add: adds_below_def)
    from l(1) E True f have dir: "fs e = Some Dir"
      by (subst (asm) open_create.simps) (auto simp: fs1 butlast_append split: if_splits)
    show ?thesis
    proof (cases "\<exists>t. fs (e @ [f]) = Some (Link t)")
      case link: True
      have "\<forall>k c. resolve link_budget fs [] (E @ [f]) = Inr (k, c) \<longrightarrow> l = c"
        using open_create_existing [of link_budget fs "[]" "E @ [f]"] l(1) True fs1 by auto
      with add l(2) True link show ?thesis by auto
    next
      case False
      with l(1) E True f dir have "l = e @ [f]"
        by (subst (asm) open_create.simps)
          (auto simp: fs1 butlast_append proper_name_def split: option.splits node.splits)
      with add l(2) True show ?thesis by auto
    qed
  next
    case False
    then have fs1: "fs1 = add_dirs fs e rs" "fs e = Some Dir" "fs (e @ [hd rs]) = None"
      using add by (auto simp: adds_below_def)
    have "list_all proper_name rs" using names by simp
    note added = added_resolve [OF assms(1) E this fs1(2,3) False]
    with l(1) f have "l = e @ rs @ [f]"
      by (subst (asm) open_create.simps) (simp add: fs1 butlast_append proper_name_def)
    with add l(2) show ?thesis by auto
  qed
qed

lemma adds_below_changes: "adds_below fs e xs fs1 \<Longrightarrow> fs1 l \<noteq> fs l \<Longrightarrow> prefix e l \<and> fs1 l = Some Dir"
  by (auto simp: adds_below_def add_dirs_def strict_prefix_def split: if_splits)

text \<open>Resolution looks at directories and links only: the content of a file does not matter.\<close>

lemma resolve_file_upd:
  "fs l = Some (File b) \<Longrightarrow> resolve n (fs(l \<mapsto> File b')) cur cs = resolve n fs cur cs"
proof (induction n fs cur cs rule: resolve.induct)
  case (2 n fs cur c cs)
  show ?case
    using 2 by (cases "fs (cur @ [c])") (auto split: node.splits nat.splits)
qed simp

end
