(* ===== verification/Fs_Handler.thy ===== *)
theory Fs_Handler
  imports Unix_Fs Wire
begin

text \<open>
  \<open>agent_runtime/acp/fs_handler.rs\<close>: the \<open>fs/read_text_file\<close> and \<open>fs/write_text_file\<close> requests
  of an ACP agent, served against the file tree of \<open>Unix_Fs\<close> under the session's profile. A
  request sees one tree and replaces it; other processes changing the tree between the checks
  and the write are outside the model. The wording of a denial is left out, as in \<open>Enforce\<close>.
\<close>

section \<open>Requests\<close>

record fs_context =
  fc_project_root :: string
  fc_profile :: capability_profile
  fc_session_id :: string
  fc_agent_id :: string
  fc_audit :: bool

datatype fs_error =
    MissingParam string
  | ProfileDenied string
  | SizeExceeded nat nat
  | IoError io_error
  | NotUtf8
  | MethodNotFound string

fun jsonrpc_code :: "fs_error \<Rightarrow> int" where
  "jsonrpc_code (MissingParam _) = -32602"
| "jsonrpc_code (SizeExceeded _ _) = -32602"
| "jsonrpc_code NotUtf8 = -32602"
| "jsonrpc_code (ProfileDenied _) = -32603"
| "jsonrpc_code (IoError _) = -32603"
| "jsonrpc_code (MethodNotFound _) = -32603"

fun bridge_mutation_error_code :: "fs_error \<Rightarrow> string" where
  "bridge_mutation_error_code (ProfileDenied code) = code"
| "bridge_mutation_error_code (SizeExceeded _ _) = ''fs.size_exceeded''"
| "bridge_mutation_error_code (IoError _) = ''fs.io_error''"
| "bridge_mutation_error_code (MissingParam _) = ''fs.missing_param''"
| "bridge_mutation_error_code NotUtf8 = ''fs.not_utf8''"
| "bridge_mutation_error_code (MethodNotFound _) = ''fs.method_not_found''"

text \<open>\<open>String::from_utf8\<close>: well-formed UTF-8, without overlong forms and surrogates.\<close>

definition byte_in :: "nat \<Rightarrow> nat \<Rightarrow> char \<Rightarrow> bool" where
  "byte_in lo hi c \<longleftrightarrow> lo \<le> (of_char c :: nat) \<and> (of_char c :: nat) \<le> hi"

fun utf8_ok :: "string \<Rightarrow> bool" where
  "utf8_ok [] = True"
| "utf8_ok (a # s) =
     (if byte_in 0 127 a then utf8_ok s
      else (case s of [] \<Rightarrow> False
        | b # s2 \<Rightarrow>
            if byte_in 194 223 a then byte_in 128 191 b \<and> utf8_ok s2
            else (case s2 of [] \<Rightarrow> False
              | c # s3 \<Rightarrow>
                  if byte_in 224 239 a then
                    byte_in (if a = char_of (224 :: nat) then 160 else 128) (if a = char_of (237 :: nat) then 159 else 191) b
                    \<and> byte_in 128 191 c \<and> utf8_ok s3
                  else (case s3 of [] \<Rightarrow> False
                    | d # s4 \<Rightarrow>
                        byte_in 240 244 a
                        \<and> byte_in (if a = char_of (240 :: nat) then 144 else 128) (if a = char_of (244 :: nat) then 143 else 191) b
                        \<and> byte_in 128 191 c \<and> byte_in 128 191 d \<and> utf8_ok s4))))"

section \<open>Paths\<close>

definition resolve_path :: "string \<Rightarrow> string \<Rightarrow> string" where
  "resolve_path raw project_root = (if starts_with raw ''/'' then raw else path_join project_root raw)"

text \<open>The result of \<open>normalize_absolute\<close> on an absolute path, as a location.\<close>

definition normalize_absolute :: "string \<Rightarrow> loc" where
  "normalize_absolute p =
     foldl (\<lambda>out c. if c = ''/'' then [] else if c = ''.'' then out else if c = ''..'' then butlast out else out @ [c])
       [] (path_components p)"

text \<open>\<open>canonicalize\<close> of the tree behind the enforcement functions.\<close>

definition fs_env :: "enforce_env \<Rightarrow> fs \<Rightarrow> loc \<Rightarrow> enforce_env" where
  "fs_env env fs cwd =
     env\<lparr>env_canonicalize := (\<lambda>p. case canonicalize fs cwd p of Inr c \<Rightarrow> Some c | Inl _ \<Rightarrow> None)\<rparr>"

definition resolve_for_read :: "fs \<Rightarrow> loc \<Rightarrow> string \<Rightarrow> string \<Rightarrow> fs_error + string \<times> string" where
  "resolve_for_read fs cwd raw project_root =
     (case canonicalize fs cwd project_root of
        Inl e \<Rightarrow> Inl (IoError e)
      | Inr root \<Rightarrow>
          (case canonicalize fs cwd (resolve_path raw root) of
             Inl e \<Rightarrow> Inl (IoError e)
           | Inr resolved \<Rightarrow> Inr (resolved, root)))"

text \<open>\<open>while !existing.exists() { existing.pop() }\<close>; \<open>None\<close> when even the root is gone.\<close>

function existing_ancestor :: "fs \<Rightarrow> loc \<Rightarrow> loc option" where
  "existing_ancestor fs p =
     (if path_exists fs p then Some p
      else if p = [] then None
      else existing_ancestor fs (butlast p))"
  by pat_completeness auto
termination
  by (relation "measure (\<lambda>(fs, p). length p)") auto

declare existing_ancestor.simps [simp del]

text \<open>
  The parent of the candidate \<open>/\<close> is replaced by the root, which is then \<open>/\<close> as well:
  \<open>butlast\<close> covers both.
\<close>

definition resolve_for_write :: "fs \<Rightarrow> loc \<Rightarrow> string \<Rightarrow> string \<Rightarrow> fs_error + loc \<times> string" where
  "resolve_for_write fs cwd raw project_root =
     (case canonicalize fs cwd project_root of
        Inl e \<Rightarrow> Inl (IoError e)
      | Inr root \<Rightarrow>
          (let candidate = normalize_absolute (resolve_path raw root) in
           if \<not> path_starts_with (render candidate) root then Inl (ProfileDenied ''fs.path_escape'')
           else (case existing_ancestor fs (butlast candidate) of
               None \<Rightarrow> Inl (IoError NotFound)
             | Some existing \<Rightarrow>
                 (case canonicalize fs cwd (render existing) of
                    Inl e \<Rightarrow> Inl (IoError e)
                  | Inr canon_existing \<Rightarrow>
                      if \<not> path_starts_with canon_existing root then Inl (ProfileDenied ''fs.path_escape'')
                      else Inr (candidate, root)))))"

section \<open>Handlers\<close>

definition audit_fs :: "fs_context \<Rightarrow> string \<Rightarrow> string \<Rightarrow> string \<Rightarrow> string \<Rightarrow> audit_call list" where
  "audit_fs ctx kind raw resolved content =
     (if fc_audit ctx then
        [\<lparr>au_session = fc_session_id ctx, au_subsystem = kind, au_severity = ''info'',
          au_fields = JObj [(''agent_id'', JStr (fc_agent_id ctx)), (''path'', JStr raw),
            (''resolved'', JStr resolved), (''bytes'', JUint (length content))]\<rparr>]
      else [])"

text \<open>The size \<open>stat\<close> reports for a directory is one block.\<close>

definition metadata_len :: "node \<Rightarrow> nat" where
  "metadata_len nd = (case nd of File b \<Rightarrow> length b | _ \<Rightarrow> 4096)"

definition handle_fs_read :: "enforce_env \<Rightarrow> fs \<Rightarrow> loc \<Rightarrow> fs_context \<Rightarrow> json \<Rightarrow> (fs_error + json) \<times> audit_call list" where
  "handle_fs_read env fs cwd ctx params =
     (case get_str ''path'' params of
        None \<Rightarrow> (Inl (MissingParam ''path''), [])
      | Some raw \<Rightarrow>
          (case resolve_for_read fs cwd raw (fc_project_root ctx) of
             Inl e \<Rightarrow> (Inl e, [])
           | Inr (resolved, root) \<Rightarrow>
               (case enforce_fs_read (fs_env env fs cwd) (fc_profile ctx) resolved root of
                  Deny code \<Rightarrow> (Inl (ProfileDenied code), [])
                | Allow \<Rightarrow>
                    (case resolve_path_str fs cwd resolved of
                       Inl e \<Rightarrow> (Inl (IoError e), [])
                     | Inr l \<Rightarrow>
                         (case fs l of
                            None \<Rightarrow> (Inl (IoError NotFound), [])
                          | Some nd \<Rightarrow>
                              (let mx = fs_max_bytes_per_read (prof_fs (fc_profile ctx)) in
                               if metadata_len nd > mx then (Inl (SizeExceeded (metadata_len nd) mx), [])
                               else (case nd of
                                   File b \<Rightarrow>
                                     if utf8_ok b then
                                       (Inr (JObj [(''content'', JStr b)]), audit_fs ctx ''fs.read'' raw resolved b)
                                     else (Inl NotUtf8, [])
                                 | _ \<Rightarrow> (Inl (IoError IsADirectory), []))))))))"

record fs_write_meta =
  fw_path :: string
  fw_old_content :: "string option"
  fw_new_content :: string

definition read_to_string :: "fs \<Rightarrow> loc \<Rightarrow> string option" where
  "read_to_string fs p = (case read_file fs p of Inr b \<Rightarrow> (if utf8_ok b then Some b else None) | Inl _ \<Rightarrow> None)"

text \<open>The parameters, the path and the policy, in the order of the code; nothing is touched yet.\<close>

definition write_checks :: "enforce_env \<Rightarrow> fs \<Rightarrow> loc \<Rightarrow> fs_context \<Rightarrow> json \<Rightarrow> fs_error + string \<times> string \<times> loc" where
  "write_checks env fs cwd ctx params =
     (case get_str ''path'' params of
        None \<Rightarrow> Inl (MissingParam ''path'')
      | Some raw \<Rightarrow>
     (case get_str ''content'' params of
        None \<Rightarrow> Inl (MissingParam ''content'')
      | Some content \<Rightarrow>
     (case resolve_for_write fs cwd raw (fc_project_root ctx) of
        Inl e \<Rightarrow> Inl e
      | Inr (resolved, root) \<Rightarrow>
     (case enforce_fs_write (fs_env env fs cwd) (fc_profile ctx) (render resolved) root of
        Deny code \<Rightarrow> Inl (ProfileDenied code)
      | Allow \<Rightarrow>
          (let max_write = fs_max_bytes_per_write (prof_fs (fc_profile ctx)) in
           if max_write > 0 \<and> length content > max_write then Inl (SizeExceeded (length content) max_write)
           else Inr (raw, content, resolved))))))"

definition perform_write :: "fs \<Rightarrow> fs_context \<Rightarrow> string \<Rightarrow> string \<Rightarrow> loc \<Rightarrow>
    (fs_error + json \<times> fs_write_meta) \<times> fs \<times> audit_call list" where
  "perform_write fs ctx raw content resolved =
     (let old = read_to_string fs resolved;
          (made, fs1) = (if resolved = [] then (Inr (), fs) else create_dir_all fs (butlast resolved))
      in (case made of
            Inl e \<Rightarrow> (Inl (IoError e), fs1, [])
          | Inr _ \<Rightarrow>
              (case write_file fs1 resolved content of
                 Inl e \<Rightarrow> (Inl (IoError e), fs1, [])
               | Inr fs2 \<Rightarrow>
                   (Inr (JObj [(''success'', JBool True)],
                         \<lparr>fw_path = raw, fw_old_content = old, fw_new_content = content\<rparr>),
                    fs2, audit_fs ctx ''fs.write'' raw (render resolved) content))))"

definition handle_fs_write :: "enforce_env \<Rightarrow> fs \<Rightarrow> loc \<Rightarrow> fs_context \<Rightarrow> json \<Rightarrow>
    (fs_error + json \<times> fs_write_meta) \<times> fs \<times> audit_call list" where
  "handle_fs_write env fs cwd ctx params =
     (case write_checks env fs cwd ctx params of
        Inl e \<Rightarrow> (Inl e, fs, [])
      | Inr (raw, content, resolved) \<Rightarrow> perform_write fs ctx raw content resolved)"

definition build_fs_context :: "capability_profile \<Rightarrow> string \<Rightarrow> string \<Rightarrow> string \<Rightarrow> bool \<Rightarrow> fs_context" where
  "build_fs_context profile project_root session_id agent_id audit =
     \<lparr>fc_project_root = project_root, fc_profile = profile, fc_session_id = session_id,
      fc_agent_id = agent_id, fc_audit = audit\<rparr>"

section \<open>Paths the handlers compute\<close>

lemma split_slash_no_slash: "c \<in> set (split_slash p) \<Longrightarrow> CHR ''/'' \<notin> set c"
  by (induction p arbitrary: c) (auto split: if_splits list.splits)

lemma path_components_name:
  "c \<in> set (path_components p) \<Longrightarrow> c = ''/'' \<or> (c \<noteq> [] \<and> CHR ''/'' \<notin> set c)"
  using split_slash_no_slash [of c p]
  by (cases "split_slash p") (auto simp: path_components_def trivial_piece_def split: if_splits)

lemma foldl_inv: "P a \<Longrightarrow> (\<And>a x. x \<in> set xs \<Longrightarrow> P a \<Longrightarrow> P (f a x)) \<Longrightarrow> P (foldl f a xs)"
  by (induction xs arbitrary: a) auto

lemma normalize_proper: "list_all proper_name (normalize_absolute p)"
  unfolding normalize_absolute_def
  by (rule foldl_inv) (auto simp: proper_name_def list_all_iff dest: path_components_name in_set_butlastD)

lemma existing_ancestor_Some:
  "existing_ancestor fs p = Some E \<Longrightarrow> \<exists>rs. p = E @ rs \<and> path_exists fs E \<and> none_below fs E rs"
proof (induction fs p rule: existing_ancestor.induct)
  case (1 fs p)
  show ?case
  proof (cases "path_exists fs p")
    case True
    with 1(2) have "E = p" by (subst (asm) existing_ancestor.simps) simp
    with True show ?thesis by (auto simp: none_below_def)
  next
    case False
    with 1(2) have p: "p \<noteq> []" "existing_ancestor fs (butlast p) = Some E"
      by (subst (asm) existing_ancestor.simps, simp split: if_splits)+
    from 1(1) [OF False p] obtain rs where rs: "butlast p = E @ rs" "path_exists fs E" "none_below fs E rs" by blast
    have eq: "p = E @ rs @ [last p]" using p(1) rs(1) by (metis append.assoc append_butlast_last_id)
    then have "none_below fs E (rs @ [last p])" using rs(3) False by (simp add: none_below_snoc)
    with eq rs(2) show ?thesis by blast
  qed
qed

lemma canonicalize_Inr:
  "canonicalize fs cwd p = Inr c \<Longrightarrow> \<exists>l. resolve_path_str fs cwd p = Inr l \<and> c = render l"
  by (auto simp: canonicalize_def map_sum_def split: sum.splits)

lemma resolve_path_str_proper:
  assumes "wf_fs fs" and "settled fs cwd" and "resolve_path_str fs cwd p = Inr l"
  shows "settled fs l" and "list_all proper_name l"
proof -
  have "settled fs (link_base cwd p)"
    using assms(1,2) by (simp add: link_base_def settled_root)
  moreover obtain m where "resolve link_budget fs (link_base cwd p) (split_slash p) = Inr (m, l)"
    using assms(3) by (auto simp: resolve_path_str_def map_sum_def split: if_splits sum.splits)
  ultimately show "settled fs l" using resolve_settled assms(1) by blast
  then show "list_all proper_name l" using wf_fs_proper [OF assms(1)] by (simp add: settled_def)
qed

lemma resolve_path_str_render:
  assumes "wf_fs fs" and "list_all proper_name p"
  shows "resolve_path_str fs cwd (render p) = Inr l \<longleftrightarrow> (\<exists>m. resolve link_budget fs [] p = Inr (m, l))"
  using resolve_render [OF assms, of cwd]
  by (auto simp: map_sum_def split: sum.splits)

lemma canonicalize_render:
  assumes "wf_fs fs" and "settled fs l"
  shows "canonicalize fs cwd (render l) = Inr (render l)"
proof -
  have "list_all proper_name l" using assms wf_fs_proper [of fs l] by (simp add: settled_def)
  moreover have "resolve link_budget fs [] l = Inr (link_budget, l)"
    using resolve_location [of fs "[]" l] assms by simp
  ultimately show ?thesis
    using resolve_path_str_render [OF assms(1), of l cwd l] by (simp add: canonicalize_def)
qed

lemma best_effort_render:
  assumes "wf_fs fs" and "settled fs l"
  shows "canonicalize_best_effort (fs_env env fs cwd) (render l) = render l"
  by (simp add: canonicalize_best_effort_def fs_env_def canonicalize_render [OF assms])

section \<open>Reads\<close>

lemma handle_fs_read_ok:
  assumes "handle_fs_read env fs cwd ctx params = (Inr v, au)"
  obtains raw root resolved l b where "get_str ''path'' params = Some raw"
    "resolve_for_read fs cwd raw (fc_project_root ctx) = Inr (resolved, root)"
    "enforce_fs_read (fs_env env fs cwd) (fc_profile ctx) resolved root = Allow"
    "resolve_path_str fs cwd resolved = Inr l" "fs l = Some (File b)"
    "length b \<le> fs_max_bytes_per_read (prof_fs (fc_profile ctx))" "utf8_ok b"
    "v = JObj [(''content'', JStr b)]" "au = audit_fs ctx ''fs.read'' raw resolved b"
  using assms
  by (auto simp: handle_fs_read_def Let_def metadata_len_def
      split: option.splits sum.splits prod.splits decision.splits node.splits if_splits)

text \<open>
  C21: what an agent can read. On a well-formed tree, a \<open>fs/read_text_file\<close> request that succeeds
  returns, unchanged and within the profile's size limit, the content of a file whose real
  location (all symbolic links followed) is below the canonical project root or a configured
  docs root, and which no deny glob of the profile matches by relative path, by name or by full
  path; in \<open>project_root\<close> mode it is below the project root.
\<close>
theorem agent_reads_confined:
  assumes "wf_fs fs" and "settled fs cwd" and "resolve_path_str fs cwd (fc_project_root ctx) = Inr r"
    and "handle_fs_read env fs cwd ctx params = (Inr v, au)"
  shows "\<exists>l b. fs l = Some (File b) \<and> v = JObj [(''content'', JStr b)]
    \<and> length b \<le> fs_max_bytes_per_read (prof_fs (fc_profile ctx))
    \<and> (\<exists>base \<in> fs_roots (fs_env env fs cwd) (fc_profile ctx) (render r). path_starts_with (render l) base)
    \<and> \<not> glob_deny_match (fs_env env fs cwd) (fs_deny_globs (prof_fs (fc_profile ctx))) (render l) (render r)
    \<and> (fs_read (prof_fs (fc_profile ctx)) = ''project_root'' \<longrightarrow> prefix r l)"
proof -
  let ?env = "fs_env env fs cwd"
  from handle_fs_read_ok [OF assms(4)] obtain raw root resolved l b where
    res: "resolve_for_read fs cwd raw (fc_project_root ctx) = Inr (resolved, root)"
    and ok: "enforce_fs_read ?env (fc_profile ctx) resolved root = Allow"
    and l: "resolve_path_str fs cwd resolved = Inr l" "fs l = Some (File b)"
    and b: "length b \<le> fs_max_bytes_per_read (prof_fs (fc_profile ctx))" "v = JObj [(''content'', JStr b)]"
    by metis
  from res assms(3) have root: "root = render r"
    by (auto simp: resolve_for_read_def canonicalize_def map_sum_def split: sum.splits)
  from res obtain p where p: "canonicalize fs cwd p = Inr resolved"
    by (auto simp: resolve_for_read_def split: sum.splits)
  then obtain l' where l': "resolve_path_str fs cwd p = Inr l'" "resolved = render l'"
    using canonicalize_Inr by blast
  note s' = resolve_path_str_proper [OF assms(1,2) l'(1)]
  have "l' = l"
    using l(1) canonicalize_render [OF assms(1) s'(1), of cwd] l'(2) resolve_path_str_render [OF assms(1) s'(2)]
      resolve_location [of fs "[]" l'] assms(1) s'(1) by auto
  with l' s' have resolved: "resolved = render l" and s: "settled fs l" "list_all proper_name l" by auto
  note r = resolve_path_str_proper [OF assms(1-3)]
  note be = best_effort_render [OF assms(1), of _ env cwd]
  have scope: "\<exists>base \<in> fs_roots ?env (fc_profile ctx) (render r). path_starts_with (render l) base"
    and deny: "\<not> glob_deny_match ?env (fs_deny_globs (prof_fs (fc_profile ctx))) (render l) (render r)"
    using enforce_fs_read_allow [OF ok] be [OF s(1)] be [OF r(1)] by (simp_all add: resolved root)
  moreover have "prefix r l" if "fs_read (prof_fs (fc_profile ctx)) = ''project_root''"
    using scope that s(2) r be [OF r(1)] by (simp add: fs_roots_def path_starts_render)
  ultimately show ?thesis using l b by blast
qed

section \<open>Writes\<close>

text \<open>The last name of a path is a symbolic link.\<close>

definition last_is_link :: "fs \<Rightarrow> loc \<Rightarrow> bool" where
  "last_is_link fs p \<longleftrightarrow> p \<noteq> [] \<and>
     (case resolve link_budget fs [] (butlast p) of
        Inr (_, d) \<Rightarrow> (case fs (d @ [last p]) of Some (Link _) \<Rightarrow> True | _ \<Rightarrow> False)
      | Inl _ \<Rightarrow> False)"

text \<open>Where the write of a request goes when nothing stops it.\<close>

definition write_candidate :: "fs \<Rightarrow> loc \<Rightarrow> fs_context \<Rightarrow> json \<Rightarrow> loc" where
  "write_candidate fs cwd ctx params =
     normalize_absolute (resolve_path (unwrap_or [] (get_str ''path'' params))
       (case canonicalize fs cwd (fc_project_root ctx) of Inr root \<Rightarrow> root | Inl _ \<Rightarrow> []))"

lemma resolve_for_write_ok:
  assumes "wf_fs fs" and "resolve_path_str fs cwd project_root = Inr r" and "settled fs cwd"
    and "resolve_for_write fs cwd raw project_root = Inr (cand, root)"
  obtains E rs m e where "root = render r" "cand = normalize_absolute (resolve_path raw (render r))"
    "butlast cand = E @ rs" "resolve link_budget fs [] E = Inr (m, e)" "none_below fs E rs"
    "list_all proper_name cand" "prefix r e" "prefix r cand"
proof -
  have croot: "canonicalize fs cwd project_root = Inr (render r)" using assms(2) by (simp add: canonicalize_def)
  define c where "c = normalize_absolute (resolve_path raw (render r))"
  have u: "resolve_for_write fs cwd raw project_root =
     (if \<not> path_starts_with (render c) (render r) then Inl (ProfileDenied ''fs.path_escape'')
      else (case existing_ancestor fs (butlast c) of
          None \<Rightarrow> Inl (IoError NotFound)
        | Some E \<Rightarrow> (case canonicalize fs cwd (render E) of
            Inl e \<Rightarrow> Inl (IoError e)
          | Inr ce \<Rightarrow> if \<not> path_starts_with ce (render r) then Inl (ProfileDenied ''fs.path_escape'')
              else Inr (c, render r))))"
    by (simp only: resolve_for_write_def croot sum.case Let_def c_def)
  from assms(4) [unfolded u] obtain E where E1: "existing_ancestor fs (butlast c) = Some E"
      and in_root: "path_starts_with (render c) (render r)"
    by (cases "existing_ancestor fs (butlast c)") (simp_all split: if_splits)
  with assms(4) [unfolded u] obtain ce where E2: "canonicalize fs cwd (render E) = Inr ce"
    by (cases "canonicalize fs cwd (render E)") simp_all
  with assms(4) [unfolded u] E1 in_root have E: "existing_ancestor fs (butlast c) = Some E"
      "canonicalize fs cwd (render E) = Inr ce" "path_starts_with ce (render r)"
      "path_starts_with (render c) (render r)" "cand = c" "root = render r"
    by (simp_all split: if_splits)
  from existing_ancestor_Some [OF E(1)] obtain rs where rs: "butlast c = E @ rs" "none_below fs E rs" by blast
  have names: "list_all proper_name c" by (simp add: c_def normalize_proper)
  then have "list_all proper_name (butlast c)" by (auto simp: list_all_iff dest: in_set_butlastD)
  then have Enames: "list_all proper_name E" using rs(1) by simp
  from canonicalize_Inr [OF E(2)] obtain e where e: "resolve_path_str fs cwd (render E) = Inr e" "ce = render e" by blast
  then obtain m where m: "resolve link_budget fs [] E = Inr (m, e)"
    using resolve_path_str_render [OF assms(1) Enames] by blast
  have proper: "list_all proper_name r" "list_all proper_name e"
    using resolve_path_str_proper(2) [OF assms(1,3)] assms(2) e(1) by auto
  have in_root: "prefix r e" "prefix r c"
    using E(3,4) path_starts_render [OF _ proper(1)] proper(2) names e(2) by simp_all
  note c_def [folded E(5)]
  then show thesis
    by (rule that [OF E(6) _ rs(1) [folded E(5)] m rs(2) names [folded E(5)] in_root(1) in_root(2) [folded E(5)]])
qed

lemma resolve_for_write_no_root:
  "resolve_for_write fs cwd raw project_root = Inr (cand, root) \<Longrightarrow> \<exists>r. resolve_path_str fs cwd project_root = Inr r"
  by (auto simp: resolve_for_write_def canonicalize_def map_sum_def split: sum.splits)

text \<open>The outcomes of a write: refused, stopped after making directories, or done.\<close>

lemma handle_fs_write_cases:
  assumes "wf_fs fs" and "settled fs cwd" and "handle_fs_write env fs cwd ctx params = (res, fs', au)"
    and "resolve_path_str fs cwd (fc_project_root ctx) = Inr r"
  obtains (refused) e where "res = Inl e" "fs' = fs"
  | (stopped) e E m d xs where "res = Inl e" "resolve link_budget fs [] E = Inr (m, d)" "prefix r d"
      "adds_below fs d xs fs'"
  | (written) raw content E rs f m d fs1 meta where "get_str ''path'' params = Some raw"
      "get_str ''content'' params = Some content" "res = Inr (JObj [(''success'', JBool True)], meta)"
      "write_candidate fs cwd ctx params = E @ rs @ [f]" "resolve link_budget fs [] E = Inr (m, d)" "prefix r d"
      "enforce_fs_write (fs_env env fs cwd) (fc_profile ctx) (render (E @ rs @ [f])) (render r) = Allow"
      "wf_fs fs" "list_all proper_name (E @ rs @ [f])" "none_below fs E rs"
      "create_dir_all fs (E @ rs) = (Inr (), fs1)" "write_file fs1 (E @ rs @ [f]) content = Inr fs'"
      "fw_new_content meta = content" "fw_path meta = raw"
proof (cases "write_checks env fs cwd ctx params")
  case (Inl e)
  then show thesis using assms(3) refused by (auto simp: handle_fs_write_def)
next
  case (Inr rcl)
  obtain raw content cand where rcl: "rcl = (raw, content, cand)" by (cases rcl)
  with Inr obtain root where p: "get_str ''path'' params = Some raw" "get_str ''content'' params = Some content"
    and rw: "resolve_for_write fs cwd raw (fc_project_root ctx) = Inr (cand, root)"
    and ok: "enforce_fs_write (fs_env env fs cwd) (fc_profile ctx) (render cand) root = Allow"
    by (auto simp: write_checks_def Let_def split: option.splits sum.splits decision.splits if_splits)
  from resolve_for_write_ok [OF assms(1,4,2) rw] obtain E rs m e where c: "root = render r"
    "cand = normalize_absolute (resolve_path raw (render r))" "butlast cand = E @ rs"
    "resolve link_budget fs [] E = Inr (m, e)" "none_below fs E rs" "list_all proper_name cand"
    "prefix r e" "prefix r cand" by metis
  have wc: "write_candidate fs cwd ctx params = cand"
    using p(1) assms(4) by (simp add: write_candidate_def canonicalize_def c(2))
  have run: "perform_write fs ctx raw content cand = (res, fs', au)"
    using assms(3) Inr rcl by (simp add: handle_fs_write_def)
  show thesis
  proof (cases "cand = []")
    case True
    then have "res = Inl (IoError IsADirectory)" "fs' = fs"
      using run by (auto simp: perform_write_def write_file_def open_create.simps [of _ _ _ "[]"] Let_def)
    then show thesis by (rule refused)
  next
    case False
    define f where "f = last cand"
    have cand: "cand = E @ rs @ [f]" using False c(3) by (metis append.assoc append_butlast_last_id f_def)
    obtain made fs1 where mk: "create_dir_all fs (E @ rs) = (made, fs1)" by (cases "create_dir_all fs (E @ rs)")
    have "list_all proper_name (E @ rs)" using c(6) cand by simp
    from create_dir_all_adds [OF assms(1) c(4) this c(5)] mk obtain xs where xs: "adds_below fs e xs fs1" by auto
    have run': "(res, fs', au) = (case made of
           Inl e \<Rightarrow> (Inl (IoError e), fs1, [])
         | Inr _ \<Rightarrow>
            (case write_file fs1 cand content of
               Inl e \<Rightarrow> (Inl (IoError e), fs1, [])
             | Inr fs2 \<Rightarrow>
                 (Inr (JObj [(''success'', JBool True)],
                       \<lparr>fw_path = raw, fw_old_content = read_to_string fs cand, fw_new_content = content\<rparr>),
                  fs2, audit_fs ctx ''fs.write'' raw (render cand) content)))"
      using run False mk c(3) by (simp add: perform_write_def Let_def)
    show thesis
    proof (cases "\<exists>fs2. made = Inr () \<and> write_file fs1 cand content = Inr fs2")
      case True
      then obtain fs2 where w: "made = Inr ()" "write_file fs1 cand content = Inr fs2" by blast
      with run' have "res = Inr (JObj [(''success'', JBool True)],
          \<lparr>fw_path = raw, fw_old_content = read_to_string fs cand, fw_new_content = content\<rparr>)" "fs' = fs2" by auto
      with w p wc c ok mk cand show thesis by (intro written [of raw content _ E rs f m e fs1]) (auto simp: assms(1))
    next
      case False
      then have "\<exists>err. res = Inl err \<and> fs' = fs1"
        using run' by (cases made; cases "write_file fs1 cand content") auto
      then show thesis using stopped c(4,7) xs by blast
    qed
  qed
qed

text \<open>
  C20: what an agent can change. In \<open>project_root\<close> mode, whatever the request, its result and the
  links on the way, every location whose node differs afterwards lies below the real location of the
  project root, provided the last name of the path is not a dangling symbolic link. In other
  modes the same holds when the last name is no link at all.
\<close>
theorem agent_writes_confined:
  assumes "wf_fs fs" and "settled fs cwd" and "resolve_path_str fs cwd (fc_project_root ctx) = Inr r"
    and "last_is_link fs (write_candidate fs cwd ctx params) \<longrightarrow>
      fs_write (prof_fs (fc_profile ctx)) = ''project_root'' \<and> path_exists fs (write_candidate fs cwd ctx params)"
    and "handle_fs_write env fs cwd ctx params = (res, fs', au)" and "fs' l \<noteq> fs l"
  shows "prefix r l"
  using assms(1,2,5,3)
proof (cases rule: handle_fs_write_cases)
  case (refused e)
  with assms(6) show ?thesis by simp
next
  case (stopped e E m d xs)
  with adds_below_changes [OF stopped(4) assms(6)] show ?thesis by (auto intro: prefix_order.trans)
next
  case (written raw content E rs f m d fs1 meta)
  from write_lands [OF written(8,5,9,10,11,12)] obtain k where add: "adds_below fs d rs fs1"
    and k: "fs' = fs1(k \<mapsto> File content)"
    and lands: "k = d @ rs @ [f] \<or> rs = [] \<and> (\<exists>t. fs (d @ [f]) = Some (Link t))
        \<and> (\<forall>m c. resolve link_budget fs [] (E @ [f]) = Inr (m, c) \<longrightarrow> k = c)" by blast
  have "prefix r k"
    using lands
  proof
    assume "k = d @ rs @ [f]"
    with written(6) show ?thesis by (auto intro: prefix_order.trans)
  next
    assume link: "rs = [] \<and> (\<exists>t. fs (d @ [f]) = Some (Link t))
        \<and> (\<forall>m c. resolve link_budget fs [] (E @ [f]) = Inr (m, c) \<longrightarrow> k = c)"
    then have "last_is_link fs (E @ [f])"
      using written(5) by (auto simp: last_is_link_def butlast_append)
    then have mode: "fs_write (prof_fs (fc_profile ctx)) = ''project_root''" and "path_exists fs (E @ [f])"
      using assms(4) written(4) link by auto
    then obtain m' where c: "resolve link_budget fs [] (E @ [f]) = Inr (m', k)"
      using link by (auto simp: path_exists_def split: sum.splits)
    have names: "list_all proper_name (E @ [f])" using written(9) link by simp
    have s: "settled fs k" using resolve_settled [OF c assms(1) settled_root [OF assms(1)]] .
    have "canonicalize fs cwd (render (E @ [f])) = Inr (render k)"
      using resolve_path_str_render [OF assms(1) names, of cwd k] c by (simp add: canonicalize_def)
    then have "canonicalize_best_effort (fs_env env fs cwd) (render (E @ [f])) = render k"
      by (simp add: canonicalize_best_effort_def fs_env_def)
    moreover have "canonicalize_best_effort (fs_env env fs cwd) (render r) = render r"
      using best_effort_render [OF assms(1) resolve_path_str_proper(1) [OF assms(1-3)]] .
    ultimately have "path_starts_with (render k) (render r)"
      using written(7) mode link by (simp add: enforce_fs_write_def Let_def split: if_splits)
    then show ?thesis
      using path_starts_render [of k r] resolve_path_str_proper(2) [OF assms(1-3)] wf_fs_proper [OF assms(1), of k] s
      by (simp add: settled_def)
  qed
  moreover have "l = k \<or> fs1 l \<noteq> fs l" using k assms(6) by auto
  ultimately show ?thesis
    using adds_below_changes [OF add, of l] written(6) by (auto intro: prefix_order.trans)
qed

text \<open>
  A write that succeeds can be read back. Unless the last name of its path is a dangling link, the
  path of a successful \<open>fs/write_text_file\<close> afterwards holds exactly the content of the
  request, and the diff metadata records it.
\<close>
theorem agent_write_read_back:
  assumes "wf_fs fs" and "settled fs cwd" and "resolve_path_str fs cwd (fc_project_root ctx) = Inr r"
    and "last_is_link fs (write_candidate fs cwd ctx params) \<longrightarrow> path_exists fs (write_candidate fs cwd ctx params)"
    and "handle_fs_write env fs cwd ctx params = (Inr (v, meta), fs', au)"
  shows "get_str ''content'' params = Some (fw_new_content meta)
    \<and> read_file fs' (write_candidate fs cwd ctx params) = Inr (fw_new_content meta)"
  using assms(1,2,5,3)
proof (cases rule: handle_fs_write_cases)
  case (written raw content E rs f m d fs1 meta')
  let ?p = "E @ rs @ [f]"
  from write_lands [OF written(8,5,9,10,11,12)] obtain k where add: "adds_below fs d rs fs1"
    and k: "fs' = fs1(k \<mapsto> File content)"
    and lands: "k = d @ rs @ [f] \<or> rs = [] \<and> (\<exists>t. fs (d @ [f]) = Some (Link t))
        \<and> (\<forall>m c. resolve link_budget fs [] (E @ [f]) = Inr (m, c) \<longrightarrow> k = c)" by blast
  have f: "proper_name f" using written(9) by simp
  from written(12) obtain l0 where oc: "open_create link_budget fs1 [] ?p = Inr l0" "fs' = fs1(l0 \<mapsto> File content)"
    by (auto simp: write_file_def split: sum.splits)
  then obtain k1 d1 where d1: "resolve link_budget fs1 [] (E @ rs) = Inr (k1, d1)" "fs1 d1 = Some Dir"
    by (subst (asm) open_create.simps) (auto simp: butlast_append split: sum.splits if_splits prod.splits)
  have "\<exists>k2. resolve link_budget fs' [] ?p = Inr (k2, l0)"
  proof (cases "fs1 (d1 @ [f])")
    case None
    then have l0: "l0 = d1 @ [f]"
      using oc(1) d1 f by (subst (asm) open_create.simps) (simp add: butlast_append proper_name_def)
    with None have "fs1 \<subseteq>\<^sub>m fs'" by (auto simp: oc(2) map_le_def)
    from resolve_mono [OF this d1(1)] have "resolve link_budget fs' [] (E @ rs) = Inr (k1, d1)" .
    moreover have "fs' d1 = Some Dir" using d1(2) by (simp add: oc(2) l0)
    ultimately show ?thesis
      using resolve_append [of link_budget fs' "[]" "E @ rs" "[f]"] f
      by (simp add: oc(2) l0 proper_name_def)
  next
    case (Some nd)
    have rs: "rs = []"
    proof (rule ccontr)
      assume "rs \<noteq> []"
      with add have a: "fs1 = add_dirs fs d rs" "fs d = Some Dir" "fs (d @ [hd rs]) = None"
        by (auto simp: adds_below_def)
      have "list_all proper_name rs" using written(9) by simp
      note added = added_resolve [OF assms(1) written(5) this a(2,3) \<open>rs \<noteq> []\<close>]
      from added(3) d1(1) a(1) have "d1 = d @ rs" by simp
      with added(4) [of f] a(1) Some show False by simp
    qed
    then have fs1: "fs1 = fs" "d1 = d" using add d1(1) written(5) by (auto simp: adds_below_def)
    have "path_exists fs (E @ [f])"
    proof (cases nd)
      case (Link t)
      then have "last_is_link fs (E @ [f])"
        using written(5) Some fs1 by (auto simp: last_is_link_def butlast_append)
      then show ?thesis using assms(4) written(4) rs by simp
    next
      case Dir
      with oc(1) rs d1 f Some fs1 show ?thesis
        by (subst (asm) open_create.simps) (simp add: butlast_append proper_name_def)
    next
      case (File b)
      with resolve_append [of link_budget fs "[]" E "[f]"] written(5) Some fs1 d1(2) f show ?thesis
        by (simp add: path_exists_def proper_name_def)
    qed
    then obtain k2 c where c: "resolve link_budget fs [] (E @ [f]) = Inr (k2, c)"
      by (auto simp: path_exists_def split: sum.splits)
    from open_create_existing [OF c, of l0] oc(1) rs fs1 have "l0 = c" by simp
    moreover have "settled fs c" using resolve_settled [OF c assms(1) settled_root [OF assms(1)]] .
    moreover have "fs l0 = None \<or> (\<exists>b. fs l0 = Some (File b))" using open_create_node [OF oc(1)] fs1 by simp
    ultimately have "\<exists>b k2. fs1 l0 = Some (File b) \<and> resolve link_budget fs1 [] ?p = Inr (k2, l0)"
      using c rs fs1 by (auto simp: settled_def)
    then show ?thesis using resolve_file_upd [of fs1 l0] by (auto simp: oc(2))
  qed
  then have "read_file fs' ?p = Inr content" by (auto simp: read_file_def oc(2))
  with written show ?thesis by auto
qed simp_all

section \<open>Examples\<close>

lemma wf_fs_list:
  assumes "map_of m [] = Some Dir"
    and "list_all (\<lambda>(k, _). k = [] \<or> (map_of m (butlast k) = Some Dir \<and> proper_name (last k))) m"
  shows "wf_fs (map_of m)"
  unfolding wf_fs_def
proof (intro conjI allI impI)
  fix l c assume "map_of m (l @ [c]) \<noteq> None"
  then obtain x where "(l @ [c], x) \<in> set m" by (auto dest: map_of_SomeD)
  with assms(2) show "map_of m l = Some Dir" and "proper_name c"
    by (fastforce simp: list_all_iff)+
qed (rule assms(1))

definition example_fs :: fs where
  "example_fs = map_of [([], Dir), ([''srv''], Dir), ([''srv'', ''app''], Dir), ([''srv'', ''app'', ''a.md''], File ''hello''),
     ([''etc''], Dir), ([''etc'', ''x.md''], File ''outside''),
     ([''srv'', ''app'', ''out''], Link ''/etc/new''), ([''srv'', ''app'', ''x.md''], Link ''/etc/x.md'')]"

lemma example_fs_wf: "wf_fs example_fs"
  unfolding example_fs_def by (rule wf_fs_list) (simp_all add: proper_name_def)

definition example_ctx :: "string \<Rightarrow> fs_context" where
  "example_ctx mode = build_fs_context
     (example_profile\<lparr>prof_class := Executor,
        prof_fs := fs_config_default\<lparr>fs_write := mode, fs_scoped_paths := [''*'']\<rparr>\<rparr>) ''/srv/app'' ''s'' ''a'' False"

text \<open>A matcher for which every pattern matches everything; no deny globs are configured.\<close>

definition star_env :: enforce_env where
  "star_env = \<lparr>env_glob = \<lambda>pat. Some (\<lambda>t. True), env_globset_ok = \<lambda>_. True, env_regex = \<lambda>_. None,
     env_canonicalize = \<lambda>_. None, env_home = None\<rparr>"

definition write_request :: "string \<Rightarrow> json" where
  "write_request path = JObj [(''path'', JStr path), (''content'', JStr ''text'')]"

lemmas fs_eval = resolve_path_str_def link_budget_def link_base_def str_simps example_fs_def render_def path_exists_def
  canonicalize_def existing_ancestor.simps resolve_path_def path_join_def normalize_absolute_def path_components_def
  trivial_piece_def path_starts_with_def resolve_for_write_def

lemma example_root: "resolve_path_str example_fs [] ''/srv/app'' = Inr [''srv'', ''app'']"
  by (simp add: fs_eval)

lemma example_writes:
  "resolve_for_write example_fs [] ''out'' ''/srv/app'' = Inr ([''srv'', ''app'', ''out''], ''/srv/app'')"
  "resolve_for_write example_fs [] ''x.md'' ''/srv/app'' = Inr ([''srv'', ''app'', ''x.md''], ''/srv/app'')"
  "resolve_for_write example_fs [] ''n.md'' ''/srv/app'' = Inr ([''srv'', ''app'', ''n.md''], ''/srv/app'')"
  by (simp_all add: fs_eval)

lemma example_settled: "settled example_fs []"
  using settled_root [OF example_fs_wf] .

lemma example_checks:
  "write_checks star_env example_fs [] (example_ctx ''project_root'') (write_request ''out'')
     = Inr (''out'', ''text'', [''srv'', ''app'', ''out''])"
  "write_checks star_env example_fs [] (example_ctx ''scoped_paths'') (write_request ''x.md'')
     = Inr (''x.md'', ''text'', [''srv'', ''app'', ''x.md''])"
  "write_checks star_env example_fs [] (example_ctx ''project_root'') (write_request ''x.md'')
     = Inl (ProfileDenied ''profile.fs_out_of_scope'')"
  "write_checks star_env example_fs [] (example_ctx ''project_root'') (write_request ''n.md'')
     = Inr (''n.md'', ''text'', [''srv'', ''app'', ''n.md''])"
  by (simp_all add: write_checks_def write_request_def get_defs example_ctx_def build_fs_context_def example_writes
      enforce_fs_write_def glob_deny_match_def globs_match_def path_eval fs_env_def fs_config_default_def
      example_profile_def star_env_def fs_eval split: option.split)

lemma example_dirs: "create_dir_all example_fs [''srv'', ''app''] = (Inr (), example_fs)"
  by (simp add: create_dir_all.simps [of _ "[''srv'', ''app'']"] create_dir_def is_dir_def fs_eval)

lemma example_landing:
  "write_file example_fs [''srv'', ''app'', ''out''] b = Inr (example_fs([''etc'', ''new''] \<mapsto> File b))"
  "write_file example_fs [''srv'', ''app'', ''x.md''] b = Inr (example_fs([''etc'', ''x.md''] \<mapsto> File b))"
  "write_file example_fs [''srv'', ''app'', ''n.md''] b = Inr (example_fs([''srv'', ''app'', ''n.md''] \<mapsto> File b))"
  by (simp_all add: write_file_def open_create.simps [of _ _ _ "[_, _, _]"] open_create.simps [of _ _ _ "[[], _, _]"] fs_eval)

lemmas example_writes_eval = handle_fs_write_def example_checks perform_write_def example_dirs example_landing

text \<open>
  The last name of the path may be a dangling link: no existing target betrays where the write
  goes, the path itself lies in the project, and the file is created outside.
\<close>

lemma dangling_link_escapes:
  "fst (snd (handle_fs_write star_env example_fs [] (example_ctx ''project_root'') (write_request ''out'')))
     [''etc'', ''new''] = Some (File ''text'')"
  by (simp add: example_writes_eval)

text \<open>
  In \<open>scoped_paths\<close> mode a path outside the root is matched by its full name, so a broad pattern
  lets a link inside the project overwrite a file outside.
\<close>

lemma scoped_link_escapes:
  "fst (snd (handle_fs_write star_env example_fs [] (example_ctx ''scoped_paths'') (write_request ''x.md'')))
     [''etc'', ''x.md''] = Some (File ''text'')"
  by (simp add: example_writes_eval)

lemma project_root_link_refused:
  "fst (handle_fs_write star_env example_fs [] (example_ctx ''project_root'') (write_request ''x.md''))
     = Inl (ProfileDenied ''profile.fs_out_of_scope'')"
  by (simp add: example_writes_eval)

lemma agent_writes_confined_witness:
  "prefix [''srv'', ''app''] [''srv'', ''app'', ''n.md'']"
proof -
  obtain res fs' au where run: "handle_fs_write star_env example_fs [] (example_ctx ''project_root'') (write_request ''n.md'')
      = (res, fs', au)" by (cases rule: prod_cases3)
  then have "fs' [''srv'', ''app'', ''n.md''] = Some (File ''text'')"
    by (auto simp: example_writes_eval)
  then have changed: "fs' [''srv'', ''app'', ''n.md''] \<noteq> example_fs [''srv'', ''app'', ''n.md'']"
    by (simp add: example_fs_def)
  have root: "resolve_path_str example_fs [] (fc_project_root (example_ctx ''project_root'')) = Inr [''srv'', ''app'']"
    using example_root by (simp add: example_ctx_def build_fs_context_def)
  have "\<not> last_is_link example_fs (write_candidate example_fs [] (example_ctx ''project_root'') (write_request ''n.md''))"
    by (simp add: last_is_link_def write_candidate_def example_ctx_def build_fs_context_def write_request_def get_defs fs_eval)
  then show ?thesis
    using agent_writes_confined [OF example_fs_wf example_settled root _ run changed] by blast
qed

lemma agent_write_read_back_witness:
  "fst (snd (handle_fs_write star_env example_fs [] (example_ctx ''project_root'') (write_request ''n.md'')))
     [''srv'', ''app'', ''n.md''] = Some (File ''text'')
   \<and> (\<exists>fs' b. read_file fs' [''srv'', ''app'', ''n.md''] = Inr b)"
proof -
  obtain v meta fs' au where run: "handle_fs_write star_env example_fs [] (example_ctx ''project_root'') (write_request ''n.md'')
      = (Inr (v, meta), fs', au)" by (auto simp: example_writes_eval)
  have root: "resolve_path_str example_fs [] (fc_project_root (example_ctx ''project_root'')) = Inr [''srv'', ''app'']"
    using example_root by (simp add: example_ctx_def build_fs_context_def)
  have cand: "write_candidate example_fs [] (example_ctx ''project_root'') (write_request ''n.md'') = [''srv'', ''app'', ''n.md'']"
    by (simp add: write_candidate_def example_ctx_def build_fs_context_def write_request_def get_defs fs_eval)
  then have "\<not> last_is_link example_fs (write_candidate example_fs [] (example_ctx ''project_root'') (write_request ''n.md''))"
    by (simp add: last_is_link_def fs_eval)
  with agent_write_read_back [OF example_fs_wf example_settled root _ run] cand show ?thesis
    by (auto simp: example_writes_eval)
qed

lemma agent_reads_confined_witness:
  "\<exists>l b. example_fs l = Some (File b) \<and> prefix [''srv'', ''app''] l"
proof -
  let ?ctx = "example_ctx ''none''"
  have root: "resolve_path_str example_fs [] (fc_project_root ?ctx) = Inr [''srv'', ''app'']"
    using example_root by (simp add: example_ctx_def build_fs_context_def)
  have "resolve_for_read example_fs [] ''a.md'' ''/srv/app'' = Inr (''/srv/app/a.md'', ''/srv/app'')"
    by (simp add: resolve_for_read_def fs_eval)
  moreover have "resolve_path_str example_fs [] ''/srv/app/a.md'' = Inr [''srv'', ''app'', ''a.md'']"
    by (simp add: fs_eval)
  moreover have "enforce_fs_read (fs_env star_env example_fs []) (fc_profile ?ctx) ''/srv/app/a.md'' ''/srv/app'' = Allow"
    by (simp add: enforce_fs_read_def example_ctx_def build_fs_context_def glob_deny_match_def globs_match_def path_eval
      fs_env_def fs_config_default_def default_fs_read_def example_profile_def star_env_def fs_eval split: option.split)
  ultimately obtain v au where "handle_fs_read star_env example_fs [] ?ctx (JObj [(''path'', JStr ''a.md'')]) = (Inr v, au)"
    by (auto simp: handle_fs_read_def get_defs example_ctx_def build_fs_context_def example_fs_def metadata_len_def
        fs_config_default_def example_profile_def byte_in_def)
  from agent_reads_confined [OF example_fs_wf example_settled root this] show ?thesis
    by (auto simp: example_ctx_def build_fs_context_def fs_config_default_def default_fs_read_def)
qed

end
