(* ===== verification/Terminal.thy ===== *)
theory Terminal
  imports Enforce Wire
begin

text \<open>
  \<open>agent_runtime/acp/terminal_handler.rs\<close>: the \<open>terminal/*\<close> requests of an ACP agent. A terminal
  is served by three tasks (two readers that share one output budget through compare-and-swap, and
  the owner of the child process) and by the handlers of the agent's requests; all of them
  interleave. Process creation, the bytes the child writes and its exit are inputs. The wording
  of denials is left out; the lossy UTF-8 decoding of the standard library is the parameter
  \<open>lossy\<close>.
\<close>

section \<open>Errors\<close>

datatype terminal_error =
    TMissingParam string
  | TProfileDenied string
  | TNotFound string
  | TSpawnFailed
  | TAlreadyExited
  | TTimeout
  | TMethodNotFound string

fun t_jsonrpc_code :: "terminal_error \<Rightarrow> int" where
  "t_jsonrpc_code (TMissingParam _) = -32602"
| "t_jsonrpc_code _ = -32603"

fun t_mutation_error_code :: "terminal_error \<Rightarrow> string" where
  "t_mutation_error_code (TMissingParam _) = ''terminal.missing_param''"
| "t_mutation_error_code (TProfileDenied code) = code"
| "t_mutation_error_code TSpawnFailed = ''terminal.spawn_failed''"
| "t_mutation_error_code TAlreadyExited = ''terminal.already_exited''"
| "t_mutation_error_code TTimeout = ''terminal.timeout''"
| "t_mutation_error_code (TNotFound _) = ''terminal.not_found''"
| "t_mutation_error_code (TMethodNotFound _) = ''terminal.method_not_found''"

section \<open>One terminal\<close>

text \<open>
  A reader: its buffer, the chunk it is appending with the budget it has loaded, and (for the
  statements) everything it has read.
\<close>

record reader =
  rd_buf :: string
  rd_pending :: "(string \<times> nat option) option"
  rd_seen :: string

datatype output_stream = Stdout | Stderr

record terminal =
  tm_id :: string
  tm_command :: string
  tm_args :: "string list"
  tm_timeout_ms :: nat
  tm_cap :: nat
  tm_out :: reader
  tm_err :: reader
  tm_total :: nat
  tm_truncated :: bool
  tm_exit :: "int option"
  tm_killed :: bool
  tm_timed_out :: bool
  tm_kills :: nat
  tm_signalled :: bool
  tm_done :: bool

definition reader_new :: reader where
  "reader_new = \<lparr>rd_buf = [], rd_pending = None, rd_seen = []\<rparr>"

definition terminal_new :: "string \<Rightarrow> string \<Rightarrow> string list \<Rightarrow> shell_allow_entry \<Rightarrow> terminal" where
  "terminal_new i command args entry =
     \<lparr>tm_id = i, tm_command = command, tm_args = args, tm_timeout_ms = sh_timeout_ms entry,
      tm_cap = sh_output_cap_bytes entry, tm_out = reader_new, tm_err = reader_new, tm_total = 0,
      tm_truncated = False, tm_exit = None, tm_killed = False, tm_timed_out = False, tm_kills = 0,
      tm_signalled = False, tm_done = False\<rparr>"

fun get_reader :: "output_stream \<Rightarrow> terminal \<Rightarrow> reader" where
  "get_reader Stdout t = tm_out t"
| "get_reader Stderr t = tm_err t"

fun put_reader :: "output_stream \<Rightarrow> reader \<Rightarrow> terminal \<Rightarrow> terminal" where
  "put_reader Stdout r t = t\<lparr>tm_out := r\<rparr>"
| "put_reader Stderr r t = t\<lparr>tm_err := r\<rparr>"

text \<open>A read returned a non-empty chunk; the reader is busy with it until it is appended.\<close>

definition read_chunk :: "output_stream \<Rightarrow> string \<Rightarrow> terminal \<Rightarrow> terminal" where
  "read_chunk s chunk t =
     (let r = get_reader s t in
      if rd_pending r \<noteq> None \<or> chunk = [] then t
      else put_reader s (r\<lparr>rd_pending := Some (chunk, None), rd_seen := rd_seen r @ chunk\<rparr>) t)"

text \<open>One atomic step of \<open>append_capped_output\<close>: the load, or the compare-and-swap after it.\<close>

definition append_step :: "output_stream \<Rightarrow> terminal \<Rightarrow> terminal" where
  "append_step s t =
     (let r = get_reader s t; stop = r\<lparr>rd_pending := None\<rparr> in
      case rd_pending r of
        None \<Rightarrow> t
      | Some (chunk, None) \<Rightarrow>
          if chunk = [] then put_reader s stop t
          else if tm_cap t = 0 then (put_reader s stop t)\<lparr>tm_truncated := True\<rparr>
          else if tm_total t \<ge> tm_cap t then (put_reader s stop t)\<lparr>tm_truncated := True\<rparr>
          else put_reader s (r\<lparr>rd_pending := Some (chunk, Some (tm_total t))\<rparr>) t
      | Some (chunk, Some used) \<Rightarrow>
          if tm_total t = used then
            (let accepted = min (length chunk) (tm_cap t - used) in
             (put_reader s (stop\<lparr>rd_buf := rd_buf r @ take accepted chunk\<rparr>) t)
               \<lparr>tm_total := used + accepted, tm_truncated := (tm_truncated t \<or> accepted < length chunk)\<rparr>)
          else put_reader s (r\<lparr>rd_pending := Some (chunk, None)\<rparr>) t)"

text \<open>What \<open>child.wait()\<close> yields: a status with or without a code, or an error.\<close>

datatype wait_result = Status "int option" | WaitFailed

definition exit_of :: "terminal \<Rightarrow> wait_result \<Rightarrow> int" where
  "exit_of t w =
     (case w of
        Status (Some c) \<Rightarrow> c
      | Status None \<Rightarrow> if tm_timed_out t then 124 else if tm_killed t then 137 else -1
      | WaitFailed \<Rightarrow> -1)"

text \<open>The branches of the owner task's \<open>select!\<close>.\<close>

definition owner_exit :: "wait_result \<Rightarrow> terminal \<Rightarrow> terminal" where
  "owner_exit w t = (if tm_done t then t else t\<lparr>tm_exit := Some (exit_of t w), tm_done := True\<rparr>)"

definition owner_kill :: "terminal \<Rightarrow> terminal" where
  "owner_kill t =
     (if tm_done t \<or> tm_kills t = 0 then t
      else t\<lparr>tm_kills := tm_kills t - 1, tm_killed := True, tm_signalled := True\<rparr>)"

definition owner_timeout :: "terminal \<Rightarrow> terminal" where
  "owner_timeout t =
     (if tm_done t \<or> tm_timed_out t then t
      else t\<lparr>tm_timed_out := True, tm_killed := True, tm_signalled := True\<rparr>)"

section \<open>The terminals of a session\<close>

text \<open>A \<open>wait_for_exit\<close> call: checked the code, waits for a notification, was woken, has replied.\<close>

datatype wait_phase = Checked | Subscribed | Woken | Replied "terminal_error + int"

record waiter =
  wt_term :: nat
  wt_phase :: wait_phase

text \<open>
  \<open>tc_map\<close> is the shared map, by index into \<open>tc_terms\<close>: a terminal that left the map is still
  served by its tasks.
\<close>

record terminal_ctx =
  tc_project_root :: string
  tc_profile :: capability_profile
  tc_session_id :: string
  tc_agent_id :: string
  tc_audit :: bool
  tc_map :: "(string \<times> nat) list"
  tc_terms :: "terminal list"
  tc_waiters :: "waiter list"

definition build_terminal_context ::
  "capability_profile \<Rightarrow> string \<Rightarrow> string \<Rightarrow> string \<Rightarrow> bool \<Rightarrow> terminal_ctx" where
  "build_terminal_context profile project_root session_id agent_id audit =
     \<lparr>tc_project_root = project_root, tc_profile = profile, tc_session_id = session_id,
      tc_agent_id = agent_id, tc_audit = audit, tc_map = [], tc_terms = [], tc_waiters = []\<rparr>"

definition shell_allow_entry_for :: "capability_profile \<Rightarrow> string \<Rightarrow> terminal_error + shell_allow_entry" where
  "shell_allow_entry_for profile command =
     (case find (\<lambda>e. sh_bin e = command) (prof_shell_allowlist profile) of
        Some e \<Rightarrow> Inr e
      | None \<Rightarrow> Inl (TProfileDenied ''profile.shell_bin_not_allowed''))"

definition terminal_audit :: "terminal_ctx \<Rightarrow> string \<Rightarrow> (string \<times> json) list \<Rightarrow> audit_call list" where
  "terminal_audit ctx kind kvs =
     (if tc_audit ctx then
        [\<lparr>au_session = tc_session_id ctx, au_subsystem = kind, au_severity = ''info'',
          au_fields = JObj ((''agent_id'', JStr (tc_agent_id ctx)) # kvs)\<rparr>]
      else [])"

type_synonym terminal_reply = "(terminal_error + json) \<times> audit_call list"

text \<open>\<open>spawns\<close>: whether the operating system starts the process; \<open>ulid\<close>: the new id.\<close>

definition handle_terminal_create ::
  "enforce_env \<Rightarrow> bool \<Rightarrow> string \<Rightarrow> json \<Rightarrow> terminal_ctx \<Rightarrow> terminal_reply \<times> terminal_ctx" where
  "handle_terminal_create env spawns ulid params ctx =
     (case get_str ''command'' params of
        None \<Rightarrow> ((Inl (TMissingParam ''command''), []), ctx)
      | Some command \<Rightarrow>
          (let args = get_strs ''args'' params in
           case enforce_shell env (tc_profile ctx) command args of
             Deny code \<Rightarrow> ((Inl (TProfileDenied code), []), ctx)
           | Allow \<Rightarrow>
               (case shell_allow_entry_for (tc_profile ctx) command of
                  Inl e \<Rightarrow> ((Inl e, []), ctx)
                | Inr entry \<Rightarrow>
                    if \<not> spawns then ((Inl TSpawnFailed, []), ctx)
                    else
                      ((Inr (JObj [(''terminalId'', JStr ulid)]),
                        terminal_audit ctx ''terminal.create''
                          [(''terminal_id'', JStr ulid), (''command'', JStr command), (''args'', json_strs args)]),
                       ctx\<lparr>tc_terms := tc_terms ctx @ [terminal_new ulid command args entry],
                           tc_map := AList.update ulid (length (tc_terms ctx)) (tc_map ctx)\<rparr>))))"

text \<open>The lookup every other handler begins with.\<close>

definition find_terminal :: "json \<Rightarrow> terminal_ctx \<Rightarrow> terminal_error + string \<times> nat" where
  "find_terminal params ctx =
     (case get_str ''terminalId'' params of
        None \<Rightarrow> Inl (TMissingParam ''terminalId'')
      | Some i \<Rightarrow> (case map_of (tc_map ctx) i of None \<Rightarrow> Inl (TNotFound i) | Some k \<Rightarrow> Inr (i, k)))"

definition handle_terminal_output :: "(string \<Rightarrow> string) \<Rightarrow> json \<Rightarrow> terminal_ctx \<Rightarrow> terminal_error + json" where
  "handle_terminal_output lossy params ctx =
     (case find_terminal params ctx of
        Inl e \<Rightarrow> Inl e
      | Inr (i, k) \<Rightarrow>
          (let t = tc_terms ctx ! k; stdout = lossy (rd_buf (tm_out t)); stderr = lossy (rd_buf (tm_err t));
               out = (if stderr = [] then stdout else if stdout = [] then stderr else stdout @ stderr)
           in Inr (JObj [(''output'', JStr out), (''stdout'', JStr stdout), (''stderr'', JStr stderr),
                (''truncated'', JBool (tm_truncated t))])))"

definition exit_json :: "int \<Rightarrow> json" where
  "exit_json c = JObj [(''exitCode'', if c \<ge> 0 then JUint (nat c) else JNegInt c)]"

text \<open>\<open>wait_for_exit\<close> up to the wait: an immediate reply, or a waiter that has checked.\<close>

definition wait_check :: "json \<Rightarrow> terminal_ctx \<Rightarrow> (terminal_error + json option) \<times> terminal_ctx" where
  "wait_check params ctx =
     (case find_terminal params ctx of
        Inl e \<Rightarrow> (Inl e, ctx)
      | Inr (i, k) \<Rightarrow>
          (case tm_exit (tc_terms ctx ! k) of
             Some c \<Rightarrow> (Inr (Some (exit_json c)), ctx)
           | None \<Rightarrow> (Inr None, ctx\<lparr>tc_waiters := tc_waiters ctx @ [\<lparr>wt_term = k, wt_phase = Checked\<rparr>]\<rparr>)))"

definition wait_subscribe :: "waiter \<Rightarrow> waiter" where
  "wait_subscribe w = (if wt_phase w = Checked then w\<lparr>wt_phase := Subscribed\<rparr> else w)"

definition wait_timeout :: "waiter \<Rightarrow> waiter" where
  "wait_timeout w = (if wt_phase w = Subscribed then w\<lparr>wt_phase := Replied (Inl TTimeout)\<rparr> else w)"

definition wait_finish :: "terminal list \<Rightarrow> waiter \<Rightarrow> waiter" where
  "wait_finish ts w =
     (if wt_phase w = Woken then w\<lparr>wt_phase := Replied (Inr (unwrap_or (-1) (tm_exit (ts ! wt_term w))))\<rparr> else w)"

text \<open>\<open>notify_waiters\<close> wakes those that wait at this moment.\<close>

definition notify_waiters :: "nat \<Rightarrow> waiter list \<Rightarrow> waiter list" where
  "notify_waiters k = map (\<lambda>w. if wt_term w = k \<and> wt_phase w = Subscribed then w\<lparr>wt_phase := Woken\<rparr> else w)"

definition upd_term :: "nat \<Rightarrow> (terminal \<Rightarrow> terminal) \<Rightarrow> terminal_ctx \<Rightarrow> terminal_ctx" where
  "upd_term k f ctx =
     (if k < length (tc_terms ctx) then ctx\<lparr>tc_terms := (tc_terms ctx)[k := f (tc_terms ctx ! k)]\<rparr> else ctx)"

text \<open>The channel of an owner that has finished is closed: the message is dropped.\<close>

definition send_kill :: "terminal \<Rightarrow> terminal" where
  "send_kill t = (if tm_done t then t else t\<lparr>tm_kills := tm_kills t + 1\<rparr>)"

definition handle_terminal_kill :: "json \<Rightarrow> terminal_ctx \<Rightarrow> terminal_reply \<times> terminal_ctx" where
  "handle_terminal_kill params ctx =
     (case find_terminal params ctx of
        Inl e \<Rightarrow> ((Inl e, []), ctx)
      | Inr (i, k) \<Rightarrow>
          ((Inr (JObj [(''success'', JBool True)]), terminal_audit ctx ''terminal.kill'' [(''terminal_id'', JStr i)]),
           upd_term k send_kill ctx))"

definition handle_terminal_release :: "json \<Rightarrow> terminal_ctx \<Rightarrow> terminal_reply \<times> terminal_ctx" where
  "handle_terminal_release params ctx =
     (case find_terminal params ctx of
        Inl e \<Rightarrow> ((Inl e, []), ctx)
      | Inr (i, k) \<Rightarrow>
          ((Inr (JObj [(''success'', JBool True)]), terminal_audit ctx ''terminal.release'' [(''terminal_id'', JStr i)]),
           ctx\<lparr>tc_map := AList.delete i (tc_map ctx)\<rparr>))"

text \<open>The owner's last act, after the grace period.\<close>

definition collect_terminal :: "nat \<Rightarrow> terminal_ctx \<Rightarrow> terminal_ctx" where
  "collect_terminal k ctx =
     (if k < length (tc_terms ctx) \<and> tm_done (tc_terms ctx ! k)
      then ctx\<lparr>tc_map := AList.delete (tm_id (tc_terms ctx ! k)) (tc_map ctx)\<rparr> else ctx)"

datatype terminal_op =
    Create bool string json
  | ReadChunk nat output_stream string
  | AppendStep nat output_stream
  | OwnerExit nat wait_result
  | OwnerKill nat
  | OwnerTimeout nat
  | Collect nat
  | Kill json
  | Release json
  | WaitCheck json
  | WaitSubscribe nat
  | WaitTimeout nat
  | WaitFinish nat

definition upd_waiter :: "nat \<Rightarrow> (waiter \<Rightarrow> waiter) \<Rightarrow> terminal_ctx \<Rightarrow> terminal_ctx" where
  "upd_waiter j f ctx =
     (if j < length (tc_waiters ctx) then ctx\<lparr>tc_waiters := (tc_waiters ctx)[j := f (tc_waiters ctx ! j)]\<rparr> else ctx)"

fun terminal_step :: "enforce_env \<Rightarrow> terminal_ctx \<Rightarrow> terminal_op \<Rightarrow> terminal_ctx" where
  "terminal_step env ctx (Create spawns ulid params) = snd (handle_terminal_create env spawns ulid params ctx)"
| "terminal_step env ctx (ReadChunk k s chunk) = upd_term k (read_chunk s chunk) ctx"
| "terminal_step env ctx (AppendStep k s) = upd_term k (append_step s) ctx"
| "terminal_step env ctx (OwnerExit k w) =
     (if k < length (tc_terms ctx) \<and> \<not> tm_done (tc_terms ctx ! k)
      then (upd_term k (owner_exit w) ctx)\<lparr>tc_waiters := notify_waiters k (tc_waiters ctx)\<rparr> else ctx)"
| "terminal_step env ctx (OwnerKill k) = upd_term k owner_kill ctx"
| "terminal_step env ctx (OwnerTimeout k) = upd_term k owner_timeout ctx"
| "terminal_step env ctx (Collect k) = collect_terminal k ctx"
| "terminal_step env ctx (Kill params) = snd (handle_terminal_kill params ctx)"
| "terminal_step env ctx (Release params) = snd (handle_terminal_release params ctx)"
| "terminal_step env ctx (WaitCheck params) = snd (wait_check params ctx)"
| "terminal_step env ctx (WaitSubscribe j) = upd_waiter j wait_subscribe ctx"
| "terminal_step env ctx (WaitTimeout j) = upd_waiter j wait_timeout ctx"
| "terminal_step env ctx (WaitFinish j) = upd_waiter j (wait_finish (tc_terms ctx)) ctx"

section \<open>What one terminal keeps\<close>

definition pending_chunk :: "reader \<Rightarrow> string" where
  "pending_chunk r = (case rd_pending r of None \<Rightarrow> [] | Some (c, _) \<Rightarrow> c)"

text \<open>
  Everything read is in the buffer, lost at its end, or in hand; something is lost only once the
  budget is spent, and then the flag is up. A budget that was loaded was not spent.
\<close>

definition reader_ok :: "terminal \<Rightarrow> reader \<Rightarrow> bool" where
  "reader_ok t r \<longleftrightarrow>
     (\<exists>lost. rd_seen r = rd_buf r @ lost @ pending_chunk r \<and> (lost \<noteq> [] \<longrightarrow> tm_truncated t \<and> tm_total t = tm_cap t))
     \<and> (\<forall>c used. rd_pending r = Some (c, Some used) \<longrightarrow> used < tm_cap t)"

definition output_ok :: "terminal \<Rightarrow> bool" where
  "output_ok t \<longleftrightarrow> tm_total t = length (rd_buf (tm_out t)) + length (rd_buf (tm_err t)) \<and> tm_total t \<le> tm_cap t
     \<and> reader_ok t (tm_out t) \<and> reader_ok t (tm_err t)"

lemma reader_ok_new: "reader_ok t reader_new"
  by (simp add: reader_ok_def reader_new_def pending_chunk_def)

lemma output_ok_new: "output_ok (terminal_new i c a e)"
  by (simp add: output_ok_def reader_ok_new terminal_new_def) (simp add: reader_new_def)

lemma reader_ok_cong:
  "tm_truncated t' = tm_truncated t \<Longrightarrow> tm_total t' = tm_total t \<Longrightarrow> tm_cap t' = tm_cap t \<Longrightarrow>
   reader_ok t' r = reader_ok t r"
  by (simp add: reader_ok_def)

lemma output_ok_cong:
  assumes "tm_truncated t' = tm_truncated t" "tm_total t' = tm_total t" "tm_cap t' = tm_cap t"
    "tm_out t' = tm_out t" "tm_err t' = tm_err t"
  shows "output_ok t' = output_ok t"
  using assms by (simp add: output_ok_def reader_ok_cong [OF assms(1-3)])

lemma output_ok_flags:
  "output_ok (t\<lparr>tm_kills := n\<rparr>) = output_ok t"
  "output_ok (t\<lparr>tm_kills := n, tm_killed := a, tm_signalled := b\<rparr>) = output_ok t"
  "output_ok (t\<lparr>tm_timed_out := c, tm_killed := a, tm_signalled := b\<rparr>) = output_ok t"
  "output_ok (t\<lparr>tm_killed := a, tm_timed_out := c, tm_signalled := b\<rparr>) = output_ok t"
  "output_ok (t\<lparr>tm_killed := a, tm_kills := n, tm_signalled := b\<rparr>) = output_ok t"
  "output_ok (t\<lparr>tm_exit := e, tm_done := d\<rparr>) = output_ok t"
  by (rule output_ok_cong; simp)+

lemma get_put_reader [simp]:
  "get_reader s (put_reader s r t) = r"
  "tm_cap (put_reader s r t) = tm_cap t" "tm_total (put_reader s r t) = tm_total t"
  "tm_truncated (put_reader s r t) = tm_truncated t"
  by (cases s; simp)+

fun other_stream :: "output_stream \<Rightarrow> output_stream" where
  "other_stream Stdout = Stderr"
| "other_stream Stderr = Stdout"

lemma get_put_other [simp]: "get_reader (other_stream s) (put_reader s r t) = get_reader (other_stream s) t"
  by (cases s) simp_all

lemma output_ok_iff:
  "output_ok t \<longleftrightarrow> tm_total t = length (rd_buf (get_reader s t)) + length (rd_buf (get_reader (other_stream s) t))
     \<and> tm_total t \<le> tm_cap t \<and> reader_ok t (get_reader s t) \<and> reader_ok t (get_reader (other_stream s) t)"
  by (cases s) (auto simp: output_ok_def)

lemma read_chunk_ok:
  assumes "output_ok t"
  shows "output_ok (read_chunk s chunk t)"
proof (cases "rd_pending (get_reader s t) \<noteq> None \<or> chunk = []")
  case True
  then show ?thesis using assms by (auto simp: read_chunk_def Let_def)
next
  case False
  let ?r = "get_reader s t"
  let ?r' = "?r\<lparr>rd_pending := Some (chunk, None), rd_seen := rd_seen ?r @ chunk\<rparr>"
  have ok: "reader_ok t ?r" using assms output_ok_iff [of t s] by simp
  have "rd_pending ?r = None" using False by (cases "rd_pending ?r") auto
  with ok have "reader_ok t ?r'" by (auto simp: reader_ok_def pending_chunk_def)
  moreover have "reader_ok (put_reader s ?r' t) x = reader_ok t x" for x by (rule reader_ok_cong) simp_all
  ultimately have "output_ok (put_reader s ?r' t)"
    using assms output_ok_iff [of t s] output_ok_iff [of "put_reader s ?r' t" s] by simp
  with False show ?thesis by (simp add: read_chunk_def Let_def)
qed

text \<open>A reader that stops without storing its chunk loses it; the budget must be spent.\<close>

lemma drop_chunk_ok:
  assumes "output_ok t" and "rd_pending (get_reader s t) = Some (chunk, u)" and "tm_total t = tm_cap t"
  shows "output_ok ((put_reader s (get_reader s t\<lparr>rd_pending := None\<rparr>) t)\<lparr>tm_truncated := True\<rparr>)"
proof -
  let ?r = "get_reader s t" and ?t = "(put_reader s (get_reader s t\<lparr>rd_pending := None\<rparr>) t)\<lparr>tm_truncated := True\<rparr>"
  have get: "get_reader s ?t = ?r\<lparr>rd_pending := None\<rparr>" "get_reader (other_stream s) ?t = get_reader (other_stream s) t"
    by (cases s; simp)+
  have ok: "reader_ok t ?r" "reader_ok t (get_reader (other_stream s) t)" using assms(1) output_ok_iff [of t s] by simp_all
  from ok(1) assms(2,3) have "reader_ok ?t (?r\<lparr>rd_pending := None\<rparr>)"
    by (auto simp: reader_ok_def pending_chunk_def)
  moreover from ok(2) assms(3) have "reader_ok ?t (get_reader (other_stream s) t)"
    by (auto simp: reader_ok_def)
  ultimately show ?thesis
    using assms(1) output_ok_iff [of t s] output_ok_iff [of ?t s] get by simp
qed

lemma append_step_ok:
  assumes ok: "output_ok t"
  shows "output_ok (append_step s t)"
proof (cases "rd_pending (get_reader s t)")
  case None
  with ok show ?thesis by (simp add: append_step_def Let_def)
next
  case (Some cu)
  let ?r = "get_reader s t" and ?o = "get_reader (other_stream s) t"
  obtain chunk u where cu: "cu = (chunk, u)" by (cases cu)
  have rok: "reader_ok t ?r" "reader_ok t ?o" and tot: "tm_total t = length (rd_buf ?r) + length (rd_buf ?o)"
    "tm_total t \<le> tm_cap t"
    using ok output_ok_iff [of t s] by simp_all
  have put: "output_ok (put_reader s r' t)" if "reader_ok t r'" "rd_buf r' = rd_buf ?r" for r'
  proof -
    have "reader_ok (put_reader s r' t) x = reader_ok t x" for x by (rule reader_ok_cong) simp_all
    with that rok tot show ?thesis using output_ok_iff [of "put_reader s r' t" s] by simp
  qed
  show ?thesis
  proof (cases u)
    case None
    show ?thesis
    proof (cases "chunk = []")
      case True
      then have "reader_ok t (?r\<lparr>rd_pending := None\<rparr>)"
        using rok(1) Some cu None by (auto simp: reader_ok_def pending_chunk_def)
      from put [OF this] show ?thesis using Some cu None True by (simp add: append_step_def Let_def)
    next
      case nonempty: False
      show ?thesis
      proof (cases "tm_total t \<ge> tm_cap t")
        case True
        then have "tm_total t = tm_cap t" using tot(2) by simp
        from drop_chunk_ok [OF ok _ this] Some cu None show ?thesis
          using nonempty True by (simp add: append_step_def Let_def)
      next
        case False
        then have "reader_ok t (?r\<lparr>rd_pending := Some (chunk, Some (tm_total t))\<rparr>)"
          using rok(1) Some cu None by (auto simp: reader_ok_def pending_chunk_def)
        from put [OF this] show ?thesis
          using Some cu None nonempty False by (simp add: append_step_def Let_def)
      qed
    qed
  next
    case u: (Some used)
    show ?thesis
    proof (cases "tm_total t = used")
      case False
      have "reader_ok t (?r\<lparr>rd_pending := Some (chunk, None)\<rparr>)"
        using rok(1) Some cu u by (auto simp: reader_ok_def pending_chunk_def)
      from put [OF this] False show ?thesis using Some cu u by (simp add: append_step_def Let_def)
    next
      case True
      have lt: "used < tm_cap t" using rok(1) Some cu u by (auto simp: reader_ok_def)
      let ?acc = "min (length chunk) (tm_cap t - used)"
      let ?r' = "?r\<lparr>rd_pending := None, rd_buf := rd_buf ?r @ take ?acc chunk\<rparr>"
      define t' where "t' = (put_reader s ?r' t)\<lparr>tm_total := used + ?acc,
          tm_truncated := (tm_truncated t \<or> ?acc < length chunk)\<rparr>"
      have step: "append_step s t = t'"
        using Some cu u True by (simp add: append_step_def Let_def t'_def)
      have get: "get_reader s t' = ?r'" "get_reader (other_stream s) t' = ?o" "tm_cap t' = tm_cap t"
        "tm_total t' = used + ?acc" "tm_truncated t' = (tm_truncated t \<or> ?acc < length chunk)"
        by (cases s; simp add: t'_def)+
      have none_lost: "rd_seen ?r = rd_buf ?r @ chunk" "rd_seen ?o = rd_buf ?o @ pending_chunk ?o"
        using rok True lt Some cu by (auto simp: reader_ok_def pending_chunk_def)
      have "chunk = take ?acc chunk @ drop ?acc chunk" by simp
      then have "rd_seen ?r' = rd_buf ?r' @ drop ?acc chunk @ pending_chunk ?r'"
        using none_lost(1) by (simp add: pending_chunk_def)
      moreover have "drop ?acc chunk \<noteq> [] \<longrightarrow> tm_truncated t' \<and> tm_total t' = tm_cap t'"
        using lt by (auto simp: get min_def)
      ultimately have "reader_ok t' ?r'" unfolding reader_ok_def by auto
      moreover have "reader_ok t' ?o"
        using none_lost(2) rok(2) by (auto simp: reader_ok_def get)
      ultimately show ?thesis
        using tot True lt unfolding step output_ok_iff [of t' s] get by (auto simp: get)
    qed
  qed
qed

section \<open>What the session's terminals keep\<close>

definition allowed_terminal :: "enforce_env \<Rightarrow> capability_profile \<Rightarrow> terminal \<Rightarrow> bool" where
  "allowed_terminal env p t \<longleftrightarrow> enforce_shell env p (tm_command t) (tm_args t) = Allow
     \<and> (\<exists>e \<in> set (prof_shell_allowlist p). sh_bin e = tm_command t \<and> tm_cap t = sh_output_cap_bytes e
          \<and> tm_timeout_ms t = sh_timeout_ms e)"

definition waiter_ok :: "terminal list \<Rightarrow> waiter \<Rightarrow> bool" where
  "waiter_ok ts w \<longleftrightarrow> wt_term w < length ts
     \<and> (wt_phase w = Woken \<longrightarrow> tm_exit (ts ! wt_term w) \<noteq> None)
     \<and> (\<forall>c. wt_phase w = Replied (Inr c) \<longrightarrow> tm_exit (ts ! wt_term w) = Some c)"

definition terminals_inv :: "enforce_env \<Rightarrow> capability_profile \<Rightarrow> terminal_ctx \<Rightarrow> bool" where
  "terminals_inv env p ctx \<longleftrightarrow> tc_profile ctx = p
     \<and> (\<forall>t \<in> set (tc_terms ctx). output_ok t \<and> allowed_terminal env p t \<and> (tm_done t \<longleftrightarrow> tm_exit t \<noteq> None))
     \<and> (\<forall>w \<in> set (tc_waiters ctx). waiter_ok (tc_terms ctx) w)
     \<and> (\<forall>i k. map_of (tc_map ctx) i = Some k \<longrightarrow> k < length (tc_terms ctx))"

text \<open>A change of one terminal that keeps what the invariant says of it.\<close>

definition keeps_terminal :: "terminal \<Rightarrow> terminal \<Rightarrow> bool" where
  "keeps_terminal t t' \<longleftrightarrow> (output_ok t \<longrightarrow> output_ok t') \<and> tm_command t' = tm_command t \<and> tm_args t' = tm_args t
     \<and> tm_cap t' = tm_cap t \<and> tm_timeout_ms t' = tm_timeout_ms t \<and> tm_exit t' = tm_exit t \<and> tm_done t' = tm_done t"

lemma upd_term_inv:
  assumes "terminals_inv env p ctx" and "\<And>t. keeps_terminal t (f t)"
  shows "terminals_inv env p (upd_term k f ctx)"
proof (cases "k < length (tc_terms ctx)")
  case True
  let ?ts = "(tc_terms ctx)[k := f (tc_terms ctx ! k)]"
  have exit: "tm_exit (?ts ! j) = tm_exit (tc_terms ctx ! j)" if "j < length (tc_terms ctx)" for j
    using that assms(2) [of "tc_terms ctx ! k"] by (cases "j = k") (simp_all add: keeps_terminal_def)
  have "waiter_ok ?ts w" if "waiter_ok (tc_terms ctx) w" for w
    using that exit [of "wt_term w"] by (simp add: waiter_ok_def)
  moreover have "output_ok t \<and> allowed_terminal env p t \<and> (tm_done t \<longleftrightarrow> tm_exit t \<noteq> None)" if "t \<in> set ?ts" for t
  proof -
    have old: "tc_terms ctx ! k \<in> set (tc_terms ctx)" using True by simp
    show ?thesis
      using set_update_subset_insert [THEN subsetD, OF that] assms(1) old assms(2) [of "tc_terms ctx ! k"]
      by (auto simp: terminals_inv_def keeps_terminal_def allowed_terminal_def)
  qed
  ultimately show ?thesis
    using assms(1) True by (auto simp: upd_term_def terminals_inv_def)
qed (use assms(1) in \<open>simp add: upd_term_def\<close>)

lemma keeps_chunk: "keeps_terminal t (read_chunk s chunk t)"
  using read_chunk_ok [of t s chunk] by (cases s) (auto simp: keeps_terminal_def read_chunk_def Let_def)

lemma keeps_append: "keeps_terminal t (append_step s t)"
proof -
  have "tm_command (append_step s t) = tm_command t \<and> tm_args (append_step s t) = tm_args t
     \<and> tm_cap (append_step s t) = tm_cap t \<and> tm_timeout_ms (append_step s t) = tm_timeout_ms t
     \<and> tm_exit (append_step s t) = tm_exit t \<and> tm_done (append_step s t) = tm_done t"
    by (cases s) (auto simp: append_step_def Let_def split: option.split prod.split)
  then show ?thesis using append_step_ok [of t s] by (simp add: keeps_terminal_def)
qed

lemma keeps_owner:
  "keeps_terminal t (owner_kill t)" "keeps_terminal t (owner_timeout t)" "keeps_terminal t (send_kill t)"
  by (simp_all add: keeps_terminal_def owner_kill_def owner_timeout_def send_kill_def output_ok_flags)

lemma waiter_ok_grow: "waiter_ok ts w \<Longrightarrow> waiter_ok (ts @ xs) w"
  by (auto simp: waiter_ok_def nth_append)

lemma create_inv:
  assumes "terminals_inv env p ctx"
  shows "terminals_inv env p (snd (handle_terminal_create env spawns ulid params ctx))"
proof (cases "\<exists>command entry. get_str ''command'' params = Some command
    \<and> enforce_shell env (tc_profile ctx) command (get_strs ''args'' params) = Allow
    \<and> shell_allow_entry_for (tc_profile ctx) command = Inr entry \<and> spawns")
  case True
  then obtain command entry where c: "get_str ''command'' params = Some command"
    "enforce_shell env (tc_profile ctx) command (get_strs ''args'' params) = Allow"
    "shell_allow_entry_for (tc_profile ctx) command = Inr entry" "spawns" by blast
  let ?t = "terminal_new ulid command (get_strs ''args'' params) entry"
  from c(3) have "entry \<in> set (prof_shell_allowlist (tc_profile ctx))" "sh_bin entry = command"
    by (auto simp: shell_allow_entry_for_def split: option.splits dest: find_SomeD)
  then have "output_ok ?t \<and> allowed_terminal env p ?t \<and> (tm_done ?t \<longleftrightarrow> tm_exit ?t \<noteq> None)"
    using c(2) assms output_ok_new [of ulid command "get_strs ''args'' params" entry]
    by (auto simp: allowed_terminal_def terminal_new_def terminals_inv_def)
  moreover have "k < Suc (length (tc_terms ctx))"
    if "map_of (AList.update ulid (length (tc_terms ctx)) (tc_map ctx)) i = Some k" for i k
    using that assms by (fastforce simp: terminals_inv_def update_conv' split: if_splits)
  ultimately show ?thesis
    using c assms waiter_ok_grow by (auto simp: handle_terminal_create_def Let_def terminals_inv_def)
next
  case False
  then have "snd (handle_terminal_create env spawns ulid params ctx) = ctx"
    by (auto simp: handle_terminal_create_def Let_def split: option.split decision.split sum.split)
  with assms show ?thesis by simp
qed

lemma find_terminal_index:
  "terminals_inv env p ctx \<Longrightarrow> find_terminal params ctx = Inr (i, k) \<Longrightarrow> k < length (tc_terms ctx)"
  by (auto simp: find_terminal_def terminals_inv_def split: option.splits)

lemma forget_inv: "terminals_inv env p ctx \<Longrightarrow> terminals_inv env p (ctx\<lparr>tc_map := AList.delete i (tc_map ctx)\<rparr>)"
  by (auto simp: terminals_inv_def delete_conv' split: if_splits)

lemma upd_waiter_inv:
  assumes "terminals_inv env p ctx" and "\<And>w. waiter_ok (tc_terms ctx) w \<Longrightarrow> waiter_ok (tc_terms ctx) (f w)"
  shows "terminals_inv env p (upd_waiter j f ctx)"
proof (cases "j < length (tc_waiters ctx)")
  case True
  then have "waiter_ok (tc_terms ctx) (f (tc_waiters ctx ! j))"
    using assms by (simp add: terminals_inv_def)
  then show ?thesis
    using assms(1) True
    by (auto simp: upd_waiter_def terminals_inv_def dest!: set_update_subset_insert [THEN subsetD])
qed (use assms(1) in \<open>simp add: upd_waiter_def\<close>)

lemma owner_exit_inv:
  assumes inv: "terminals_inv env p ctx" and k: "k < length (tc_terms ctx)" and live: "\<not> tm_done (tc_terms ctx ! k)"
  shows "terminals_inv env p ((upd_term k (owner_exit w) ctx)\<lparr>tc_waiters := notify_waiters k (tc_waiters ctx)\<rparr>)"
proof -
  let ?t = "tc_terms ctx ! k" and ?ts = "(tc_terms ctx)[k := owner_exit w (tc_terms ctx ! k)]"
  have old: "?t \<in> set (tc_terms ctx)" using k by simp
  have new: "owner_exit w ?t = ?t\<lparr>tm_exit := Some (exit_of ?t w), tm_done := True\<rparr>"
    using live by (simp add: owner_exit_def)
  have none: "tm_exit ?t = None" using inv old live by (auto simp: terminals_inv_def)
  have "output_ok t \<and> allowed_terminal env p t \<and> (tm_done t \<longleftrightarrow> tm_exit t \<noteq> None)" if "t \<in> set ?ts" for t
    using set_update_subset_insert [THEN subsetD, OF that] inv old
    by (auto simp: terminals_inv_def new output_ok_flags allowed_terminal_def)
  moreover have woken: "waiter_ok ?ts (if wt_term v = k \<and> wt_phase v = Subscribed then v\<lparr>wt_phase := Woken\<rparr> else v)"
    if "v \<in> set (tc_waiters ctx)" for v
  proof -
    from that inv have ok: "waiter_ok (tc_terms ctx) v" by (auto simp: terminals_inv_def)
    show ?thesis
    proof (cases "wt_term v = k")
      case True
      with ok none k show ?thesis by (auto simp: waiter_ok_def new)
    qed (use ok in \<open>simp add: waiter_ok_def\<close>)
  qed
  have "\<forall>v \<in> set (notify_waiters k (tc_waiters ctx)). waiter_ok ?ts v"
    unfolding notify_waiters_def set_map using woken by blast
  ultimately show ?thesis
    using inv k by (simp add: terminals_inv_def upd_term_def)
qed

interpretation terms: handler_system "terminal_step env" "terminals_inv env p" for env p
proof unfold_locales
  fix ctx op assume inv: "terminals_inv env p ctx"
  have w: "waiter_ok ts v \<Longrightarrow> waiter_ok ts (wait_subscribe v)" "waiter_ok ts v \<Longrightarrow> waiter_ok ts (wait_timeout v)"
    "waiter_ok ts v \<Longrightarrow> waiter_ok ts (wait_finish ts v)" for ts v
    by (auto simp: waiter_ok_def wait_subscribe_def wait_timeout_def wait_finish_def)
  show "terminals_inv env p (terminal_step env ctx op)"
  proof (cases op)
    case (WaitCheck params)
    show ?thesis
    proof (cases "find_terminal params ctx")
      case (Inr ik)
      obtain i k where ik: "ik = (i, k)" by (cases ik)
      with Inr inv have "k < length (tc_terms ctx)" using find_terminal_index by blast
      then have "waiter_ok (tc_terms ctx) \<lparr>wt_term = k, wt_phase = Checked\<rparr>" by (simp add: waiter_ok_def)
      with inv Inr ik WaitCheck show ?thesis
        by (auto simp: wait_check_def terminals_inv_def split: option.split)
    qed (use inv WaitCheck in \<open>simp add: wait_check_def\<close>)
  next
    case (OwnerExit k w)
    with owner_exit_inv [OF inv, of k w] inv show ?thesis by auto
  next
    case (Kill params)
    with inv upd_term_inv [OF inv keeps_owner(3)] show ?thesis
      by (auto simp: handle_terminal_kill_def split: sum.split)
  next
    case (Release params)
    with inv forget_inv [OF inv] show ?thesis
      by (auto simp: handle_terminal_release_def split: sum.split)
  next
    case (Collect k)
    with inv forget_inv [OF inv] show ?thesis by (auto simp: collect_terminal_def)
  qed (use inv in \<open>simp_all add: create_inv upd_term_inv keeps_chunk keeps_append keeps_owner upd_waiter_inv w\<close>)
qed

lemma start_inv: "terminals_inv env p (build_terminal_context p root sid aid audit)"
  by (simp add: terminals_inv_def build_terminal_context_def)

abbreviation terminals_after :: "enforce_env \<Rightarrow> capability_profile \<Rightarrow> string \<Rightarrow> string \<Rightarrow> string \<Rightarrow> bool \<Rightarrow>
    terminal_op list \<Rightarrow> terminal_ctx" where
  "terminals_after env p root sid aid audit ops \<equiv>
     foldl (terminal_step env) (build_terminal_context p root sid aid audit) ops"

text \<open>
  C22: what terminals show and what they run. Under every interleaving of requests, reader steps, kills,
  timeouts and exits, each terminal runs a command line the profile's shell policy allows, with
  the limits of its allowlist entry; stdout and stderr together never exceed the output cap;
  each is a prefix of what the process wrote; and as long as the output is not marked truncated
  nothing is missing but the chunk being stored.
\<close>
theorem terminal_output_faithful:
  assumes "t \<in> set (tc_terms (terminals_after env p root sid aid audit ops))"
  shows "length (rd_buf (tm_out t)) + length (rd_buf (tm_err t)) \<le> tm_cap t
    \<and> prefix (rd_buf (get_reader s t)) (rd_seen (get_reader s t))
    \<and> (\<not> tm_truncated t \<longrightarrow> rd_seen (get_reader s t) = rd_buf (get_reader s t) @ pending_chunk (get_reader s t))
    \<and> enforce_shell env p (tm_command t) (tm_args t) = Allow
    \<and> (\<exists>e \<in> set (prof_shell_allowlist p). sh_bin e = tm_command t \<and> tm_cap t = sh_output_cap_bytes e
         \<and> tm_timeout_ms t = sh_timeout_ms e)"
proof -
  have "output_ok t" and allowed: "allowed_terminal env p t"
    using terms.run_inv [OF start_inv] assms by (auto simp: terminals_inv_def)
  then have "reader_ok t (get_reader s t)" "length (rd_buf (tm_out t)) + length (rd_buf (tm_err t)) \<le> tm_cap t"
    by (cases s; auto simp: output_ok_def)+
  then show ?thesis
    using allowed by (auto simp: reader_ok_def allowed_terminal_def)
qed

text \<open>
  A wait never makes an exit code up. Every exit code a \<open>wait_for_exit\<close> call has replied with is the
  one the owner recorded, so two calls can never report different codes.
\<close>
theorem wait_reports_exit:
  assumes "w \<in> set (tc_waiters (terminals_after env p root sid aid audit ops))" and "wt_phase w = Replied (Inr c)"
  shows "wt_term w < length (tc_terms (terminals_after env p root sid aid audit ops))
    \<and> tm_exit (tc_terms (terminals_after env p root sid aid audit ops) ! wt_term w) = Some c"
  using terms.run_inv [OF start_inv] assms by (auto simp: terminals_inv_def waiter_ok_def)

section \<open>Examples\<close>

definition echo_profile :: capability_profile where
  "echo_profile = example_profile\<lparr>prof_shell_allowlist :=
     [\<lparr>sh_bin = ''echo'', sh_args_pattern = None, sh_max_args = 2, sh_cwd_scope = None, sh_timeout_ms = 1000,
       sh_env_allowlist = [], sh_output_cap_bytes = 4\<rparr>]\<rparr>"

definition echo_request :: json where
  "echo_request = JObj [(''command'', JStr ''echo''), (''args'', JArr [JStr ''hi''])]"

definition terminal_request :: json where
  "terminal_request = JObj [(''terminalId'', JStr ''t'')]"

abbreviation echo_after :: "terminal_op list \<Rightarrow> terminal_ctx" where
  "echo_after \<equiv> terminals_after example_env echo_profile ''/p'' ''s'' ''a'' False"

lemma hi_no_meta: "\<not> contains_shell_meta ''hi''"
  by code_simp

lemmas terminal_eval = hi_no_meta build_terminal_context_def handle_terminal_create_def echo_request_def terminal_request_def
  get_strs_def get_defs echo_profile_def enforce_shell_def
  shell_allow_entry_for_def terminal_new_def reader_new_def upd_term_def read_chunk_def append_step_def
  wait_check_def find_terminal_def owner_exit_def exit_of_def notify_waiters_def upd_waiter_def wait_subscribe_def
  wait_timeout_def wait_finish_def collect_terminal_def handle_terminal_release_def handle_terminal_kill_def
  send_kill_def owner_kill_def List.map_filter_simps

text \<open>
  \<open>notify_waiters\<close> only reaches calls that already wait. A call that has checked for the code but not
  yet subscribed when the process exits runs into its timeout although the code is there.
\<close>

lemma wait_misses_exit:
  "map wt_phase (tc_waiters (echo_after [Create True ''t'' echo_request, WaitCheck terminal_request,
      OwnerExit 0 (Status (Some 0)), WaitSubscribe 0, WaitTimeout 0])) = [Replied (Inl TTimeout)]
   \<and> map tm_exit (tc_terms (echo_after [Create True ''t'' echo_request, WaitCheck terminal_request,
      OwnerExit 0 (Status (Some 0)), WaitSubscribe 0, WaitTimeout 0])) = [Some 0]"
  by (simp add: terminal_eval Let_def)

text \<open>
  \<open>terminal/release\<close> only forgets the terminal: the process is not signalled, runs on until its
  timeout, and can no longer be killed by the agent.
\<close>

lemma release_leaves_running:
  "let ctx = echo_after [Create True ''t'' echo_request, Release terminal_request] in
     map tm_signalled (tc_terms ctx) = [False] \<and> map tm_done (tc_terms ctx) = [False]
     \<and> fst (fst (handle_terminal_kill terminal_request ctx)) = Inl (TNotFound ''t'')"
  by (simp add: terminal_eval Let_def)

lemma echo_output:
  "map (\<lambda>t. (rd_buf (tm_out t), tm_truncated t)) (tc_terms (echo_after [Create True ''t'' echo_request,
     ReadChunk 0 Stdout ''hello'', AppendStep 0 Stdout, AppendStep 0 Stdout])) = [(''hell'', True)]"
  by (simp add: terminal_eval Let_def)

lemma terminal_output_faithful_witness:
  "prefix (rd_buf (tm_out (hd (tc_terms (echo_after [Create True ''t'' echo_request, ReadChunk 0 Stdout ''hello''])))))
     (rd_seen (tm_out (hd (tc_terms (echo_after [Create True ''t'' echo_request, ReadChunk 0 Stdout ''hello''])))))"
proof -
  let ?ctx = "echo_after [Create True ''t'' echo_request, ReadChunk 0 Stdout ''hello'']"
  have "tc_terms ?ctx \<noteq> []" by (simp add: terminal_eval Let_def)
  then have "hd (tc_terms ?ctx) \<in> set (tc_terms ?ctx)" by simp
  from terminal_output_faithful [OF this, of Stdout] show ?thesis by (simp only: get_reader.simps)
qed

lemma wait_reports_exit_witness:
  "map tm_exit (tc_terms (echo_after [Create True ''t'' echo_request, WaitCheck terminal_request, WaitSubscribe 0,
     OwnerExit 0 (Status (Some 7)), WaitFinish 0])) = [Some 7]"
proof -
  let ?ctx = "echo_after [Create True ''t'' echo_request, WaitCheck terminal_request, WaitSubscribe 0,
     OwnerExit 0 (Status (Some 7)), WaitFinish 0]"
  have "tc_waiters ?ctx = [\<lparr>wt_term = 0, wt_phase = Replied (Inr 7)\<rparr>]" and one: "length (tc_terms ?ctx) = 1"
    by (simp_all add: terminal_eval Let_def)
  then have "\<lparr>wt_term = 0, wt_phase = Replied (Inr 7)\<rparr> \<in> set (tc_waiters ?ctx)" by simp
  from wait_reports_exit [OF this, of 7] one show ?thesis
    by (cases "tc_terms ?ctx") simp_all
qed

end
