(* ===== verification/Canonical_Hash.thy ===== *)
theory Canonical_Hash
  imports Prelude "HOL-Library.List_Lexorder" "HOL-Library.Char_ord"
begin

text \<open>
  Canonical JSON hashing: \<open>packages/profile-core/src/hash.rs\<close> prints a value with sorted keys
  itself, \<open>apps/local-bridge/src/agent_runtime/acp/hash.rs\<close> rebuilds the value through sorted
  maps and hands it to \<open>serde_json::to_vec\<close>. Printing by \<open>serde_json\<close> and SHA-256 are
  parameters. The theorem at the end: both routes give one text, and it does not depend on the
  order in which an object lists its keys.
\<close>

section \<open>The printers\<close>

text \<open>Insertion into a \<open>BTreeMap\<close>, kept as a list sorted by key.\<close>

fun btree_insert :: "string \<Rightarrow> 'a \<Rightarrow> (string \<times> 'a) list \<Rightarrow> (string \<times> 'a) list" where
  "btree_insert k v [] = [(k, v)]"
| "btree_insert k v ((j, w) # m) =
     (if k < j then (k, v) # (j, w) # m
      else if k = j then (k, v) # m
      else (j, w) # btree_insert k v m)"

definition btree_collect :: "(string \<times> 'a) list \<Rightarrow> (string \<times> 'a) list" where
  "btree_collect m = foldl (\<lambda>acc (k, v). btree_insert k v acc) [] m"

function canon :: "json \<Rightarrow> json" where
  "canon (JObj m) = JObj (btree_collect (map (\<lambda>(k, v). (k, canon v)) m))"
| "canon (JArr xs) = JArr (map canon xs)"
| "canon JNull = JNull"
| "canon (JBool b) = JBool b"
| "canon (JUint n) = JUint n"
| "canon (JNegInt i) = JNegInt i"
| "canon (JFloat s) = JFloat s"
| "canon (JStr s) = JStr s"
  by pat_completeness auto

lemma size_snd_le: "(k, v) \<in> set m \<Longrightarrow> size v < Suc (size_list (size_prod (\<lambda>_. 0) size) m)"
  using size_list_estimation' [of "(k, v)" m "size v" "size_prod (\<lambda>_. 0) size"] by simp

termination canon
  by (relation "measure size") (auto intro!: size_snd_le size_list_estimation' simp: less_Suc_eq_le)

definition remove_keys :: "string list \<Rightarrow> json \<Rightarrow> json" where
  "remove_keys ks v = (case v of JObj m \<Rightarrow> JObj (filter (\<lambda>(k, _). k \<notin> set ks) m) | _ \<Rightarrow> v)"

text \<open>\<open>hex (sha (to_vec v))\<close> is the hexadecimal SHA-256 of the bytes \<open>serde_json\<close> prints.\<close>

definition sha256_hex_canonical_excluding ::
  "(json \<Rightarrow> string) \<Rightarrow> (string \<Rightarrow> string) \<Rightarrow> json \<Rightarrow> string list \<Rightarrow> string" where
  "sha256_hex_canonical_excluding to_vec sha_hex v top_level_drop =
     sha_hex (to_vec (canon (remove_keys top_level_drop v)))"

definition sha256_hex_canonical :: "(json \<Rightarrow> string) \<Rightarrow> (string \<Rightarrow> string) \<Rightarrow> json \<Rightarrow> string" where
  "sha256_hex_canonical to_vec sha_hex v = sha256_hex_canonical_excluding to_vec sha_hex v []"

definition tool_call_hash_drop_fields :: "string list" where
  "tool_call_hash_drop_fields = [''toolCallId'', ''status'', ''rawOutput'']"

definition sha256_bytes :: "(string \<Rightarrow> string) \<Rightarrow> string \<Rightarrow> string" where
  "sha256_bytes sha_hex bytes = ''sha256:'' @ sha_hex bytes"

definition sha256_file ::
  "(string \<Rightarrow> string) \<Rightarrow> (string \<Rightarrow> 'e + string) \<Rightarrow> string \<Rightarrow> 'e + string" where
  "sha256_file sha_hex read path =
     (case read path of Inl e \<Rightarrow> Inl e | Inr bytes \<Rightarrow> Inr (sha256_bytes sha_hex bytes))"

function canonical_json :: "(json \<Rightarrow> string) \<Rightarrow> json \<Rightarrow> string" where
  "canonical_json leaf (JObj m) =
     ''{'' @ str_join '','' (map (\<lambda>(k, t). leaf (JStr k) @ '':'' @ t)
        (sort_key fst (map (\<lambda>(k, v). (k, canonical_json leaf v)) m))) @ ''}''"
| "canonical_json leaf (JArr xs) = ''['' @ str_join '','' (map (canonical_json leaf) xs) @ '']''"
| "canonical_json leaf JNull = leaf JNull"
| "canonical_json leaf (JBool b) = leaf (JBool b)"
| "canonical_json leaf (JUint n) = leaf (JUint n)"
| "canonical_json leaf (JNegInt i) = leaf (JNegInt i)"
| "canonical_json leaf (JFloat s) = leaf (JFloat s)"
| "canonical_json leaf (JStr s) = leaf (JStr s)"
  by pat_completeness auto
termination canonical_json
  by (relation "measure (size \<circ> snd)") (auto intro!: size_snd_le size_list_estimation' simp: less_Suc_eq_le)

definition sha256_canonical_json :: "(json \<Rightarrow> string) \<Rightarrow> (string \<Rightarrow> string) \<Rightarrow> json \<Rightarrow> string" where
  "sha256_canonical_json leaf sha_hex v = sha256_bytes sha_hex (canonical_json leaf v)"

section \<open>What they are measured against\<close>

text \<open>
  A \<open>serde_json\<close> map has distinct keys (\<open>json_wf\<close>). Two values are the same up to the order of
  keys (\<open>json_sim\<close>) when their leaves agree, their arrays agree in order, and their objects have
  the same keys with related values. \<open>compact_printer\<close> is the documented output of
  \<open>serde_json::to_vec\<close> on arrays and objects: no white space, entries in the order of the map.
\<close>

fun json_leaf :: "json \<Rightarrow> bool" where
  "json_leaf (JObj m) = False"
| "json_leaf (JArr xs) = False"
| "json_leaf v = True"

inductive json_wf :: "json \<Rightarrow> bool" where
  leaf_wf: "json_leaf v \<Longrightarrow> json_wf v"
| arr_wf: "list_all json_wf xs \<Longrightarrow> json_wf (JArr xs)"
| obj_wf: "distinct (map fst m) \<Longrightarrow> list_all (\<lambda>(_, v). json_wf v) m \<Longrightarrow> json_wf (JObj m)"
  monos list.pred_mono

inductive_simps json_wf_simps: "json_wf (JObj m)" "json_wf (JArr xs)"

inductive json_sim :: "json \<Rightarrow> json \<Rightarrow> bool" where
  leaf_sim: "json_leaf v \<Longrightarrow> json_sim v v"
| arr_sim: "list_all2 json_sim xs ys \<Longrightarrow> json_sim (JArr xs) (JArr ys)"
| obj_sim: "\<forall>k. rel_option json_sim (map_of m k) (map_of n k) \<Longrightarrow> json_sim (JObj m) (JObj n)"
  monos list.rel_mono option.rel_mono

definition compact_printer :: "(json \<Rightarrow> string) \<Rightarrow> bool" where
  "compact_printer p \<longleftrightarrow>
     (\<forall>xs. p (JArr xs) = ''['' @ str_join '','' (map p xs) @ '']'')
     \<and> (\<forall>m. p (JObj m) = ''{'' @ str_join '','' (map (\<lambda>(k, v). p (JStr k) @ '':'' @ p v) m) @ ''}'')"

section \<open>Sorted maps\<close>

lemma btree_insert_keys [simp]: "fst ` set (btree_insert k v m) = insert k (fst ` set m)"
  by (induction k v m rule: btree_insert.induct) (simp_all add: insert_commute)

lemma sorted_btree_insert:
  "sorted_wrt (<) (map fst m) \<Longrightarrow> sorted_wrt (<) (map fst (btree_insert k v m))"
proof (induction m)
  case (Cons e m)
  then show ?case by (cases e) (auto simp flip: set_map, auto)
qed simp

lemma map_of_btree_insert:
  "sorted_wrt (<) (map fst m) \<Longrightarrow> map_of (btree_insert k v m) = (map_of m)(k \<mapsto> v)"
  by (induction m) (auto simp: fun_eq_iff)

lemma btree_fold:
  "sorted_wrt (<) (map fst acc) \<Longrightarrow>
   sorted_wrt (<) (map fst (foldl (\<lambda>acc (k, v). btree_insert k v acc) acc m))
   \<and> map_of (foldl (\<lambda>acc (k, v). btree_insert k v acc) acc m) = map_of acc ++ map_of (rev m)"
proof (induction m arbitrary: acc)
  case (Cons e m)
  obtain k v where "e = (k, v)" by (cases e)
  then show ?case
    using Cons.IH [OF sorted_btree_insert [OF Cons.prems, of k v]] Cons.prems
    by (auto simp: map_of_btree_insert map_add_def fun_eq_iff split: option.splits)
qed simp

lemma sort_key_unique:
  assumes "distinct (map fst xs)" and "distinct (map fst ys)" and "map_of xs = map_of ys"
  shows "sort_key fst xs = sort_key fst ys"
proof (rule map_sorted_distinct_set_unique [of fst])
  have "set xs = set ys" using assms map_of_inject_set by blast
  then show "set (sort_key fst xs) = set (sort_key fst ys)" by simp
  show "inj_on fst (set (sort_key fst xs) \<union> set (sort_key fst ys))"
    using assms(1) \<open>set xs = set ys\<close> by (simp add: distinct_map)
qed (use assms in \<open>simp_all add: distinct_map\<close>)

lemma sorted_wrt_distinct: "sorted_wrt (<) (ks :: 'a :: linorder list) \<Longrightarrow> sorted ks \<and> distinct ks"
  by (simp add: strict_sorted_iff)

lemma btree_collect_sort:
  assumes "distinct (map fst m)"
  shows "btree_collect m = sort_key fst m"
proof -
  let ?b = "btree_collect m"
  have s: "sorted (map fst ?b)" "distinct (map fst ?b)" and mo: "map_of ?b = map_of (rev m)"
    using btree_fold [of "[]" m] sorted_wrt_distinct unfolding btree_collect_def by auto
  have "map_of (rev m) = map_of m"
    using assms by (intro map_of_inject_set [THEN iffD2]) (auto simp: rev_map [symmetric])
  then have "sort_key fst ?b = sort_key fst m" using s mo assms by (intro sort_key_unique) auto
  moreover have "sort_key fst ?b = ?b" using s by (simp add: sort_key_id_if_sorted sorted_sort_id)
  ultimately show ?thesis by simp
qed

lemma sort_key_map_snd:
  fixes m :: "('a :: linorder \<times> 'c) list"
  shows "sort_key fst (map (\<lambda>(k, v). (k, h v)) m) = map (\<lambda>(k, v). (k, h v)) (sort_key fst m)"
proof -
  have "insort_key fst (k, h v) (map (\<lambda>(k, v). (k, h v)) xs) = map (\<lambda>(k, v). (k, h v)) (insort_key fst (k, v) xs)"
    for k v and xs :: "('a \<times> 'c) list"
    by (induction xs) auto
  then show ?thesis by (induction m) auto
qed

section \<open>Both routes hash the same text\<close>

lemma canon_print:
  assumes "compact_printer p" and "json_wf v"
  shows "p (canon v) = canonical_json p v"
  using assms(2)
proof (induction v rule: canon.induct)
  case (1 m)
  have arr: "distinct (map fst (map (\<lambda>(k, v). (k, canon v)) m))"
    using 1 by (simp add: json_wf_simps comp_def case_prod_beta)
  have val: "p (canon v) = canonical_json p v" if "(k, v) \<in> set m" for k v
    using 1 that by (auto simp: json_wf_simps list_all_iff)
  have eq: "map (\<lambda>(k, v). p (JStr k) @ '':'' @ p (canon v)) (sort_key fst m)
      = map (\<lambda>(k, v). p (JStr k) @ '':'' @ canonical_json p v) (sort_key fst m)"
    using val by (intro map_cong) auto
  have "p (canon (JObj m)) = ''{'' @ str_join '','' (map (\<lambda>(k, v). p (JStr k) @ '':'' @ p (canon v)) (sort_key fst m)) @ ''}''"
    using assms(1)
    by (simp only: compact_printer_def canon.simps btree_collect_sort [OF arr] sort_key_map_snd map_map comp_def)
      (simp add: case_prod_unfold)
  then show ?case
    unfolding eq canonical_json.simps sort_key_map_snd map_map comp_def
    by (simp add: case_prod_unfold)
next
  case (2 xs)
  then have "map (p \<circ> canon) xs = map (canonical_json p) xs"
    by (simp add: json_wf_simps list_all_iff)
  then show ?case using assms(1) by (simp add: compact_printer_def del: map_eq_conv)
qed simp_all

lemma canon_sim: "json_sim v w \<Longrightarrow> json_wf v \<Longrightarrow> json_wf w \<Longrightarrow> canon v = canon w"
proof (induction rule: json_sim.induct)
  case (arr_sim xs ys)
  then have "map canon xs = map canon ys"
    by (auto simp: json_wf_simps list_all_iff list_all2_conv_all_nth list_eq_iff_nth_eq)
  then show ?case by simp
next
  case (obj_sim m n)
  let ?c = "\<lambda>(k, v). (k, canon v)"
  have d: "distinct (map fst (map ?c m))" "distinct (map fst (map ?c n))"
    using obj_sim.prems by (simp_all add: json_wf_simps comp_def case_prod_beta)
  have wf: "json_wf v" if "map_of m k = Some v \<or> map_of n k = Some v" for k v
    using obj_sim.prems that by (auto simp: json_wf_simps list_all_iff dest!: map_of_SomeD)
  have "map_of (map ?c m) k = map_of (map ?c n) k" for k
    using obj_sim.IH [rule_format, of k] wf
    by (auto simp: map_of_map option_rel_Some1 option_rel_Some2 rel_option_iff split: option.splits)
  then have "sort_key fst (map ?c m) = sort_key fst (map ?c n)"
    using d by (intro sort_key_unique ext) auto
  with d show ?case by (simp add: btree_collect_sort)
qed simp

text \<open>
  Canonical hashing. Two JSON values that differ only in the order of the keys of their
  objects get the same \<open>args_hash\<close> from the bridge and the same hash from \<open>profile-core\<close>; and the
  two implementations hash the same text, so the bridge's digest is the one of \<open>profile-core\<close>
  without its prefix.
\<close>
theorem canonical_hash_key_order:
  assumes "compact_printer to_vec" and "json_wf v" and "json_wf w" and "json_sim v w"
  shows "sha256_hex_canonical to_vec sha_hex v = sha256_hex_canonical to_vec sha_hex w
    \<and> sha256_canonical_json to_vec sha_hex v = sha256_canonical_json to_vec sha_hex w
    \<and> sha256_canonical_json to_vec sha_hex v = ''sha256:'' @ sha256_hex_canonical to_vec sha_hex v"
proof -
  have "sha256_hex_canonical to_vec sha_hex u = sha_hex (canonical_json to_vec u)" if "json_wf u" for u
    using canon_print [OF assms(1) that]
    by (cases u) (simp_all add: sha256_hex_canonical_def sha256_hex_canonical_excluding_def remove_keys_def)
  moreover have "canonical_json to_vec v = canonical_json to_vec w"
    using canon_sim [OF assms(4,2,3)] canon_print [OF assms(1)] assms(2,3) by metis
  ultimately show ?thesis using assms(2,3) by (simp add: sha256_canonical_json_def sha256_bytes_def)
qed

function example_print :: "json \<Rightarrow> string" where
  "example_print (JObj m) = ''{'' @ str_join '','' (map (\<lambda>(k, t). k @ '':'' @ t) (map (\<lambda>(k, v). (k, example_print v)) m)) @ ''}''"
| "example_print (JArr xs) = ''['' @ str_join '','' (map example_print xs) @ '']''"
| "example_print JNull = ''null''"
| "example_print (JBool b) = (if b then ''true'' else ''false'')"
| "example_print (JUint n) = dec_digits n"
| "example_print (JNegInt i) = ''-'' @ dec_digits (nat (- i))"
| "example_print (JFloat s) = s"
| "example_print (JStr s) = s"
  by pat_completeness auto
termination example_print
  by (relation "measure size") (auto intro!: size_snd_le size_list_estimation' simp: less_Suc_eq_le)

lemma example_compact: "compact_printer example_print"
  by (simp add: compact_printer_def comp_def case_prod_unfold)

theorem canonical_hash_key_order_witness:
  "sha256_hex_canonical example_print id (JObj [(''b'', JArr [JNull]), (''a'', JUint 1)])
     = sha256_hex_canonical example_print id (JObj [(''a'', JUint 1), (''b'', JArr [JNull])])"
  using canonical_hash_key_order [of example_print "JObj [(''b'', JArr [JNull]), (''a'', JUint 1)]"
    "JObj [(''a'', JUint 1), (''b'', JArr [JNull])]" id] example_compact
  by (simp add: json_wf_simps leaf_wf leaf_sim obj_sim arr_sim)

end
