(* ===== verification/Agent_Registry.thy ===== *)
theory Agent_Registry
  imports Enforce
begin

text \<open>
  \<open>apps/local-bridge/src/agent_runtime/{config,errors,registry}.rs\<close>: which agents a session may
  be run by. The file \<open>agents.toml\<close> is looked up in four places, parsed and validated; the result
  is the registry of the running bridge. The TOML parser is the argument \<open>toml\<close> (the text to the
  raw shape of the file, or its message); files and environment variables are an \<open>agents_host\<close>.
\<close>

section \<open>Errors\<close>

datatype agent_error =
    ReadError string string
  | ParseError string string
  | UnknownKind string string string
  | EmptyCommand string
  | TimeoutTooLow string nat nat
  | DuplicateId string
  | DefaultMissing string
  | DefaultDisabled string
  | NoEnabledAgents
  | AgentNotFound string
  | InvalidId string
  | InvalidMcpServer string nat string
  | RegistryTrustViolation string

definition ticked :: "string \<Rightarrow> string" where
  "ticked s = ''`'' @ s @ ''`''"

definition em_dash :: string where
  "em_dash = map char_of [226, 128, 148 :: nat]"

text \<open>The messages of the \<open>thiserror\<close> attributes.\<close>

fun agent_error_text :: "agent_error \<Rightarrow> string" where
  "agent_error_text (ReadError path source) = ''agents config at '' @ path @ '': '' @ source"
| "agent_error_text (ParseError path message) = ''agents config at '' @ path @ '': parse error: '' @ message"
| "agent_error_text (UnknownKind path i kind) =
     ''agents config at '' @ path @ '': agent '' @ ticked i @ '' has unknown kind '' @ ticked kind
     @ '' (expected mock|vac-native|acp)''"
| "agent_error_text (EmptyCommand i) = ''agents config: agent '' @ ticked i @ '' has empty '' @ ticked ''command''"
| "agent_error_text (TimeoutTooLow i v m) =
     ''agents config: agent '' @ ticked i @ '' permission_timeout_ms = '' @ dec_digits v
     @ ''; minimum is '' @ dec_digits m"
| "agent_error_text (DuplicateId i) = ''agents config: duplicate agent id '' @ ticked i"
| "agent_error_text (DefaultMissing i) = ''agents config: default_agent '' @ ticked i @ '' is not defined''"
| "agent_error_text (DefaultDisabled i) = ''agents config: default_agent '' @ ticked i @ '' is disabled''"
| "agent_error_text NoEnabledAgents =
     ''agents config: no agents are enabled '' @ em_dash @ '' at least one must have enabled = true''"
| "agent_error_text (AgentNotFound i) = ''agents config: agent '' @ ticked i @ '' not found''"
| "agent_error_text (InvalidId i) =
     ''agents config: agent id must be non-empty and only [a-z0-9_-]; got '' @ ticked i"
| "agent_error_text (InvalidMcpServer a n reason) =
     ''agents config: agent '' @ ticked a @ '' mcp_servers['' @ dec_digits n @ ''] invalid: '' @ reason"
| "agent_error_text (RegistryTrustViolation url) =
     ''registry: URL '' @ ticked url @ '' not in trusted_url_prefixes''"

section \<open>Configuration\<close>

definition min_permission_timeout_ms :: nat where
  "min_permission_timeout_ms = 10000"

definition default_permission_timeout_ms :: nat where
  "default_permission_timeout_ms = 300000"

datatype agent_kind = MockAgent | VacNative | Acp

fun agent_kind_str :: "agent_kind \<Rightarrow> string" where
  "agent_kind_str MockAgent = ''mock''"
| "agent_kind_str VacNative = ''vac-native''"
| "agent_kind_str Acp = ''acp''"

record agent_definition =
  ad_id :: string
  ad_label :: string
  ad_kind :: agent_kind
  ad_command :: string
  ad_args :: "string list"
  ad_enabled :: bool
  ad_permission_timeout_ms :: nat
  ad_install_hint :: "string option"
  ad_mcp_servers :: "json list"

text \<open>The raw shapes of the file; an absent \<open>enabled\<close> is \<open>true\<close> (serde's default).\<close>

record agent_entry_raw =
  ar_kind :: string
  ar_label :: "string option"
  ar_command :: string
  ar_args :: "string list"
  ar_enabled :: bool
  ar_permission_timeout_ms :: "nat option"
  ar_install_hint :: "string option"
  ar_mcp_servers :: "json list"

record registry_raw =
  rr_source :: string
  rr_cache_ttl_secs :: "nat option"
  rr_trusted_url_prefixes :: "string list option"

text \<open>\<open>agents\<close> is a \<open>BTreeMap\<close>: its entries in the order of iteration.\<close>

record agents_file_raw =
  af_default_agent :: "string option"
  af_agents :: "(string \<times> agent_entry_raw) list"
  af_registry :: "registry_raw option"

datatype registry_source_kind = SourcePath string | SourceUrl string

record registry_source =
  rs_raw :: string
  rs_cache_ttl_secs :: nat
  rs_kind :: registry_source_kind
  rs_trusted_url_prefixes :: "string list"

record agents_config =
  ac_default_agent_id :: string
  ac_agents :: "agent_definition list"
  ac_registry_source :: "registry_source option"

text \<open>\<open>Path::parent\<close>: the text before the last component.\<close>

definition path_parent :: "string \<Rightarrow> string option" where
  "path_parent p =
     (let ps = split_slash p; body = trim_pieces_end (tl ps) in
      if body = [] then (if hd ps = [] then None else Some [])
      else (let up = trim_pieces_end (butlast body) in
            if up = [] \<and> hd ps = [] then Some ''/'' else Some (str_join ''/'' (hd ps # up))))"

definition is_absolute :: "string \<Rightarrow> bool" where
  "is_absolute p = starts_with p ''/''"

definition default_registry_ttl_secs :: nat where
  "default_registry_ttl_secs = 3600"

definition registry_source_from_raw :: "registry_raw \<Rightarrow> string \<Rightarrow> agent_error + registry_source" where
  "registry_source_from_raw raw source_path =
     (if trim (rr_source raw) = []
      then Inl (ParseError source_path ''[registry] source must not be empty'')
      else
        (let kind =
           (if starts_with (rr_source raw) ''http://'' \<or> starts_with (rr_source raw) ''https://''
            then SourceUrl (rr_source raw)
            else SourcePath
              (if is_absolute (rr_source raw) then rr_source raw
               else (case path_parent source_path of
                       Some d \<Rightarrow> path_join d (rr_source raw)
                     | None \<Rightarrow> rr_source raw)))
         in Inr \<lparr>rs_raw = rr_source raw,
                 rs_cache_ttl_secs = unwrap_or default_registry_ttl_secs (rr_cache_ttl_secs raw),
                 rs_kind = kind,
                 rs_trusted_url_prefixes =
                   filter (\<lambda>s. trim s \<noteq> []) (unwrap_or [] (rr_trusted_url_prefixes raw))\<rparr>))"

definition agent_id_char_ok :: "char \<Rightarrow> bool" where
  "agent_id_char_ok c \<longleftrightarrow> ascii_lower c \<or> ascii_digit c \<or> c = CHR ''-'' \<or> c = CHR ''_''"

definition validate_id :: "string \<Rightarrow> agent_error + unit" where
  "validate_id i = (if i = [] \<or> \<not> list_all agent_id_char_ok i then Inl (InvalidId i) else Inr ())"

definition is_object :: "json \<Rightarrow> bool" where
  "is_object v = (case v of JObj _ \<Rightarrow> True | _ \<Rightarrow> False)"

text \<open>What is wrong with one \<open>mcp_servers\<close> entry.\<close>

definition mcp_server_reason :: "json \<Rightarrow> string option" where
  "mcp_server_reason entry =
     (if \<not> is_object entry then Some ''entry must be a TOML table / JSON object''
      else (case get_str ''type'' entry of
              None \<Rightarrow> Some (''missing string `type` (expected '' @ [CHR 0x22] @ ''stdio'' @ [CHR 0x22]
                        @ '' or '' @ [CHR 0x22] @ ''http'' @ [CHR 0x22] @ '')'')
            | Some ty \<Rightarrow>
                if ty = ''stdio'' then
                  (if trim (unwrap_or [] (get_str ''command'' entry)) = []
                   then Some ''stdio mcp server requires non-empty `command`'' else None)
                else if ty = ''http'' then
                  (if trim (unwrap_or [] (get_str ''url'' entry)) = []
                   then Some ''http mcp server requires non-empty `url`'' else None)
                else Some (''unknown `type` '' @ ticked ty @ '' (expected '' @ [CHR 0x22] @ ''stdio'' @ [CHR 0x22]
                        @ '' or '' @ [CHR 0x22] @ ''http'' @ [CHR 0x22] @ '')'')))"

fun mcp_servers_from :: "string \<Rightarrow> nat \<Rightarrow> json list \<Rightarrow> agent_error + unit" where
  "mcp_servers_from i n [] = Inr ()"
| "mcp_servers_from i n (v # vs) =
     (case mcp_server_reason v of
        Some r \<Rightarrow> Inl (InvalidMcpServer i n r)
      | None \<Rightarrow> mcp_servers_from i (Suc n) vs)"

definition validate_mcp_servers :: "string \<Rightarrow> json list \<Rightarrow> agent_error + unit" where
  "validate_mcp_servers i servers = mcp_servers_from i 0 servers"

definition agent_kind_of :: "string \<Rightarrow> agent_kind option" where
  "agent_kind_of s =
     (if s = ''mock'' then Some MockAgent else if s = ''vac-native'' then Some VacNative
      else if s = ''acp'' then Some Acp else None)"

text \<open>One turn of the loop of \<open>from_raw\<close>: an entry of the table becomes a definition.\<close>

definition agent_from_raw ::
    "string \<Rightarrow> string list \<Rightarrow> string \<Rightarrow> agent_entry_raw \<Rightarrow> agent_error + agent_definition" where
  "agent_from_raw source_path seen i entry =
     (case validate_id i of Inl e \<Rightarrow> Inl e | Inr _ \<Rightarrow>
      if i \<in> set seen then Inl (DuplicateId i)
      else (case agent_kind_of (ar_kind entry) of
              None \<Rightarrow> Inl (UnknownKind source_path i (ar_kind entry))
            | Some kind \<Rightarrow>
                if trim (ar_command entry) = [] then Inl (EmptyCommand i)
                else (let t = unwrap_or default_permission_timeout_ms (ar_permission_timeout_ms entry) in
                      if t < min_permission_timeout_ms then Inl (TimeoutTooLow i t min_permission_timeout_ms)
                      else (case validate_mcp_servers i (ar_mcp_servers entry) of Inl e \<Rightarrow> Inl e | Inr _ \<Rightarrow>
                        Inr \<lparr>ad_id = i, ad_label = unwrap_or i (ar_label entry), ad_kind = kind,
                             ad_command = ar_command entry, ad_args = ar_args entry,
                             ad_enabled = ar_enabled entry, ad_permission_timeout_ms = t,
                             ad_install_hint = ar_install_hint entry,
                             ad_mcp_servers = ar_mcp_servers entry\<rparr>))))"

fun agents_from_raw ::
    "string \<Rightarrow> string list \<Rightarrow> (string \<times> agent_entry_raw) list \<Rightarrow> agent_error + agent_definition list" where
  "agents_from_raw source_path seen [] = Inr []"
| "agents_from_raw source_path seen ((i, entry) # rest) =
     (case agent_from_raw source_path seen i entry of Inl e \<Rightarrow> Inl e | Inr a \<Rightarrow>
      (case agents_from_raw source_path (i # seen) rest of Inl e \<Rightarrow> Inl e | Inr as \<Rightarrow> Inr (a # as)))"

definition agents_from_file :: "agents_file_raw \<Rightarrow> string \<Rightarrow> agent_error + agents_config" where
  "agents_from_file raw source_path =
     (if af_agents raw = [] then Inl (ParseError source_path ''no [agents.*] tables defined'')
      else (case agents_from_raw source_path [] (af_agents raw) of Inl e \<Rightarrow> Inl e | Inr agents \<Rightarrow>
        (case find ad_enabled agents of
           None \<Rightarrow> Inl NoEnabledAgents
         | Some first_enabled \<Rightarrow>
             (let d = unwrap_or (ad_id first_enabled) (af_default_agent raw) in
              case find (\<lambda>a. ad_id a = d) agents of
                None \<Rightarrow> Inl (DefaultMissing d)
              | Some def \<Rightarrow>
                  if \<not> ad_enabled def then Inl (DefaultDisabled d)
                  else (case af_registry raw of
                          None \<Rightarrow> Inr \<lparr>ac_default_agent_id = d, ac_agents = agents, ac_registry_source = None\<rparr>
                        | Some r \<Rightarrow>
                            (case registry_source_from_raw r source_path of Inl e \<Rightarrow> Inl e
                             | Inr s \<Rightarrow> Inr \<lparr>ac_default_agent_id = d, ac_agents = agents,
                                              ac_registry_source = Some s\<rparr>))))))"

type_synonym toml_parser = "string \<Rightarrow> string + agents_file_raw"

definition from_toml_str :: "toml_parser \<Rightarrow> string \<Rightarrow> string \<Rightarrow> agent_error + agents_config" where
  "from_toml_str toml src source_path =
     (case toml src of Inl m \<Rightarrow> Inl (ParseError source_path m) | Inr raw \<Rightarrow> agents_from_file raw source_path)"

definition embedded_default_toml :: string where
  "embedded_default_toml =
     nl @ ''default_agent = '' @ [CHR 0x22] @ ''mock'' @ [CHR 0x22] @ nl @ nl
     @ ''[agents.mock]'' @ nl
     @ ''kind = '' @ [CHR 0x22] @ ''mock'' @ [CHR 0x22] @ nl
     @ ''label = '' @ [CHR 0x22] @ ''Mock Engine'' @ [CHR 0x22] @ nl
     @ ''command = '' @ [CHR 0x22] @ ''mock-engine'' @ [CHR 0x22] @ nl
     @ ''args = ['' @ [CHR 0x22] @ ''--stdio'' @ [CHR 0x22] @ '']'' @ nl
     @ ''enabled = true'' @ nl @ ''permission_timeout_ms = 300000'' @ nl"

section \<open>The registry\<close>

datatype config_source = EnvFile string | XdgConfig string | HomeConfig string | Embedded

fun config_source_describe :: "config_source \<Rightarrow> string" where
  "config_source_describe (EnvFile p) = ''env:'' @ p"
| "config_source_describe (XdgConfig p) = ''xdg:'' @ p"
| "config_source_describe (HomeConfig p) = ''home:'' @ p"
| "config_source_describe Embedded = ''embedded''"

record agent_registry =
  ag_config :: agents_config
  ag_source :: config_source

text \<open>
  Files by path: the text with its modification time (nanoseconds), or, for what exists but
  cannot be read as text, the error. \<open>ah_exec\<close> is the metadata probe of \<open>is_executable_file\<close>.
\<close>

record agents_host =
  ah_env :: "string \<rightharpoonup> string"
  ah_files :: "string \<rightharpoonup> string + string \<times> int"
  ah_exec :: "string \<Rightarrow> bool"

definition no_such_file :: string where
  "no_such_file = ''No such file or directory (os error 2)''"

definition host_exists :: "agents_host \<Rightarrow> string \<Rightarrow> bool" where
  "host_exists h p \<longleftrightarrow> ah_files h p \<noteq> None"

definition host_read :: "agents_host \<Rightarrow> string \<Rightarrow> string + string" where
  "host_read h p =
     (case ah_files h p of None \<Rightarrow> Inl no_such_file | Some (Inl e) \<Rightarrow> Inl e | Some (Inr (t, _)) \<Rightarrow> Inr t)"

definition home_config_path :: "agents_host \<Rightarrow> string" where
  "home_config_path h =
     path_join (path_join
       (unwrap_or ''/tmp''
         (or_else (ah_env h ''XDG_CONFIG_HOME'')
           (map_option (\<lambda>x. path_join x ''.config'') (ah_env h ''HOME''))))
       ''vac-web'') ''agents.toml''"

definition load_from_path :: "toml_parser \<Rightarrow> agents_host \<Rightarrow> string \<Rightarrow> agent_error + agents_config" where
  "load_from_path toml h path =
     (case host_read h path of Inl e \<Rightarrow> Inl (ReadError path e) | Inr src \<Rightarrow> from_toml_str toml src path)"

definition with_source ::
    "config_source \<Rightarrow> agent_error + agents_config \<Rightarrow> agent_error + agent_registry" where
  "with_source src r = map_sum id (\<lambda>cfg. \<lparr>ag_config = cfg, ag_source = src\<rparr>) r"

text \<open>\<open>AgentRuntimeRegistry::load\<close>; \<open>None\<close> is the panic of the \<open>expect\<close> on the embedded default.\<close>

definition registry_load :: "toml_parser \<Rightarrow> agents_host \<Rightarrow> (agent_error + agent_registry) option" where
  "registry_load toml h =
     (case ah_env h ''VAC_WEB_AGENTS_CONFIG'' of
        Some path \<Rightarrow> Some (with_source (EnvFile path) (load_from_path toml h path))
      | None \<Rightarrow>
          (let xdg = map_option (\<lambda>dir. path_join dir ''agents.toml'') (ah_env h ''VAC_CONFIG_DIR'') in
           case filter_opt (host_exists h) xdg of
             Some path \<Rightarrow> Some (with_source (XdgConfig path) (load_from_path toml h path))
           | None \<Rightarrow>
               (let home = home_config_path h in
                if host_exists h home then Some (with_source (HomeConfig home) (load_from_path toml h home))
                else (case from_toml_str toml embedded_default_toml ''<embedded>'' of
                        Inl _ \<Rightarrow> None
                      | Inr cfg \<Rightarrow> Some (Inr \<lparr>ag_config = cfg, ag_source = Embedded\<rparr>)))))"

text \<open>\<open>None\<close> is the panic of the \<open>expect\<close>.\<close>

definition default_agent :: "agent_registry \<Rightarrow> agent_definition option" where
  "default_agent r = find (\<lambda>a. ad_id a = ac_default_agent_id (ag_config r)) (ac_agents (ag_config r))"

definition registry_get :: "agent_registry \<Rightarrow> string \<Rightarrow> agent_error + agent_definition" where
  "registry_get r i =
     (case find (\<lambda>a. ad_id a = i) (ac_agents (ag_config r)) of
        Some a \<Rightarrow> Inr a | None \<Rightarrow> Inl (AgentNotFound i))"

definition list_enabled :: "agent_registry \<Rightarrow> agent_definition list" where
  "list_enabled r = filter ad_enabled (ac_agents (ag_config r))"

definition source_path :: "agent_registry \<Rightarrow> string option" where
  "source_path r =
     (case ag_source r of EnvFile p \<Rightarrow> Some p | XdgConfig p \<Rightarrow> Some p | HomeConfig p \<Rightarrow> Some p | Embedded \<Rightarrow> None)"

definition infer_legacy_agent_kind :: "string \<Rightarrow> agent_kind" where
  "infer_legacy_agent_kind command =
     (let file = unwrap_or [] (path_file_name command) in
      if file = ''mock-engine'' \<or> str_contains file ''mock-engine'' then MockAgent else VacNative)"

definition synth_legacy_registry :: "string \<Rightarrow> agent_registry" where
  "synth_legacy_registry engine_bin =
     \<lparr>ag_config =
        \<lparr>ac_default_agent_id = ''default'',
         ac_agents = [\<lparr>ad_id = ''default'', ad_label = ''Default engine'',
                       ad_kind = infer_legacy_agent_kind engine_bin, ad_command = engine_bin,
                       ad_args = [''--stdio''], ad_enabled = True,
                       ad_permission_timeout_ms = default_permission_timeout_ms,
                       ad_install_hint = None, ad_mcp_servers = []\<rparr>],
         ac_registry_source = None\<rparr>,
      ag_source = Embedded\<rparr>"

text \<open>\<open>std::env::split_paths\<close>.\<close>

fun split_colon :: "string \<Rightarrow> string list" where
  "split_colon [] = [[]]"
| "split_colon (c # s) =
     (if c = CHR '':'' then [] # split_colon s
      else (case split_colon s of [] \<Rightarrow> [[c]] | p # ps \<Rightarrow> (c # p) # ps))"

definition is_command_installed :: "agents_host \<Rightarrow> string \<Rightarrow> bool" where
  "is_command_installed h command =
     (if command = [] then False
      else if CHR ''/'' \<in> set command \<or> CHR 0x5C \<in> set command \<or> starts_with command ''.'' \<or> is_absolute command
      then ah_exec h command
      else (case ah_env h ''PATH'' of
              None \<Rightarrow> False
            | Some path \<Rightarrow> list_ex (\<lambda>dir. dir \<noteq> [] \<and> ah_exec h (path_join dir command)) (split_colon path)))"

section \<open>What validation guarantees\<close>

definition agent_ok :: "agent_definition \<Rightarrow> bool" where
  "agent_ok a \<longleftrightarrow> ad_id a \<noteq> [] \<and> list_all agent_id_char_ok (ad_id a)
     \<and> min_permission_timeout_ms \<le> ad_permission_timeout_ms a
     \<and> list_all (\<lambda>v. mcp_server_reason v = None) (ad_mcp_servers a)"

definition registry_ok :: "agent_registry \<Rightarrow> bool" where
  "registry_ok r \<longleftrightarrow>
     distinct (map ad_id (ac_agents (ag_config r)))
     \<and> list_all agent_ok (ac_agents (ag_config r))
     \<and> (\<exists>a. default_agent r = Some a \<and> ad_enabled a)"

lemma validate_id_Inr: "validate_id i = Inr u \<longleftrightarrow> i \<noteq> [] \<and> list_all agent_id_char_ok i"
  by (simp add: validate_id_def)

lemma mcp_servers_from_Inr:
  "mcp_servers_from i n vs = Inr u \<longleftrightarrow> list_all (\<lambda>v. mcp_server_reason v = None) vs"
  by (induction i n vs rule: mcp_servers_from.induct) (auto split: option.splits)

lemma agent_from_raw_InrD:
  assumes "agent_from_raw p seen i e = Inr a"
  shows "ad_id a = i" "i \<notin> set seen" "agent_ok a" "ad_enabled a = ar_enabled e"
    "agent_kind_str (ad_kind a) = ar_kind e" "trim (ad_command a) \<noteq> []" "ad_command a = ar_command e"
proof -
  from assms have "i \<noteq> []" "list_all agent_id_char_ok i" and nseen: "i \<notin> set seen"
    by (auto simp: agent_from_raw_def validate_id_Inr split: sum.splits if_splits)
  with assms show "ad_id a = i" "i \<notin> set seen" "agent_ok a" "ad_enabled a = ar_enabled e"
    "agent_kind_str (ad_kind a) = ar_kind e" "trim (ad_command a) \<noteq> []" "ad_command a = ar_command e"
    by (auto simp: agent_from_raw_def agent_ok_def Let_def validate_mcp_servers_def mcp_servers_from_Inr
        agent_kind_of_def split: sum.splits if_splits option.splits)
qed

lemma agents_from_raw_InrD:
  "agents_from_raw p seen es = Inr as \<Longrightarrow>
     map ad_id as = map fst es \<and> distinct (map fst es) \<and> set seen \<inter> set (map fst es) = {}
     \<and> list_all agent_ok as"
proof (induction p seen es arbitrary: as rule: agents_from_raw.induct)
  case (2 p seen i e rest)
  from "2.prems" obtain a as' where a: "agent_from_raw p seen i e = Inr a"
    and r: "agents_from_raw p (i # seen) rest = Inr as'" and "as = a # as'"
    by (auto split: sum.splits)
  with "2.IH" [OF a r] agent_from_raw_InrD [OF a] show ?case by auto
qed simp

lemma agents_from_file_InrD:
  assumes "agents_from_file raw p = Inr cfg"
  shows "agents_from_raw p [] (af_agents raw) = Inr (ac_agents cfg)"
    and "\<exists>a. find (\<lambda>a. ad_id a = ac_default_agent_id cfg) (ac_agents cfg) = Some a \<and> ad_enabled a"
  using assms by (auto simp: agents_from_file_def Let_def split: sum.splits option.splits if_splits)

text \<open>
  What the parser must do with the embedded default: the constant is a valid file whose only
  agent is the mock engine.
\<close>

definition embedded_raw :: agents_file_raw where
  "embedded_raw =
     \<lparr>af_default_agent = Some ''mock'',
      af_agents = [(''mock'', \<lparr>ar_kind = ''mock'', ar_label = Some ''Mock Engine'', ar_command = ''mock-engine'',
        ar_args = [''--stdio''], ar_enabled = True, ar_permission_timeout_ms = Some 300000,
        ar_install_hint = None, ar_mcp_servers = []\<rparr>)],
      af_registry = None\<rparr>"

definition reads_embedded :: "toml_parser \<Rightarrow> bool" where
  "reads_embedded toml \<longleftrightarrow> toml embedded_default_toml = Inr embedded_raw"

lemma from_toml_str_ok:
  assumes "from_toml_str toml src p = Inr cfg"
  shows "registry_ok \<lparr>ag_config = cfg, ag_source = s\<rparr>"
proof -
  from assms obtain raw where r: "agents_from_file raw p = Inr cfg"
    by (auto simp: from_toml_str_def split: sum.splits)
  from agents_from_raw_InrD [OF agents_from_file_InrD(1) [OF r]] agents_from_file_InrD(2) [OF r]
  show ?thesis by (auto simp: registry_ok_def default_agent_def)
qed

lemma load_from_path_ok:
  "load_from_path toml h p = Inr cfg \<Longrightarrow> registry_ok \<lparr>ag_config = cfg, ag_source = s\<rparr>"
  by (auto simp: load_from_path_def split: sum.splits intro: from_toml_str_ok)

lemma with_source_ok:
  "with_source s (load_from_path toml h p) = Inr r \<Longrightarrow> registry_ok r"
  by (cases "load_from_path toml h p") (auto simp: with_source_def intro: load_from_path_ok)

theorem registry_load_ok: "registry_load toml h = Some (Inr r) \<Longrightarrow> registry_ok r"
  by (auto simp: registry_load_def Let_def split: option.splits if_splits sum.splits
      dest!: with_source_ok from_toml_str_ok)

lemma embedded_loads:
  "\<exists>cfg. agents_from_file embedded_raw ''<embedded>'' = Inr cfg"
  by (simp add: agents_from_file_def embedded_raw_def agent_from_raw_def validate_id_def agent_kind_of_def
      validate_mcp_servers_def min_permission_timeout_ms_def agent_id_char_ok_def ascii_lower_def Let_def
      trim_plain plain_char_def)

lemma registry_load_returns:
  assumes "reads_embedded toml"
  shows "registry_load toml h \<noteq> None"
proof -
  from embedded_loads obtain cfg where "agents_from_file embedded_raw ''<embedded>'' = Inr cfg" by blast
  with assms have "from_toml_str toml embedded_default_toml ''<embedded>'' = Inr cfg"
    by (simp add: from_toml_str_def reads_embedded_def)
  then show ?thesis by (auto simp: registry_load_def Let_def split: option.splits)
qed

lemma synth_legacy_ok: "registry_ok (synth_legacy_registry bin)"
  by (simp add: registry_ok_def synth_legacy_registry_def agent_ok_def default_agent_def
      agent_id_char_ok_def ascii_lower_def min_permission_timeout_ms_def default_permission_timeout_ms_def)

lemma registry_get_Inr:
  "registry_get r i = Inr a \<Longrightarrow> a \<in> set (ac_agents (ag_config r)) \<and> ad_id a = i"
  by (auto simp: registry_get_def split: option.splits dest!: find_SomeD)

lemma registry_get_iff:
  assumes "registry_ok r"
  shows "registry_get r i = Inr a \<longleftrightarrow> a \<in> set (ac_agents (ag_config r)) \<and> ad_id a = i"
proof
  assume a: "a \<in> set (ac_agents (ag_config r)) \<and> ad_id a = i"
  then have "find (\<lambda>a. ad_id a = i) (ac_agents (ag_config r)) \<noteq> None"
    by (auto simp: find_None_iff)
  then obtain b where b: "find (\<lambda>a. ad_id a = i) (ac_agents (ag_config r)) = Some b" by auto
  from find_SomeD [OF b] a assms have "b = a"
    by (auto simp: registry_ok_def distinct_map dest: inj_onD)
  with b show "registry_get r i = Inr a" by (simp add: registry_get_def)
qed (rule registry_get_Inr)

end
