(* ===== verification/Tool_Activity.thy ===== *)
theory Tool_Activity
  imports Wire Canonical_Hash Agent_Registry
begin

text \<open>
  \<open>apps/local-bridge/src/agent_runtime/acp/tool_activity.rs\<close>: what the bridge reports of an
  agent's tool calls. An update of the agent becomes one \<open>tool_activity\<close>: its id in any of the
  spellings providers use, the redacted input, the scrubbed and bounded output, and the hash that
  joins it with the approval of the same call. The secret patterns are regular expressions of a
  library, so each is a parameter: the function that replaces its matches in a string.
\<close>

section \<open>Kinds, statuses, and the activity\<close>

datatype tool_kind = ReadTool | EditTool | ExecuteTool | OtherTool

definition tool_kind_from_acp :: "string \<Rightarrow> tool_kind" where
  "tool_kind_from_acp s =
     (if s = ''read'' then ReadTool else if s = ''edit'' then EditTool
      else if s = ''execute'' then ExecuteTool else OtherTool)"

fun tool_kind_str :: "tool_kind \<Rightarrow> string" where
  "tool_kind_str ReadTool = ''read''"
| "tool_kind_str EditTool = ''edit''"
| "tool_kind_str ExecuteTool = ''execute''"
| "tool_kind_str OtherTool = ''other''"

datatype tool_status = ToolPending | ToolInProgress | ToolCompleted | ToolFailed

definition tool_status_from_acp :: "string option \<Rightarrow> tool_status" where
  "tool_status_from_acp s =
     (if s = Some ''pending'' then ToolPending
      else if s = Some ''in_progress'' \<or> s = Some ''running'' then ToolInProgress
      else if s = Some ''completed'' then ToolCompleted
      else if s = Some ''failed'' then ToolFailed
      else ToolPending)"

fun tool_status_str :: "tool_status \<Rightarrow> string" where
  "tool_status_str ToolPending = ''pending''"
| "tool_status_str ToolInProgress = ''in_progress''"
| "tool_status_str ToolCompleted = ''completed''"
| "tool_status_str ToolFailed = ''failed''"

record tool_location =
  tl_path :: string
  tl_line :: "nat option"

record tool_diff =
  td_path :: string
  td_new_text :: "string option"
  td_old_text :: "string option"

record tool_activity =
  ta_session_id :: string
  ta_agent_id :: string
  ta_agent_kind :: agent_kind
  ta_tool_call_id :: string
  ta_kind :: tool_kind
  ta_title :: "string option"
  ta_status :: tool_status
  ta_locations :: "tool_location list"
  ta_diffs :: "tool_diff list"
  ta_approval_hash :: "string option"
  ta_raw_input_hash :: "string option"
  ta_raw_input :: json
  ta_raw_output :: "json option"
  ta_approved_by :: "string option"
  ta_ts :: string
  ta_raw_shape :: "string option"
  ta_parent :: "string option"
  ta_subagent_type :: "string option"

text \<open>The derived serialisation: an absent option with \<open>skip_serializing_if\<close> leaves its key out.\<close>

definition opt_field :: "string \<Rightarrow> ('a \<Rightarrow> json) \<Rightarrow> 'a option \<Rightarrow> (string \<times> json) list" where
  "opt_field k f a = (case a of Some x \<Rightarrow> [(k, f x)] | None \<Rightarrow> [])"

definition location_json :: "tool_location \<Rightarrow> json" where
  "location_json l = JObj ((''path'', JStr (tl_path l)) # opt_field ''line'' JUint (tl_line l))"

definition diff_json :: "tool_diff \<Rightarrow> json" where
  "diff_json d = JObj ((''path'', JStr (td_path d)) # opt_field ''new_text'' JStr (td_new_text d)
     @ opt_field ''old_text'' JStr (td_old_text d))"

definition activity_json :: "tool_activity \<Rightarrow> json" where
  "activity_json a = JObj
     ([(''session_id'', JStr (ta_session_id a)), (''agent_id'', JStr (ta_agent_id a)),
       (''agent_kind'', JStr (agent_kind_str (ta_agent_kind a))),
       (''tool_call_id'', JStr (ta_tool_call_id a)), (''kind'', JStr (tool_kind_str (ta_kind a)))]
      @ opt_field ''title'' JStr (ta_title a)
      @ [(''status'', JStr (tool_status_str (ta_status a))),
         (''locations'', JArr (map location_json (ta_locations a))),
         (''diffs'', JArr (map diff_json (ta_diffs a)))]
      @ opt_field ''approval_tool_call_hash'' JStr (ta_approval_hash a)
      @ opt_field ''raw_input_hash'' JStr (ta_raw_input_hash a)
      @ [(''raw_input_redacted'', ta_raw_input a)]
      @ opt_field ''raw_output_redacted'' id (ta_raw_output a)
      @ opt_field ''approved_by_approval_id'' JStr (ta_approved_by a)
      @ [(''ts'', JStr (ta_ts a))]
      @ opt_field ''raw_shape'' JStr (ta_raw_shape a)
      @ opt_field ''parent_tool_call_id'' JStr (ta_parent a)
      @ opt_field ''subagent_type'' JStr (ta_subagent_type a))"

section \<open>Redaction and bounds\<close>

definition char_to_ascii_uppercase :: "char \<Rightarrow> char" where
  "char_to_ascii_uppercase c = (if ascii_lower c then char_of ((of_char c :: nat) - 32) else c)"

definition to_ascii_uppercase :: "string \<Rightarrow> string" where
  "to_ascii_uppercase s = map char_to_ascii_uppercase s"

definition str_ends_with :: "string \<Rightarrow> string \<Rightarrow> bool" where
  "str_ends_with s pat \<longleftrightarrow> length pat \<le> length s \<and> drop (length s - length pat) s = pat"

definition is_secret_key :: "string \<Rightarrow> bool" where
  "is_secret_key k =
     (let upper = to_ascii_uppercase k in
      upper = ''ENV'' \<or> str_contains upper ''API_KEY'' \<or> str_contains upper ''APIKEY''
      \<or> str_contains upper ''TOKEN'' \<or> str_contains upper ''SECRET'' \<or> str_ends_with upper ''_KEY''
      \<or> upper = ''KEY'' \<or> upper = ''PASSWORD'' \<or> upper = ''PASSWD'')"

function redact_raw_input :: "json \<Rightarrow> json" where
  "redact_raw_input (JObj m) =
     JObj (map (\<lambda>(k, v). (k, if is_secret_key k then JStr ''<REDACTED>'' else redact_raw_input v)) m)"
| "redact_raw_input (JArr xs) = JArr (map redact_raw_input xs)"
| "redact_raw_input JNull = JNull"
| "redact_raw_input (JBool b) = JBool b"
| "redact_raw_input (JUint n) = JUint n"
| "redact_raw_input (JNegInt i) = JNegInt i"
| "redact_raw_input (JFloat s) = JFloat s"
| "redact_raw_input (JStr s) = JStr s"
  by pat_completeness auto
termination redact_raw_input
  by (relation "measure size") (auto intro!: size_snd_le size_list_estimation' simp: less_Suc_eq_le)

definition redact_raw_output :: "(string \<Rightarrow> string) list \<Rightarrow> string \<Rightarrow> string" where
  "redact_raw_output replace_all s = foldl (\<lambda>out re. re out) s replace_all"

definition default_raw_output_cap_bytes :: nat where
  "default_raw_output_cap_bytes = 64 * 1024"

text \<open>The newline, the three bytes of the ellipsis, and the text.\<close>

definition truncation_marker :: string where
  "truncation_marker = nl @ map char_of [226, 128, 166 :: nat] @ ''[truncated by VAC bridge]''"

definition continuation_byte :: "char \<Rightarrow> bool" where
  "continuation_byte c \<longleftrightarrow> 128 \<le> (of_char c :: nat) \<and> (of_char c :: nat) < 192"

text \<open>The loop that moves \<open>end\<close> up to the next character boundary.\<close>

definition boundary_up :: "string \<Rightarrow> nat \<Rightarrow> nat" where
  "boundary_up s i = i + length (takeWhile continuation_byte (drop i s))"

definition bound_raw_output :: "string \<Rightarrow> nat \<Rightarrow> string" where
  "bound_raw_output s cap =
     (if length s \<le> cap then s else take (boundary_up s cap) s @ truncation_marker)"

section \<open>Extraction\<close>

definition raw_output_redacted :: "(string \<Rightarrow> string) list \<Rightarrow> nat \<Rightarrow> json \<Rightarrow> json" where
  "raw_output_redacted replace_all cap v =
     (case v of JStr s \<Rightarrow> JStr (bound_raw_output (redact_raw_output replace_all s) cap) | _ \<Rightarrow> v)"

definition non_empty_str :: "string \<Rightarrow> json \<Rightarrow> string option" where
  "non_empty_str k v = filter_opt (\<lambda>s. s \<noteq> []) (get_str k v)"

definition resolve_tool_call_id :: "(json \<Rightarrow> string) \<Rightarrow> json \<Rightarrow> string \<times> string option" where
  "resolve_tool_call_id sha update =
     (case non_empty_str ''toolCallId'' update of
        Some i \<Rightarrow> (i, None)
      | None \<Rightarrow>
     (case non_empty_str ''tool_call_id'' update of
        Some i \<Rightarrow> (i, Some ''gemini'')
      | None \<Rightarrow>
     (case non_empty_str ''id'' update of
        Some i \<Rightarrow> (i, Some ''gemini'')
      | None \<Rightarrow>
        (''synth_'' @ take 16 (sha (remove_keys [''status'', ''rawOutput'', ''raw_output'', ''sessionUpdate'', ''session_update''] update)),
         Some ''gemini''))))"

definition extract_diff :: "json \<Rightarrow> tool_diff option" where
  "extract_diff c =
     (if get_str ''type'' c = Some ''diff'' then
        map_option (\<lambda>p. \<lparr>td_path = p, td_new_text = get_str ''newText'' c, td_old_text = get_str ''oldText'' c\<rparr>)
          (get_str ''path'' c)
      else None)"

definition extract_diffs :: "json \<Rightarrow> tool_diff list" where
  "extract_diffs update = unwrap_or [] (map_option (List.map_filter extract_diff) (get_arr ''content'' update))"

definition extract_location :: "json \<Rightarrow> tool_location option" where
  "extract_location l =
     map_option (\<lambda>p. \<lparr>tl_path = p, tl_line = get_u64 ''line'' l\<rparr>) (get_str ''path'' l)"

definition extract_locations :: "json \<Rightarrow> tool_location list" where
  "extract_locations update =
     unwrap_or [] (map_option (List.map_filter extract_location) (get_arr ''locations'' update))"

definition tool_call_fields :: "string list" where
  "tool_call_fields = [''kind'', ''title'', ''content'', ''locations'', ''rawInput'']"

definition synthesize_tool_call :: "string \<Rightarrow> json \<Rightarrow> json option" where
  "synthesize_tool_call tcid update =
     (let kept = List.map_filter (\<lambda>f. map_option (\<lambda>v. (f, v)) (jget f update)) tool_call_fields in
      if kept = [] then None else Some (JObj ((''toolCallId'', JStr tcid) # kept)))"

definition activity_status :: "string \<Rightarrow> json \<Rightarrow> tool_status" where
  "activity_status disc update =
     (case get_str ''status'' update of
        Some s \<Rightarrow> tool_status_from_acp (Some s)
      | None \<Rightarrow> if disc = ''tool_call_update'' then ToolInProgress else ToolPending)"

text \<open>
  The codecs of the extraction: \<open>cx_sha v\<close> is \<open>sha256_hex_canonical v\<close> and
  \<open>cx_sha_excluding v ks\<close> its variant, \<open>cx_replace\<close> the secret patterns, \<open>cx_ts\<close> the instant.
\<close>

record codecs =
  cx_to_vec :: "json \<Rightarrow> string"
  cx_sha_hex :: "string \<Rightarrow> string"
  cx_replace :: "(string \<Rightarrow> string) list"

abbreviation cx_sha :: "codecs \<Rightarrow> json \<Rightarrow> string" where
  "cx_sha cx \<equiv> sha256_hex_canonical (cx_to_vec cx) (cx_sha_hex cx)"

abbreviation cx_call_hash :: "codecs \<Rightarrow> json \<Rightarrow> string" where
  "cx_call_hash cx v \<equiv> sha256_hex_canonical_excluding (cx_to_vec cx) (cx_sha_hex cx) v tool_call_hash_drop_fields"

text \<open>The activity of an update with discriminator \<open>disc\<close>.\<close>

definition observe_update ::
  "codecs \<Rightarrow> string \<Rightarrow> string \<Rightarrow> string \<Rightarrow> agent_kind \<Rightarrow> string \<Rightarrow> json \<Rightarrow> nat \<Rightarrow> tool_activity" where
  "observe_update cx ts sid agent kind_of_agent disc update cap =
     (let ids = resolve_tool_call_id (cx_sha cx) update;
          raw_input = jget ''rawInput'' update;
          redacted = unwrap_or JNull (map_option redact_raw_input raw_input)
      in
        \<lparr>ta_session_id = sid, ta_agent_id = agent, ta_agent_kind = kind_of_agent,
         ta_tool_call_id = fst ids,
         ta_kind = unwrap_or OtherTool (map_option tool_kind_from_acp (get_str ''kind'' update)),
         ta_title = (case get_str ''title'' update of Some t \<Rightarrow> Some t
                     | None \<Rightarrow> if snd ids = Some ''gemini'' then Some ''Gemini tool call'' else None),
         ta_status = activity_status disc update,
         ta_locations = extract_locations update,
         ta_diffs = extract_diffs update,
         ta_approval_hash = map_option (cx_call_hash cx) (synthesize_tool_call (fst ids) update),
         ta_raw_input_hash = map_option (cx_sha cx) (filter_opt (\<lambda>v. v \<noteq> JNull \<and> v \<noteq> JObj []) raw_input),
         ta_raw_input = redacted,
         ta_raw_output = map_option (raw_output_redacted (cx_replace cx) cap) (jget ''rawOutput'' update),
         ta_approved_by = None,
         ta_ts = ts,
         ta_raw_shape = snd ids,
         ta_parent = None,
         ta_subagent_type = get_str ''subagent_type'' redacted\<rparr>)"

definition extract_observed_tool_activity ::
  "codecs \<Rightarrow> string \<Rightarrow> string \<Rightarrow> string \<Rightarrow> agent_kind \<Rightarrow> json \<Rightarrow> nat \<Rightarrow> tool_activity option" where
  "extract_observed_tool_activity cx ts sid agent kind_of_agent params cap =
     (case jget ''update'' params of
        None \<Rightarrow> None
      | Some update \<Rightarrow>
     (case get_str ''sessionUpdate'' update of
        None \<Rightarrow> None
      | Some disc \<Rightarrow>
        if disc \<noteq> ''tool_call'' \<and> disc \<noteq> ''tool_call_update'' then None
        else Some (observe_update cx ts sid agent kind_of_agent disc update cap)))"

lemma observe_update_simps [simp]:
  "ta_session_id (observe_update cx ts sid agent k disc u cap) = sid"
  "ta_tool_call_id (observe_update cx ts sid agent k disc u cap) = fst (resolve_tool_call_id (cx_sha cx) u)"
  "ta_approval_hash (observe_update cx ts sid agent k disc u cap)
     = map_option (cx_call_hash cx) (synthesize_tool_call (fst (resolve_tool_call_id (cx_sha cx) u)) u)"
  "ta_raw_input (observe_update cx ts sid agent k disc u cap)
     = unwrap_or JNull (map_option redact_raw_input (jget ''rawInput'' u))"
  "ta_approved_by (observe_update cx ts sid agent k disc u cap) = None"
  "ta_status (observe_update cx ts sid agent k disc u cap) = activity_status disc u"
  by (simp_all add: observe_update_def Let_def)

section \<open>What redaction guarantees\<close>

lemma redact_hides: "entry_in (redact_raw_input v) k x \<Longrightarrow> is_secret_key k \<Longrightarrow> x = JStr ''<REDACTED>''"
proof (induction v arbitrary: k x rule: redact_raw_input.induct)
  case (1 m)
  from 1(2) consider (e) j y where "(j, y) \<in> set m" "j = k" "x = (if is_secret_key j then JStr ''<REDACTED>'' else redact_raw_input y)"
    | (u) j y where "(j, y) \<in> set m" "entry_in (if is_secret_key j then JStr ''<REDACTED>'' else redact_raw_input y) k x"
    by auto
  then show ?case using 1 by cases (auto split: if_splits)
qed auto

lemma redact_idem: "redact_raw_input (redact_raw_input v) = redact_raw_input v"
proof (induction v rule: redact_raw_input.induct)
  case (1 m)
  then have "(if is_secret_key k then JStr ''<REDACTED>'' else redact_raw_input (if is_secret_key k then JStr ''<REDACTED>'' else redact_raw_input y))
      = (if is_secret_key k then JStr ''<REDACTED>'' else redact_raw_input y)" if "(k, y) \<in> set m" for k y
    using that by auto
  then show ?case by (auto simp: comp_def case_prod_beta)
qed auto

lemma redact_keeps: "\<forall>k x. entry_in v k x \<longrightarrow> \<not> is_secret_key k \<Longrightarrow> redact_raw_input v = v"
proof (induction v rule: redact_raw_input.induct)
  case (1 m)
  have "(if is_secret_key k then JStr ''<REDACTED>'' else redact_raw_input y) = y" if m: "(k, y) \<in> set m" for k y
  proof -
    from 1(2) m have k: "\<not> is_secret_key k" and y: "\<forall>k x. entry_in y k x \<longrightarrow> \<not> is_secret_key k" by auto
    from 1(1) [OF m refl k y] k show ?thesis by simp
  qed
  then show ?case by (auto intro!: map_idI)
qed (auto intro!: map_idI)

text \<open>
  Redaction of tool inputs. In the input the bridge shows and stores of a tool call, every
  entry with a credential-shaped key has the placeholder as its value, however deep it is nested;
  an input without such keys is shown as it is, and redacting twice changes nothing.
\<close>
theorem raw_input_redaction:
  "(\<forall>k x. entry_in (redact_raw_input v) k x \<and> is_secret_key k \<longrightarrow> x = JStr ''<REDACTED>'')
   \<and> ((\<nexists>k x. entry_in v k x \<and> is_secret_key k) \<longrightarrow> redact_raw_input v = v)
   \<and> redact_raw_input (redact_raw_input v) = redact_raw_input v"
  using redact_hides redact_keeps redact_idem by blast

lemma example_keys: "is_secret_key ''Api_Key''" "\<not> is_secret_key ''path''"
  by code_simp+

theorem raw_input_redaction_witness:
  "redact_raw_input (JObj [(''path'', JArr [JStr ''s''])]) = JObj [(''path'', JArr [JStr ''s''])]
   \<and> the (jget ''Api_Key'' (redact_raw_input (JObj [(''Api_Key'', JUint 7)]))) = JStr ''<REDACTED>''"
proof
  have a: "\<nexists>k x. entry_in (JObj [(''path'', JArr [JStr ''s''])]) k x \<and> is_secret_key k"
    using example_keys by simp
  with raw_input_redaction [of "JObj [(''path'', JArr [JStr ''s''])]"]
  show "redact_raw_input (JObj [(''path'', JArr [JStr ''s''])]) = JObj [(''path'', JArr [JStr ''s''])]" by blast
  let ?r = "redact_raw_input (JObj [(''Api_Key'', JUint 7)])"
  have "entry_in ?r ''Api_Key'' (the (jget ''Api_Key'' ?r))" by simp
  with raw_input_redaction [of "JObj [(''Api_Key'', JUint 7)]"] example_keys(1)
  show "the (jget ''Api_Key'' ?r) = JStr ''<REDACTED>''" by blast
qed

text \<open>The value of a secret key is replaced whatever its type; an output that is not a string is passed through.\<close>

lemma non_string_secret_masked: "is_secret_key k \<Longrightarrow> redact_raw_input (JObj [(k, v)]) = JObj [(k, JStr ''<REDACTED>'')]"
  by simp

lemma structured_output_untouched: "raw_output_redacted res cap (JObj m) = JObj m"
  by (simp add: raw_output_redacted_def)

text \<open>UTF-8 has at most three continuation bytes in a row.\<close>

definition utf8_runs :: "string \<Rightarrow> bool" where
  "utf8_runs s \<longleftrightarrow> (\<forall>i. length (takeWhile continuation_byte (drop i s)) \<le> 3)"

lemma bound_raw_output_size:
  "utf8_runs s \<Longrightarrow> length (bound_raw_output s cap) \<le> cap + 3 + length truncation_marker"
  unfolding bound_raw_output_def boundary_up_def utf8_runs_def
  by (auto simp: min_def dest: spec [of _ cap] intro: order.trans)

section \<open>Joining an activity with its approval\<close>

lemma map_of_map_filter_fields:
  "distinct fs \<Longrightarrow> map_of (List.map_filter (\<lambda>f. map_option (\<lambda>v. (f, v)) (g f)) fs) k = (if k \<in> set fs then g k else None)"
  by (induction fs) (auto simp: List.map_filter_simps split: option.splits)

lemma map_fst_map_filter_fields:
  "map fst (List.map_filter (\<lambda>f. map_option (\<lambda>v. (f, v)) (g f)) fs) = filter (\<lambda>f. g f \<noteq> None) fs"
  by (induction fs) (auto simp: List.map_filter_simps split: option.splits)

lemma map_of_filter_keys: "map_of (filter (\<lambda>(k, _). k \<notin> K) m) k = (if k \<in> K then None else map_of m k)"
  by (induction m) auto

lemma json_wf_value: "json_wf (JObj m) \<Longrightarrow> map_of m k = Some v \<Longrightarrow> json_wf v"
  by (auto simp: json_wf_simps list_all_iff dest!: map_of_SomeD)

definition kept_fields :: "json \<Rightarrow> (string \<times> json) list" where
  "kept_fields update = List.map_filter (\<lambda>f. map_option (\<lambda>v. (f, v)) (jget f update)) tool_call_fields"

lemma kept_fields_map: "map_of (kept_fields update) k = (if k \<in> set tool_call_fields then jget k update else None)"
  unfolding kept_fields_def by (rule map_of_map_filter_fields) (simp add: tool_call_fields_def)

lemma kept_fields_keys: "map fst (kept_fields update) = filter (\<lambda>f. jget f update \<noteq> None) tool_call_fields"
  unfolding kept_fields_def by (rule map_fst_map_filter_fields)

lemma kept_fields_wf:
  assumes "json_wf (JObj u)"
  shows "json_wf (JObj (kept_fields (JObj u)))"
proof -
  have d: "distinct (map fst (kept_fields (JObj u)))"
    unfolding kept_fields_keys by (simp add: tool_call_fields_def)
  have "json_wf v" if "(k, v) \<in> set (kept_fields (JObj u))" for k v
    using map_of_is_SomeI [OF d that] json_wf_value [OF assms] by (simp add: kept_fields_map split: if_splits)
  with d show ?thesis by (auto simp: json_wf_simps list_all_iff)
qed

lemma kept_fields_drop: "remove_keys tool_call_hash_drop_fields (JObj ((''toolCallId'', t) # kept_fields update)) = JObj (kept_fields update)"
proof -
  have "k \<notin> set tool_call_hash_drop_fields" if "(k, v) \<in> set (kept_fields update)" for k v
  proof -
    from that have "k \<in> set (map fst (kept_fields update))" by force
    then have "k \<in> set tool_call_fields" unfolding kept_fields_keys by simp
    then show ?thesis by (auto simp: tool_call_fields_def tool_call_hash_drop_fields_def)
  qed
  then have "filter (\<lambda>(k, _). k \<notin> set tool_call_hash_drop_fields) (kept_fields update) = kept_fields update"
    by (intro filter_True) auto
  then show ?thesis by (simp add: remove_keys_def tool_call_hash_drop_fields_def)
qed

lemma remove_keys_wf: "json_wf (JObj m) \<Longrightarrow> json_wf (remove_keys ks (JObj m))"
  by (auto simp: remove_keys_def json_wf_simps list_all_iff intro: distinct_map_filter)

lemma synthesize_tool_call_kept:
  "synthesize_tool_call t u = (if kept_fields u = [] then None else Some (JObj ((''toolCallId'', JStr t) # kept_fields u)))"
  by (simp only: synthesize_tool_call_def kept_fields_def Let_def)

lemma synthesized_hash:
  assumes "json_wf (JObj m)" and "json_wf (JObj u)"
    and "\<forall>f. f \<notin> set tool_call_hash_drop_fields \<longrightarrow>
           rel_option json_sim (map_of m f) (if f \<in> set tool_call_fields then map_of u f else None)"
    and "kept_fields (JObj u) \<noteq> []"
  shows "map_option (cx_call_hash cx) (synthesize_tool_call t (JObj u)) = Some (cx_call_hash cx (JObj m))"
proof -
  have "map_of (filter (\<lambda>(k, _). k \<notin> set tool_call_hash_drop_fields) m) k = (if k \<in> set tool_call_hash_drop_fields then None else map_of m k)" for k
    by (rule map_of_filter_keys)
  moreover have "k \<notin> set tool_call_fields" if "k \<in> set tool_call_hash_drop_fields" for k
    using that by (auto simp: tool_call_fields_def tool_call_hash_drop_fields_def)
  ultimately have "json_sim (remove_keys tool_call_hash_drop_fields (JObj m)) (JObj (kept_fields (JObj u)))"
    unfolding remove_keys_def using assms(3)
    by (auto intro!: json_sim.obj_sim simp: kept_fields_map split: if_splits)
  then have "canon (remove_keys tool_call_hash_drop_fields (JObj m)) = canon (JObj (kept_fields (JObj u)))"
    by (rule canon_sim) (use assms remove_keys_wf kept_fields_wf in blast)+
  then show ?thesis
    using assms(4) unfolding synthesize_tool_call_kept sha256_hex_canonical_excluding_def
    by (simp only: kept_fields_drop if_False option.map)
qed

lemma extract_hash:
  assumes "get_str ''sessionUpdate'' u \<in> {Some ''tool_call'', Some ''tool_call_update''}"
  obtains a t where "extract_observed_tool_activity cx ts sid agent k (JObj [(''update'', u)]) cap = Some a"
    and "ta_approval_hash a = map_option (cx_call_hash cx) (synthesize_tool_call t u)"
  using assms by (auto simp: extract_observed_tool_activity_def)



end
