(* ===== verification/Approvals.thy ===== *)
theory Approvals
  imports Tool_Activity "HOL-Library.Word"
begin

text \<open>
  The permission requests of an ACP agent (\<open>apps/local-bridge/src/session/handle.rs\<close>:
  \<open>handle_permission_request\<close>, its auto-cancel timer, \<open>resolve_approval\<close>, the option pickers,
  and the cache that correlates tool activity with approvals). Requests, timers and user
  decisions run concurrently on one \<open>DashMap\<close>, so they are a machine of interleaved steps: each
  step is what one task does between two points where another task may run. Approval ids are
  given by \<open>ulid\<close>, instants by the monotonic clock \<open>ac_now\<close>; whether the channel to the agent
  still accepts a line is a choice of the step.
\<close>

section \<open>Choosing an option\<close>

datatype approval_intent = Approve | Reject

datatype approval_error =
    NotAcp
  | ApprovalNotFound string
  | NoEligibleOption
  | OptionNotFound string
  | OptionKindMismatch string string approval_intent
  | OptionForbidden string
  | Transport string

fun approval_error_code :: "approval_error \<Rightarrow> string" where
  "approval_error_code NotAcp = ''approval.not_acp''"
| "approval_error_code (ApprovalNotFound a) = ''approval.not_found''"
| "approval_error_code NoEligibleOption = ''approval.option_not_found''"
| "approval_error_code (OptionNotFound a) = ''approval.option_not_found''"
| "approval_error_code (OptionKindMismatch a k i) = ''approval.option_kind_mismatch''"
| "approval_error_code (OptionForbidden a) = ''approval.option_forbidden''"
| "approval_error_code (Transport m) = ''engine.unreachable''"

definition persistent_permission_allowed :: bool where
  "persistent_permission_allowed = False"

definition id_for_kind :: "json list \<Rightarrow> string \<Rightarrow> string option" where
  "id_for_kind options kind =
     Option.bind (find (\<lambda>x. get_str ''kind'' x = Some kind) options) (get_str ''optionId'')"

definition pick_approve_option_id :: "json list \<Rightarrow> string option" where
  "pick_approve_option_id options =
     or_else (id_for_kind options ''allow_once'')
    (or_else (id_for_kind options ''allow_always'')
       (Option.bind (find (\<lambda>x. case get_str ''kind'' x of Some s \<Rightarrow> \<not> starts_with s ''reject'' | None \<Rightarrow> False) options)
          (get_str ''optionId'')))"

definition pick_reject_option_id :: "json list \<Rightarrow> string option" where
  "pick_reject_option_id options =
     or_else (id_for_kind options ''reject_once'')
    (or_else (id_for_kind options ''reject_always'')
       (Option.bind (find (\<lambda>x. case get_str ''kind'' x of Some s \<Rightarrow> starts_with s ''reject'' | None \<Rightarrow> False) options)
          (get_str ''optionId'')))"

fun chosen_id :: "json list \<Rightarrow> string option \<Rightarrow> approval_intent \<Rightarrow> string option" where
  "chosen_id options (Some i) intent = Some i"
| "chosen_id options None Approve = pick_approve_option_id options"
| "chosen_id options None Reject = pick_reject_option_id options"

fun kind_fits :: "approval_intent \<Rightarrow> string \<Rightarrow> bool" where
  "kind_fits Approve kind = starts_with kind ''allow''"
| "kind_fits Reject kind = starts_with kind ''reject''"

definition resolve_option ::
  "json list \<Rightarrow> string option \<Rightarrow> approval_intent \<Rightarrow> approval_error + (string \<times> json)" where
  "resolve_option options explicit intent =
     (case chosen_id options explicit intent of
        None \<Rightarrow> Inl NoEligibleOption
      | Some i \<Rightarrow>
     (case find (\<lambda>x. get_str ''optionId'' x = Some i) options of
        None \<Rightarrow> Inl (OptionNotFound i)
      | Some opt \<Rightarrow>
        (let kind = unwrap_or [] (get_str ''kind'' opt) in
         if \<not> kind_fits intent kind then Inl (OptionKindMismatch i kind intent)
         else if kind = ''allow_always'' \<and> \<not> persistent_permission_allowed then Inl (OptionForbidden i)
         else Inr (i, opt))))"

section \<open>The runtime\<close>

record pending_approval =
  pe_request :: "64 word"
  pe_options :: "json list"
  pe_tool_call :: json
  pe_timer :: nat

text \<open>
  One \<open>session/request_permission\<close> from its arrival on: its handler spawns the timer, then
  registers the request, then announces it. \<open>TimedOut\<close> is a timer that has cancelled its
  request and has not emitted its event yet.
\<close>

datatype timer_status = Sleeping | TimedOut | TimerEnded

record permission =
  pm_approval :: string
  pm_request :: "64 word"
  pm_options :: "json list"
  pm_tool_call :: json
  pm_registered :: bool
  pm_announced :: bool
  pm_timer :: timer_status

record approval_resolution =
  ar_option_id :: string
  ar_option :: json
  ar_tool_call :: json

text \<open>A call of \<open>resolve_approval\<close> and where it stands; \<open>rv_taken\<close> is when it took the request.\<close>

datatype resolve_phase =
    Looking
  | Choosing string json
  | Taken approval_resolution
  | Replied "approval_error + approval_resolution"

record resolver =
  rv_approval :: string
  rv_explicit :: "string option"
  rv_intent :: approval_intent
  rv_phase :: resolve_phase
  rv_taken :: "(json \<times> int) option"

text \<open>An activity that was reported as approved: call id, hash, approval id, and the instant.\<close>

record stamp =
  st_tool_call_id :: string
  st_hash :: "string option"
  st_approval :: string
  st_at :: int

record cache_entry =
  ce_approval_id :: string
  ce_expires_at :: int

record acp_runtime =
  ac_session :: string
  ac_timeout_ms :: nat
  ac_pending :: "(string \<times> pending_approval) list"
  ac_perms :: "permission list"
  ac_resolvers :: "resolver list"
  ac_by_call :: "string \<rightharpoonup> cache_entry"
  ac_by_hash :: "string \<rightharpoonup> cache_entry"
  ac_now :: int
  ac_sent :: "(64 word \<times> json) list"
  ac_lost :: "64 word list"
  ac_events :: "server_event list"
  ac_stamps :: "stamp list"

definition runtime_new :: "string \<Rightarrow> nat \<Rightarrow> acp_runtime" where
  "runtime_new sid ms =
     \<lparr>ac_session = sid, ac_timeout_ms = ms, ac_pending = [], ac_perms = [], ac_resolvers = [],
      ac_by_call = Map.empty, ac_by_hash = Map.empty, ac_now = 0, ac_sent = [], ac_lost = [], ac_events = [], ac_stamps = []\<rparr>"

definition upd_perm :: "nat \<Rightarrow> (permission \<Rightarrow> permission) \<Rightarrow> acp_runtime \<Rightarrow> acp_runtime" where
  "upd_perm i f s = s\<lparr>ac_perms := (ac_perms s)[i := f (ac_perms s ! i)]\<rparr>"

definition upd_resolver :: "nat \<Rightarrow> (resolver \<Rightarrow> resolver) \<Rightarrow> acp_runtime \<Rightarrow> acp_runtime" where
  "upd_resolver i f s = s\<lparr>ac_resolvers := (ac_resolvers s)[i := f (ac_resolvers s ! i)]\<rparr>"

text \<open>
  Events are collected in the order they are emitted; their numbering by the ring is \<open>Event_Ring\<close>.
\<close>

definition emit :: "string \<Rightarrow> json \<Rightarrow> string \<Rightarrow> acp_runtime \<Rightarrow> acp_runtime" where
  "emit ty payload ts s = s\<lparr>ac_events := ac_events s @ [mk_event (ac_session s) ty payload ts]\<rparr>"

text \<open>
  \<open>respond_permission\<close>: writes one line unless the channel to the agent is closed; then the
  answer is lost (\<open>ac_lost\<close> counts these).
\<close>

definition respond_permission :: "bool \<Rightarrow> 64 word \<Rightarrow> json \<Rightarrow> acp_runtime \<Rightarrow> acp_runtime" where
  "respond_permission alive r outcome s = 
     (if alive then s\<lparr>ac_sent := ac_sent s @ [(r, outcome)]\<rparr> else s\<lparr>ac_lost := ac_lost s @ [r]\<rparr>)"

definition cancelled_outcome :: json where
  "cancelled_outcome = JObj [(''outcome'', JObj [(''outcome'', JStr ''cancelled'')])]"

definition selected_outcome :: "string \<Rightarrow> json" where
  "selected_outcome i = JObj [(''outcome'', JObj [(''outcome'', JStr ''selected''), (''optionId'', JStr i)])]"

section \<open>A permission request\<close>

definition receive_permission :: "string \<Rightarrow> 64 word \<Rightarrow> json \<Rightarrow> acp_runtime \<Rightarrow> acp_runtime" where
  "receive_permission ulid r params s =
     s\<lparr>ac_perms := ac_perms s @
        [\<lparr>pm_approval = ''appr_'' @ ulid, pm_request = r,
          pm_options = unwrap_or [] (get_arr ''options'' params),
          pm_tool_call = unwrap_or JNull (jget ''toolCall'' params),
          pm_registered = False, pm_announced = False, pm_timer = Sleeping\<rparr>]\<rparr>"

definition register_permission :: "nat \<Rightarrow> acp_runtime \<Rightarrow> acp_runtime" where
  "register_permission i s =
     (let p = ac_perms s ! i in
      upd_perm i (\<lambda>p. p\<lparr>pm_registered := True\<rparr>)
        (s\<lparr>ac_pending := AList.update (pm_approval p)
             \<lparr>pe_request = pm_request p, pe_options = pm_options p, pe_tool_call = pm_tool_call p, pe_timer = i\<rparr>
             (ac_pending s)\<rparr>))"

definition announce_permission :: "nat \<Rightarrow> string \<Rightarrow> acp_runtime \<Rightarrow> acp_runtime" where
  "announce_permission i ts s =
     (let p = ac_perms s ! i in
      emit ''approval.pending''
        (JObj [(''approval_id'', JStr (pm_approval p)), (''tool_call'', pm_tool_call p),
               (''options'', JArr (pm_options p)), (''expires_in_ms'', JUint (ac_timeout_ms s))]) ts
        (upd_perm i (\<lambda>p. p\<lparr>pm_announced := True\<rparr>) s))"

definition timer_fires :: "nat \<Rightarrow> bool \<Rightarrow> acp_runtime \<Rightarrow> acp_runtime" where
  "timer_fires i alive s =
     (let p = ac_perms s ! i in
      case map_of (ac_pending s) (pm_approval p) of
        None \<Rightarrow> upd_perm i (\<lambda>p. p\<lparr>pm_timer := TimerEnded\<rparr>) s
      | Some _ \<Rightarrow>
          respond_permission alive (pm_request p) cancelled_outcome
            (upd_perm i (\<lambda>p. p\<lparr>pm_timer := TimedOut\<rparr>)
              (s\<lparr>ac_pending := AList.delete (pm_approval p) (ac_pending s)\<rparr>)))"

definition announce_timeout :: "nat \<Rightarrow> string \<Rightarrow> acp_runtime \<Rightarrow> acp_runtime" where
  "announce_timeout i ts s =
     emit ''approval.resolved''
       (JObj [(''approval_id'', JStr (pm_approval (ac_perms s ! i))), (''outcome'', JStr ''timeout'')]) ts
       (upd_perm i (\<lambda>p. p\<lparr>pm_timer := TimerEnded\<rparr>) s)"

section \<open>A decision of the user\<close>

definition resolve_call :: "string \<Rightarrow> string option \<Rightarrow> approval_intent \<Rightarrow> acp_runtime \<Rightarrow> acp_runtime" where
  "resolve_call a explicit intent s =
     s\<lparr>ac_resolvers := ac_resolvers s @
        [\<lparr>rv_approval = a, rv_explicit = explicit, rv_intent = intent, rv_phase = Looking, rv_taken = None\<rparr>]\<rparr>"

text \<open>The option is validated on a snapshot, before the request is taken.\<close>

definition resolve_look :: "nat \<Rightarrow> acp_runtime \<Rightarrow> acp_runtime" where
  "resolve_look j s =
     (let r = ac_resolvers s ! j in
      upd_resolver j (\<lambda>r. r\<lparr>rv_phase :=
        (case map_of (ac_pending s) (rv_approval r) of
           None \<Rightarrow> Replied (Inl (ApprovalNotFound (rv_approval r)))
         | Some pe \<Rightarrow>
             (case resolve_option (pe_options pe) (rv_explicit r) (rv_intent r) of
                Inl e \<Rightarrow> Replied (Inl e)
              | Inr (i, opt) \<Rightarrow> Choosing i opt))\<rparr>) s)"

definition approval_correlation_ttl :: int where
  "approval_correlation_ttl = 60 * 1000000000"

definition record_resolved_approval :: "codecs \<Rightarrow> string \<Rightarrow> json \<Rightarrow> acp_runtime \<Rightarrow> acp_runtime" where
  "record_resolved_approval cx a tool_call s =
     (let entry = \<lparr>ce_approval_id = a, ce_expires_at = ac_now s + approval_correlation_ttl\<rparr>;
          s1 = (case get_str ''toolCallId'' tool_call of
                  Some t \<Rightarrow> s\<lparr>ac_by_call := (ac_by_call s)(t \<mapsto> entry)\<rparr>
                | None \<Rightarrow> s)
      in s1\<lparr>ac_by_hash := (ac_by_hash s1)(cx_call_hash cx tool_call \<mapsto> entry)\<rparr>)"

definition abort_timer :: "nat \<Rightarrow> acp_runtime \<Rightarrow> acp_runtime" where
  "abort_timer i = upd_perm i (\<lambda>p. p\<lparr>pm_timer := TimerEnded\<rparr>)"

definition resolve_take :: "codecs \<Rightarrow> nat \<Rightarrow> bool \<Rightarrow> acp_runtime \<Rightarrow> acp_runtime" where
  "resolve_take cx j alive s =
     (let r = ac_resolvers s ! j in
      case rv_phase r of
        Choosing i opt \<Rightarrow>
          (case map_of (ac_pending s) (rv_approval r) of
             None \<Rightarrow> upd_resolver j (\<lambda>r. r\<lparr>rv_phase := Replied (Inl (ApprovalNotFound (rv_approval r)))\<rparr>) s
           | Some pe \<Rightarrow>
               (let s1 = abort_timer (pe_timer pe) (s\<lparr>ac_pending := AList.delete (rv_approval r) (ac_pending s)\<rparr>);
                    s2 = respond_permission alive (pe_request pe) (selected_outcome i) s1 in
                if \<not> alive then
                  upd_resolver j (\<lambda>r. r\<lparr>rv_phase := Replied (Inl (Transport ''agent channel closed''))\<rparr>) s2
                else
                  (let s3 = (if rv_intent r = Approve
                             then record_resolved_approval cx (rv_approval r) (pe_tool_call pe) s2 else s2)
                   in upd_resolver j (\<lambda>r. r\<lparr>
                        rv_phase := Taken \<lparr>ar_option_id = i, ar_option = opt, ar_tool_call = pe_tool_call pe\<rparr>,
                        rv_taken := Some (pe_tool_call pe, ac_now s)\<rparr>) s3)))
      | _ \<Rightarrow> s)"

definition outcome_label :: "approval_intent \<Rightarrow> string" where
  "outcome_label i = (case i of Approve \<Rightarrow> ''approved'' | Reject \<Rightarrow> ''rejected'')"

definition resolve_announce :: "nat \<Rightarrow> string \<Rightarrow> acp_runtime \<Rightarrow> acp_runtime" where
  "resolve_announce j ts s =
     (let r = ac_resolvers s ! j in
      case rv_phase r of
        Taken res \<Rightarrow>
          emit ''approval.resolved''
            (JObj [(''approval_id'', JStr (rv_approval r)), (''outcome'', JStr (outcome_label (rv_intent r))),
                   (''option_id'', JStr (ar_option_id res))]) ts
            (upd_resolver j (\<lambda>r. r\<lparr>rv_phase := Replied (Inr res)\<rparr>) s)
      | _ \<Rightarrow> s)"

section \<open>Correlating activity\<close>

text \<open>An entry that has expired is swept when it is touched.\<close>

definition live_entry :: "int \<Rightarrow> cache_entry option \<Rightarrow> string option" where
  "live_entry instant e = map_option ce_approval_id (filter_opt (\<lambda>e. ce_expires_at e > instant) e)"

definition correlate_approval :: "string \<Rightarrow> string option \<Rightarrow> acp_runtime \<Rightarrow> string option \<times> acp_runtime" where
  "correlate_approval t h s =
     (case live_entry (ac_now s) (ac_by_call s t) of
        Some a \<Rightarrow> (Some a, s)
      | None \<Rightarrow>
          (let s1 = s\<lparr>ac_by_call := (ac_by_call s)(t := None)\<rparr> in
           case h of
             None \<Rightarrow> (None, s1)
           | Some k \<Rightarrow>
               (case live_entry (ac_now s) (ac_by_hash s1 k) of
                  Some a \<Rightarrow> (Some a, s1)
                | None \<Rightarrow> (None, s1\<lparr>ac_by_hash := (ac_by_hash s1)(k := None)\<rparr>))))"

definition observe_activity :: "string \<Rightarrow> string option \<Rightarrow> acp_runtime \<Rightarrow> acp_runtime" where
  "observe_activity t h s =
     (let (a, s1) = correlate_approval t h s in
      case a of
        None \<Rightarrow> s1
      | Some a \<Rightarrow> s1\<lparr>ac_stamps := ac_stamps s1 @
          [\<lparr>st_tool_call_id = t, st_hash = h, st_approval = a, st_at = ac_now s\<rparr>]\<rparr>)"

section \<open>The machine\<close>

datatype approval_op =
    ReceivePermission string "64 word" json
  | RegisterPermission nat
  | AnnouncePermission nat string
  | TimerFires nat bool
  | AnnounceTimeout nat string
  | ResolveCall string "string option" approval_intent
  | ResolveLook nat
  | ResolveTake nat bool
  | ResolveAnnounce nat string
  | ObserveActivity string "string option"
  | Tick nat

fun approval_step :: "codecs \<Rightarrow> acp_runtime \<Rightarrow> approval_op \<Rightarrow> acp_runtime" where
  "approval_step cx s (ReceivePermission u r params) = receive_permission u r params s"
| "approval_step cx s (RegisterPermission i) =
     (if i < length (ac_perms s) \<and> \<not> pm_registered (ac_perms s ! i) then register_permission i s else s)"
| "approval_step cx s (AnnouncePermission i ts) =
     (if i < length (ac_perms s) \<and> pm_registered (ac_perms s ! i) \<and> \<not> pm_announced (ac_perms s ! i)
      then announce_permission i ts s else s)"
| "approval_step cx s (TimerFires i alive) =
     (if i < length (ac_perms s) \<and> pm_timer (ac_perms s ! i) = Sleeping then timer_fires i alive s else s)"
| "approval_step cx s (AnnounceTimeout i ts) =
     (if i < length (ac_perms s) \<and> pm_timer (ac_perms s ! i) = TimedOut then announce_timeout i ts s else s)"
| "approval_step cx s (ResolveCall a e i) = resolve_call a e i s"
| "approval_step cx s (ResolveLook j) =
     (if j < length (ac_resolvers s) \<and> rv_phase (ac_resolvers s ! j) = Looking then resolve_look j s else s)"
| "approval_step cx s (ResolveTake j alive) =
     (if j < length (ac_resolvers s) then resolve_take cx j alive s else s)"
| "approval_step cx s (ResolveAnnounce j ts) =
     (if j < length (ac_resolvers s) then resolve_announce j ts s else s)"
| "approval_step cx s (ObserveActivity t h) = observe_activity t h s"
| "approval_step cx s (Tick d) = s\<lparr>ac_now := ac_now s + int d\<rparr>"

section \<open>Every step keeps what was said\<close>

lemmas approval_defs = receive_permission_def register_permission_def announce_permission_def
  timer_fires_def announce_timeout_def resolve_call_def resolve_look_def resolve_announce_def
  upd_perm_def upd_resolver_def emit_def respond_permission_def abort_timer_def Let_def

definition perm_fixed :: "permission \<Rightarrow> permission \<Rightarrow> bool" where
  "perm_fixed p q \<longleftrightarrow>
     pm_approval q = pm_approval p \<and> pm_request q = pm_request p \<and> pm_options q = pm_options p
     \<and> pm_tool_call q = pm_tool_call p \<and> (pm_registered p \<longrightarrow> pm_registered q)
     \<and> (pm_timer p \<noteq> Sleeping \<longrightarrow> pm_timer q \<noteq> Sleeping)"

definition resolver_fixed :: "resolver \<Rightarrow> resolver \<Rightarrow> bool" where
  "resolver_fixed v w \<longleftrightarrow>
     rv_approval w = rv_approval v \<and> rv_explicit w = rv_explicit v \<and> rv_intent w = rv_intent v
     \<and> (rv_taken v \<noteq> None \<longrightarrow> rv_taken w = rv_taken v)"

definition extends_by :: "('a \<Rightarrow> 'a \<Rightarrow> bool) \<Rightarrow> 'a list \<Rightarrow> 'a list \<Rightarrow> bool" where
  "extends_by R xs ys \<longleftrightarrow> length xs \<le> length ys \<and> (\<forall>i < length xs. R (xs ! i) (ys ! i))"

lemma extends_by_refl: "(\<And>x. R x x) \<Longrightarrow> extends_by R xs xs"
  by (simp add: extends_by_def)

lemma extends_by_append: "(\<And>x. R x x) \<Longrightarrow> extends_by R xs (xs @ ys)"
  by (simp add: extends_by_def nth_append)

lemma extends_by_upd: "(\<And>x. R x x) \<Longrightarrow> R (xs ! i) y \<Longrightarrow> extends_by R xs (xs[i := y])"
  by (cases "i < length xs") (auto simp: extends_by_def nth_list_update list_update_beyond)

lemma extends_byD: "extends_by R xs ys \<Longrightarrow> x \<in> set xs \<Longrightarrow> \<exists>y \<in> set ys. R x y"
  by (auto simp: extends_by_def in_set_conv_nth) (meson nth_mem order.strict_trans2)

definition grows :: "acp_runtime \<Rightarrow> acp_runtime \<Rightarrow> bool" where
  "grows s t \<longleftrightarrow> extends_by perm_fixed (ac_perms s) (ac_perms t)
     \<and> extends_by resolver_fixed (ac_resolvers s) (ac_resolvers t) \<and> ac_now s \<le> ac_now t"

lemma perm_fixed_refl [simp]: "perm_fixed p p" and resolver_fixed_refl [simp]: "resolver_fixed v v"
  by (simp_all add: perm_fixed_def resolver_fixed_def)

text \<open>A call that has not taken its request has no record of taking one.\<close>

fun undecided :: "resolve_phase \<Rightarrow> bool" where
  "undecided Looking = True"
| "undecided (Choosing i opt) = True"
| "undecided (Taken r) = False"
| "undecided (Replied r) = False"

definition untaken :: "acp_runtime \<Rightarrow> bool" where
  "untaken s \<longleftrightarrow> (\<forall>v \<in> set (ac_resolvers s). undecided (rv_phase v) \<longrightarrow> rv_taken v = None)"

lemma record_resolved_fields [simp]:
  "ac_perms (record_resolved_approval cx a tc s) = ac_perms s"
  "ac_resolvers (record_resolved_approval cx a tc s) = ac_resolvers s"
  "ac_now (record_resolved_approval cx a tc s) = ac_now s"
  "ac_pending (record_resolved_approval cx a tc s) = ac_pending s"
  "ac_sent (record_resolved_approval cx a tc s) = ac_sent s"
  "ac_lost (record_resolved_approval cx a tc s) = ac_lost s"
  "ac_stamps (record_resolved_approval cx a tc s) = ac_stamps s"
  by (simp_all add: record_resolved_approval_def Let_def split: option.splits)

lemma correlate_fields [simp]:
  "ac_perms (snd (correlate_approval t h s)) = ac_perms s"
  "ac_resolvers (snd (correlate_approval t h s)) = ac_resolvers s"
  "ac_now (snd (correlate_approval t h s)) = ac_now s"
  "ac_pending (snd (correlate_approval t h s)) = ac_pending s"
  "ac_sent (snd (correlate_approval t h s)) = ac_sent s"
  "ac_lost (snd (correlate_approval t h s)) = ac_lost s"
  "ac_stamps (snd (correlate_approval t h s)) = ac_stamps s"
  by (simp_all add: correlate_approval_def Let_def split: option.splits)

lemma observe_fields [simp]:
  "ac_perms (observe_activity t h s) = ac_perms s"
  "ac_resolvers (observe_activity t h s) = ac_resolvers s"
  "ac_now (observe_activity t h s) = ac_now s"
  "ac_pending (observe_activity t h s) = ac_pending s"
  "ac_sent (observe_activity t h s) = ac_sent s"
  "ac_lost (observe_activity t h s) = ac_lost s"
  using correlate_fields [of t h s] by (simp_all add: observe_activity_def split_beta split: option.splits)

lemma resolve_take_cases:
  obtains (none) "resolve_take cx j alive s = s"
  | (gone) i opt where "rv_phase (ac_resolvers s ! j) = Choosing i opt"
      and "map_of (ac_pending s) (rv_approval (ac_resolvers s ! j)) = None"
      and "resolve_take cx j alive s
        = upd_resolver j (\<lambda>r. r\<lparr>rv_phase := Replied (Inl (ApprovalNotFound (rv_approval r)))\<rparr>) s"
  | (closed) i opt pe where "rv_phase (ac_resolvers s ! j) = Choosing i opt" and "\<not> alive"
      and "map_of (ac_pending s) (rv_approval (ac_resolvers s ! j)) = Some pe"
      and "resolve_take cx j alive s
        = upd_resolver j (\<lambda>r. r\<lparr>rv_phase := Replied (Inl (Transport ''agent channel closed''))\<rparr>)
            (respond_permission False (pe_request pe) (selected_outcome i)
              (abort_timer (pe_timer pe) (s\<lparr>ac_pending := AList.delete (rv_approval (ac_resolvers s ! j)) (ac_pending s)\<rparr>)))"
  | (taken) i opt pe s2 where "rv_phase (ac_resolvers s ! j) = Choosing i opt" and "alive"
      and "map_of (ac_pending s) (rv_approval (ac_resolvers s ! j)) = Some pe"
      and "s2 = respond_permission True (pe_request pe) (selected_outcome i)
              (abort_timer (pe_timer pe) (s\<lparr>ac_pending := AList.delete (rv_approval (ac_resolvers s ! j)) (ac_pending s)\<rparr>))"
      and "resolve_take cx j alive s
        = upd_resolver j (\<lambda>r. r\<lparr>
              rv_phase := Taken \<lparr>ar_option_id = i, ar_option = opt, ar_tool_call = pe_tool_call pe\<rparr>,
              rv_taken := Some (pe_tool_call pe, ac_now s)\<rparr>)
            (if rv_intent (ac_resolvers s ! j) = Approve
             then record_resolved_approval cx (rv_approval (ac_resolvers s ! j)) (pe_tool_call pe) s2 else s2)"
  by (cases "rv_phase (ac_resolvers s ! j)"; cases "map_of (ac_pending s) (rv_approval (ac_resolvers s ! j))"; cases alive)
    (auto simp: resolve_take_def Let_def)

lemma grows_simple:
  "grows s (receive_permission u r params s)" "grows s (register_permission i s)"
  "grows s (announce_permission i ts s)" "grows s (timer_fires i alive s)" "grows s (announce_timeout i ts s)"
  "grows s (resolve_call a e intent s)" "grows s (resolve_look j s)" "grows s (resolve_announce j ts s)"
  "grows s (observe_activity t h s)" "grows s (s\<lparr>ac_now := ac_now s + int d\<rparr>)"
  by (auto simp: approval_defs grows_def perm_fixed_def resolver_fixed_def
      intro!: extends_by_refl extends_by_append extends_by_upd split: option.splits resolve_phase.splits)

lemma grows_take:
  assumes "untaken s" and "j < length (ac_resolvers s)"
  shows "grows s (resolve_take cx j alive s)"
proof -
  have u: "rv_taken (ac_resolvers s ! j) = None" if "rv_phase (ac_resolvers s ! j) = Choosing i opt" for i opt
    using assms that by (auto simp: untaken_def dest!: bspec [OF _ nth_mem])
  show ?thesis
    by (rule resolve_take_cases [of cx j alive s])
      (auto simp: approval_defs grows_def perm_fixed_def resolver_fixed_def u
        intro!: extends_by_refl extends_by_upd)
qed

lemma step_grows: "untaken s \<Longrightarrow> grows s (approval_step cx s c)"
  using grows_simple grows_take by (cases c) (auto simp: grows_def intro: extends_by_refl)

lemma set_updD: "x \<in> set (xs[i := y]) \<Longrightarrow> x = y \<or> x \<in> set xs"
  using set_update_subset_insert [of xs i y] by auto

lemma untaken_step: "untaken s \<Longrightarrow> untaken (approval_step cx s c)"
proof (cases c)
  case (ResolveTake j alive)
  assume "untaken s"
  with ResolveTake show ?thesis
    by (cases "j < length (ac_resolvers s)", cases rule: resolve_take_cases [of cx j alive s])
      (auto simp: untaken_def approval_defs dest!: set_updD)
next
  case (ResolveLook j)
  assume u: "untaken s"
  have "rv_taken (ac_resolvers s ! j) = None" if "j < length (ac_resolvers s)" "rv_phase (ac_resolvers s ! j) = Looking"
    using u that by (auto simp: untaken_def dest!: bspec [OF _ nth_mem])
  with u ResolveLook show ?thesis
    by (auto simp: untaken_def approval_defs dest!: set_updD split: option.splits sum.splits)
qed (auto simp: untaken_def approval_defs dest!: set_updD split: option.splits resolve_phase.splits)

section \<open>What the runtime knows of its requests and decisions\<close>

text \<open>An option a decision may answer with: offered under this id, of a kind that fits, not persistent.\<close>

definition granted :: "approval_intent \<Rightarrow> string option \<Rightarrow> string \<Rightarrow> json \<Rightarrow> bool" where
  "granted intent explicit i opt \<longleftrightarrow>
     get_str ''optionId'' opt = Some i \<and> kind_fits intent (unwrap_or [] (get_str ''kind'' opt))
     \<and> get_str ''kind'' opt \<noteq> Some ''allow_always'' \<and> (explicit = None \<or> explicit = Some i)"

lemma resolve_option_granted:
  assumes "resolve_option options explicit intent = Inr (i, opt)"
  shows "opt \<in> set options \<and> granted intent explicit i opt"
proof -
  from assms have c: "chosen_id options explicit intent = Some i"
    and f: "find (\<lambda>x. get_str ''optionId'' x = Some i) options = Some opt"
    and k: "kind_fits intent (unwrap_or [] (get_str ''kind'' opt))" "get_str ''kind'' opt \<noteq> Some ''allow_always''"
    by (auto simp: resolve_option_def Let_def persistent_permission_allowed_def split: option.splits if_splits)
  from c have "explicit = None \<or> explicit = Some i" by (cases explicit) auto
  with k find_SomeD [OF f] show ?thesis by (simp add: granted_def)
qed

definition entry_for :: "acp_runtime \<Rightarrow> string \<Rightarrow> pending_approval \<Rightarrow> bool" where
  "entry_for s a pe \<longleftrightarrow> pe_timer pe < length (ac_perms s) \<and>
     (let p = ac_perms s ! pe_timer pe in
      pm_approval p = a \<and> pm_registered p \<and> pm_request p = pe_request pe
      \<and> pm_options p = pe_options pe \<and> pm_tool_call p = pe_tool_call pe)"

definition pending_ok :: "acp_runtime \<Rightarrow> bool" where
  "pending_ok s \<longleftrightarrow> distinct_keys (ac_pending s)
     \<and> (\<forall>a pe. map_of (ac_pending s) a = Some pe \<longrightarrow> entry_for s a pe)"

definition choice_ok :: "acp_runtime \<Rightarrow> resolver \<Rightarrow> string \<Rightarrow> json \<Rightarrow> bool" where
  "choice_ok s v i opt \<longleftrightarrow> granted (rv_intent v) (rv_explicit v) i opt
     \<and> (\<exists>p \<in> set (ac_perms s). pm_approval p = rv_approval v \<and> opt \<in> set (pm_options p))"

definition resolver_ok :: "acp_runtime \<Rightarrow> resolver \<Rightarrow> bool" where
  "resolver_ok s v \<longleftrightarrow> (\<forall>i opt. rv_phase v = Choosing i opt \<longrightarrow> choice_ok s v i opt)
     \<and> (\<forall>tc t. rv_taken v = Some (tc, t) \<longrightarrow> t \<le> ac_now s
          \<and> (\<exists>p \<in> set (ac_perms s). pm_approval p = rv_approval v \<and> pm_tool_call p = tc))"

definition resolvers_ok :: "acp_runtime \<Rightarrow> bool" where
  "resolvers_ok s \<longleftrightarrow> (\<forall>v \<in> set (ac_resolvers s). resolver_ok s v)"

definition answer_ok :: "acp_runtime \<Rightarrow> 64 word \<times> json \<Rightarrow> bool" where
  "answer_ok s x \<longleftrightarrow>
     (snd x = cancelled_outcome \<and> (\<exists>p \<in> set (ac_perms s). pm_request p = fst x \<and> pm_timer p \<noteq> Sleeping))
     \<or> (\<exists>p \<in> set (ac_perms s). \<exists>v \<in> set (ac_resolvers s). \<exists>i. \<exists>opt \<in> set (pm_options p).
          pm_request p = fst x \<and> rv_approval v = pm_approval p
          \<and> granted (rv_intent v) (rv_explicit v) i opt \<and> snd x = selected_outcome i)"

definition took :: "acp_runtime \<Rightarrow> string \<Rightarrow> json \<Rightarrow> int \<Rightarrow> bool" where
  "took s a tc t \<longleftrightarrow> (\<exists>v \<in> set (ac_resolvers s). rv_approval v = a \<and> rv_intent v = Approve \<and> rv_taken v = Some (tc, t))"

definition cached_for :: "acp_runtime \<Rightarrow> (json \<Rightarrow> bool) \<Rightarrow> cache_entry \<Rightarrow> bool" where
  "cached_for s P e \<longleftrightarrow> (\<exists>tc t. took s (ce_approval_id e) tc t \<and> P tc
     \<and> ce_expires_at e = t + approval_correlation_ttl \<and> t \<le> ac_now s)"

definition cache_ok :: "codecs \<Rightarrow> acp_runtime \<Rightarrow> bool" where
  "cache_ok cx s \<longleftrightarrow>
     (\<forall>k e. ac_by_call s k = Some e \<longrightarrow> cached_for s (\<lambda>tc. get_str ''toolCallId'' tc = Some k) e)
     \<and> (\<forall>k e. ac_by_hash s k = Some e \<longrightarrow> cached_for s (\<lambda>tc. cx_call_hash cx tc = k) e)"

definition stamp_ok :: "codecs \<Rightarrow> acp_runtime \<Rightarrow> stamp \<Rightarrow> bool" where
  "stamp_ok cx s st \<longleftrightarrow> (\<exists>tc t. took s (st_approval st) tc t \<and> t \<le> st_at st \<and> st_at st < t + approval_correlation_ttl
     \<and> (get_str ''toolCallId'' tc = Some (st_tool_call_id st) \<or> st_hash st = Some (cx_call_hash cx tc)))"

lemma grows_perm: "grows s t \<Longrightarrow> p \<in> set (ac_perms s) \<Longrightarrow> \<exists>q \<in> set (ac_perms t). perm_fixed p q"
  by (auto simp: grows_def dest: extends_byD)

lemma grows_resolver: "grows s t \<Longrightarrow> v \<in> set (ac_resolvers s) \<Longrightarrow> \<exists>w \<in> set (ac_resolvers t). resolver_fixed v w"
  by (auto simp: grows_def dest: extends_byD)

lemma entry_for_grows: "grows s t \<Longrightarrow> entry_for s a pe \<Longrightarrow> entry_for t a pe"
  by (auto simp: grows_def extends_by_def entry_for_def perm_fixed_def Let_def)

lemma perm_fixedD:
  "perm_fixed p q \<Longrightarrow> pm_approval q = pm_approval p"
  "perm_fixed p q \<Longrightarrow> pm_request q = pm_request p"
  "perm_fixed p q \<Longrightarrow> pm_options q = pm_options p"
  "perm_fixed p q \<Longrightarrow> pm_tool_call q = pm_tool_call p"
  "perm_fixed p q \<Longrightarrow> pm_timer p \<noteq> Sleeping \<Longrightarrow> pm_timer q \<noteq> Sleeping"
  by (simp_all add: perm_fixed_def)

lemma resolver_fixedD:
  "resolver_fixed v w \<Longrightarrow> rv_approval w = rv_approval v"
  "resolver_fixed v w \<Longrightarrow> rv_explicit w = rv_explicit v"
  "resolver_fixed v w \<Longrightarrow> rv_intent w = rv_intent v"
  "resolver_fixed v w \<Longrightarrow> rv_taken v = Some x \<Longrightarrow> rv_taken w = Some x"
  by (auto simp: resolver_fixed_def)

lemma choice_ok_grows: "grows s t \<Longrightarrow> choice_ok s v i opt \<Longrightarrow> choice_ok t v i opt"
  unfolding choice_ok_def by (elim conjE bexE, drule (1) grows_perm) (auto simp: perm_fixed_def)

lemma resolver_ok_grows:
  assumes "grows s t" and "resolver_ok s v"
  shows "resolver_ok t v"
proof -
  have "\<exists>p \<in> set (ac_perms t). pm_approval p = a \<and> pm_tool_call p = tc"
    if "\<exists>p \<in> set (ac_perms s). pm_approval p = a \<and> pm_tool_call p = tc" for a tc
    using that by (elim bexE conjE, drule_tac grows_perm [OF assms(1)]) (auto simp: perm_fixed_def)
  moreover have "ac_now s \<le> ac_now t" using assms(1) by (simp add: grows_def)
  ultimately show ?thesis
    using assms(2) choice_ok_grows [OF assms(1)] unfolding resolver_ok_def by (meson order.trans)
qed

lemma cancelled_grows:
  "grows s t \<Longrightarrow> \<exists>p \<in> set (ac_perms s). pm_request p = r \<and> pm_timer p \<noteq> Sleeping
   \<Longrightarrow> \<exists>p \<in> set (ac_perms t). pm_request p = r \<and> pm_timer p \<noteq> Sleeping"
  by (elim bexE conjE, drule (1) grows_perm) (auto simp: perm_fixed_def)

lemma selected_grows:
  assumes "grows s t" and "p \<in> set (ac_perms s)" and "v \<in> set (ac_resolvers s)" and "opt \<in> set (pm_options p)"
    and "pm_request p = r" and "rv_approval v = pm_approval p" and "granted (rv_intent v) (rv_explicit v) i opt"
  shows "\<exists>p \<in> set (ac_perms t). \<exists>v \<in> set (ac_resolvers t). \<exists>opt \<in> set (pm_options p).
    pm_request p = r \<and> rv_approval v = pm_approval p \<and> granted (rv_intent v) (rv_explicit v) i opt"
proof -
  from grows_perm [OF assms(1,2)] obtain q where q: "q \<in> set (ac_perms t)" "perm_fixed p q" by blast
  from grows_resolver [OF assms(1,3)] obtain w where w: "w \<in> set (ac_resolvers t)" "resolver_fixed v w" by blast
  from q w assms show ?thesis
    by (intro bexI [of _ q] bexI [of _ w] bexI [of _ opt]) (simp_all add: perm_fixed_def resolver_fixed_def)
qed

lemma answer_ok_grows: "grows s t \<Longrightarrow> answer_ok s x \<Longrightarrow> answer_ok t x"
  unfolding answer_ok_def using cancelled_grows [of s t] selected_grows [of s t] by blast

lemma took_grows: "grows s t \<Longrightarrow> took s a tc at \<Longrightarrow> took t a tc at"
  unfolding took_def by (elim bexE conjE, drule (1) grows_resolver) (auto simp: resolver_fixed_def)

lemma cached_for_grows: "grows s t \<Longrightarrow> cached_for s P e \<Longrightarrow> cached_for t P e"
  unfolding cached_for_def by (metis took_grows grows_def order.trans)

lemma stamp_ok_grows: "grows s t \<Longrightarrow> stamp_ok cx s st \<Longrightarrow> stamp_ok cx t st"
  unfolding stamp_ok_def using took_grows [of s t] by blast

section \<open>The steps keep it\<close>

lemma pending_ok_shrink:
  assumes "pending_ok s" and "grows s t" and "distinct_keys (ac_pending t)"
    and "\<And>a pe. map_of (ac_pending t) a = Some pe \<Longrightarrow> map_of (ac_pending s) a = Some pe"
  shows "pending_ok t"
  using assms entry_for_grows by (auto simp: pending_ok_def)

lemma pending_fields:
  "ac_pending (receive_permission u r params s) = ac_pending s"
  "ac_pending (announce_permission i ts s) = ac_pending s"
  "ac_pending (announce_timeout i ts s) = ac_pending s"
  "ac_pending (resolve_call a e intent s) = ac_pending s"
  "ac_pending (resolve_look j s) = ac_pending s"
  "ac_pending (resolve_announce j ts s) = ac_pending s"
  by (auto simp: approval_defs split: option.splits resolve_phase.splits)

lemma pending_timer_fires:
  "ac_pending (timer_fires i alive s) =
     (if map_of (ac_pending s) (pm_approval (ac_perms s ! i)) = None then ac_pending s
      else AList.delete (pm_approval (ac_perms s ! i)) (ac_pending s))"
  by (auto simp: approval_defs split: option.splits)

lemma pending_resolve_take:
  "ac_pending (resolve_take cx j alive s) = ac_pending s
   \<or> ac_pending (resolve_take cx j alive s) = AList.delete (rv_approval (ac_resolvers s ! j)) (ac_pending s)"
  by (rule resolve_take_cases [of cx j alive s]) (auto simp: approval_defs)

lemma pending_ok_step:
  assumes u: "untaken s" and p: "pending_ok s"
  shows "pending_ok (approval_step cx s c)"
proof (cases "\<exists>i. c = RegisterPermission i \<and> i < length (ac_perms s)")
  case True
  then obtain i where c: "c = RegisterPermission i" and i: "i < length (ac_perms s)" by blast
  show ?thesis
  proof (cases "pm_registered (ac_perms s ! i)")
    case False
    let ?p = "ac_perms s ! i"
    let ?e = "\<lparr>pe_request = pm_request ?p, pe_options = pm_options ?p, pe_tool_call = pm_tool_call ?p, pe_timer = i\<rparr>"
    have m: "map_of (ac_pending (register_permission i s)) a = (if a = pm_approval ?p then Some ?e else map_of (ac_pending s) a)" for a
      using p by (simp add: register_permission_def Let_def upd_perm_def alist.lookup_put pending_ok_def)
    have new: "entry_for (register_permission i s) (pm_approval ?p) ?e"
      using i by (simp add: register_permission_def Let_def upd_perm_def entry_for_def)
    have "entry_for (register_permission i s) a pe" if "map_of (ac_pending (register_permission i s)) a = Some pe" for a pe
      using that new p entry_for_grows [OF grows_simple(2)] unfolding m pending_ok_def
      by (cases "a = pm_approval ?p") auto
    moreover have "distinct_keys (ac_pending (register_permission i s))"
      using p by (simp add: register_permission_def Let_def upd_perm_def pending_ok_def alist.ok_put)
    ultimately show ?thesis using False c i by (simp add: pending_ok_def)
  qed (use p c in simp)
next
  case False
  have d: "distinct_keys (ac_pending s)" using p by (simp add: pending_ok_def)
  have del: "map_of (AList.delete k (ac_pending s)) a = Some pe \<Longrightarrow> map_of (ac_pending s) a = Some pe" for k a pe
    using d by (simp add: alist.lookup_del split: if_splits)
  show ?thesis
  proof (rule pending_ok_shrink [OF p step_grows [OF u]])
    have *: "ac_pending (approval_step cx s c) = ac_pending s
      \<or> (\<exists>k. ac_pending (approval_step cx s c) = AList.delete k (ac_pending s))"
    proof (cases c)
      case (ResolveTake j alive)
      then show ?thesis using pending_resolve_take [of cx j alive s] by auto
    qed (use False in \<open>auto simp: pending_fields pending_timer_fires\<close>)
    then show "distinct_keys (ac_pending (approval_step cx s c))" using d alist.ok_del by auto
    show "map_of (ac_pending s) a = Some pe" if "map_of (ac_pending (approval_step cx s c)) a = Some pe" for a pe
      using * that del by auto
  qed
qed

lemma resolvers_ok_step:
  assumes u: "untaken s" and p: "pending_ok s" and r: "resolvers_ok s"
  shows "resolvers_ok (approval_step cx s c)"
proof -
  let ?t = "approval_step cx s c"
  have old: "resolver_ok ?t v" if "v \<in> set (ac_resolvers s)" for v
    using resolver_ok_grows [OF step_grows [OF u]] r that by (auto simp: resolvers_ok_def)
  have entry: "\<exists>q \<in> set (ac_perms s). pm_approval q = a \<and> pm_options q = pe_options pe \<and> pm_tool_call q = pe_tool_call pe"
    if "map_of (ac_pending s) a = Some pe" for a pe
    using p that by (auto simp: pending_ok_def entry_for_def Let_def intro!: bexI [of _ "ac_perms s ! pe_timer pe"])
  have "ac_resolvers ?t = ac_resolvers s \<or> (\<exists>v. set (ac_resolvers ?t) \<subseteq> insert v (set (ac_resolvers s)) \<and> resolver_ok ?t v)"
  proof (cases c)
    case (ResolveCall a e i)
    then show ?thesis by (auto simp: resolve_call_def resolver_ok_def)
  next
    case (ResolveLook j)
    show ?thesis
    proof (cases "j < length (ac_resolvers s) \<and> rv_phase (ac_resolvers s ! j) = Looking")
      case True
      let ?v = "ac_resolvers ?t ! j"
      have v: "ac_resolvers ?t = (ac_resolvers s)[j := ?v]"
        using ResolveLook True by (simp add: resolve_look_def Let_def upd_resolver_def)
      have taken: "rv_taken (ac_resolvers s ! j) = None" using True u by (auto simp: untaken_def)
      have "resolver_ok s ?v"
      proof (cases "map_of (ac_pending s) (rv_approval (ac_resolvers s ! j))")
        case None
        with ResolveLook True taken show ?thesis by (simp add: resolve_look_def Let_def upd_resolver_def resolver_ok_def)
      next
        case (Some pe)
        show ?thesis
        proof (cases "resolve_option (pe_options pe) (rv_explicit (ac_resolvers s ! j)) (rv_intent (ac_resolvers s ! j))")
          case (Inl e)
          with Some ResolveLook True taken show ?thesis by (simp add: resolve_look_def Let_def upd_resolver_def resolver_ok_def)
        next
          case (Inr x)
          obtain i opt where x: "x = (i, opt)" by (cases x)
          from resolve_option_granted [OF Inr [unfolded x]] entry [OF Some]
          have "choice_ok s ?v i opt"
            using ResolveLook True Some Inr x by (auto simp: resolve_look_def Let_def upd_resolver_def choice_ok_def)
          with Some Inr x ResolveLook True taken show ?thesis
            by (simp add: resolve_look_def Let_def upd_resolver_def resolver_ok_def)
        qed
      qed
      then have "resolver_ok ?t ?v" by (rule resolver_ok_grows [OF step_grows [OF u]])
      moreover have "set (ac_resolvers ?t) \<subseteq> insert ?v (set (ac_resolvers s))"
        by (subst v) (rule set_update_subset_insert)
      ultimately show ?thesis by blast
    qed (use ResolveLook in auto)
  next
    case (ResolveTake j alive)
    show ?thesis
    proof (cases "j < length (ac_resolvers s)")
      case True
      let ?v = "ac_resolvers ?t ! j"
      have "rv_taken (ac_resolvers s ! j) = None" if "rv_phase (ac_resolvers s ! j) = Choosing i opt" for i opt
        using that True u by (auto simp: untaken_def dest!: bspec [OF _ nth_mem])
      then have "ac_resolvers ?t = ac_resolvers s \<or> ac_resolvers ?t = (ac_resolvers s)[j := ?v] \<and> resolver_ok s ?v"
        using ResolveTake True entry
        by (cases rule: resolve_take_cases [of cx j alive s]) (auto simp: approval_defs resolver_ok_def)
      then show ?thesis
        using resolver_ok_grows [OF step_grows [OF u], of ?v] set_update_subset_insert by metis
    qed (use ResolveTake in auto)
  next
    case (ResolveAnnounce j ts)
    show ?thesis
    proof (cases "j < length (ac_resolvers s)")
      case True
      then have "resolver_ok s (ac_resolvers s ! j)" using r by (simp add: resolvers_ok_def)
      then have "ac_resolvers ?t = ac_resolvers s \<or> ac_resolvers ?t = (ac_resolvers s)[j := ac_resolvers ?t ! j] \<and> resolver_ok s (ac_resolvers ?t ! j)"
        using ResolveAnnounce True by (auto simp: approval_defs resolver_ok_def choice_ok_def split: resolve_phase.splits)
      then show ?thesis
        using resolver_ok_grows [OF step_grows [OF u], of "ac_resolvers ?t ! j"] set_update_subset_insert by metis
    qed (use ResolveAnnounce in auto)
  qed (auto simp: approval_defs split: option.splits)
  then show ?thesis using old by (auto simp: resolvers_ok_def)
qed

text \<open>With distinct approval ids the request a choice was made for is the one it takes.\<close>

definition ids_distinct :: "acp_runtime \<Rightarrow> bool" where
  "ids_distinct s \<longleftrightarrow> distinct (map pm_approval (ac_perms s))"

lemma ids_distinctD:
  "ids_distinct s \<Longrightarrow> p \<in> set (ac_perms s) \<Longrightarrow> q \<in> set (ac_perms s) \<Longrightarrow> pm_approval p = pm_approval q \<Longrightarrow> p = q"
  by (simp add: ids_distinct_def distinct_map inj_on_def)

definition sent_ok :: "acp_runtime \<Rightarrow> bool" where
  "sent_ok s \<longleftrightarrow> (\<forall>x \<in> set (ac_sent s). answer_ok s x)"

lemma sent_fields:
  "ac_sent (receive_permission u r params s) = ac_sent s"
  "ac_sent (register_permission i s) = ac_sent s"
  "ac_sent (announce_permission i ts s) = ac_sent s"
  "ac_sent (announce_timeout i ts s) = ac_sent s"
  "ac_sent (resolve_call a e intent s) = ac_sent s"
  "ac_sent (resolve_look j s) = ac_sent s"
  "ac_sent (resolve_announce j ts s) = ac_sent s"
  by (auto simp: approval_defs split: option.splits resolve_phase.splits)

lemma sent_ok_step:
  assumes u: "untaken s" and p: "pending_ok s" and r: "resolvers_ok s" and d: "ids_distinct s" and ok: "sent_ok s"
  shows "sent_ok (approval_step cx s c)"
proof -
  let ?t = "approval_step cx s c"
  have g: "grows s ?t" by (rule step_grows [OF u])
  have "ac_sent ?t = ac_sent s \<or> (\<exists>x. ac_sent ?t = ac_sent s @ [x] \<and> answer_ok ?t x)"
  proof (cases c)
    case (TimerFires i alive)
    show ?thesis
    proof (cases "i < length (ac_perms s) \<and> pm_timer (ac_perms s ! i) = Sleeping
        \<and> map_of (ac_pending s) (pm_approval (ac_perms s ! i)) \<noteq> None \<and> alive")
      case True
      then have "ac_perms ?t ! i \<in> set (ac_perms ?t)" "pm_request (ac_perms ?t ! i) = pm_request (ac_perms s ! i)"
        "pm_timer (ac_perms ?t ! i) = TimedOut"
        and "ac_sent ?t = ac_sent s @ [(pm_request (ac_perms s ! i), cancelled_outcome)]"
        using TimerFires by (auto simp: approval_defs intro!: set_update_memI)
      then show ?thesis by (auto simp: answer_ok_def intro!: bexI [of _ "ac_perms ?t ! i"])
    qed (use TimerFires in \<open>auto simp: approval_defs split: option.splits\<close>)
  next
    case (ResolveTake j alive)
    show ?thesis
    proof (cases "j < length (ac_resolvers s)")
      case True
      let ?v = "ac_resolvers s ! j"
      have v: "?v \<in> set (ac_resolvers s)" using True by simp
      from ResolveTake True have t: "?t = resolve_take cx j alive s" by simp
      show ?thesis
      proof (cases rule: resolve_take_cases [of cx j alive s])
        case (taken i opt pe s2)
        then have sent: "ac_sent ?t = ac_sent s @ [(pe_request pe, selected_outcome i)]"
          by (auto simp: t approval_defs)
        let ?q = "ac_perms s ! pe_timer pe"
        have q: "?q \<in> set (ac_perms s)" "pm_approval ?q = rv_approval ?v" "pm_request ?q = pe_request pe"
          using p taken(3) by (auto simp: pending_ok_def entry_for_def Let_def)
        from r v taken(1) have "choice_ok s ?v i opt" by (auto simp: resolvers_ok_def resolver_ok_def)
        then obtain p' where "p' \<in> set (ac_perms s)" "pm_approval p' = rv_approval ?v" "opt \<in> set (pm_options p')"
          and gr: "granted (rv_intent ?v) (rv_explicit ?v) i opt" by (auto simp: choice_ok_def)
        moreover from this q have "p' = ?q" by (intro ids_distinctD [OF d]) auto
        ultimately have "opt \<in> set (pm_options ?q)" by simp
        from selected_grows [OF g q(1) v this q(3) q(2) [symmetric] gr]
        have "answer_ok ?t (pe_request pe, selected_outcome i)" unfolding answer_ok_def fst_conv snd_conv by blast
        then show ?thesis unfolding sent by blast
      qed (auto simp: t approval_defs)
    qed (use ResolveTake in simp)
  qed (auto simp: sent_fields)
  then show ?thesis using ok answer_ok_grows [OF g] by (auto simp: sent_ok_def)
qed

lemma cache_fields:
  "ac_by_call (receive_permission u r params s) = ac_by_call s" "ac_by_hash (receive_permission u r params s) = ac_by_hash s"
  "ac_by_call (register_permission i s) = ac_by_call s" "ac_by_hash (register_permission i s) = ac_by_hash s"
  "ac_by_call (announce_permission i ts s) = ac_by_call s" "ac_by_hash (announce_permission i ts s) = ac_by_hash s"
  "ac_by_call (timer_fires i alive s) = ac_by_call s" "ac_by_hash (timer_fires i alive s) = ac_by_hash s"
  "ac_by_call (announce_timeout i ts s) = ac_by_call s" "ac_by_hash (announce_timeout i ts s) = ac_by_hash s"
  "ac_by_call (resolve_call a e intent s) = ac_by_call s" "ac_by_hash (resolve_call a e intent s) = ac_by_hash s"
  "ac_by_call (resolve_look j s) = ac_by_call s" "ac_by_hash (resolve_look j s) = ac_by_hash s"
  "ac_by_call (resolve_announce j ts s) = ac_by_call s" "ac_by_hash (resolve_announce j ts s) = ac_by_hash s"
  by (auto simp: approval_defs split: option.splits resolve_phase.splits)

lemma observe_cache:
  "ac_by_call (observe_activity t h s) k = Some e \<Longrightarrow> ac_by_call s k = Some e"
  "ac_by_hash (observe_activity t h s) k = Some e \<Longrightarrow> ac_by_hash s k = Some e"
  by (auto simp: observe_activity_def correlate_approval_def Let_def split: option.splits if_splits)

lemma cache_ok_mono:
  assumes "grows s t" and "cache_ok cx s"
    and "\<And>k e. ac_by_call t k = Some e \<Longrightarrow> ac_by_call s k = Some e"
    and "\<And>k e. ac_by_hash t k = Some e \<Longrightarrow> ac_by_hash s k = Some e"
  shows "cache_ok cx t"
  using assms cached_for_grows [OF assms(1)] unfolding cache_ok_def by blast

lemma cache_ok_step:
  assumes u: "untaken s" and ok: "cache_ok cx s"
  shows "cache_ok cx (approval_step cx s c)"
proof (cases "\<exists>j alive. c = ResolveTake j alive \<and> j < length (ac_resolvers s)")
  case True
  then obtain j alive where c: "c = ResolveTake j alive" and j: "j < length (ac_resolvers s)" by blast
  let ?t = "resolve_take cx j alive s" and ?v = "ac_resolvers s ! j"
  have g: "grows s ?t" using step_grows [OF u, of cx c] c j by simp
  have "cache_ok cx ?t"
  proof (cases rule: resolve_take_cases [of cx j alive s])
    case (taken i opt pe s2)
    let ?e = "\<lparr>ce_approval_id = rv_approval ?v, ce_expires_at = ac_now s + approval_correlation_ttl\<rparr>"
    have fields: "ac_by_call s2 = ac_by_call s" "ac_by_hash s2 = ac_by_hash s" "ac_now s2 = ac_now s"
      using taken(4) by (auto simp: approval_defs)
    show ?thesis
    proof (cases "rv_intent ?v = Approve")
      case True
      have n: "ac_now ?t = ac_now s" unfolding taken(5) using True fields by (simp add: upd_resolver_def)
      have "took ?t (rv_approval ?v) (pe_tool_call pe) (ac_now s)"
        unfolding taken(5) took_def using j True taken(4)
        by (intro bexI [of _ "ac_resolvers ?t ! j"]) (auto simp: taken(5) approval_defs intro!: set_update_memI)
      then have e: "P (pe_tool_call pe) \<Longrightarrow> cached_for ?t P ?e" for P
        unfolding cached_for_def n by auto
      have call: "ac_by_call ?t k = Some e \<Longrightarrow> e = ?e \<and> get_str ''toolCallId'' (pe_tool_call pe) = Some k \<or> ac_by_call s k = Some e" for k e
        unfolding taken(5) using True fields
        by (auto simp: upd_resolver_def record_resolved_approval_def Let_def split: option.splits if_splits)
      have hash: "ac_by_hash ?t k = Some e \<Longrightarrow> e = ?e \<and> cx_call_hash cx (pe_tool_call pe) = k \<or> ac_by_hash s k = Some e" for k e
        unfolding taken(5) using True fields
        by (auto simp: upd_resolver_def record_resolved_approval_def Let_def split: option.splits if_splits)
      show ?thesis unfolding cache_ok_def
      proof (intro conjI allI impI)
        fix k x assume "ac_by_call ?t k = Some x"
        from call [OF this] show "cached_for ?t (\<lambda>tc. get_str ''toolCallId'' tc = Some k) x"
        proof (elim disjE conjE)
          assume "ac_by_call s k = Some x"
          with ok show ?thesis by (intro cached_for_grows [OF g]) (simp add: cache_ok_def)
        qed (use e [of "\<lambda>tc. get_str ''toolCallId'' tc = Some k"] in simp)
      next
        fix k x assume "ac_by_hash ?t k = Some x"
        from hash [OF this] show "cached_for ?t (\<lambda>tc. cx_call_hash cx tc = k) x"
        proof (elim disjE conjE)
          assume "ac_by_hash s k = Some x"
          with ok show ?thesis by (intro cached_for_grows [OF g]) (simp add: cache_ok_def)
        qed (use e [of "\<lambda>tc. cx_call_hash cx tc = k"] in simp)
      qed
    next
      case False
      then show ?thesis
        using taken fields by (intro cache_ok_mono [OF g ok]) (auto simp: upd_resolver_def)
    qed
  qed (rule cache_ok_mono [OF g ok]; auto simp: approval_defs)+
  then show ?thesis using c j by simp
next
  case False
  then show ?thesis
    by (intro cache_ok_mono [OF step_grows [OF u] ok]; cases c)
      (auto simp: cache_fields dest: observe_cache split: if_splits)
qed

lemma live_entry_Some: "live_entry n x = Some a \<longleftrightarrow> (\<exists>e. x = Some e \<and> n < ce_expires_at e \<and> ce_approval_id e = a)"
  by (auto simp: live_entry_def filter_opt_Some_iff)

lemma correlated:
  assumes "cache_ok cx s" and "fst (correlate_approval t h s) = Some a"
  shows "\<exists>tc t0. took s a tc t0 \<and> t0 \<le> ac_now s \<and> ac_now s < t0 + approval_correlation_ttl
    \<and> (get_str ''toolCallId'' tc = Some t \<or> h = Some (cx_call_hash cx tc))"
proof -
  from assms(2) consider e where "ac_by_call s t = Some e" "ac_now s < ce_expires_at e" "ce_approval_id e = a"
    | e k where "h = Some k" "ac_by_hash s k = Some e" "ac_now s < ce_expires_at e" "ce_approval_id e = a"
    by (auto simp: correlate_approval_def Let_def live_entry_Some split: option.splits)
  then show ?thesis
  proof cases
    case 1
    with assms(1) have "cached_for s (\<lambda>tc. get_str ''toolCallId'' tc = Some t) e" by (simp add: cache_ok_def)
    with 1 show ?thesis unfolding cached_for_def by metis
  next
    case 2
    with assms(1) have "cached_for s (\<lambda>tc. cx_call_hash cx tc = k) e" by (simp add: cache_ok_def)
    with 2 show ?thesis unfolding cached_for_def by metis
  qed
qed

lemma stamps_step:
  assumes u: "untaken s" and c: "cache_ok cx s" and ok: "\<forall>x \<in> set (ac_stamps s). stamp_ok cx s x"
  shows "\<forall>x \<in> set (ac_stamps (approval_step cx s c)). stamp_ok cx (approval_step cx s c) x"
proof -
  let ?t = "approval_step cx s c"
  have "ac_stamps ?t = ac_stamps s \<or> (\<exists>x. ac_stamps ?t = ac_stamps s @ [x] \<and> stamp_ok cx s x)"
  proof (cases c)
    case (ObserveActivity t h)
    show ?thesis
    proof (cases "fst (correlate_approval t h s)")
      case (Some a)
      then have "ac_stamps ?t = ac_stamps s @ [\<lparr>st_tool_call_id = t, st_hash = h, st_approval = a, st_at = ac_now s\<rparr>]"
        using ObserveActivity by (simp add: observe_activity_def split_beta)
      with correlated [OF c Some] show ?thesis by (auto simp: stamp_ok_def)
    qed (use ObserveActivity in \<open>simp add: observe_activity_def split_beta\<close>)
  next
    case (ResolveTake j alive)
    then show ?thesis by (auto intro: resolve_take_cases [of cx j alive s] simp: approval_defs)
  qed (auto simp: approval_defs split: option.splits resolve_phase.splits)
  then show ?thesis using ok stamp_ok_grows [OF step_grows [OF u]] by auto
qed

text \<open>Every registered request is answered, lost to a closed channel, or still pending.\<close>

definition conserved :: "acp_runtime \<Rightarrow> 64 word \<Rightarrow> bool" where
  "conserved s r \<longleftrightarrow>
     count_if (\<lambda>x. fst x = r) (ac_sent s) + count_if (\<lambda>x. x = r) (ac_lost s)
       + count_if (\<lambda>x. pe_request (snd x) = r) (ac_pending s)
     = count_if (\<lambda>p. pm_registered p \<and> pm_request p = r) (ac_perms s)"

lemma conserved_same:
  assumes "ac_sent t = ac_sent s" and "ac_lost t = ac_lost s" and "ac_pending t = ac_pending s"
    and "count_if (\<lambda>p. pm_registered p \<and> pm_request p = r) (ac_perms t) = count_if (\<lambda>p. pm_registered p \<and> pm_request p = r) (ac_perms s)"
  shows "conserved s r \<Longrightarrow> conserved t r"
  using assms by (simp add: conserved_def)

lemma count_upd_same:
  "i < length xs \<Longrightarrow> p y = p (xs ! i) \<Longrightarrow> count_if p (xs[i := y]) = count_if p xs"
  using count_if_list_update_eq [of i xs p y] by (simp split: if_splits)

lemma conserved_answer:
  assumes "pending_ok s" and "map_of (ac_pending s) a = Some pe" and "conserved s r"
    and "ac_pending t = AList.delete a (ac_pending s)"
    and "ac_sent t = ac_sent s @ [(pe_request pe, out)] \<and> ac_lost t = ac_lost s
      \<or> ac_sent t = ac_sent s \<and> ac_lost t = ac_lost s @ [pe_request pe]"
    and "count_if (\<lambda>p. pm_registered p \<and> pm_request p = r) (ac_perms t) = count_if (\<lambda>p. pm_registered p \<and> pm_request p = r) (ac_perms s)"
  shows "conserved t r"
  using assms count_if_delete_eq [of "ac_pending s" a pe "\<lambda>pe. pe_request pe = r"]
  by (auto simp: conserved_def pending_ok_def split: if_splits)

lemma perms_upd_count:
  "(\<And>p. pm_registered (f p) = pm_registered p \<and> pm_request (f p) = pm_request p) \<Longrightarrow>
   count_if (\<lambda>p. pm_registered p \<and> pm_request p = r) ((ac_perms s)[i := f (ac_perms s ! i)])
     = count_if (\<lambda>p. pm_registered p \<and> pm_request p = r) (ac_perms s)"
  by (cases "i < length (ac_perms s)") (auto simp: count_upd_same list_update_beyond)

lemma conserved_step:
  assumes p: "pending_ok s" and d: "ids_distinct s" and ok: "conserved s r"
  shows "conserved (approval_step cx s c) r"
proof (cases c)
  case (RegisterPermission i)
  show ?thesis
  proof (cases "i < length (ac_perms s) \<and> \<not> pm_registered (ac_perms s ! i)")
    case True
    let ?p = "ac_perms s ! i"
    have "map_of (ac_pending s) (pm_approval ?p) = None"
    proof (rule ccontr)
      assume "map_of (ac_pending s) (pm_approval ?p) \<noteq> None"
      then obtain pe where pe: "map_of (ac_pending s) (pm_approval ?p) = Some pe" by blast
      with p have "pm_approval (ac_perms s ! pe_timer pe) = pm_approval ?p" "pe_timer pe < length (ac_perms s)"
        "pm_registered (ac_perms s ! pe_timer pe)" by (auto simp: pending_ok_def entry_for_def Let_def)
      with ids_distinctD [OF d, of "ac_perms s ! pe_timer pe" ?p] True show False by simp
    qed
    from count_if_update_new [OF this, of "\<lambda>pe. pe_request pe = r"] True RegisterPermission ok
      count_if_list_update_eq [of i "ac_perms s" "\<lambda>p. pm_registered p \<and> pm_request p = r" "?p\<lparr>pm_registered := True\<rparr>"]
    show ?thesis
      by (simp add: conserved_def register_permission_def Let_def upd_perm_def split: if_splits)
  qed (use RegisterPermission ok in auto)
next
  case (TimerFires i alive)
  show ?thesis
  proof (cases "i < length (ac_perms s) \<and> pm_timer (ac_perms s ! i) = Sleeping")
    case True
    let ?p = "ac_perms s ! i"
    show ?thesis
    proof (cases "map_of (ac_pending s) (pm_approval ?p)")
      case None
      with True TimerFires have t: "approval_step cx s c = upd_perm i (\<lambda>p. p\<lparr>pm_timer := TimerEnded\<rparr>) s"
        by (simp add: timer_fires_def Let_def)
      show ?thesis unfolding t using ok by (rule conserved_same [rotated -1]) (simp_all add: upd_perm_def perms_upd_count)
    next
      case (Some pe)
      with p have "pm_approval (ac_perms s ! pe_timer pe) = pm_approval ?p" "pe_timer pe < length (ac_perms s)"
        "pm_request (ac_perms s ! pe_timer pe) = pe_request pe" by (auto simp: pending_ok_def entry_for_def Let_def)
      with ids_distinctD [OF d, of "ac_perms s ! pe_timer pe" ?p] True have r: "pe_request pe = pm_request ?p" by simp
      show ?thesis
        using True TimerFires Some
        by (intro conserved_answer [OF p Some ok, where out = cancelled_outcome])
          (auto simp: timer_fires_def Let_def respond_permission_def upd_perm_def perms_upd_count r)
    qed
  qed (use TimerFires ok in auto)
next
  case (ResolveTake j alive)
  show ?thesis
  proof (cases "j < length (ac_resolvers s)")
    case True
    with ResolveTake have t: "approval_step cx s c = resolve_take cx j alive s" by simp
    show ?thesis unfolding t
    proof (cases rule: resolve_take_cases [of cx j alive s])
      case (closed i opt pe)
      then show "conserved (resolve_take cx j alive s) r"
        by (intro conserved_answer [OF p closed(3) ok]) (auto simp: respond_permission_def upd_resolver_def abort_timer_def upd_perm_def perms_upd_count)
    next
      case (taken i opt pe s2)
      then show "conserved (resolve_take cx j alive s) r"
        by (intro conserved_answer [OF p taken(3) ok, where out = "selected_outcome i"])
          (auto simp: respond_permission_def upd_resolver_def abort_timer_def upd_perm_def perms_upd_count)
    qed (use ok in \<open>auto simp: conserved_def upd_resolver_def\<close>)
  qed (use ResolveTake ok in auto)
qed (use ok in \<open>auto simp: conserved_def approval_defs perms_upd_count split: option.splits resolve_phase.splits\<close>)

section \<open>Runs\<close>

text \<open>What a run was told: requests with their ids, decisions of users.\<close>

definition offered :: "json \<Rightarrow> json list" where
  "offered params = unwrap_or [] (get_arr ''options'' params)"

definition asked_call :: "json \<Rightarrow> json" where
  "asked_call params = unwrap_or JNull (jget ''toolCall'' params)"

fun ulids_of :: "approval_op list \<Rightarrow> string list" where
  "ulids_of [] = []"
| "ulids_of (ReceivePermission u r params # cs) = u # ulids_of cs"
| "ulids_of (c # cs) = ulids_of cs"

lemma ulids_of_append [simp]: "ulids_of (cs @ ds) = ulids_of cs @ ulids_of ds"
  by (induction cs rule: ulids_of.induct) auto

definition perm_told :: "approval_op list \<Rightarrow> permission \<Rightarrow> bool" where
  "perm_told cs p \<longleftrightarrow> (\<exists>u params. ReceivePermission u (pm_request p) params \<in> set cs
     \<and> pm_approval p = ''appr_'' @ u \<and> pm_options p = offered params \<and> pm_tool_call p = asked_call params)"

definition resolver_told :: "approval_op list \<Rightarrow> resolver \<Rightarrow> bool" where
  "resolver_told cs v \<longleftrightarrow> ResolveCall (rv_approval v) (rv_explicit v) (rv_intent v) \<in> set cs"

definition told :: "approval_op list \<Rightarrow> acp_runtime \<Rightarrow> bool" where
  "told cs s \<longleftrightarrow> (\<forall>p \<in> set (ac_perms s). perm_told cs p) \<and> (\<forall>v \<in> set (ac_resolvers s). resolver_told cs v)
     \<and> map pm_approval (ac_perms s) = map ((@) ''appr_'') (ulids_of cs)"

lemma told_mono:
  "perm_told cs p \<Longrightarrow> perm_told (cs @ ds) p" "resolver_told cs v \<Longrightarrow> resolver_told (cs @ ds) v"
  by (auto simp: perm_told_def resolver_told_def)

lemma extends_by_back:
  "extends_by R xs ys \<Longrightarrow> length ys = length xs \<Longrightarrow> y \<in> set ys \<Longrightarrow> \<exists>x \<in> set xs. R x y"
  by (auto simp: extends_by_def in_set_conv_nth) (metis nth_mem)

lemma told_same:
  assumes t: "told cs s" and g: "grows s u" and "ulids_of [c] = []"
    and l: "length (ac_perms u) = length (ac_perms s)" "length (ac_resolvers u) = length (ac_resolvers s)"
  shows "told (cs @ [c]) u"
proof -
  have "perm_told (cs @ [c]) p" if p: "p \<in> set (ac_perms u)" for p
  proof -
    from extends_by_back [OF _ l(1) p] g obtain q where "q \<in> set (ac_perms s)" "perm_fixed q p"
      by (auto simp: grows_def)
    with t have "perm_told cs p" by (auto simp: told_def perm_told_def perm_fixed_def)
    then show ?thesis by (rule told_mono)
  qed
  moreover have "resolver_told (cs @ [c]) v" if v: "v \<in> set (ac_resolvers u)" for v
  proof -
    from extends_by_back [OF _ l(2) v] g obtain w where "w \<in> set (ac_resolvers s)" "resolver_fixed w v"
      by (auto simp: grows_def)
    with t show ?thesis by (auto simp: told_def resolver_told_def resolver_fixed_def)
  qed
  moreover have "map pm_approval (ac_perms u) = map pm_approval (ac_perms s)"
    using g l by (auto simp: list_eq_iff_nth_eq grows_def extends_by_def perm_fixed_def)
  ultimately show ?thesis using assms(1,3) by (simp add: told_def)
qed

lemma lengths_take:
  "length (ac_perms (resolve_take cx j alive s)) = length (ac_perms s)"
  "length (ac_resolvers (resolve_take cx j alive s)) = length (ac_resolvers s)"
  by (cases rule: resolve_take_cases [of cx j alive s]; auto simp: approval_defs)+

lemma step_lengths:
  assumes "\<And>u r params. c \<noteq> ReceivePermission u r params" and "\<And>a e i. c \<noteq> ResolveCall a e i"
  shows "length (ac_perms (approval_step cx s c)) = length (ac_perms s)"
    and "length (ac_resolvers (approval_step cx s c)) = length (ac_resolvers s)"
  using assms by (cases c; auto simp: lengths_take approval_defs split: option.splits resolve_phase.splits)+

lemma told_step:
  assumes u: "untaken s" and t: "told cs s"
  shows "told (cs @ [c]) (approval_step cx s c)"
proof (cases c)
  case (ReceivePermission u r params)
  let ?p = "last (ac_perms (approval_step cx s c))"
  have "perm_told (cs @ [c]) ?p"
    using ReceivePermission by (auto simp: receive_permission_def perm_told_def offered_def asked_call_def)
  then show ?thesis
    using ReceivePermission t told_mono [of cs _ "[c]"] by (auto simp: told_def receive_permission_def)
next
  case (ResolveCall a e i)
  have "resolver_told (cs @ [c]) (last (ac_resolvers (approval_step cx s c)))"
    using ResolveCall by (simp add: resolve_call_def resolver_told_def)
  then show ?thesis
    using ResolveCall t told_mono [of cs _ "[c]"] by (auto simp: told_def resolve_call_def)
qed (rule told_same [OF t step_grows [OF u] _ step_lengths]; simp)+

definition runtime_inv :: "codecs \<Rightarrow> approval_op list \<Rightarrow> acp_runtime \<Rightarrow> bool" where
  "runtime_inv cx cs s \<longleftrightarrow> untaken s \<and> pending_ok s \<and> resolvers_ok s \<and> cache_ok cx s
     \<and> (\<forall>x \<in> set (ac_stamps s). stamp_ok cx s x) \<and> told cs s
     \<and> (distinct (ulids_of cs) \<longrightarrow> sent_ok s \<and> (\<forall>r. conserved s r))"

lemma told_ids_distinct: "told cs s \<Longrightarrow> distinct (ulids_of cs) \<Longrightarrow> ids_distinct s"
  by (simp add: told_def ids_distinct_def distinct_map inj_on_def)

lemma runtime_inv_step: "runtime_inv cx cs s \<Longrightarrow> runtime_inv cx (cs @ [c]) (approval_step cx s c)"
  unfolding runtime_inv_def
  using untaken_step pending_ok_step resolvers_ok_step cache_ok_step stamps_step told_step
    sent_ok_step conserved_step told_ids_distinct [of cs s] by (auto simp del: approval_step.simps)

lemma runtime_inv_new: "runtime_inv cx [] (runtime_new sid ms)"
  by (simp add: runtime_inv_def runtime_new_def untaken_def pending_ok_def resolvers_ok_def cache_ok_def
      told_def sent_ok_def conserved_def)

interpretation approvals: traced_system "approval_step cx" "runtime_inv cx" for cx
  by unfold_locales (rule runtime_inv_step)

abbreviation approvals_after :: "codecs \<Rightarrow> string \<Rightarrow> nat \<Rightarrow> approval_op list \<Rightarrow> acp_runtime" where
  "approvals_after cx sid ms cs \<equiv> foldl (approval_step cx) (runtime_new sid ms) cs"

lemma run_facts: "runtime_inv cx cs (approvals_after cx sid ms cs)"
  by (rule approvals.run_inv [OF runtime_inv_new])

lemma toldD:
  assumes "told cs s"
  shows "p \<in> set (ac_perms s) \<Longrightarrow> perm_told cs p" and "v \<in> set (ac_resolvers s) \<Longrightarrow> resolver_told cs v"
  using assms by (simp_all add: told_def)

section \<open>Timers\<close>

text \<open>
  The handler starts the timer before it registers the request. In a \<open>timely\<close> run no timer
  fires in between; then every pending request has its timer running, whatever decisions were
  refused meanwhile.
\<close>

definition timers_ok :: "acp_runtime \<Rightarrow> bool" where
  "timers_ok s \<longleftrightarrow>
     (\<forall>a pe. map_of (ac_pending s) a = Some pe \<longrightarrow> pm_timer (ac_perms s ! pe_timer pe) = Sleeping)
     \<and> (\<forall>i < length (ac_perms s). \<not> pm_registered (ac_perms s ! i) \<longrightarrow> pm_timer (ac_perms s ! i) = Sleeping)"

fun early_timer :: "acp_runtime \<Rightarrow> approval_op \<Rightarrow> bool" where
  "early_timer s (TimerFires i alive) = (i < length (ac_perms s) \<and> \<not> pm_registered (ac_perms s ! i))"
| "early_timer s _ = False"

fun timely :: "codecs \<Rightarrow> acp_runtime \<Rightarrow> approval_op list \<Rightarrow> bool" where
  "timely cx s [] = True"
| "timely cx s (c # cs) = (\<not> early_timer s c \<and> timely cx (approval_step cx s c) cs)"

lemma pendingD:
  assumes "pending_ok s" and "map_of (ac_pending s) a = Some pe"
  shows "pe_timer pe < length (ac_perms s)" and "pm_approval (ac_perms s ! pe_timer pe) = a"
    and "pm_registered (ac_perms s ! pe_timer pe)"
  using assms by (auto simp: pending_ok_def entry_for_def Let_def)

lemma timers_ok_end:
  assumes p: "pending_ok s" and t: "timers_ok s" and i: "pm_registered (ac_perms s ! i)" "i < length (ac_perms s)"
    and pd: "ac_pending t = AList.delete (pm_approval (ac_perms s ! i)) (ac_pending s)"
    and pm: "ac_perms t = (ac_perms s)[i := (ac_perms s ! i)\<lparr>pm_timer := st\<rparr>]"
  shows "timers_ok t"
proof -
  have "pm_timer (ac_perms t ! pe_timer pe) = Sleeping" if "map_of (ac_pending t) a = Some pe" for a pe
  proof -
    from that p pd have a: "map_of (ac_pending s) a = Some pe" "a \<noteq> pm_approval (ac_perms s ! i)"
      by (auto simp: pending_ok_def alist.lookup_del split: if_splits)
    with pendingD [OF p a(1)] have "pe_timer pe \<noteq> i" by auto
    with t a(1) pm show ?thesis by (simp add: timers_ok_def)
  qed
  with t i pm show ?thesis
    by (auto simp: timers_ok_def nth_list_update split: if_splits)
qed

lemma timers_ok_perms:
  assumes "timers_ok s" and "ac_pending t = ac_pending s" and "length (ac_perms t) = length (ac_perms s)"
    and "\<And>i. i < length (ac_perms s) \<Longrightarrow> pm_registered (ac_perms t ! i) = pm_registered (ac_perms s ! i)
      \<and> (pm_timer (ac_perms s ! i) = Sleeping \<longrightarrow> pm_timer (ac_perms t ! i) = Sleeping)"
    and "pending_ok s"
  shows "timers_ok t"
  using assms pendingD(1) [OF assms(5)] unfolding timers_ok_def by auto

lemma timers_ok_step:
  assumes p: "pending_ok s" and t: "timers_ok s" and e: "\<not> early_timer s c"
  shows "timers_ok (approval_step cx s c)"
proof (cases c)
  case (ReceivePermission u r params)
  with t pendingD(1) [OF p] show ?thesis
    by (auto simp: timers_ok_def receive_permission_def nth_append less_Suc_eq)
next
  case (RegisterPermission i)
  with t p pendingD(1) [OF p] show ?thesis
    by (auto simp: timers_ok_def register_permission_def Let_def upd_perm_def alist.lookup_put pending_ok_def
        nth_list_update split: if_splits)
next
  case (TimerFires i alive)
  show ?thesis
  proof (cases "i < length (ac_perms s) \<and> pm_timer (ac_perms s ! i) = Sleeping")
    case True
    with TimerFires e have r: "pm_registered (ac_perms s ! i)" by simp
    show ?thesis
    proof (cases "map_of (ac_pending s) (pm_approval (ac_perms s ! i))")
      case None
      then have "AList.delete (pm_approval (ac_perms s ! i)) (ac_pending s) = ac_pending s"
        by (simp add: delete_id map_of_eq_None_iff)
      with None True TimerFires show ?thesis
        by (intro timers_ok_end [OF p t r conjunct1 [OF True], where st = TimerEnded]) (simp_all add: timer_fires_def Let_def upd_perm_def)
    next
      case (Some pe)
      with True TimerFires show ?thesis
        by (intro timers_ok_end [OF p t r conjunct1 [OF True], where st = TimedOut])
          (simp_all add: timer_fires_def Let_def upd_perm_def respond_permission_def)
    qed
  qed (use TimerFires t in auto)
next
  case (ResolveTake j alive)
  show ?thesis
  proof (cases "j < length (ac_resolvers s)")
    case True
    with ResolveTake have eq: "approval_step cx s c = resolve_take cx j alive s" by simp
    show ?thesis unfolding eq
    proof (cases rule: resolve_take_cases [of cx j alive s])
      case (closed i opt pe)
      from pendingD [OF p closed(3)] closed show "timers_ok (resolve_take cx j alive s)"
        by (intro timers_ok_end [OF p t, where i = "pe_timer pe" and st = TimerEnded]) (auto simp: approval_defs)
    next
      case (taken i opt pe s2)
      from pendingD [OF p taken(3)] taken show "timers_ok (resolve_take cx j alive s)"
        by (intro timers_ok_end [OF p t, where i = "pe_timer pe" and st = TimerEnded]) (auto simp: approval_defs)
    qed (use t in \<open>auto simp: timers_ok_def upd_resolver_def\<close>)
  qed (use ResolveTake t in auto)
next
  case (ResolveAnnounce j ts)
  with t show ?thesis by (auto simp: timers_ok_def approval_defs split: resolve_phase.splits)
next
  case (AnnounceTimeout i ts)
  with t p show ?thesis
    by (auto intro!: timers_ok_perms [OF t _ _ _ p] simp: announce_timeout_def emit_def upd_perm_def nth_list_update split: if_splits)
next
  case (AnnouncePermission i ts)
  with t p show ?thesis
    by (auto intro!: timers_ok_perms [OF t _ _ _ p] simp: announce_permission_def emit_def upd_perm_def Let_def nth_list_update split: if_splits)
qed (use t in \<open>auto simp: timers_ok_def resolve_call_def resolve_look_def upd_resolver_def Let_def\<close>)

lemma timely_timers:
  "runtime_inv cx ds s \<Longrightarrow> timers_ok s \<Longrightarrow> timely cx s cs \<Longrightarrow> timers_ok (foldl (approval_step cx) s cs)"
proof (induction cs arbitrary: s ds)
  case (Cons c cs)
  have "timers_ok (approval_step cx s c)"
    using Cons.prems by (intro timers_ok_step) (auto simp: runtime_inv_def)
  with Cons.IH [OF runtime_inv_step [OF Cons.prems(1), of c]] Cons.prems(3) show ?case by simp
qed simp

section \<open>The properties\<close>

lemma run_parts:
  assumes "s = approvals_after cx sid ms cs"
  shows "pending_ok s" and "resolvers_ok s" and "told cs s"
    and "x \<in> set (ac_stamps s) \<Longrightarrow> stamp_ok cx s x"
    and "distinct (ulids_of cs) \<Longrightarrow> sent_ok s" and "distinct (ulids_of cs) \<Longrightarrow> conserved s r"
  using run_facts [of cx cs sid ms] assms by (auto simp: runtime_inv_def)

text \<open>
  C27: every permission request is answered once. After any interleaving of requests, timers and
  decisions, with distinct approval ids: the answers written for a request id, the answers lost to
  a closed channel and the requests still pending under it are together exactly as many as the
  requests registered with it. A decision that races a timer or another decision never answers twice.
\<close>
theorem permission_answered_once:
  assumes "distinct (ulids_of cs)" and "s = approvals_after cx sid ms cs"
  shows "count_if (\<lambda>x. fst x = r) (ac_sent s) + count_if (\<lambda>x. x = r) (ac_lost s)
      + count_if (\<lambda>x. pe_request (snd x) = r) (ac_pending s)
    = count_if (\<lambda>p. pm_registered p \<and> pm_request p = r) (ac_perms s)"
  using run_parts(6) [OF assms(2,1)] by (simp add: conserved_def)

text \<open>
  C26: the agent only hears what users decided. Every answer to a permission request is the
  cancellation of its timer, or selects an option the agent offered in that request, because of a
  call that approved or rejected exactly this request: the option's kind fits the decision, it is
  the option the call named if it named one, and it is never the persistent \<open>allow_always\<close>.
\<close>
theorem answers_are_decided:
  assumes "distinct (ulids_of cs)" and "(r, out) \<in> set (ac_sent (approvals_after cx sid ms cs))"
  shows "out = cancelled_outcome
    \<or> (\<exists>u params explicit intent i. ReceivePermission u r params \<in> set cs
        \<and> ResolveCall (''appr_'' @ u) explicit intent \<in> set cs \<and> out = selected_outcome i
        \<and> (\<exists>opt \<in> set (offered params). granted intent explicit i opt))"
proof -
  let ?s = "approvals_after cx sid ms cs"
  from run_parts(5) [OF refl assms(1)] assms(2) have "answer_ok ?s (r, out)" by (auto simp: sent_ok_def)
  then consider "out = cancelled_outcome"
    | p v i opt where "p \<in> set (ac_perms ?s)" "v \<in> set (ac_resolvers ?s)" "opt \<in> set (pm_options p)" "pm_request p = r"
        "rv_approval v = pm_approval p" "granted (rv_intent v) (rv_explicit v) i opt" "out = selected_outcome i"
    by (auto simp: answer_ok_def)
  then show ?thesis
  proof cases
    case 2
    from toldD(1) [OF run_parts(3) [OF refl] 2(1)] obtain u params where
      "ReceivePermission u (pm_request p) params \<in> set cs" "pm_approval p = ''appr_'' @ u" "pm_options p = offered params"
      by (auto simp: perm_told_def)
    moreover from toldD(2) [OF run_parts(3) [OF refl] 2(2)] have
      "ResolveCall (rv_approval v) (rv_explicit v) (rv_intent v) \<in> set cs" by (simp add: resolver_told_def)
    ultimately show ?thesis using 2 by metis
  qed simp
qed


text \<open>
  C29: refused decisions leave the timeout in place. In a run in which no timer fires before its
  request is registered, every pending request has its timer still running, whatever decisions
  named a wrong option, a wrong kind or a forbidden one; so the agent is never left waiting.
\<close>
theorem pending_keeps_timer:
  assumes "timely cx (runtime_new sid ms) cs"
    and "map_of (ac_pending (approvals_after cx sid ms cs)) a = Some pe"
  shows "pm_timer (ac_perms (approvals_after cx sid ms cs) ! pe_timer pe) = Sleeping
    \<and> pm_approval (ac_perms (approvals_after cx sid ms cs) ! pe_timer pe) = a
    \<and> pm_request (ac_perms (approvals_after cx sid ms cs) ! pe_timer pe) = pe_request pe"
proof -
  have "timers_ok (runtime_new sid ms)" by (simp add: timers_ok_def runtime_new_def)
  from timely_timers [OF runtime_inv_new this assms(1)] run_parts(1) [OF refl, of cx sid ms cs] assms(2)
  show ?thesis by (auto simp: timers_ok_def pending_ok_def entry_for_def Let_def)
qed

text \<open>A request that is approved, an activity of the call, a request that is left to its timer.\<close>

definition example_params :: json where
  "example_params = JObj
     [(''options'', JArr [JObj [(''optionId'', JStr ''always''), (''kind'', JStr ''allow_always'')],
                          JObj [(''optionId'', JStr ''once''), (''kind'', JStr ''allow_once'')]]),
      (''toolCall'', JObj [(''toolCallId'', JStr ''call''), (''kind'', JStr ''edit'')])]"

definition example_codecs :: codecs where
  "example_codecs = \<lparr>cx_to_vec = example_print, cx_sha_hex = id, cx_replace = []\<rparr>"

definition example_approvals :: "approval_op list" where
  "example_approvals =
     [ReceivePermission ''a'' 7 example_params, RegisterPermission 0, AnnouncePermission 0 ''t'',
      ResolveCall ''appr_a'' (Some ''always'') Approve, ResolveLook 0,
      ResolveCall ''appr_a'' None Approve, ResolveLook 1]"

lemma example_chosen:
  "resolve_option (offered example_params) None Approve
     = Inr (''once'', JObj [(''optionId'', JStr ''once''), (''kind'', JStr ''allow_once'')])"
  "resolve_option (offered example_params) (Some ''always'') Approve = Inl (OptionForbidden ''always'')"
  by (simp_all add: resolve_option_def offered_def example_params_def pick_approve_option_id_def id_for_kind_def
      get_str_def get_arr_def starts_with_def persistent_permission_allowed_def)

lemma example_offer: "unwrap_or [] (get_arr ''options'' example_params) = offered example_params"
  by (simp add: offered_def)

definition example_approved :: "approval_op list" where
  "example_approved = example_approvals @ [ResolveTake 1 True]"

lemma example_sent:
  "ac_sent (approvals_after example_codecs ''s'' 100 example_approved) = [(7, selected_outcome ''once'')]"
  by (simp add: example_approved_def example_approvals_def runtime_new_def approval_defs example_offer example_chosen resolve_take_def)

lemma example_approved_ids: "distinct (ulids_of example_approved)"
  by (simp add: example_approved_def example_approvals_def)

theorem permission_answered_once_witness:
  "(let s = approvals_after example_codecs ''s'' 100 example_approved in
    1 + count_if (\<lambda>x. x = 7) (ac_lost s) + count_if (\<lambda>x. pe_request (snd x) = 7) (ac_pending s)
      = count_if (\<lambda>p. pm_registered p \<and> pm_request p = 7) (ac_perms s))"
  using permission_answered_once [OF example_approved_ids refl, of 7 example_codecs "''s''" 100]
  unfolding example_sent Let_def by simp

theorem answers_are_decided_witness:
  "\<exists>u params explicit intent i. ReceivePermission u 7 params \<in> set example_approved
      \<and> ResolveCall (''appr_'' @ u) explicit intent \<in> set example_approved \<and> selected_outcome ''once'' = selected_outcome i
      \<and> (\<exists>opt \<in> set (offered params). granted intent explicit i opt)"
proof -
  have "(7, selected_outcome ''once'') \<in> set (ac_sent (approvals_after example_codecs ''s'' 100 example_approved))"
    by (simp only: example_sent list.set insertI1)
  from answers_are_decided [OF example_approved_ids this] show ?thesis
    by (simp add: selected_outcome_def cancelled_outcome_def)
qed

theorem pending_keeps_timer_witness:
  "pm_timer (ac_perms (approvals_after example_codecs ''s'' 100 (take 5 example_approvals)) ! 0) = Sleeping"
proof -
  have t: "timely example_codecs (runtime_new ''s'' 100) (take 5 example_approvals)"
    by (simp add: example_approvals_def)
  obtain pe where pe: "map_of (ac_pending (approvals_after example_codecs ''s'' 100 (take 5 example_approvals))) ''appr_a'' = Some pe"
    "pe_timer pe = 0"
    by (simp add: example_approvals_def runtime_new_def approval_defs)
  from pending_keeps_timer [OF t pe(1)] pe(2) show ?thesis by simp
qed

definition example_observed :: "approval_op list" where
  "example_observed = example_approved @ [Tick 5, ObserveActivity ''call'' None]"

lemma example_stamps:
  "ac_stamps (approvals_after example_codecs ''s'' 100 example_observed)
     = [\<lparr>st_tool_call_id = ''call'', st_hash = None, st_approval = ''appr_a'', st_at = 5\<rparr>]"
  by (simp add: example_observed_def example_approved_def example_approvals_def runtime_new_def approval_defs example_offer
      example_chosen resolve_take_def record_resolved_approval_def observe_activity_def correlate_approval_def live_entry_def
      filter_opt_def approval_correlation_ttl_def) (simp add: example_params_def get_str_def)


text \<open>A timer that fires before the request is registered finds nothing to cancel, and the request waits without one.\<close>

lemma timeout_before_insert_waits:
  "(let s = approvals_after example_codecs ''s'' 0
      [ReceivePermission ''a'' 7 example_params, TimerFires 0 True, RegisterPermission 0]
    in map_of (ac_pending s) ''appr_a'' \<noteq> None \<and> pm_timer (ac_perms s ! 0) = TimerEnded \<and> ac_sent s = [])"
  by (simp add: runtime_new_def approval_defs)

end
