(* ===== verification/Agent_Catalog.thy ===== *)
theory Agent_Catalog
  imports Agent_Registry Wire
begin

text \<open>
  \<open>apps/local-bridge/src/agent_runtime/registry_sync.rs\<close> and the three \<open>registry.*\<close> commands of
  \<open>translator/mod.rs\<close>: fetching a catalogue of further agents, adding one of them to
  \<open>agents.toml\<close>, and swapping in the edited file. The HTTP client, the TOML parser of the
  catalogue and the outcomes of writes are the fields of a \<open>catalog_env\<close>.
\<close>

section \<open>Catalogue entries\<close>

datatype entry_source = LocalEntry | RemoteEntry

fun entry_source_str :: "entry_source \<Rightarrow> string" where
  "entry_source_str LocalEntry = ''local''"
| "entry_source_str RemoteEntry = ''remote''"

record registry_entry =
  re_id :: string
  re_label :: string
  re_kind :: string
  re_command :: string
  re_args :: "string list"
  re_install_hint :: "string option"
  re_source :: entry_source
  re_installed :: bool

definition entry_json :: "registry_entry \<Rightarrow> json" where
  "entry_json e = JObj
     ([(''id'', JStr (re_id e)), (''label'', JStr (re_label e)), (''kind'', JStr (re_kind e)),
       (''command'', JStr (re_command e))]
      @ (if re_args e = [] then [] else [(''args'', json_strs (re_args e))])
      @ (case re_install_hint e of None \<Rightarrow> [] | Some x \<Rightarrow> [(''install_hint'', JStr x)])
      @ [(''source'', JStr (entry_source_str (re_source e))), (''installed'', JBool (re_installed e))])"

record remote_agent_entry =
  ra_kind :: string
  ra_label :: "string option"
  ra_command :: string
  ra_args :: "string list"
  ra_install_hint :: "string option"

record sync_result =
  sr_source_kind :: string
  sr_source :: string
  sr_from_cache :: bool
  sr_entries :: "registry_entry list"

section \<open>Reading a source\<close>

text \<open>
  The outcome of \<open>fs::write\<close>: done, refused when the file is opened, or broken off after some
  bytes of the new text, the old one being gone.
\<close>

datatype write_outcome = Written | WriteRefused string | WriteBroken string nat

record catalog_env =
  ce_toml :: toml_parser
  ce_catalog :: "string \<Rightarrow> string + (string \<times> remote_agent_entry) list"
  ce_http :: "string \<Rightarrow> string list + string"
  ce_mkdir_ok :: "string \<Rightarrow> bool"
  ce_write :: "string \<Rightarrow> write_outcome"
  ce_clock :: clock

definition host_write :: "catalog_env \<Rightarrow> string \<Rightarrow> string \<Rightarrow> agents_host \<Rightarrow> (string + unit) \<times> agents_host" where
  "host_write env path text h =
     (case ce_write env path of
        Written \<Rightarrow> (Inr (), h\<lparr>ah_files := (ah_files h)(path \<mapsto> Inr (text, now (ce_clock env)))\<rparr>)
      | WriteRefused e \<Rightarrow> (Inl e, h)
      | WriteBroken e n \<Rightarrow> (Inl e, h\<lparr>ah_files := (ah_files h)(path \<mapsto> Inr (take n text, now (ce_clock env)))\<rparr>))"

definition cache_path :: "string \<Rightarrow> string" where
  "cache_path dir = path_join dir ''registry.cache.toml''"

definition read_cache :: "catalog_env \<Rightarrow> agents_host \<Rightarrow> string \<Rightarrow> nat \<Rightarrow> string option" where
  "read_cache env h dir ttl =
     (case ah_files h (cache_path dir) of
        Some (Inr (text, modified)) \<Rightarrow>
          (let age = now (ce_clock env) - modified in
           if age < 0 then None
           else if int ttl < age div 1000000000 then None
           else Some text)
      | _ \<Rightarrow> None)"

definition write_cache :: "catalog_env \<Rightarrow> string \<Rightarrow> string \<Rightarrow> agents_host \<Rightarrow> agents_host" where
  "write_cache env dir body h =
     (if ce_mkdir_ok env dir then snd (host_write env (cache_path dir) body h) else h)"

definition source_kind_str :: "registry_source \<Rightarrow> string" where
  "source_kind_str s = (case rs_kind s of SourceUrl _ \<Rightarrow> ''url'' | SourcePath _ \<Rightarrow> ''path'')"

definition fetch_source :: "catalog_env \<Rightarrow> agents_host \<Rightarrow> registry_source \<Rightarrow> string list + string" where
  "fetch_source env h s =
     (case rs_kind s of
        SourceUrl url \<Rightarrow> ce_http env url
      | SourcePath p \<Rightarrow>
          (case host_read h p of Inl e \<Rightarrow> Inl [''reading registry path '' @ p, e] | Inr t \<Rightarrow> Inr t))"

text \<open>Errors are \<open>anyhow\<close> chains, outermost context first.\<close>

definition load_source_with_cache ::
    "catalog_env \<Rightarrow> registry_source \<Rightarrow> string option \<Rightarrow> agents_host
      \<Rightarrow> (string list + string \<times> bool) \<times> agents_host" where
  "load_source_with_cache env s cache_dir h =
     (let ttl = rs_cache_ttl_secs s;
          dir = filter_opt (\<lambda>_. 0 < ttl) cache_dir in
      case Option.bind dir (\<lambda>d. read_cache env h d ttl) of
        Some cached \<Rightarrow> (Inr (cached, True), h)
      | None \<Rightarrow>
          (case fetch_source env h s of
             Inl e \<Rightarrow> (Inl e, h)
           | Inr body \<Rightarrow>
               (Inr (body, False), case dir of Some d \<Rightarrow> write_cache env d body h | None \<Rightarrow> h)))"

definition remote_entry :: "agents_host \<Rightarrow> string \<times> remote_agent_entry \<Rightarrow> registry_entry option" where
  "remote_entry h x =
     (let (i, e) = x in
      if trim i = [] \<or> trim (ra_command e) = [] then None
      else Some \<lparr>re_id = i, re_label = unwrap_or i (ra_label e), re_kind = ra_kind e,
                 re_command = ra_command e, re_args = ra_args e, re_install_hint = ra_install_hint e,
                 re_source = RemoteEntry, re_installed = is_command_installed h (ra_command e)\<rparr>)"

definition parse_remote_catalog :: "catalog_env \<Rightarrow> agents_host \<Rightarrow> string \<Rightarrow> string list + registry_entry list" where
  "parse_remote_catalog env h raw =
     (case ce_catalog env raw of
        Inl e \<Rightarrow> Inl [''remote registry must be valid TOML with [agents.*] tables'', e]
      | Inr agents \<Rightarrow> Inr (List.map_filter (remote_entry h) agents))"

definition local_entry :: "agents_host \<Rightarrow> agent_definition \<Rightarrow> registry_entry" where
  "local_entry h a =
     \<lparr>re_id = ad_id a, re_label = ad_label a, re_kind = agent_kind_str (ad_kind a),
      re_command = ad_command a, re_args = ad_args a, re_install_hint = ad_install_hint a,
      re_source = LocalEntry, re_installed = is_command_installed h (ad_command a)\<rparr>"

definition merge_local_remote ::
    "agents_host \<Rightarrow> agent_registry \<Rightarrow> registry_entry list \<Rightarrow> registry_entry list" where
  "merge_local_remote h registry remote =
     (let local = map (local_entry h) (list_enabled registry) in
      local @ filter (\<lambda>e. re_id e \<notin> set (map re_id local)) remote)"

definition catalog_sync ::
    "catalog_env \<Rightarrow> registry_source \<Rightarrow> agent_registry \<Rightarrow> string option \<Rightarrow> agents_host
      \<Rightarrow> (string list + sync_result) \<times> agents_host" where
  "catalog_sync env s registry cache_dir h =
     (let (loaded, h1) = load_source_with_cache env s cache_dir h in
      case loaded of
        Inl e \<Rightarrow> (Inl e, h1)
      | Inr (raw, cached) \<Rightarrow>
          (case parse_remote_catalog env h1 raw of
             Inl e \<Rightarrow> (Inl (''failed to parse remote registry catalog'' # e), h1)
           | Inr remote \<Rightarrow>
               (Inr \<lparr>sr_source_kind = source_kind_str s, sr_source = rs_raw s, sr_from_cache = cached,
                     sr_entries = merge_local_remote h1 registry remote\<rparr>, h1)))"

section \<open>Adding an agent\<close>

definition toml_quote :: "string \<Rightarrow> string" where
  "toml_quote s =
     [CHR 0x22]
     @ concat (map (\<lambda>c. if c = CHR 0x5C then [CHR 0x5C, CHR 0x5C]
                         else if c = CHR 0x22 then [CHR 0x5C, CHR 0x22] else [c]) s)
     @ [CHR 0x22]"

definition render_agent_toml :: "registry_entry \<Rightarrow> string" where
  "render_agent_toml e =
     nl @ ''[agents.'' @ re_id e @ '']'' @ nl
     @ ''kind = '' @ [CHR 0x22] @ re_kind e @ [CHR 0x22] @ nl
     @ ''label = '' @ toml_quote (re_label e) @ nl
     @ ''command = '' @ toml_quote (re_command e) @ nl
     @ (if re_args e = [] then []
        else ''args = ['' @ str_join '', '' (map toml_quote (re_args e)) @ '']'' @ nl)
     @ ''enabled = true'' @ nl
     @ (case re_install_hint e of None \<Rightarrow> [] | Some x \<Rightarrow> ''install_hint = '' @ toml_quote x @ nl)"

definition append_text :: "string \<Rightarrow> registry_entry \<Rightarrow> string" where
  "append_text current e =
     current @ (if current \<noteq> [] \<and> last current \<noteq> CHR 0x0A then nl else []) @ render_agent_toml e"

definition append_agent_to_config ::
    "catalog_env \<Rightarrow> string \<Rightarrow> registry_entry \<Rightarrow> agents_config \<Rightarrow> agents_host
      \<Rightarrow> (string list + bool) \<times> agents_host" where
  "append_agent_to_config env target e existing h =
     (if list_ex (\<lambda>a. ad_id a = re_id e) (ac_agents existing) then (Inr False, h)
      else if \<not> host_exists h target
        then (Inl [''target config '' @ target @ '' does not exist; refusing to create''], h)
      else (case host_read h target of
              Inl err \<Rightarrow> (Inl [''reading '' @ target, err], h)
            | Inr current \<Rightarrow>
                (let combined = append_text current e in
                 case from_toml_str (ce_toml env) combined target of
                   Inl err \<Rightarrow> (Inl [''merged config failed validation'', agent_error_text err], h)
                 | Inr _ \<Rightarrow>
                     (let (w, h1) = host_write env target combined h in
                      case w of Inl err \<Rightarrow> (Inl [''writing '' @ target, err], h1)
                              | Inr _ \<Rightarrow> (Inr True, h1)))))"

section \<open>The commands\<close>

text \<open>\<open>{err:#}\<close> of an error chain.\<close>

definition chain_text :: "string list \<Rightarrow> string" where
  "chain_text e = str_join '': '' e"

text \<open>The running registry and the host it was loaded from.\<close>

record catalog_state =
  cs_registry :: agent_registry
  cs_host :: agents_host

definition url_trusted :: "registry_source \<Rightarrow> bool" where
  "url_trusted s =
     (case rs_kind s of
        SourceUrl u \<Rightarrow> rs_trusted_url_prefixes s = [] \<or> list_ex (starts_with u) (rs_trusted_url_prefixes s)
      | SourcePath _ \<Rightarrow> True)"

definition source_url :: "registry_source \<Rightarrow> string" where
  "source_url s = (case rs_kind s of SourceUrl u \<Rightarrow> u | SourcePath p \<Rightarrow> p)"

definition handle_registry_sync ::
    "catalog_env \<Rightarrow> client_command \<Rightarrow> catalog_state \<Rightarrow> reply \<times> catalog_state" where
  "handle_registry_sync env cmd st =
     (case ac_registry_source (ag_config (cs_registry st)) of
        None \<Rightarrow> (refuse cmd ''registry.not_configured'' ''agents.toml has no [registry] table'', st)
      | Some s \<Rightarrow>
          if \<not> url_trusted s
          then (refuse cmd ''registry.trust_violation''
                  (''registry URL '' @ ticked (source_url s) @ '' is not covered by trusted_url_prefixes''), st)
          else
            (let cache_dir = Option.bind (source_path (cs_registry st)) path_parent;
                 (r, h) = catalog_sync env s (cs_registry st) cache_dir (cs_host st);
                 st1 = st\<lparr>cs_host := h\<rparr> in
             case r of
               Inl e \<Rightarrow> (refuse cmd ''registry.fetch_failed'' (chain_text e), st1)
             | Inr snap \<Rightarrow>
                 (reply_with (ack_ok_for cmd)
                    [mk_event [] ''registry.synced''
                       (JObj [(''source'', JStr (sr_source snap)), (''sourceKind'', JStr (sr_source_kind snap)),
                              (''fromCache'', JBool (sr_from_cache snap)),
                              (''agents'', JArr (map entry_json (sr_entries snap)))])
                       (now_iso (ce_clock env))] [] [], st1)))"

definition parse_registry_add_payload :: "json \<Rightarrow> string + registry_entry" where
  "parse_registry_add_payload p =
     (if \<not> is_object p then Inl ''payload must be an object''
      else (case get_str ''id'' p of None \<Rightarrow> Inl ''missing id'' | Some raw_id \<Rightarrow>
        (let i = trim raw_id in
         if i = [] then Inl ''id must be non-empty''
         else (case get_str ''kind'' p of None \<Rightarrow> Inl ''missing kind'' | Some kind \<Rightarrow>
           if kind \<notin> {''mock'', ''vac-native'', ''acp''}
           then Inl (''unsupported kind '' @ [CHR 0x27] @ kind @ [CHR 0x27])
           else (case get_str ''command'' p of None \<Rightarrow> Inl ''missing command'' | Some command \<Rightarrow>
             if trim command = [] then Inl ''command must be non-empty''
             else Inr \<lparr>re_id = i, re_label = unwrap_or i (get_str ''label'' p), re_kind = kind,
                       re_command = command, re_args = get_strs ''args'' p,
                       re_install_hint = get_str ''install_hint'' p,
                       re_source = RemoteEntry, re_installed = False\<rparr>)))))"

definition handle_registry_add ::
    "catalog_env \<Rightarrow> client_command \<Rightarrow> catalog_state \<Rightarrow> reply \<times> catalog_state" where
  "handle_registry_add env cmd st =
     (case source_path (cs_registry st) of
        None \<Rightarrow> (refuse cmd ''registry.no_local_config''
                  ''bridge is running with the embedded default config; cannot append'', st)
      | Some target \<Rightarrow>
          (case parse_registry_add_payload (cmd_payload cmd) of
             Inl msg \<Rightarrow> (refuse cmd ''registry.invalid_payload'' msg, st)
           | Inr entry \<Rightarrow>
               (case (case host_read (cs_host st) target of Inl e \<Rightarrow> Inl e
                      | Inr raw \<Rightarrow> map_sum agent_error_text id (from_toml_str (ce_toml env) raw target)) of
                  Inl e \<Rightarrow> (refuse cmd ''registry.config_read_failed'' e, st)
                | Inr snapshot \<Rightarrow>
                    (let (r, h) = append_agent_to_config env target entry snapshot (cs_host st);
                         st1 = st\<lparr>cs_host := h\<rparr> in
                     case r of
                       Inl e \<Rightarrow> (refuse cmd ''registry.append_failed'' (chain_text e), st1)
                     | Inr added \<Rightarrow>
                         (reply_with (ack_ok_for cmd)
                            [mk_event [] ''registry.added''
                               (JObj [(''id'', JStr (re_id entry)), (''added'', JBool added),
                                      (''path'', JStr target)])
                               (now_iso (ce_clock env))] [] [], st1)))))"

text \<open>\<open>SessionRegistry::reload_agents\<close>; \<open>None\<close> is the panic of \<open>registry_load\<close>.\<close>

definition reload_agents ::
    "toml_parser \<Rightarrow> catalog_state \<Rightarrow> ((agent_error + agent_registry) \<times> catalog_state) option" where
  "reload_agents toml st =
     (case registry_load toml (cs_host st) of
        None \<Rightarrow> None
      | Some (Inl e) \<Rightarrow> Some (Inl e, st)
      | Some (Inr fresh) \<Rightarrow> Some (Inr fresh, st\<lparr>cs_registry := fresh\<rparr>))"

definition handle_registry_reload ::
    "catalog_env \<Rightarrow> client_command \<Rightarrow> catalog_state \<Rightarrow> (reply \<times> catalog_state) option" where
  "handle_registry_reload env cmd st =
     Option.bind (reload_agents (ce_toml env) st) (\<lambda>(r, st1).
       case r of
         Inl e \<Rightarrow> Some (refuse cmd ''registry.reload_failed'' (agent_error_text e), st1)
       | Inr fresh \<Rightarrow>
           Option.bind (default_agent fresh) (\<lambda>d.
             Some (reply_with (ack_ok_for cmd)
               [mk_event [] ''registry.reloaded''
                  (JObj [(''source'', JStr (config_source_describe (ag_source fresh))),
                         (''defaultAgentId'', JStr (ad_id d)),
                         (''agents'', JArr (map (\<lambda>a. JObj [(''id'', JStr (ad_id a)), (''label'', JStr (ad_label a)),
                            (''kind'', JStr (agent_kind_str (ad_kind a)))]) (list_enabled fresh)))])
                  (now_iso (ce_clock env))] [] [], st1)))"

section \<open>The catalogue\<close>

lemma merge_ids:
  "map re_id (merge_local_remote h r remote) =
     map ad_id (list_enabled r) @ filter (\<lambda>i. i \<notin> set (map ad_id (list_enabled r))) (map re_id remote)"
  by (simp add: merge_local_remote_def local_entry_def filter_map comp_def Let_def image_image)

lemma remote_entry_SomeD: "remote_entry h x = Some e \<Longrightarrow> re_id e = fst x \<and> re_source e = RemoteEntry"
  by (auto simp: remote_entry_def Let_def split: prod.splits if_splits)

lemma set_map_filter: "y \<in> set (List.map_filter f xs) \<longleftrightarrow> (\<exists>x \<in> set xs. f x = Some y)"
  by (induction xs) (auto simp: List.map_filter_simps split: option.splits)

lemma map_filter_remote_ids:
  "distinct (map fst xs) \<Longrightarrow> distinct (map re_id (List.map_filter (remote_entry h) xs))"
proof (induction xs)
  case (Cons x xs)
  have sub: "re_id ` set (List.map_filter (remote_entry h) xs) \<subseteq> fst ` set xs"
    by (force simp: set_map_filter dest: remote_entry_SomeD)
  show ?case
  proof (cases "remote_entry h x")
    case (Some e)
    with remote_entry_SomeD [OF Some] Cons sub show ?thesis by (auto simp: List.map_filter_simps)
  qed (use Cons in \<open>simp add: List.map_filter_simps\<close>)
qed (simp add: List.map_filter_simps)

text \<open>What a successful sync lists: the enabled local agents first, then the others, each id once.\<close>

lemma catalog_sync_entries:
  assumes "catalog_sync env s r dir h = (Inr res, h')" and ok: "registry_ok r"
    and keys: "\<And>raw xs. ce_catalog env raw = Inr xs \<Longrightarrow> distinct (map fst xs)"
  shows "distinct (map re_id (sr_entries res))"
    and "filter (\<lambda>e. re_source e = LocalEntry) (sr_entries res) = map (local_entry h') (list_enabled r)"
proof -
  from assms(1) obtain raw c xs where x: "ce_catalog env raw = Inr xs"
    and e: "sr_entries res = merge_local_remote h' r (List.map_filter (remote_entry h') xs)"
    by (auto simp: catalog_sync_def parse_remote_catalog_def Let_def split: prod.splits sum.splits)
  have "distinct (map ad_id (list_enabled r))"
    using ok by (simp add: registry_ok_def list_enabled_def distinct_map_filter)
  with map_filter_remote_ids [OF keys [OF x], of h'] show "distinct (map re_id (sr_entries res))"
    unfolding e merge_ids by auto
  have "list_all (\<lambda>y. re_source y = RemoteEntry) (List.map_filter (remote_entry h') xs)"
    by (auto simp: list_all_iff set_map_filter dest: remote_entry_SomeD)
  then show "filter (\<lambda>e. re_source e = LocalEntry) (sr_entries res) = map (local_entry h') (list_enabled r)"
    unfolding e merge_local_remote_def Let_def
    by (auto simp: local_entry_def list_all_iff filter_empty_conv)
qed

section \<open>Adding keeps the file loadable\<close>

lemma host_write_Inr:
  "host_write env p t h = (Inr u, h') \<Longrightarrow>
     h' = h\<lparr>ah_files := (ah_files h)(p \<mapsto> Inr (t, now (ce_clock env)))\<rparr>"
  by (auto simp: host_write_def split: write_outcome.splits)

lemma host_write_other:
  "host_write env p t h = (r, h') \<Longrightarrow> q \<noteq> p \<Longrightarrow> ah_files h' q = ah_files h q"
  by (auto simp: host_write_def split: write_outcome.splits)

lemma append_agent_to_config_added:
  assumes "append_agent_to_config env target e existing h = (Inr True, h')"
  shows "\<exists>current cfg. host_read h target = Inr current
     \<and> from_toml_str (ce_toml env) (append_text current e) target = Inr cfg
     \<and> h' = h\<lparr>ah_files := (ah_files h)(target \<mapsto> Inr (append_text current e, now (ce_clock env)))\<rparr>"
  using assms unfolding append_agent_to_config_def Let_def
  by (auto split: if_splits sum.splits prod.splits dest: host_write_Inr)

lemma append_agent_to_config_else:
  assumes "append_agent_to_config env target e existing h = (r, h')" and "r \<noteq> Inr True"
    and "ce_write env target = Written"
  shows "h' = h"
  using assms unfolding append_agent_to_config_def Let_def host_write_def
  by (auto split: if_splits sum.splits prod.splits)

definition added_event :: "reply \<Rightarrow> bool" where
  "added_event r \<longleftrightarrow> (\<exists>e \<in> set (rp_events r). ev_type e = ''registry.added'' \<and> get_bool ''added'' (ev_payload e) = Some True)"

lemma added_event_refuse [simp]: "\<not> added_event (refuse cmd code msg)"
  by (simp add: added_event_def)

lemma handle_registry_add_cases:
  assumes add: "handle_registry_add env cmd st = (r, st')"
  obtains (refused) "st' = st" "\<not> added_event r"
    | (handled) target entry snapshot out h where "source_path (cs_registry st) = Some target"
        "append_agent_to_config env target entry snapshot (cs_host st) = (out, h)"
        "st' = st\<lparr>cs_host := h\<rparr>" "added_event r \<longleftrightarrow> out = Inr True" "added_event r \<Longrightarrow> ack_ok (rp_ack r)"
proof (cases "source_path (cs_registry st)")
  case None
  with add show ?thesis by (intro refused) (auto simp: handle_registry_add_def)
next
  case (Some target)
  note target = Some
  show ?thesis
  proof (cases "parse_registry_add_payload (cmd_payload cmd)")
    case (Inl msg)
    with add Some show ?thesis by (intro refused) (auto simp: handle_registry_add_def)
  next
    case (Inr entry)
    note entry = Inr
    let ?snap = "case host_read (cs_host st) target of Inl e \<Rightarrow> Inl e
                 | Inr raw \<Rightarrow> map_sum agent_error_text id (from_toml_str (ce_toml env) raw target)"
    show ?thesis
    proof (cases ?snap)
      case (Inl e)
      with add target entry show ?thesis by (intro refused) (auto simp: handle_registry_add_def)
    next
      case (Inr snapshot)
      obtain out h where ap: "append_agent_to_config env target entry snapshot (cs_host st) = (out, h)"
        by fastforce
      show ?thesis
      proof (rule handled [OF target ap])
        show "st' = st\<lparr>cs_host := h\<rparr>" "added_event r \<longleftrightarrow> out = Inr True" "added_event r \<Longrightarrow> ack_ok (rp_ack r)"
          using add target entry Inr ap
          by (cases out; auto simp: handle_registry_add_def added_event_def get_defs)+
      qed
    qed
  qed
qed

text \<open>
  C35: Unless the write itself breaks, \<open>registry.add\<close> leaves every file as it was or appends to
  the loaded \<open>agents.toml\<close> a text with which it still parses and validates, and the reply says
  which of the two happened.
\<close>
theorem registry_add_keeps_config_loadable:
  assumes add: "handle_registry_add env cmd st = (r, st')"
    and w: "\<And>p. ce_write env p = Written"
  shows "cs_registry st' = cs_registry st
    \<and> (if added_event r
         then ack_ok (rp_ack r) \<and> (\<exists>target current extra cfg.
            source_path (cs_registry st) = Some target
            \<and> host_read (cs_host st) target = Inr current
            \<and> host_read (cs_host st') target = Inr (current @ extra)
            \<and> from_toml_str (ce_toml env) (current @ extra) target = Inr cfg
            \<and> registry_ok \<lparr>ag_config = cfg, ag_source = ag_source (cs_registry st)\<rparr>
            \<and> (\<forall>p. p \<noteq> target \<longrightarrow> ah_files (cs_host st') p = ah_files (cs_host st) p))
         else st' = st)"
proof -
  have parsed: "registry_ok \<lparr>ag_config = cfg, ag_source = s\<rparr>"
    if "from_toml_str (ce_toml env) src p = Inr cfg" for src p cfg s
    using that by (rule from_toml_str_ok)
  from add have "cs_registry st' = cs_registry st"
    by (cases rule: handle_registry_add_cases) simp_all
  moreover from add have "if added_event r
         then ack_ok (rp_ack r) \<and> (\<exists>target current extra cfg.
            source_path (cs_registry st) = Some target
            \<and> host_read (cs_host st) target = Inr current
            \<and> host_read (cs_host st') target = Inr (current @ extra)
            \<and> from_toml_str (ce_toml env) (current @ extra) target = Inr cfg
            \<and> registry_ok \<lparr>ag_config = cfg, ag_source = ag_source (cs_registry st)\<rparr>
            \<and> (\<forall>p. p \<noteq> target \<longrightarrow> ah_files (cs_host st') p = ah_files (cs_host st) p))
         else st' = st"
  proof (cases rule: handle_registry_add_cases)
    case (handled target entry snapshot out h)
    show ?thesis
    proof (cases "out = Inr True")
      case True
      from append_agent_to_config_added [OF handled(2) [unfolded True]] obtain current cfg
        where r: "host_read (cs_host st) target = Inr current"
          and p: "from_toml_str (ce_toml env) (append_text current entry) target = Inr cfg"
          and h: "h = (cs_host st)\<lparr>ah_files := (ah_files (cs_host st))
            (target \<mapsto> Inr (append_text current entry, now (ce_clock env)))\<rparr>" by blast
      obtain extra where x: "append_text current entry = current @ extra" by (auto simp: append_text_def)
      from r p h x handled True parsed [OF p] show ?thesis
        by (auto simp: host_read_def intro!: exI [of _ target])
    next
      case False
      with append_agent_to_config_else [OF handled(2) _ w] handled show ?thesis by simp
    qed
  qed simp
  ultimately show ?thesis by simp
qed

text \<open>A parser that knows the embedded default and reads any longer text as two agents.\<close>

definition example_toml :: toml_parser where
  "example_toml src =
     (if src = embedded_default_toml then Inr embedded_raw
      else if starts_with src embedded_default_toml
        then Inr (embedded_raw\<lparr>af_agents := af_agents embedded_raw
               @ [(''pi'', (snd (hd (af_agents embedded_raw)))\<lparr>ar_kind := ''acp''\<rparr>)]\<rparr>)
      else Inl ''not understood'')"

definition example_host :: agents_host where
  "example_host =
     \<lparr>ah_env = [''VAC_WEB_AGENTS_CONFIG'' \<mapsto> ''/e/agents.toml''],
      ah_files = [''/e/agents.toml'' \<mapsto> Inr (embedded_default_toml, 0)], ah_exec = (\<lambda>_. False)\<rparr>"

definition example_catalog_env :: catalog_env where
  "example_catalog_env =
     \<lparr>ce_toml = example_toml, ce_catalog = (\<lambda>_. Inl ''none''), ce_http = (\<lambda>_. Inl [''offline'']),
      ce_mkdir_ok = (\<lambda>_. True), ce_write = (\<lambda>_. Written), ce_clock = unary_clock 0\<rparr>"

definition embedded_config :: agents_config where
  "embedded_config =
     \<lparr>ac_default_agent_id = ''mock'',
      ac_agents = [\<lparr>ad_id = ''mock'', ad_label = ''Mock Engine'', ad_kind = MockAgent, ad_command = ''mock-engine'',
        ad_args = [''--stdio''], ad_enabled = True, ad_permission_timeout_ms = 300000,
        ad_install_hint = None, ad_mcp_servers = []\<rparr>],
      ac_registry_source = None\<rparr>"

lemma embedded_raw_config: "agents_from_file embedded_raw p = Inr embedded_config"
  by (simp add: agents_from_file_def embedded_raw_def embedded_config_def agent_from_raw_def validate_id_def
      agent_kind_of_def validate_mcp_servers_def min_permission_timeout_ms_def agent_id_char_ok_def
      ascii_lower_def Let_def trim_plain plain_char_def)

definition example_catalog_state :: catalog_state where
  "example_catalog_state =
     \<lparr>cs_registry = \<lparr>ag_config = embedded_config, ag_source = EnvFile ''/e/agents.toml''\<rparr>,
      cs_host = example_host\<rparr>"

definition example_add_cmd :: client_command where
  "example_add_cmd =
     \<lparr>cmd_id = ''c1'', cmd_session_id = [], cmd_type = ''registry.add'',
      cmd_payload = JObj [(''id'', JStr ''pi''), (''kind'', JStr ''acp''), (''command'', JStr ''pi-acp'')], cmd_v = 1\<rparr>"

lemma example_loaded:
  "registry_load example_toml example_host = Some (Inr (cs_registry example_catalog_state))"
  by (simp add: registry_load_def example_host_def with_source_def load_from_path_def host_read_def
      from_toml_str_def example_toml_def embedded_raw_config example_catalog_state_def)

lemma example_longer_text:
  "x \<noteq> [] \<Longrightarrow> \<exists>cfg. from_toml_str example_toml (embedded_default_toml @ x) p = Inr cfg"
  by (simp add: from_toml_str_def example_toml_def starts_with_prefix agents_from_file_def embedded_raw_def
      agent_from_raw_def validate_id_def agent_kind_of_def validate_mcp_servers_def
      min_permission_timeout_ms_def agent_id_char_ok_def ascii_lower_def Let_def trim_plain plain_char_def)

lemma example_added: "added_event (fst (handle_registry_add example_catalog_env example_add_cmd example_catalog_state))"
proof -
  have pl: "\<exists>e. parse_registry_add_payload (cmd_payload example_add_cmd) = Inr e \<and> re_id e = ''pi''"
    by (simp add: parse_registry_add_payload_def example_add_cmd_def is_object_def get_defs Let_def
        trim_plain plain_char_def)
  then obtain e where e: "parse_registry_add_payload (cmd_payload example_add_cmd) = Inr e" "re_id e = ''pi''" by blast
  have "append_text embedded_default_toml e = embedded_default_toml
      @ (if last embedded_default_toml \<noteq> CHR 0x0A then nl else []) @ render_agent_toml e"
    by (simp add: append_text_def embedded_default_toml_def nl_def)
  moreover have "(if last embedded_default_toml \<noteq> CHR 0x0A then nl else []) @ render_agent_toml e \<noteq> []"
    by (simp add: render_agent_toml_def nl_def)
  ultimately obtain cfg where c: "from_toml_str example_toml (append_text embedded_default_toml e) ''/e/agents.toml'' = Inr cfg"
    using example_longer_text by metis
  show ?thesis
    using e c by (simp add: handle_registry_add_def example_catalog_state_def source_path_def host_read_def
        host_exists_def example_host_def example_catalog_env_def from_toml_str_def [of _ embedded_default_toml]
        example_toml_def [of embedded_default_toml] embedded_raw_config append_agent_to_config_def embedded_config_def host_write_def
        added_event_def get_defs Let_def)
qed

theorem registry_add_keeps_config_loadable_witness:
  "\<exists>current extra cfg. host_read example_host ''/e/agents.toml'' = Inr current
     \<and> host_read (cs_host (snd (handle_registry_add example_catalog_env example_add_cmd example_catalog_state)))
         ''/e/agents.toml'' = Inr (current @ extra)
     \<and> from_toml_str example_toml (current @ extra) ''/e/agents.toml'' = Inr cfg"
proof -
  obtain r st' where h: "handle_registry_add example_catalog_env example_add_cmd example_catalog_state = (r, st')"
    by fastforce
  have w: "\<And>p. ce_write example_catalog_env p = Written" by (simp add: example_catalog_env_def)
  from example_added h have "added_event r" by simp
  with registry_add_keeps_config_loadable [OF h w] h show ?thesis
    by (auto simp: example_catalog_state_def source_path_def example_catalog_env_def)
qed

section \<open>The registry stays usable\<close>

datatype catalog_call =
    SyncCall catalog_env client_command
  | AddCall catalog_env client_command
  | ReloadCall catalog_env client_command
  | HostEdit agents_host

fun catalog_step :: "catalog_state \<Rightarrow> catalog_call \<Rightarrow> catalog_state" where
  "catalog_step st (SyncCall env cmd) = snd (handle_registry_sync env cmd st)"
| "catalog_step st (AddCall env cmd) = snd (handle_registry_add env cmd st)"
| "catalog_step st (ReloadCall env cmd) = (case handle_registry_reload env cmd st of Some (_, st') \<Rightarrow> st' | None \<Rightarrow> st)"
| "catalog_step st (HostEdit h) = st\<lparr>cs_host := h\<rparr>"

lemma handle_registry_sync_registry: "cs_registry (snd (handle_registry_sync env cmd st)) = cs_registry st"
  by (simp add: handle_registry_sync_def Let_def split: option.split sum.split prod.split)

lemma handle_registry_add_registry: "cs_registry (snd (handle_registry_add env cmd st)) = cs_registry st"
proof -
  obtain r st' where h: "handle_registry_add env cmd st = (r, st')" by fastforce
  then show ?thesis by (cases rule: handle_registry_add_cases) (simp_all add: h)
qed

lemma reload_agents_ok:
  "reload_agents toml st = Some (r, st') \<Longrightarrow> registry_ok (cs_registry st) \<Longrightarrow>
     registry_ok (cs_registry st') \<and> (\<forall>f. r = Inr f \<longrightarrow> cs_registry st' = f) \<and> (\<forall>e. r = Inl e \<longrightarrow> st' = st)"
  by (auto simp: reload_agents_def split: option.splits sum.splits dest: registry_load_ok)

lemma handle_registry_reload_SomeD:
  assumes "handle_registry_reload env cmd st = Some (r, st')"
  shows "\<exists>out. reload_agents (ce_toml env) st = Some (out, st') \<and> (ack_ok (rp_ack r) \<or> (\<exists>e. out = Inl e))"
proof -
  from assms obtain out st1 where o: "reload_agents (ce_toml env) st = Some (out, st1)"
    by (auto simp: handle_registry_reload_def bind_eq_Some_conv)
  with assms show ?thesis
    by (cases out) (auto simp: handle_registry_reload_def bind_eq_Some_conv)
qed

lemma handle_registry_reload_ok:
  "handle_registry_reload env cmd st = Some (r, st') \<Longrightarrow> registry_ok (cs_registry st) \<Longrightarrow> registry_ok (cs_registry st')"
  by (auto dest!: handle_registry_reload_SomeD dest: reload_agents_ok)

interpretation catalog: handler_system catalog_step "\<lambda>st :: catalog_state. registry_ok (cs_registry st)"
proof
  fix st :: catalog_state and c
  assume "registry_ok (cs_registry st)"
  then show "registry_ok (cs_registry (catalog_step st c))"
    by (cases c) (auto simp: handle_registry_sync_registry handle_registry_add_registry
        split: option.splits dest: handle_registry_reload_ok)
qed

lemma handle_registry_reload_returns:
  assumes "reads_embedded (ce_toml env)"
  shows "handle_registry_reload env cmd st \<noteq> None"
  using registry_load_returns [OF assms, of "cs_host st"] registry_load_ok [of "ce_toml env" "cs_host st"]
  by (auto simp: handle_registry_reload_def reload_agents_def registry_ok_def
      split: option.splits sum.splits)



section \<open>What the cache and the rendering let through\<close>

text \<open>A body that does not parse is cached, and answered from there until it expires.\<close>

lemma bad_catalog_is_cached:
  assumes "ce_catalog env body = Inl e" and "fetch_source env h s = Inr body"
    and "0 < rs_cache_ttl_secs s" and "read_cache env h dir (rs_cache_ttl_secs s) = None"
    and "ce_mkdir_ok env dir" and "ce_write env (cache_path dir) = Written"
    and "env' = env\<lparr>ce_http := good\<rparr>"
  shows "\<exists>e1 h1 e2. catalog_sync env s r (Some dir) h = (Inl e1, h1)
     \<and> catalog_sync env' s r (Some dir) h1 = (Inl e2, h1)"
  using assms by (simp add: catalog_sync_def load_source_with_cache_def parse_remote_catalog_def Let_def
      filter_opt_def write_cache_def host_write_def read_cache_def)

text \<open>The cache does not remember which source it came from.\<close>

lemma cache_serves_other_source:
  assumes "read_cache env h dir (rs_cache_ttl_secs s) = Some body" and "0 < rs_cache_ttl_secs s"
  shows "load_source_with_cache env s (Some dir) h = (Inr (body, True), h)"
  using assms by (simp add: load_source_with_cache_def filter_opt_def)

text \<open>An id with a line break closes its own table header and opens another.\<close>

lemma id_opens_second_table:
  "render_agent_toml (e\<lparr>re_id := ''a]'' @ nl @ ''kind = '' @ [CHR 0x22] @ ''acp'' @ [CHR 0x22] @ nl
       @ ''command = '' @ toml_quote c @ nl @ ''[agents.b''\<rparr>)
     = nl @ ''[agents.a]'' @ nl @ ''kind = '' @ [CHR 0x22] @ ''acp'' @ [CHR 0x22] @ nl
       @ ''command = '' @ toml_quote c @ drop 0 (render_agent_toml (e\<lparr>re_id := ''b''\<rparr>))"
  by (simp add: render_agent_toml_def)

text \<open>\<open>registry.reload\<close> resolves the lookups again: without the file it installs the embedded default.\<close>

lemma reload_falls_back_to_embedded:
  assumes "ah_env (cs_host st) ''VAC_WEB_AGENTS_CONFIG'' = None" and "ah_env (cs_host st) ''VAC_CONFIG_DIR'' = None"
    and "ah_files (cs_host st) (home_config_path (cs_host st)) = None" and "reads_embedded toml"
  shows "reload_agents toml st =
     Some (Inr \<lparr>ag_config = embedded_config, ag_source = Embedded\<rparr>,
           st\<lparr>cs_registry := \<lparr>ag_config = embedded_config, ag_source = Embedded\<rparr>\<rparr>)"
  using assms by (simp add: reload_agents_def registry_load_def filter_opt_def host_exists_def from_toml_str_def
      reads_embedded_def embedded_raw_config)

end
