(* ===== verification/Policy.thy ===== *)
theory Policy
  imports Enforce Wire "HOL-Library.List_Lexorder" "HOL-Library.Char_ord"
begin

text \<open>
  The gate in front of every command: the catalogue \<open>apps/local-bridge/src/generated/command_catalog.rs\<close>
  (generated, but part of the repository) and \<open>profile_layer/mod.rs\<close>, which decides from it and from
  the profile of the session whether a command may be handled. The profile files are the argument
  \<open>raw\<close> of \<open>Profile\<close>; loading does not return on a cyclic chain, hence the outer option.
\<close>

section \<open>The catalogue\<close>

datatype command_status =
  StImplemented | StNotWired | StFrontendOwned | StProtocolOnly | StInternal | StDeprecated

fun command_status_str :: "command_status \<Rightarrow> string" where
  "command_status_str StImplemented = ''implemented''"
| "command_status_str StNotWired = ''not_wired''"
| "command_status_str StFrontendOwned = ''frontend_owned''"
| "command_status_str StProtocolOnly = ''protocol_only''"
| "command_status_str StInternal = ''internal''"
| "command_status_str StDeprecated = ''deprecated''"

datatype command_scope = Sessionless | SessionScope | EitherScope

datatype command_side_effect = SeNone | SeReadOnly | SeState | SeExternal

fun command_side_effect_str :: "command_side_effect \<Rightarrow> string" where
  "command_side_effect_str SeNone = ''none''"
| "command_side_effect_str SeReadOnly = ''read_only''"
| "command_side_effect_str SeState = ''state''"
| "command_side_effect_str SeExternal = ''external''"

datatype tool_enforcement = TeTool | TeProtocolOnly | TePayloadActionId | TePayloadAction

fun tool_enforcement_str :: "tool_enforcement \<Rightarrow> string" where
  "tool_enforcement_str TeTool = ''tool''"
| "tool_enforcement_str TeProtocolOnly = ''protocol_only''"
| "tool_enforcement_str TePayloadActionId = ''payload_action_id''"
| "tool_enforcement_str TePayloadAction = ''payload_action''"

record command_entry =
  cc_id :: string
  cc_status :: command_status
  cc_scope :: command_scope
  cc_side_effect :: command_side_effect
  cc_requires_profile_tool :: "string option"
  cc_tool_enforcement :: "tool_enforcement option"

abbreviation cmd_entry where
  "cmd_entry i st sc se rt te \<equiv>
     \<lparr>cc_id = i, cc_status = st, cc_scope = sc, cc_side_effect = se,
      cc_requires_profile_tool = rt, cc_tool_enforcement = te\<rparr>"

definition command_catalog :: "command_entry list" where
  "command_catalog =
    [cmd_entry ''approval.approve'' StImplemented SessionScope SeState None (Some TeProtocolOnly),
     cmd_entry ''approval.approve_all'' StNotWired SessionScope SeState None None,
     cmd_entry ''approval.inspect'' StNotWired SessionScope SeReadOnly None None,
     cmd_entry ''approval.reject'' StImplemented SessionScope SeState None (Some TeProtocolOnly),
     cmd_entry ''assessment.cancel'' StImplemented SessionScope SeState None (Some TeProtocolOnly),
     cmd_entry ''assessment.diff'' StImplemented SessionScope SeReadOnly None (Some TeProtocolOnly),
     cmd_entry ''assessment.fetch_evidence_preview'' StImplemented SessionScope SeReadOnly None (Some TeProtocolOnly),
     cmd_entry ''assessment.fetch_report'' StImplemented SessionScope SeReadOnly None (Some TeProtocolOnly),
     cmd_entry ''assessment.index.rebuild'' StImplemented SessionScope SeState None (Some TeProtocolOnly),
     cmd_entry ''assessment.index.status'' StImplemented SessionScope SeReadOnly None (Some TeProtocolOnly),
     cmd_entry ''assessment.list_runs'' StImplemented SessionScope SeReadOnly None (Some TeProtocolOnly),
     cmd_entry ''assessment.replay'' StImplemented SessionScope SeState None (Some TeProtocolOnly),
     cmd_entry ''assessment.run'' StImplemented SessionScope SeState None (Some TeProtocolOnly),
     cmd_entry ''assessment.sweep.cancel'' StImplemented SessionScope SeState None (Some TeProtocolOnly),
     cmd_entry ''assessment.sweep.run'' StImplemented SessionScope SeState None (Some TeProtocolOnly),
     cmd_entry ''bridge.mutation.approve'' StImplemented SessionScope SeState (Some ''fs.write'') None,
     cmd_entry ''bridge.mutation.refine_request'' StImplemented SessionScope SeState None (Some TeProtocolOnly),
     cmd_entry ''bridge.mutation.reject'' StImplemented SessionScope SeState None (Some TeProtocolOnly),
     cmd_entry ''coding.context.ask_about_file'' StImplemented SessionScope SeState None (Some TeProtocolOnly),
     cmd_entry ''coding.context.ask_about_selection'' StImplemented SessionScope SeState None (Some TeProtocolOnly),
     cmd_entry ''coding.context.request_edit'' StImplemented SessionScope SeState None (Some TeProtocolOnly),
     cmd_entry ''coding.context.request_tests'' StImplemented SessionScope SeState None (Some TeProtocolOnly),
     cmd_entry ''config.policy.get'' StImplemented Sessionless SeReadOnly None None,
     cmd_entry ''config.reload'' StImplemented Sessionless SeState None None,
     cmd_entry ''config.validate'' StImplemented Sessionless SeReadOnly None None,
     cmd_entry ''connector.capabilities'' StNotWired Sessionless SeReadOnly None None,
     cmd_entry ''connector.connect'' StNotWired Sessionless SeExternal None None,
     cmd_entry ''connector.disconnect'' StNotWired Sessionless SeExternal None None,
     cmd_entry ''connector.health'' StNotWired Sessionless SeReadOnly None None,
     cmd_entry ''connector.list'' StNotWired Sessionless SeReadOnly None None,
     cmd_entry ''context.attach_files'' StNotWired SessionScope SeState (Some ''fs.read'') None,
     cmd_entry ''context.mention_search'' StNotWired SessionScope SeReadOnly None None,
     cmd_entry ''continuous.write_config'' StNotWired Sessionless SeState None None,
     cmd_entry ''extensions.approve_promotion'' StImplemented SessionScope SeState (Some ''extensions.approve_promotion'') None,
     cmd_entry ''extensions.list'' StImplemented Sessionless SeReadOnly None None,
     cmd_entry ''extensions.list_approvals'' StImplemented SessionScope SeReadOnly (Some ''extensions.list_approvals'') None,
     cmd_entry ''extensions.request_promotion'' StImplemented SessionScope SeState (Some ''extensions.request_promotion'') None,
     cmd_entry ''extensions.update_trust'' StImplemented SessionScope SeState (Some ''extensions.update_trust'') None,
     cmd_entry ''gate.evaluate'' StImplemented SessionScope SeState None (Some TeProtocolOnly),
     cmd_entry ''gate.override'' StImplemented SessionScope SeState (Some ''gate.override'') None,
     cmd_entry ''gate.revoke_override'' StImplemented SessionScope SeState (Some ''gate.override'') None,
     cmd_entry ''gate.signoff'' StImplemented SessionScope SeState (Some ''gate.signoff'') None,
     cmd_entry ''gate.sync_mutation_audit'' StImplemented SessionScope SeState None (Some TeProtocolOnly),
     cmd_entry ''handoff.approve'' StImplemented SessionScope SeState None (Some TeProtocolOnly),
     cmd_entry ''handoff.cancel'' StNotWired SessionScope SeState None None,
     cmd_entry ''handoff.create'' StImplemented SessionScope SeState None (Some TeProtocolOnly),
     cmd_entry ''handoff.dispatch_local'' StImplemented SessionScope SeExternal (Some ''handoff.dispatch'') None,
     cmd_entry ''handoff.dispatch_web_cli'' StNotWired SessionScope SeExternal (Some ''handoff.dispatch'') None,
     cmd_entry ''handoff.export_blueprint'' StNotWired SessionScope SeState None None,
     cmd_entry ''handoff.fetch'' StNotWired SessionScope SeReadOnly None None,
     cmd_entry ''handoff.reject'' StImplemented SessionScope SeState None (Some TeProtocolOnly),
     cmd_entry ''handoff.status'' StImplemented SessionScope SeReadOnly None (Some TeProtocolOnly),
     cmd_entry ''message.cancel_stream'' StImplemented SessionScope SeState None (Some TeProtocolOnly),
     cmd_entry ''message.retry'' StImplemented SessionScope SeState None (Some TeProtocolOnly),
     cmd_entry ''message.submit'' StImplemented SessionScope SeState None (Some TeProtocolOnly),
     cmd_entry ''migration.create_draft'' StNotWired SessionScope SeState None None,
     cmd_entry ''migration.dispatch'' StNotWired SessionScope SeExternal None None,
     cmd_entry ''migration.dry_run'' StNotWired SessionScope SeReadOnly None None,
     cmd_entry ''migration.verify_reversibility'' StNotWired SessionScope SeReadOnly None None,
     cmd_entry ''overlay.dismiss'' StFrontendOwned SessionScope SeNone None None,
     cmd_entry ''overlay.dismiss_all'' StFrontendOwned SessionScope SeNone None None,
     cmd_entry ''overlay.open'' StFrontendOwned SessionScope SeNone None None,
     cmd_entry ''palette.invoke_action'' StNotWired SessionScope SeState None (Some TePayloadActionId),
     cmd_entry ''perf.latest_run'' StImplemented Sessionless SeReadOnly None None,
     cmd_entry ''plan.approve'' StNotWired SessionScope SeState None None,
     cmd_entry ''plan.edit'' StNotWired SessionScope SeState None None,
     cmd_entry ''plan.open'' StFrontendOwned SessionScope SeNone None None,
     cmd_entry ''plan.reject'' StNotWired SessionScope SeState None None,
     cmd_entry ''project.file.request'' StImplemented SessionScope SeReadOnly (Some ''fs.read'') None,
     cmd_entry ''project.tree.request'' StImplemented SessionScope SeReadOnly (Some ''fs.read'') None,
     cmd_entry ''registry.add'' StImplemented Sessionless SeState None None,
     cmd_entry ''registry.reload'' StImplemented Sessionless SeState None None,
     cmd_entry ''registry.sync'' StImplemented Sessionless SeState None None,
     cmd_entry ''release.deploy'' StImplemented SessionScope SeExternal (Some ''deploy.*'') None,
     cmd_entry ''release.generate_notes'' StImplemented SessionScope SeState (Some ''release_notes.write'') None,
     cmd_entry ''release.list_targets'' StImplemented EitherScope SeReadOnly None (Some TeProtocolOnly),
     cmd_entry ''release.publish'' StImplemented SessionScope SeExternal (Some ''publish.*'') None,
     cmd_entry ''review.hunk.action.request'' StImplemented SessionScope SeState (Some ''fs.write'') None,
     cmd_entry ''review.open_file'' StNotWired SessionScope SeState (Some ''fs.read'') None,
     cmd_entry ''review.revert_all'' StNotWired SessionScope SeState (Some ''fs.write'') None,
     cmd_entry ''review.revert_file'' StImplemented SessionScope SeState (Some ''fs.write'') None,
     cmd_entry ''review.toggle_hunk'' StFrontendOwned SessionScope SeNone None None,
     cmd_entry ''runtime.cancel_job'' StNotWired SessionScope SeState None None,
     cmd_entry ''runtime.inspect_job'' StNotWired SessionScope SeReadOnly None None,
     cmd_entry ''runtime.list_jobs'' StNotWired SessionScope SeReadOnly None None,
     cmd_entry ''session.authenticate'' StImplemented SessionScope SeState None (Some TeProtocolOnly),
     cmd_entry ''session.close'' StImplemented SessionScope SeState None (Some TeProtocolOnly),
     cmd_entry ''session.config_option.set'' StImplemented SessionScope SeState None (Some TeProtocolOnly),
     cmd_entry ''session.create'' StImplemented Sessionless SeState None None,
     cmd_entry ''session.history.forget'' StImplemented Sessionless SeState None None,
     cmd_entry ''session.history.list'' StImplemented Sessionless SeReadOnly None None,
     cmd_entry ''session.list'' StImplemented Sessionless SeReadOnly None None,
     cmd_entry ''session.mode.set'' StImplemented SessionScope SeState None (Some TeProtocolOnly),
     cmd_entry ''session.rename'' StNotWired SessionScope SeState None None,
     cmd_entry ''session.resume'' StImplemented Sessionless SeState None None,
     cmd_entry ''session.snapshot'' StNotWired SessionScope SeState None None,
     cmd_entry ''shell.input'' StNotWired SessionScope SeState (Some ''shell.exec'') None,
     cmd_entry ''shell.kill'' StNotWired SessionScope SeState (Some ''shell.exec'') None,
     cmd_entry ''shell.resize'' StNotWired SessionScope SeState (Some ''shell.exec'') None,
     cmd_entry ''shell.start'' StNotWired SessionScope SeState (Some ''shell.exec'') None,
     cmd_entry ''system.capabilities'' StProtocolOnly Sessionless SeNone None None,
     cmd_entry ''system.ping'' StImplemented Sessionless SeReadOnly None None,
     cmd_entry ''system.version'' StNotWired Sessionless SeReadOnly None None,
     cmd_entry ''task.execution.continue'' StImplemented SessionScope SeState None (Some TeProtocolOnly),
     cmd_entry ''task.plan.request_changes'' StImplemented SessionScope SeState None (Some TeProtocolOnly),
     cmd_entry ''transcript.completed'' StProtocolOnly SessionScope SeNone None None,
     cmd_entry ''transcript.error'' StProtocolOnly SessionScope SeNone None None,
     cmd_entry ''validation.failure.send_context'' StImplemented SessionScope SeState None (Some TeProtocolOnly),
     cmd_entry ''validation.run.request'' StImplemented SessionScope SeState None (Some TeProtocolOnly),
     cmd_entry ''workbench.invoke'' StNotWired SessionScope SeState None (Some TePayloadAction),
     cmd_entry ''workbench.select_tab'' StFrontendOwned SessionScope SeNone None None,
     cmd_entry ''workspace.branch.request'' StImplemented SessionScope SeReadOnly None (Some TeProtocolOnly),
     cmd_entry ''workspace.preview.open'' StImplemented SessionScope SeState None (Some TeProtocolOnly),
     cmd_entry ''workspace.preview.refresh'' StImplemented SessionScope SeState None (Some TeProtocolOnly),
     cmd_entry ''workspace.preview.run_e2e'' StImplemented SessionScope SeState None (Some TeProtocolOnly),
     cmd_entry ''workspace.preview.send_context'' StImplemented SessionScope SeState None (Some TeProtocolOnly),
     cmd_entry ''workspace.preview.stop'' StImplemented SessionScope SeState None (Some TeProtocolOnly)]"

definition known_commands :: "string list" where
  "known_commands =
    [''approval.approve'', ''approval.approve_all'', ''approval.inspect'', ''approval.reject'',
      ''assessment.cancel'', ''assessment.diff'', ''assessment.fetch_evidence_preview'',
      ''assessment.fetch_report'', ''assessment.index.rebuild'', ''assessment.index.status'',
      ''assessment.list_runs'', ''assessment.replay'', ''assessment.run'',
      ''assessment.sweep.cancel'', ''assessment.sweep.run'', ''bridge.mutation.approve'',
      ''bridge.mutation.refine_request'', ''bridge.mutation.reject'',
      ''coding.context.ask_about_file'', ''coding.context.ask_about_selection'',
      ''coding.context.request_edit'', ''coding.context.request_tests'', ''config.policy.get'',
      ''config.reload'', ''config.validate'', ''connector.capabilities'', ''connector.connect'',
      ''connector.disconnect'', ''connector.health'', ''connector.list'', ''context.attach_files'',
      ''context.mention_search'', ''continuous.write_config'', ''extensions.approve_promotion'',
      ''extensions.list'', ''extensions.list_approvals'', ''extensions.request_promotion'',
      ''extensions.update_trust'', ''gate.evaluate'', ''gate.override'', ''gate.revoke_override'',
      ''gate.signoff'', ''gate.sync_mutation_audit'', ''handoff.approve'', ''handoff.cancel'',
      ''handoff.create'', ''handoff.dispatch_local'', ''handoff.dispatch_web_cli'',
      ''handoff.export_blueprint'', ''handoff.fetch'', ''handoff.reject'', ''handoff.status'',
      ''message.cancel_stream'', ''message.retry'', ''message.submit'', ''migration.create_draft'',
      ''migration.dispatch'', ''migration.dry_run'', ''migration.verify_reversibility'',
      ''palette.invoke_action'', ''perf.latest_run'', ''plan.approve'', ''plan.edit'',
      ''plan.reject'', ''project.file.request'', ''project.tree.request'', ''registry.add'',
      ''registry.reload'', ''registry.sync'', ''release.deploy'', ''release.generate_notes'',
      ''release.list_targets'', ''release.publish'', ''review.hunk.action.request'',
      ''review.open_file'', ''review.revert_all'', ''review.revert_file'', ''runtime.cancel_job'',
      ''runtime.inspect_job'', ''runtime.list_jobs'', ''session.authenticate'', ''session.close'',
      ''session.config_option.set'', ''session.create'', ''session.history.forget'',
      ''session.history.list'', ''session.list'', ''session.mode.set'', ''session.rename'',
      ''session.resume'', ''session.snapshot'', ''shell.input'', ''shell.kill'', ''shell.resize'',
      ''shell.start'', ''system.ping'', ''system.version'', ''task.execution.continue'',
      ''task.plan.request_changes'', ''validation.failure.send_context'',
      ''validation.run.request'', ''workbench.invoke'', ''workspace.branch.request'',
      ''workspace.preview.open'', ''workspace.preview.refresh'', ''workspace.preview.run_e2e'',
      ''workspace.preview.send_context'', ''workspace.preview.stop'']"

definition sessionless_commands :: "string list" where
  "sessionless_commands =
    [''config.policy.get'', ''config.reload'', ''config.validate'', ''connector.capabilities'',
      ''connector.connect'', ''connector.disconnect'', ''connector.health'', ''connector.list'',
      ''continuous.write_config'', ''extensions.list'', ''perf.latest_run'', ''registry.add'',
      ''registry.reload'', ''registry.sync'', ''release.list_targets'', ''session.create'',
      ''session.history.forget'', ''session.history.list'', ''session.list'', ''session.resume'',
      ''system.ping'', ''system.version'']"

definition not_wired_commands :: "string list" where
  "not_wired_commands =
    [''approval.approve_all'', ''approval.inspect'', ''connector.capabilities'',
      ''connector.connect'', ''connector.disconnect'', ''connector.health'', ''connector.list'',
      ''context.attach_files'', ''context.mention_search'', ''continuous.write_config'',
      ''handoff.cancel'', ''handoff.dispatch_web_cli'', ''handoff.export_blueprint'',
      ''handoff.fetch'', ''migration.create_draft'', ''migration.dispatch'', ''migration.dry_run'',
      ''migration.verify_reversibility'', ''palette.invoke_action'', ''plan.approve'',
      ''plan.edit'', ''plan.reject'', ''review.open_file'', ''review.revert_all'',
      ''runtime.cancel_job'', ''runtime.inspect_job'', ''runtime.list_jobs'', ''session.rename'',
      ''session.snapshot'', ''shell.input'', ''shell.kill'', ''shell.resize'', ''shell.start'',
      ''system.version'', ''workbench.invoke'']"

definition command_lookup :: "string \<Rightarrow> command_entry option" where
  "command_lookup c = find (\<lambda>e. cc_id e = c) command_catalog"

definition status_of :: "string \<Rightarrow> command_status option" where
  "status_of c = map_option cc_status (command_lookup c)"

definition is_known :: "string \<Rightarrow> bool" where
  "is_known c \<longleftrightarrow> c \<in> set known_commands"

definition is_sessionless :: "string \<Rightarrow> bool" where
  "is_sessionless c \<longleftrightarrow> c \<in> set sessionless_commands"

definition is_not_wired :: "string \<Rightarrow> bool" where
  "is_not_wired c \<longleftrightarrow> c \<in> set not_wired_commands"

definition requires_profile_tool :: "string \<Rightarrow> string option" where
  "requires_profile_tool c = Option.bind (command_lookup c) cc_requires_profile_tool"

definition tool_enforcement_of :: "string \<Rightarrow> tool_enforcement option" where
  "tool_enforcement_of c =
     (case command_lookup c of
        None \<Rightarrow> None
      | Some entry \<Rightarrow>
          (case cc_tool_enforcement entry of
             Some te \<Rightarrow> Some te
           | None \<Rightarrow> if cc_requires_profile_tool entry \<noteq> None then Some TeTool else None))"

section \<open>What the generated lists say\<close>

lemma catalog_ids_increasing: "successively (<) (map cc_id command_catalog)"
  by code_simp

lemma catalog_ids_distinct: "distinct (map cc_id command_catalog)"
  using catalog_ids_increasing
  by (simp add: successively_conv_sorted_wrt strict_sorted_iff)

lemma known_commands_eq:
  "known_commands = map cc_id (filter (\<lambda>e. cc_status e \<in> {StImplemented, StNotWired}) command_catalog)"
  by code_simp

lemma not_wired_commands_eq:
  "not_wired_commands = map cc_id (filter (\<lambda>e. cc_status e = StNotWired) command_catalog)"
  by code_simp

lemma sessionless_commands_eq:
  "sessionless_commands = map cc_id (filter (\<lambda>e. cc_status e \<in> {StImplemented, StNotWired}
      \<and> cc_scope e \<in> {Sessionless, EitherScope}) command_catalog)"
  by code_simp

lemma no_deprecated: "list_all (\<lambda>e. cc_status e \<noteq> StDeprecated) command_catalog"
  by code_simp

lemma session_commands_mapped:
  "list_all (\<lambda>e. cc_status e = StImplemented \<and> cc_scope e = SessionScope \<longrightarrow>
      cc_tool_enforcement e \<noteq> None \<or> cc_requires_profile_tool e \<noteq> None) command_catalog"
  by code_simp

section \<open>The profile layer\<close>

text \<open>The messages of \<open>bail!\<close> in the profile loader and of the two decisions used here.\<close>

definition quoted :: "string \<Rightarrow> string" where
  "quoted s = [CHR 0x27] @ s @ [CHR 0x27]"

fun profile_error_text :: "profile_error \<Rightarrow> string" where
  "profile_error_text (RawError e) = e"
| "profile_error_text FsWriteWidened = ''child profile may not enable fs.write when parent denied''"
| "profile_error_text (GitWidened name) = ''child assessor profile cannot enable git.'' @ name"
| "profile_error_text ConnectorWritesAdded = ''child assessor profile cannot declare connector writes''"
| "profile_error_text (AssessorFsWrite i w) =
     ''assessor profile '' @ i @ '' has fs.write='' @ w @ '', must be '' @ quoted ''none''"
| "profile_error_text (AssessorGitWrite i) = ''assessor profile '' @ i @ '' has a git write flag set''"
| "profile_error_text (AssessorConnectorWrites i) = ''assessor profile '' @ i @ '' declares connector writes''"
| "profile_error_text (UnknownAgentKind i k) =
     ''profile '' @ i @ '' has allowed_agent_kinds entry '' @ quoted k
     @ '' (must be one of mock|vac-native|acp)''"

definition tool_denial_reason :: "string \<Rightarrow> string \<Rightarrow> string" where
  "tool_denial_reason code tool =
     ''tool '' @ quoted tool
     @ (if code = ''profile.tool_denied'' then '' is in tool_deny'' else '' not in tool_allow'')"

datatype enforce_outcome =
    Allowed
  | Denied (od_code: string) (od_reason: string)
  | UnknownCommand
  | CommandNotWired string string

definition payload_tool :: "client_command \<Rightarrow> string \<Rightarrow> enforce_outcome + string option" where
  "payload_tool cmd key =
     (case filter_opt (\<lambda>s. s \<noteq> []) (get_str key (cmd_payload cmd)) of
        Some s \<Rightarrow> Inr (Some s)
      | None \<Rightarrow> Inl (Denied ''profile.tool_payload_missing''
          (''command '' @ quoted (cmd_type cmd) @ '' requires payload.'' @ key @ '' for profile enforcement'')))"

definition resolve_tool :: "client_command \<Rightarrow> enforce_outcome + string option" where
  "resolve_tool cmd =
     (case command_lookup (cmd_type cmd) of
        None \<Rightarrow> Inl UnknownCommand
      | Some entry \<Rightarrow>
          (case tool_enforcement_of (cmd_type cmd) of
             Some TeProtocolOnly \<Rightarrow> Inr None
           | Some TeTool \<Rightarrow>
               (case cc_requires_profile_tool entry of
                  Some t \<Rightarrow> Inr (Some t)
                | None \<Rightarrow> Inl (Denied ''profile.tool_mapping_missing''
                    (''command '' @ quoted (cmd_type cmd)
                     @ '' declares tool_enforcement=tool but no requires_profile_tool'')))
           | Some TePayloadActionId \<Rightarrow> payload_tool cmd ''actionId''
           | Some TePayloadAction \<Rightarrow> payload_tool cmd ''action''
           | None \<Rightarrow> Inl (Denied ''profile.tool_mapping_missing''
               (''command '' @ quoted (cmd_type cmd)
                @ '' has no profile tool mapping in manifest (R08-F02 default-deny)''))))"

record policy_env =
  pe_enforce :: enforce_env
  pe_raw :: raw_profiles
  pe_profile_root :: string

text \<open>
  The loader of this layer keeps what it has loaded, by id, for the life of the process. The
  cache is separate from the one \<open>load_with_cache\<close> uses within one call.
\<close>

definition load_profile_cached ::
    "policy_env \<Rightarrow> string \<Rightarrow> profile_cache \<Rightarrow> ((profile_error + capability_profile) \<times> profile_cache) option" where
  "load_profile_cached env i cache =
     (case cache i of
        Some p \<Rightarrow> Some (Inr p, cache)
      | None \<Rightarrow>
          map_option (\<lambda>r. (r, case r of Inl _ \<Rightarrow> cache | Inr p \<Rightarrow> cache(i \<mapsto> p)))
            (load_profile (pe_raw env) (pe_profile_root env) i))"

text \<open>What the loaded profile, or the failure to load it, means for the tool.\<close>

definition tool_verdict ::
    "policy_env \<Rightarrow> profile_error + capability_profile \<Rightarrow> string \<Rightarrow> enforce_outcome" where
  "tool_verdict env r tool =
     (case r of
        Inl e \<Rightarrow> Denied ''profile.load_failed'' (profile_error_text e)
      | Inr profile \<Rightarrow>
          (case enforce_tool (pe_enforce env) profile tool of
             Allow \<Rightarrow> Allowed
           | Deny code \<Rightarrow> Denied code (tool_denial_reason code tool)))"

text \<open>\<open>sessions\<close> gives the profile id of a registered session.\<close>

definition enforce_action ::
    "policy_env \<Rightarrow> (string \<rightharpoonup> string) \<Rightarrow> client_command \<Rightarrow> profile_cache
      \<Rightarrow> (enforce_outcome \<times> profile_cache) option" where
  "enforce_action env sessions cmd cache =
     (case command_lookup (cmd_type cmd) of
        None \<Rightarrow> Some (UnknownCommand, cache)
      | Some entry \<Rightarrow>
          if cc_status entry \<in> {StFrontendOwned, StProtocolOnly, StInternal} then Some (UnknownCommand, cache)
          else if cc_status entry = StDeprecated
            then Some (CommandNotWired (cmd_type cmd)
              (''command '' @ quoted (cmd_type cmd) @ '' is deprecated and no longer accepted''), cache)
          else if cc_status entry = StNotWired
            then Some (CommandNotWired (cmd_type cmd)
              (''command '' @ quoted (cmd_type cmd) @ '' is declared but not wired to a bridge executor yet''), cache)
          else if is_sessionless (cmd_type cmd) then Some (Allowed, cache)
          else (case resolve_tool cmd of
                  Inr None \<Rightarrow> Some (Allowed, cache)
                | Inl outcome \<Rightarrow> Some (outcome, cache)
                | Inr (Some tool) \<Rightarrow>
                    (case sessions (cmd_session_id cmd) of
                       None \<Rightarrow> Some (Denied ''session.not_found''
                         (''session '' @ cmd_session_id cmd @ '' not found''), cache)
                     | Some profile_id \<Rightarrow>
                         map_option (map_prod (\<lambda>r. tool_verdict env r tool) id)
                           (load_profile_cached env profile_id cache))))"

section \<open>What the gate lets through\<close>

lemma command_lookup_SomeD: "command_lookup c = Some e \<Longrightarrow> e \<in> set command_catalog \<and> cc_id e = c"
  unfolding command_lookup_def by (auto dest: find_SomeD)

lemma command_lookup_iff: "command_lookup c = Some e \<longleftrightarrow> e \<in> set command_catalog \<and> cc_id e = c"
proof
  assume e: "e \<in> set command_catalog \<and> cc_id e = c"
  then have "command_lookup c \<noteq> None" by (auto simp: command_lookup_def find_None_iff)
  then obtain d where "command_lookup c = Some d" by auto
  with e show "command_lookup c = Some e"
    using catalog_ids_distinct by (auto simp: distinct_map dest!: command_lookup_SomeD dest: inj_onD)
qed (rule command_lookup_SomeD)

lemma known_iff:
  "c \<in> set known_commands \<longleftrightarrow> (\<exists>e. command_lookup c = Some e \<and> cc_status e \<in> {StImplemented, StNotWired})"
  unfolding known_commands_eq command_lookup_iff by auto

lemma not_wired_iff:
  "c \<in> set not_wired_commands \<longleftrightarrow> (\<exists>e. command_lookup c = Some e \<and> cc_status e = StNotWired)"
  unfolding not_wired_commands_eq command_lookup_iff by auto

lemma sessionless_iff:
  "c \<in> set sessionless_commands \<longleftrightarrow>
     (\<exists>e. command_lookup c = Some e \<and> cc_status e \<in> {StImplemented, StNotWired}
        \<and> cc_scope e \<in> {Sessionless, EitherScope})"
  unfolding sessionless_commands_eq command_lookup_iff by auto

lemma mapped:
  assumes "command_lookup c = Some e" "cc_status e = StImplemented" "\<not> is_sessionless c"
  shows "tool_enforcement_of c \<noteq> None"
    and "tool_enforcement_of c = Some TeTool \<Longrightarrow> cc_requires_profile_tool e \<noteq> None"
proof -
  from assms have "cc_scope e = SessionScope"
    by (cases "cc_scope e") (auto simp: is_sessionless_def sessionless_iff)
  with session_commands_mapped assms show "tool_enforcement_of c \<noteq> None"
    by (auto simp: tool_enforcement_of_def list_all_iff split: option.split dest!: command_lookup_SomeD)
  have "list_all (\<lambda>e. cc_tool_enforcement e \<noteq> Some TeTool) command_catalog" by code_simp
  with assms show "tool_enforcement_of c = Some TeTool \<Longrightarrow> cc_requires_profile_tool e \<noteq> None"
    by (auto simp: tool_enforcement_of_def list_all_iff split: option.splits if_splits
        dest: command_lookup_SomeD)
qed

lemma payload_tool_cases:
  "(\<exists>r. payload_tool cmd k = Inl (Denied ''profile.tool_payload_missing'' r)) \<or> (\<exists>s. payload_tool cmd k = Inr (Some s))"
  by (auto simp: payload_tool_def split: option.splits)

text \<open>What an implemented command with a session resolves to.\<close>

lemma resolve_tool_cases:
  assumes "command_lookup (cmd_type cmd) = Some e" "cc_status e = StImplemented" "\<not> is_sessionless (cmd_type cmd)"
  shows "(resolve_tool cmd = Inr None \<and> tool_enforcement_of (cmd_type cmd) = Some TeProtocolOnly)
    \<or> (\<exists>t. resolve_tool cmd = Inr (Some t))
    \<or> (\<exists>r. resolve_tool cmd = Inl (Denied ''profile.tool_payload_missing'' r))"
proof -
  from mapped [OF assms] obtain te where te: "tool_enforcement_of (cmd_type cmd) = Some te" by auto
  with assms mapped(2) [OF assms] show ?thesis
    using payload_tool_cases [of cmd "''actionId''"] payload_tool_cases [of cmd "''action''"]
    by (cases te) (auto simp: resolve_tool_def split: option.splits)
qed

lemma enforce_tool_Deny:
  "enforce_tool env p t = Deny c \<Longrightarrow> c = ''profile.tool_denied'' \<or> c = ''profile.tool_not_allowed''"
  by (auto simp: enforce_tool_def split: if_splits)

lemma tool_verdict_cases:
  "tool_verdict env r tool = Allowed \<and> (\<exists>p. r = Inr p \<and> enforce_tool (pe_enforce env) p tool = Allow)
   \<or> (\<exists>c x. tool_verdict env r tool = Denied c x \<and> c \<in> {''profile.load_failed'', ''profile.tool_denied'', ''profile.tool_not_allowed''})"
  by (auto simp: tool_verdict_def split: sum.split decision.split dest: enforce_tool_Deny)

text \<open>The decision for an implemented command that is not sessionless.\<close>

lemma enforce_action_implemented:
  assumes "command_lookup (cmd_type cmd) = Some e" "cc_status e = StImplemented" "\<not> is_sessionless (cmd_type cmd)"
    and "enforce_action env sessions cmd cache = Some (out, cache')"
  obtains (protocol) "out = Allowed" "cache' = cache" "tool_enforcement_of (cmd_type cmd) = Some TeProtocolOnly"
    | (payload) r where "out = Denied ''profile.tool_payload_missing'' r" "cache' = cache"
    | (no_session) tool r where "out = Denied ''session.not_found'' r" "cache' = cache"
        "resolve_tool cmd = Inr (Some tool)" "sessions (cmd_session_id cmd) = None"
    | (judged) tool pid r where "resolve_tool cmd = Inr (Some tool)" "sessions (cmd_session_id cmd) = Some pid"
        "load_profile_cached env pid cache = Some (r, cache')" "out = tool_verdict env r tool"
  using resolve_tool_cases [OF assms(1-3)] assms
  by (auto simp: enforce_action_def split: option.split_asm)

text \<open>
  The answer to a command type is the one its place in the generated lists announces: unknown
  exactly outside \<open>KNOWN_COMMANDS\<close>, not wired exactly in \<open>NOT_WIRED_COMMANDS\<close>, and never refused
  for want of a tool mapping, whatever session, payload and profiles.
\<close>
theorem policy_follows_catalog:
  assumes "enforce_action env sessions cmd cache = Some (out, cache')"
  shows "(out = UnknownCommand \<longleftrightarrow> cmd_type cmd \<notin> set known_commands)
    \<and> ((\<exists>c r. out = CommandNotWired c r) \<longleftrightarrow> cmd_type cmd \<in> set not_wired_commands)
    \<and> out \<noteq> Denied ''profile.tool_mapping_missing'' r"
proof -
  consider (unknown) "command_lookup (cmd_type cmd) = None" | (known) e where "command_lookup (cmd_type cmd) = Some e"
    by fastforce
  then have "(out = UnknownCommand \<longleftrightarrow> cmd_type cmd \<notin> set known_commands)
    \<and> ((\<exists>c r. out = CommandNotWired c r) \<longleftrightarrow> cmd_type cmd \<in> set not_wired_commands)
    \<and> out \<noteq> Denied ''profile.tool_mapping_missing'' r"
  proof cases
    case unknown
    with assms show ?thesis by (simp add: enforce_action_def known_iff not_wired_iff)
  next
    case known
    show ?thesis
    proof (cases "cc_status e = StImplemented \<and> \<not> is_sessionless (cmd_type cmd)")
      case True
      then have impl: "cc_status e = StImplemented" "\<not> is_sessionless (cmd_type cmd)" by auto
      have lists: "cmd_type cmd \<in> set known_commands" "cmd_type cmd \<notin> set not_wired_commands"
        using known impl by (auto simp: known_iff not_wired_iff)
      from known impl assms have "out \<noteq> UnknownCommand \<and> (\<forall>c r. out \<noteq> CommandNotWired c r)
          \<and> (\<forall>r. out \<noteq> Denied ''profile.tool_mapping_missing'' r)"
      proof (cases rule: enforce_action_implemented)
        case (judged tool pid r)
        with tool_verdict_cases [of env r tool] show ?thesis by auto
      qed auto
      with lists show ?thesis by blast
    next
      case False
      have "cc_status e \<noteq> StDeprecated"
        using no_deprecated known by (auto simp: list_all_iff dest: command_lookup_SomeD)
      with False known assms show ?thesis
        by (cases "cc_status e") (auto simp: enforce_action_def known_iff not_wired_iff)
    qed
  qed
  then show ?thesis .
qed

lemma load_profile_cached_mono:
  "load_profile_cached env i cache = Some (r, cache') \<Longrightarrow> cache j = Some p \<Longrightarrow> cache' j = Some p"
  by (auto simp: load_profile_cached_def split: option.splits sum.splits)

lemma load_profile_cached_Inr:
  "load_profile_cached env i cache = Some (Inr p, cache') \<Longrightarrow> cache' i = Some p"
  by (auto simp: load_profile_cached_def split: option.splits sum.splits)

lemma load_profile_cached_new:
  "load_profile_cached env i cache = Some (r, cache') \<Longrightarrow> cache' j = Some p \<Longrightarrow>
     cache j = Some p \<or> (j = i \<and> load_profile (pe_raw env) (pe_profile_root env) i = Some (Inr p))"
  by (auto simp: load_profile_cached_def split: option.splits sum.splits if_splits)

lemma enforce_action_cache:
  assumes "enforce_action env sessions cmd cache = Some (out, cache')"
  shows "cache' = cache \<or> (\<exists>pid r. load_profile_cached env pid cache = Some (r, cache'))"
  using assms by (auto simp: enforce_action_def split: option.splits if_splits sum.splits)

lemma enforce_action_Allowed:
  assumes "enforce_action env sessions cmd cache = Some (Allowed, cache')"
  shows "\<exists>e. command_lookup (cmd_type cmd) = Some e \<and> cc_status e = StImplemented"
proof (cases "command_lookup (cmd_type cmd)")
  case (Some e)
  with assms show ?thesis by (cases "cc_status e") (simp_all add: enforce_action_def)
qed (use assms in \<open>simp add: enforce_action_def\<close>)

text \<open>
  The layer over time: profile files change, commands are judged. \<open>pl_loads\<close> remembers which
  contents the files had so far.
\<close>

record policy_state =
  pl_env :: policy_env
  pl_cache :: profile_cache
  pl_seen :: "raw_profiles list"

datatype policy_event = FilesChange raw_profiles | Judge "string \<rightharpoonup> string" client_command

fun policy_step :: "policy_state \<Rightarrow> policy_event \<Rightarrow> policy_state" where
  "policy_step s (FilesChange raw) = s\<lparr>pl_env := (pl_env s)\<lparr>pe_raw := raw\<rparr>, pl_seen := raw # pl_seen s\<rparr>"
| "policy_step s (Judge sessions cmd) =
     (case enforce_action (pl_env s) sessions cmd (pl_cache s) of
        None \<Rightarrow> s | Some (_, cache) \<Rightarrow> s\<lparr>pl_cache := cache\<rparr>)"

definition policy_inv :: "policy_state \<Rightarrow> bool" where
  "policy_inv s \<longleftrightarrow> pe_raw (pl_env s) \<in> set (pl_seen s)
     \<and> (\<forall>i p. pl_cache s i = Some p \<longrightarrow>
          (\<exists>raw \<in> set (pl_seen s). load_profile raw (pe_profile_root (pl_env s)) i = Some (Inr p)))"

definition policy_le :: "policy_state \<Rightarrow> policy_state \<Rightarrow> bool" where
  "policy_le s t \<longleftrightarrow> pe_enforce (pl_env t) = pe_enforce (pl_env s)
     \<and> pe_profile_root (pl_env t) = pe_profile_root (pl_env s)
     \<and> (\<forall>i p. pl_cache s i = Some p \<longrightarrow> pl_cache t i = Some p)"

interpretation policy: monotone_system policy_step policy_inv policy_le
proof
  fix s :: policy_state and c
  assume inv: "policy_inv s"
  show "policy_inv (policy_step s c)"
  proof (cases c)
    case (FilesChange raw)
    with inv show ?thesis by (auto simp: policy_inv_def)
  next
    case (Judge sessions cmd)
    show ?thesis
    proof (cases "enforce_action (pl_env s) sessions cmd (pl_cache s)")
      case None
      with inv Judge show ?thesis by simp
    next
      case (Some x)
      then obtain out cache where e: "enforce_action (pl_env s) sessions cmd (pl_cache s) = Some (out, cache)"
        by (cases x) auto
      from enforce_action_cache [OF e] show ?thesis
        using inv Judge e by (auto simp: policy_inv_def dest!: load_profile_cached_new)
    qed
  qed
  show "policy_le s (policy_step s c)"
  proof (cases c)
    case (Judge sessions cmd)
    then show ?thesis
      by (auto simp: policy_le_def split: option.splits dest!: enforce_action_cache dest: load_profile_cached_mono)
  qed (simp add: policy_le_def)
qed (auto simp: policy_le_def)

definition policy_start :: "policy_env \<Rightarrow> policy_state" where
  "policy_start env = \<lparr>pl_env = env, pl_cache = Map.empty, pl_seen = [pe_raw env]\<rparr>"

text \<open>
  C34: Whatever the profile files and the commands so far, a command that passes the gate is an
  implemented one of the catalogue, and is sessionless, or is declared protocol only, or names a
  registered session whose profile, as it was in the files at some earlier or present time, allows
  the tool the command is mapped to.
\<close>
theorem gate_needs_permission:
  assumes s: "s = foldl policy_step (policy_start env) evs"
    and ok: "enforce_action (pl_env s) sessions cmd (pl_cache s) = Some (Allowed, cache')"
  shows "\<exists>e. command_lookup (cmd_type cmd) = Some e \<and> cc_status e = StImplemented
    \<and> (is_sessionless (cmd_type cmd) \<or> tool_enforcement_of (cmd_type cmd) = Some TeProtocolOnly
       \<or> (\<exists>tool pid p. resolve_tool cmd = Inr (Some tool) \<and> sessions (cmd_session_id cmd) = Some pid
            \<and> enforce_tool (pe_enforce env) p tool = Allow
            \<and> (\<exists>raw \<in> set (pl_seen s). load_profile raw (pe_profile_root env) pid = Some (Inr p))))"
proof -
  have start: "policy_inv (policy_start env)" by (simp add: policy_inv_def policy_start_def)
  from policy.run_inv [OF start] s have inv: "policy_inv s" by simp
  from policy.run_le [OF start] s have root: "pe_profile_root (pl_env s) = pe_profile_root env"
    and en: "pe_enforce (pl_env s) = pe_enforce env"
    by (auto simp: policy_le_def policy_start_def)
  from enforce_action_Allowed [OF ok] obtain e
    where e: "command_lookup (cmd_type cmd) = Some e" "cc_status e = StImplemented" by blast
  show ?thesis
  proof (cases "is_sessionless (cmd_type cmd)")
    case False
    from e False ok have "tool_enforcement_of (cmd_type cmd) = Some TeProtocolOnly
       \<or> (\<exists>tool pid p. resolve_tool cmd = Inr (Some tool) \<and> sessions (cmd_session_id cmd) = Some pid
            \<and> enforce_tool (pe_enforce env) p tool = Allow
            \<and> (\<exists>raw \<in> set (pl_seen s). load_profile raw (pe_profile_root env) pid = Some (Inr p)))"
    proof (cases rule: enforce_action_implemented)
      case (judged tool pid r)
      with tool_verdict_cases [of "pl_env s" r tool] obtain p where
        "r = Inr p" "enforce_tool (pe_enforce (pl_env s)) p tool = Allow" by auto
      moreover from judged(3) \<open>r = Inr p\<close> have "\<exists>raw \<in> set (pl_seen s). load_profile raw (pe_profile_root (pl_env s)) pid = Some (Inr p)"
        using inv load_profile_cached_new [OF judged(3) load_profile_cached_Inr]
        by (fastforce simp: policy_inv_def)
      ultimately show ?thesis using judged root en by auto
    qed auto
    with e show ?thesis by blast
  qed (use e in blast)
qed

text \<open>Judging a tool for a profile that was loaded before does not look at the files again.\<close>

lemma cached_verdict:
  assumes "command_lookup (cmd_type cmd) = Some e" "cc_status e = StImplemented" "\<not> is_sessionless (cmd_type cmd)"
    and "resolve_tool cmd = Inr (Some tool)" "sessions (cmd_session_id cmd) = Some pid" "cache pid = Some p"
  shows "enforce_action env sessions cmd cache = Some (tool_verdict env (Inr p) tool, cache)"
  using assms by (simp add: enforce_action_def load_profile_cached_def)

text \<open>
  Whatever happens to the profile files, a profile the gate has used keeps deciding: taking a tool
  away in the file has no effect while the bridge runs.
\<close>

lemma loaded_profile_never_replaced:
  assumes "policy_inv s" and "pl_cache s pid = Some p"
    and "command_lookup (cmd_type cmd) = Some e" "cc_status e = StImplemented" "\<not> is_sessionless (cmd_type cmd)"
    and "resolve_tool cmd = Inr (Some tool)" "sessions (cmd_session_id cmd) = Some pid"
  shows "\<exists>c. enforce_action (pl_env (foldl policy_step s evs)) sessions cmd (pl_cache (foldl policy_step s evs))
    = Some (tool_verdict (pl_env s) (Inr p) tool, c)"
proof -
  from policy.run_le [OF assms(1), of evs] assms(2)
  have "pl_cache (foldl policy_step s evs) pid = Some p"
    and "pe_enforce (pl_env (foldl policy_step s evs)) = pe_enforce (pl_env s)" by (auto simp: policy_le_def)
  with cached_verdict [where cmd = cmd and sessions = sessions and pid = pid, OF assms(3-7)]
  show ?thesis by (auto simp: tool_verdict_def)
qed

definition example_signoff_cmd :: client_command where
  "example_signoff_cmd = \<lparr>cmd_id = ''c'', cmd_session_id = ''s'', cmd_type = ''gate.signoff'', cmd_payload = JObj [], cmd_v = 1\<rparr>"

definition example_policy_env :: policy_env where
  "example_policy_env =
     \<lparr>pe_enforce = example_env,
      pe_raw = (\<lambda>_. Inr (example_profile\<lparr>prof_tool_allow := [''gate.signoff'']\<rparr>)), pe_profile_root = ''/p''\<rparr>"

lemma example_signoff_entry:
  "command_lookup ''gate.signoff'' = Some (cmd_entry ''gate.signoff'' StImplemented SessionScope SeState (Some ''gate.signoff'') None)"
  by code_simp

lemma example_signoff_tool:
  "resolve_tool example_signoff_cmd = Inr (Some ''gate.signoff'')" "\<not> is_sessionless ''gate.signoff''"
  by (simp_all add: resolve_tool_def example_signoff_cmd_def tool_enforcement_of_def example_signoff_entry
      is_sessionless_def sessionless_iff)

theorem gate_needs_permission_witness:
  "\<exists>s cache'. s = foldl policy_step (policy_start example_policy_env)
        [Judge [''s'' \<mapsto> ''base''] example_signoff_cmd, FilesChange (\<lambda>_. Inr example_profile)]
     \<and> enforce_action (pl_env s) [''s'' \<mapsto> ''base''] example_signoff_cmd (pl_cache s) = Some (Allowed, cache')
     \<and> (\<exists>p. enforce_tool example_env p ''gate.signoff'' = Allow
          \<and> (\<exists>raw \<in> set (pl_seen s). load_profile raw ''/p'' ''base'' = Some (Inr p)))"
proof -
  let ?p = "example_profile\<lparr>prof_tool_allow := [''gate.signoff'']\<rparr>"
  let ?s = "foldl policy_step (policy_start example_policy_env)
        [Judge [''s'' \<mapsto> ''base''] example_signoff_cmd, FilesChange (\<lambda>_. Inr example_profile)]"
  have load: "load_profile (\<lambda>_. Inr ?p) ''/p'' ''base'' = Some (Inr ?p)"
    by (subst load_profile_unfold)
      (simp add: example_profile_def check_profile_def validate_consistency_def fs_config_default_def
        default_fs_write_def agent_kind_names_def)
  have allow: "enforce_tool example_env ?p ''gate.signoff'' = Allow"
    by (simp add: enforce_tool_def matches_any_def pattern_matches_def has_wildcard_def example_profile_def)
  have cmd: "cmd_type example_signoff_cmd = ''gate.signoff''" "cmd_session_id example_signoff_cmd = ''s''"
    by (simp_all add: example_signoff_cmd_def)
  have first: "enforce_action example_policy_env [''s'' \<mapsto> ''base''] example_signoff_cmd Map.empty
      = Some (Allowed, [''base'' \<mapsto> ?p])"
    using load allow example_signoff_tool
    by (simp add: enforce_action_def cmd example_signoff_entry load_profile_cached_def example_policy_env_def
        tool_verdict_def)
  have s: "?s = \<lparr>pl_env = example_policy_env\<lparr>pe_raw := (\<lambda>_. Inr example_profile)\<rparr>,
      pl_cache = [''base'' \<mapsto> ?p], pl_seen = [\<lambda>_. Inr example_profile, \<lambda>_. Inr ?p]\<rparr>"
    using first by (simp add: policy_start_def) (simp add: example_policy_env_def)
  have second: "enforce_action (pl_env ?s) [''s'' \<mapsto> ''base''] example_signoff_cmd (pl_cache ?s)
      = Some (Allowed, [''base'' \<mapsto> ?p])"
    unfolding s using allow example_signoff_tool
    by (simp add: enforce_action_def cmd example_signoff_entry load_profile_cached_def example_policy_env_def
        tool_verdict_def)
  from gate_needs_permission [OF refl second] example_signoff_tool
  have "\<exists>p. enforce_tool example_env p ''gate.signoff'' = Allow
      \<and> (\<exists>raw \<in> set (pl_seen ?s). load_profile raw ''/p'' ''base'' = Some (Inr p))"
    by (auto simp: cmd tool_enforcement_of_def example_signoff_entry example_policy_env_def)
  with second show ?thesis by blast
qed

theorem policy_follows_catalog_witness:
  "(\<exists>c r cache. enforce_action example_policy_env Map.empty (example_signoff_cmd\<lparr>cmd_type := ''shell.start''\<rparr>) Map.empty
      = Some (CommandNotWired c r, cache)) \<and> is_not_wired ''shell.start''"
proof -
  have e: "command_lookup ''shell.start'' = Some (cmd_entry ''shell.start'' StNotWired SessionScope SeState (Some ''shell.exec'') None)"
    by code_simp
  obtain c r where out: "enforce_action example_policy_env Map.empty (example_signoff_cmd\<lparr>cmd_type := ''shell.start''\<rparr>) Map.empty
      = Some (CommandNotWired c r, Map.empty)"
    by (simp add: enforce_action_def e)
  from policy_follows_catalog [OF this] have "''shell.start'' \<in> set not_wired_commands" by auto
  with out show ?thesis unfolding is_not_wired_def by blast
qed

text \<open>
  \<open>release.deploy\<close> is judged as the tool \<open>deploy.*\<close>, whatever its target: denying one environment
  in a profile does not refuse it.
\<close>

lemma deploy_tool_is_generic:
  "resolve_tool (cmd\<lparr>cmd_type := ''release.deploy''\<rparr>) = Inr (Some ''deploy.*'')"
proof -
  have "command_lookup ''release.deploy'' = Some (cmd_entry ''release.deploy'' StImplemented SessionScope SeExternal (Some ''deploy.*'') None)"
    by code_simp
  then show ?thesis by (simp add: resolve_tool_def tool_enforcement_of_def)
qed

end
