(* ===== verification/Redaction.thy ===== *)
theory Redaction
  imports Prelude
begin

text \<open>
  \<open>apps/local-bridge/src/session/persistence/redact.rs\<close>: what is taken out of an event before it is
  written to disk. The pattern of secret values is a regular expression of a library; \<open>re\<close> stands
  for \<open>is_match\<close> of it.
\<close>

section \<open>The pass\<close>

datatype redaction_label = Safe | Bounded | LabelDropped

datatype redaction_mode = Standard | Strict

definition sensitive_key_names :: "string list" where
  "sensitive_key_names =
     [''authorization'', ''auth'', ''token'', ''access_token'', ''refresh_token'', ''id_token'', ''api_key'',
      ''apikey'', ''secret'', ''password'', ''passwd'', ''session_token'', ''cookie'', ''set-cookie'', ''x-api-key'']"

definition strict_max_string_bytes :: nat where
  "strict_max_string_bytes = 8 * 1024"

definition strict_drop_string_bytes :: nat where
  "strict_drop_string_bytes = 1024 * 1024"

fun label_rank :: "redaction_label \<Rightarrow> nat" where
  "label_rank Safe = 0"
| "label_rank Bounded = 1"
| "label_rank LabelDropped = 2"

definition promote :: "redaction_label \<Rightarrow> redaction_label \<Rightarrow> redaction_label" where
  "promote label candidate = (if label_rank candidate > label_rank label then candidate else label)"

definition sensitive_key :: "string \<Rightarrow> bool" where
  "sensitive_key k = list_ex (\<lambda>n. to_ascii_lowercase k = n) sensitive_key_names"

definition redacted_text :: string where
  "redacted_text = ''<redacted>''"

definition redact_string ::
    "(string \<Rightarrow> bool) \<Rightarrow> redaction_mode \<Rightarrow> string \<Rightarrow> redaction_label \<Rightarrow> json \<times> redaction_label" where
  "redact_string re md s l =
     (if re s then (JStr redacted_text, promote l Bounded)
      else if md = Strict \<and> length s > strict_drop_string_bytes then (JNull, promote l LabelDropped)
      else if md = Strict \<and> length s > strict_max_string_bytes
        then (JStr (''<truncated:'' @ dec_digits (length s) @ ''>''), promote l Bounded)
      else (JStr s, l))"

text \<open>The label is passed through the loops, as the \<open>&mut\<close> argument of the code is.\<close>

fun redact_value :: "(string \<Rightarrow> bool) \<Rightarrow> redaction_mode \<Rightarrow> json \<Rightarrow> redaction_label \<Rightarrow> json \<times> redaction_label"
  and redact_entries :: "(string \<Rightarrow> bool) \<Rightarrow> redaction_mode \<Rightarrow> (string \<times> json) list \<Rightarrow> redaction_label
      \<Rightarrow> (string \<times> json) list \<times> redaction_label"
  and redact_values :: "(string \<Rightarrow> bool) \<Rightarrow> redaction_mode \<Rightarrow> json list \<Rightarrow> redaction_label
      \<Rightarrow> json list \<times> redaction_label" where
  "redact_value re md (JObj m) l = (let (m', l') = redact_entries re md m l in (JObj m', l'))"
| "redact_value re md (JArr xs) l = (let (xs', l') = redact_values re md xs l in (JArr xs', l'))"
| "redact_value re md (JStr s) l = redact_string re md s l"
| "redact_value re md JNull l = (JNull, l)"
| "redact_value re md (JBool b) l = (JBool b, l)"
| "redact_value re md (JUint n) l = (JUint n, l)"
| "redact_value re md (JNegInt i) l = (JNegInt i, l)"
| "redact_value re md (JFloat s) l = (JFloat s, l)"
| "redact_entries re md [] l = ([], l)"
| "redact_entries re md ((k, v) # m) l =
     (let (v', l1) = (if sensitive_key k then (JStr redacted_text, promote l Bounded) else redact_value re md v l);
          (m', l2) = redact_entries re md m l1
      in ((k, v') # m', l2))"
| "redact_values re md [] l = ([], l)"
| "redact_values re md (v # vs) l =
     (let (v', l1) = redact_value re md v l; (vs', l2) = redact_values re md vs l1 in (v' # vs', l2))"

definition redact_event_payload :: "(string \<Rightarrow> bool) \<Rightarrow> redaction_mode \<Rightarrow> json \<Rightarrow> json \<times> redaction_label" where
  "redact_event_payload re md payload = redact_value re md payload Safe"

section \<open>What is left\<close>

text \<open>
  The pass without its label and loops: what it does to a value does not depend on what it has
  already seen.
\<close>

definition scrub_string :: "(string \<Rightarrow> bool) \<Rightarrow> redaction_mode \<Rightarrow> string \<Rightarrow> json" where
  "scrub_string re md s = fst (redact_string re md s Safe)"

fun scrub :: "(string \<Rightarrow> bool) \<Rightarrow> redaction_mode \<Rightarrow> json \<Rightarrow> json" where
  "scrub re md (JObj m) = JObj (map (\<lambda>(k, v). (k, if sensitive_key k then JStr redacted_text else scrub re md v)) m)"
| "scrub re md (JArr xs) = JArr (map (scrub re md) xs)"
| "scrub re md (JStr s) = scrub_string re md s"
| "scrub re md v = v"

abbreviation scrub_entry :: "(string \<Rightarrow> bool) \<Rightarrow> redaction_mode \<Rightarrow> string \<times> json \<Rightarrow> string \<times> json" where
  "scrub_entry re md \<equiv> (\<lambda>(k, v). (k, if sensitive_key k then JStr redacted_text else scrub re md v))"

lemma redact_loops_scrub:
  "\<forall>(k, v) \<in> set m. \<not> sensitive_key k \<longrightarrow> (\<forall>l. fst (redact_value re md v l) = scrub re md v)
    \<Longrightarrow> fst (redact_entries re md m l) = map (scrub_entry re md) m"
  "\<forall>v \<in> set vs. \<forall>l. fst (redact_value re md v l) = scrub re md v
    \<Longrightarrow> fst (redact_values re md vs l) = map (scrub re md) vs"
  by (induction m arbitrary: l, auto simp: split_beta Let_def)
    (induction vs arbitrary: l, auto simp: split_beta Let_def)

lemma redact_is_scrub: "fst (redact_value re md v l) = scrub re md v"
proof (induction v arbitrary: l rule: scrub.induct [where ?a0.0 = re and ?a1.0 = md])
  case (1 re md m)
  have "\<forall>l. fst (redact_value re md v l) = scrub re md v" if "(k, v) \<in> set m" "\<not> sensitive_key k" for k v
    using 1 [OF that(1) refl that(2)] by blast
  then have "\<forall>(k, v) \<in> set m. \<not> sensitive_key k \<longrightarrow> (\<forall>l. fst (redact_value re md v l) = scrub re md v)" by blast
  from redact_loops_scrub(1) [OF this, of l] show ?case by (simp add: split_beta)
next
  case (2 re md xs)
  then show ?case using redact_loops_scrub(2) [of xs re md l] by (auto simp: split_beta)
qed (auto simp: scrub_string_def redact_string_def)

lemma redact_event_payload_scrub: "fst (redact_event_payload re md p) = scrub re md p"
  by (simp add: redact_event_payload_def redact_is_scrub)

text \<open>
  A value free of secrets: every sensitive entry holds the placeholder and no other string matches
  the pattern.
\<close>

fun free_of_secrets :: "(string \<Rightarrow> bool) \<Rightarrow> json \<Rightarrow> bool" where
  "free_of_secrets re (JObj m) \<longleftrightarrow>
     (\<forall>(k, v) \<in> set m. if sensitive_key k then v = JStr redacted_text else free_of_secrets re v)"
| "free_of_secrets re (JArr xs) \<longleftrightarrow> (\<forall>v \<in> set xs. free_of_secrets re v)"
| "free_of_secrets re (JStr s) \<longleftrightarrow> \<not> re s"
| "free_of_secrets re _ \<longleftrightarrow> True"

fun strings_bounded :: "nat \<Rightarrow> json \<Rightarrow> bool" where
  "strings_bounded n (JObj m) \<longleftrightarrow> (\<forall>(k, v) \<in> set m. strings_bounded n v)"
| "strings_bounded n (JArr xs) \<longleftrightarrow> (\<forall>v \<in> set xs. strings_bounded n v)"
| "strings_bounded n (JStr s) \<longleftrightarrow> length s \<le> n"
| "strings_bounded n _ \<longleftrightarrow> True"

text \<open>The pattern matches neither of the two markers the pass itself writes.\<close>

definition truncated_text :: "nat \<Rightarrow> string" where
  "truncated_text n = ''<truncated:'' @ dec_digits n @ ''>''"

definition markers_harmless :: "(string \<Rightarrow> bool) \<Rightarrow> bool" where
  "markers_harmless re \<longleftrightarrow> \<not> re redacted_text \<and> (\<forall>n. \<not> re (truncated_text n))"

lemma dec_digits_length: "n < 10 ^ Suc k \<Longrightarrow> length (dec_digits n) \<le> Suc k"
proof (induction k arbitrary: n)
  case 0
  then show ?case by (subst dec_digits.simps) simp
next
  case (Suc k)
  then show ?case
    by (subst dec_digits.simps) (auto intro!: Suc.IH)
qed

lemma truncated_text_length: "n \<le> strict_drop_string_bytes \<Longrightarrow> length (truncated_text n) \<le> 19"
  using dec_digits_length [of n 6] by (simp add: truncated_text_def strict_drop_string_bytes_def)

lemma promote_Safe_iff: "promote l c = Safe \<longleftrightarrow> l = Safe \<and> c = Safe"
  by (cases l; cases c) (auto simp: promote_def)

lemma scrub_string_cases:
  obtains (secret) "re s" "scrub_string re md s = JStr redacted_text"
    | (dropped) "\<not> re s" "md = Strict" "length s > strict_drop_string_bytes" "scrub_string re md s = JNull"
    | (bounded) "\<not> re s" "md = Strict" "length s > strict_max_string_bytes" "length s \<le> strict_drop_string_bytes"
        "scrub_string re md s = JStr (truncated_text (length s))"
    | (kept) "\<not> re s" "md = Standard \<or> length s \<le> strict_max_string_bytes" "scrub_string re md s = JStr s"
  by (cases "re s"; cases md; cases "length s > strict_drop_string_bytes"; cases "length s > strict_max_string_bytes")
    (simp_all add: scrub_string_def redact_string_def truncated_text_def)

lemma scrub_free:
  assumes "markers_harmless re"
  shows "free_of_secrets re (scrub re md v)"
  using assms
proof (induction re md v rule: scrub.induct)
  case (3 re md s)
  then show ?case
    by (cases rule: scrub_string_cases [where re = re and s = s and md = md]) (auto simp: markers_harmless_def)
qed (auto split: if_splits)

lemma scrub_bounded: "strings_bounded strict_max_string_bytes (scrub re Strict v)"
proof (induction re Strict v rule: scrub.induct)
  case (3 re s)
  show ?case
    using truncated_text_length [of "length s"]
    by (cases rule: scrub_string_cases [where re = re and s = s and md = Strict])
      (auto simp: redacted_text_def strict_max_string_bytes_def)
qed (auto simp: redacted_text_def strict_max_string_bytes_def)

text \<open>A second pass finds nothing to do.\<close>

lemma scrub_idem:
  assumes "markers_harmless re"
  shows "scrub re md (scrub re md v) = scrub re md v"
  using assms
proof (induction re md v rule: scrub.induct)
  case (3 re md s)
  then show ?case
    using truncated_text_length [of "length s"]
    by (cases rule: scrub_string_cases [where re = re and s = s and md = md])
      (auto simp: markers_harmless_def scrub_string_def redact_string_def redacted_text_def strict_max_string_bytes_def
        strict_drop_string_bytes_def)
qed auto

text \<open>The label only grows, and \<open>Safe\<close> at the end means nothing was touched on the way.\<close>

lemma redact_safe_entries:
  assumes "\<And>k v l. (k, v) \<in> set m \<Longrightarrow> \<not> sensitive_key k \<Longrightarrow> snd (redact_value re md v l) = Safe
      \<Longrightarrow> l = Safe \<and> scrub re md v = v"
    and "snd (redact_entries re md m l) = Safe"
  shows "l = Safe \<and> map (scrub_entry re md) m = m"
  using assms
proof (induction m arbitrary: l)
  case (Cons e m)
  obtain k v where e: "e = (k, v)" by (cases e)
  let ?l1 = "if sensitive_key k then promote l Bounded else snd (redact_value re md v l)"
  from Cons.prems(2) have "snd (redact_entries re md m ?l1) = Safe"
    by (cases "sensitive_key k") (simp_all add: e split_beta Let_def)
  moreover have "l' = Safe \<and> scrub re md w = w"
    if "(j, w) \<in> set m" "\<not> sensitive_key j" "snd (redact_value re md w l') = Safe" for j w l'
    using Cons.prems(1) [of j w l'] that by simp
  ultimately have "?l1 = Safe \<and> map (scrub_entry re md) m = m" by (intro Cons.IH)
  with Cons.prems(1) [of k v l] show ?case by (auto simp: e promote_Safe_iff split: if_splits)
qed simp

lemma redact_safe_values:
  assumes "\<And>v l. v \<in> set vs \<Longrightarrow> snd (redact_value re md v l) = Safe \<Longrightarrow> l = Safe \<and> scrub re md v = v"
    and "snd (redact_values re md vs l) = Safe"
  shows "l = Safe \<and> map (scrub re md) vs = vs"
  using assms
proof (induction vs arbitrary: l)
  case (Cons v vs)
  from Cons.prems(2) have "snd (redact_values re md vs (snd (redact_value re md v l))) = Safe"
    by (simp add: split_beta Let_def)
  moreover have "l' = Safe \<and> scrub re md w = w" if "w \<in> set vs" "snd (redact_value re md w l') = Safe" for w l'
    using Cons.prems(1) [of w l'] that by simp
  ultimately have "snd (redact_value re md v l) = Safe \<and> map (scrub re md) vs = vs" by (intro Cons.IH)
  with Cons.prems(1) [of v l] show ?case by auto
qed simp

lemma redact_safe: "snd (redact_value re md v l) = Safe \<Longrightarrow> l = Safe \<and> scrub re md v = v"
proof (induction v arbitrary: l rule: scrub.induct [where ?a0.0 = re and ?a1.0 = md])
  case (1 re md m)
  from 1(2) have "snd (redact_entries re md m l) = Safe" by (simp add: split_beta)
  from redact_safe_entries [OF 1(1) [OF _ refl] this] show ?case by simp
next
  case (2 re md xs)
  from 2(2) have "snd (redact_values re md xs l) = Safe" by (simp add: split_beta)
  from redact_safe_values [OF 2(1) this] show ?case by simp
qed (auto simp: scrub_string_def redact_string_def promote_Safe_iff split: if_splits)

text \<open>
  C33: What the store gets has no secrets by this filter's own standard: whatever the payload and
  the mode, every entry with a sensitive key holds the placeholder and no other string matches the
  pattern of secrets; in strict mode no string is longer than 8 KiB; a payload labelled \<open>Safe\<close> is
  the payload itself; and a second pass changes nothing.
\<close>
theorem persisted_payload_scrubbed:
  assumes "markers_harmless re"
    and "redact_event_payload re md p = (p', l)"
  shows "free_of_secrets re p' \<and> (md = Strict \<longrightarrow> strings_bounded (8 * 1024) p')
    \<and> (l = Safe \<longrightarrow> p' = p) \<and> fst (redact_event_payload re md p') = p'"
proof -
  from assms(2) have p': "p' = scrub re md p" by (metis fst_conv redact_event_payload_scrub)
  have "p' = p" if "l = Safe"
    using that assms(2) redact_safe [of re md p Safe] p' by (simp add: redact_event_payload_def)
  then show ?thesis
    using scrub_free [OF assms(1), of md p] scrub_bounded [of re p] scrub_idem [OF assms(1), of md p] p'
    by (auto simp: redact_event_payload_scrub strict_max_string_bytes_def)
qed

definition example_secret_re :: "string \<Rightarrow> bool" where
  "example_secret_re s = (take 3 s = ''sk-'')"

lemma example_markers_harmless: "markers_harmless example_secret_re"
  by (simp add: markers_harmless_def example_secret_re_def redacted_text_def truncated_text_def)

theorem persisted_payload_scrubbed_witness:
  "\<exists>p' l. redact_event_payload example_secret_re Strict
        (JObj [(''Token'', JStr ''t''), (''note'', JArr [JStr ''sk-12345678''])]) = (p', l)
     \<and> free_of_secrets example_secret_re p' \<and> strings_bounded (8 * 1024) p'"
proof -
  obtain p' l where r: "redact_event_payload example_secret_re Strict
        (JObj [(''Token'', JStr ''t''), (''note'', JArr [JStr ''sk-12345678''])]) = (p', l)" by fastforce
  with persisted_payload_scrubbed [OF example_markers_harmless r] show ?thesis by blast
qed

text \<open>
  The list of keys has snake-case names only: camel-case keys are stored with their values.
\<close>

lemma camel_case_tokens_kept:
  "\<not> re s \<Longrightarrow> redact_event_payload re Standard (JObj [(''accessToken'', JStr s), (''sessionToken'', JStr s)])
     = (JObj [(''accessToken'', JStr s), (''sessionToken'', JStr s)], Safe)"
proof -
  have "\<not> sensitive_key ''accessToken''" "\<not> sensitive_key ''sessionToken''" by code_simp+
  then show "\<not> re s \<Longrightarrow> ?thesis" by (simp add: redact_event_payload_def redact_string_def)
qed

end
