(* ===== verification/Session_Store.thy ===== *)
theory Session_Store
  imports Wire Redaction Audit_Log Fs_Handler
begin

text \<open>
  \<open>apps/local-bridge/src/session/persistence\<close>: the durable history of sessions. A directory per
  session holds \<open>meta.json\<close>, replaced as a whole, and \<open>events.jsonl\<close>, appended to line by line.
  Every call takes an outcome that says what the operating system does, so every failure the code
  has a branch for is in the model. Serialisation is the parameter \<open>store_codec\<close>.
\<close>

section \<open>Data\<close>

datatype persisted_status = PsActive | PsClosed | PsFailed | PsForgotten

record native_resume =
  nr_load_session_supported :: bool
  nr_last_verified_at :: "int option"

definition persistence_version :: nat where
  "persistence_version = 1"

record session_meta =
  sm_version :: nat
  sm_vac_session_id :: string
  sm_agent_session_id :: "string option"
  sm_agent_id :: string
  sm_agent_kind :: string
  sm_project_root :: string
  sm_profile_id :: string
  sm_workflow_id :: "string option"
  sm_created_at :: int
  sm_updated_at :: int
  sm_status :: persisted_status
  sm_native_resume :: native_resume
  sm_mcp_servers :: "json list"
  sm_agent_capabilities :: json
  sm_profile_class :: "string option"

record persisted_event =
  pe_seq :: "64 word"
  pe_type :: string
  pe_payload :: json
  pe_ts :: int
  pe_redaction :: redaction_label

record history_filter =
  hf_project_root :: "string option"
  hf_agent_id :: "string option"
  hf_status :: "persisted_status option"
  hf_limit :: "nat option"

datatype persistence_error =
    PeIo string
  | PeSerde string
  | PeNotFound string
  | PeCorruptMeta (pc_path: string) (pc_reason: string)
  | PeInvalidSessionId string

definition backquoted :: "string \<Rightarrow> string" where
  "backquoted s = [CHR 0x60] @ s @ [CHR 0x60]"

fun persistence_error_text :: "persistence_error \<Rightarrow> string" where
  "persistence_error_text (PeIo e) = ''persistence i/o error: '' @ e"
| "persistence_error_text (PeSerde e) = ''persistence serde error: '' @ e"
| "persistence_error_text (PeNotFound i) = ''persistence: session '' @ backquoted i @ '' not found''"
| "persistence_error_text (PeCorruptMeta p r) = ''persistence: corrupt session meta at '' @ p @ '': '' @ r"
| "persistence_error_text (PeInvalidSessionId i) = ''persistence: invalid session id '' @ backquoted i"

text \<open>What \<open>serde_json\<close> does for the two types.\<close>

record store_codec =
  meta_bytes :: "session_meta \<Rightarrow> string"
  meta_of :: "string \<Rightarrow> string + session_meta"
  event_bytes :: "persisted_event \<Rightarrow> string"
  event_of :: "string \<Rightarrow> persisted_event option"

text \<open>\<open>session/handle.rs\<close>: the metadata of a new session.\<close>

record spawn_details =
  sd_session_id :: string
  sd_profile_id :: string
  sd_profile_class :: "string option"
  sd_project_root :: string
  sd_agent_id :: string
  sd_agent_kind :: string
  sd_agent_capabilities :: "json option"
  sd_workflow_id :: string

definition load_session_supported :: "json option \<Rightarrow> bool" where
  "load_session_supported caps = (case caps of None \<Rightarrow> False | Some c \<Rightarrow> unwrap_or False (get_bool ''loadSession'' c))"

definition spawn_meta :: "clock \<Rightarrow> spawn_details \<Rightarrow> session_meta" where
  "spawn_meta clk sd =
     (let supported = load_session_supported (sd_agent_capabilities sd) in
      \<lparr>sm_version = persistence_version, sm_vac_session_id = sd_session_id sd, sm_agent_session_id = None,
       sm_agent_id = sd_agent_id sd, sm_agent_kind = sd_agent_kind sd, sm_project_root = sd_project_root sd,
       sm_profile_id = sd_profile_id sd, sm_workflow_id = Some (sd_workflow_id sd),
       sm_created_at = now clk, sm_updated_at = now clk, sm_status = PsActive,
       sm_native_resume = \<lparr>nr_load_session_supported = supported,
         nr_last_verified_at = (if supported then Some (now clk) else None)\<rparr>,
       sm_mcp_servers = [], sm_agent_capabilities = unwrap_or JNull (sd_agent_capabilities sd),
       sm_profile_class = sd_profile_class sd\<rparr>)"

lemma spawn_meta_id [simp]: "sm_vac_session_id (spawn_meta clk sd) = sd_session_id sd"
  by (simp add: spawn_meta_def Let_def)

section \<open>The file store\<close>

record session_files =
  sf_meta :: "string option"
  sf_events :: "string option"

type_synonym session_disk = "(string \<times> session_files) list"

text \<open>
  What happens during a call: everything works; the lock cannot be taken; the directory cannot be
  created; the metadata cannot be read; a file cannot be opened; only some bytes are written (or
  all, and syncing fails); the directory cannot be synced; removal stops with some files left; the
  lock cannot be released.
\<close>

datatype io_outcome =
    IoDone
  | IoLock string
  | IoDir string
  | IoRead string
  | IoOpen string
  | IoWrite string nat
  | IoSync string
  | IoRemove string bool bool
  | IoUnlock string

definition is_safe_session_id :: "string \<Rightarrow> bool" where
  "is_safe_session_id i \<longleftrightarrow> i \<noteq> [] \<and> length i < 128
     \<and> list_all (\<lambda>c. ascii_alphanumeric c \<or> c = CHR ''_'' \<or> c = CHR ''-'') i"

definition store_session_dir :: "string \<Rightarrow> string \<Rightarrow> persistence_error + string" where
  "store_session_dir root i = (if is_safe_session_id i then Inr (path_join root i) else Inl (PeInvalidSessionId i))"

definition empty_files :: session_files where
  "empty_files = \<lparr>sf_meta = None, sf_events = None\<rparr>"

definition files_of :: "session_disk \<Rightarrow> string \<Rightarrow> session_files" where
  "files_of d i = (case map_of d i of Some f \<Rightarrow> f | None \<Rightarrow> empty_files)"

definition ensure_session_dir ::
    "io_outcome \<Rightarrow> string \<Rightarrow> session_disk \<Rightarrow> (persistence_error + unit) \<times> session_disk" where
  "ensure_session_dir io i d =
     (if \<not> is_safe_session_id i then (Inl (PeInvalidSessionId i), d)
      else (case io of
              IoDir e \<Rightarrow> (Inl (PeIo e), d)
            | _ \<Rightarrow> (Inr (), AList.update i (files_of d i) d)))"

definition with_write_lock ::
    "io_outcome \<Rightarrow> (session_disk \<Rightarrow> (persistence_error + 'a) \<times> session_disk) \<Rightarrow> session_disk
      \<Rightarrow> (persistence_error + 'a) \<times> session_disk" where
  "with_write_lock io call d =
     (case io of
        IoLock e \<Rightarrow> (Inl (PeIo e), d)
      | IoUnlock e \<Rightarrow> (case call d of (Inr _, d') \<Rightarrow> (Inl (PeIo e), d') | (Inl err, d') \<Rightarrow> (Inl err, d'))
      | _ \<Rightarrow> call d)"

text \<open>
  The metadata goes to a temporary file, which is renamed. Temporary files that are left over are
  never read again and are not part of the state.
\<close>

definition save_meta_locked ::
    "store_codec \<Rightarrow> io_outcome \<Rightarrow> session_meta \<Rightarrow> session_disk \<Rightarrow> (persistence_error + unit) \<times> session_disk" where
  "save_meta_locked sc io m d =
     (let i = sm_vac_session_id m in
      case ensure_session_dir io i d of
        (Inl err, d1) \<Rightarrow> (Inl err, d1)
      | (Inr _, d1) \<Rightarrow>
          (let d2 = AList.update i ((files_of d1 i)\<lparr>sf_meta := Some (meta_bytes sc m)\<rparr>) d1 in
           case io of
             IoOpen e \<Rightarrow> (Inl (PeIo e), d1)
           | IoWrite e n \<Rightarrow> (Inl (PeIo e), d1)
           | IoSync e \<Rightarrow> (Inl (PeIo e), d2)
           | _ \<Rightarrow> (Inr (), d2)))"

definition save_meta ::
    "store_codec \<Rightarrow> io_outcome \<Rightarrow> session_meta \<Rightarrow> session_disk \<Rightarrow> (persistence_error + unit) \<times> session_disk" where
  "save_meta sc io m d = with_write_lock io (save_meta_locked sc io m) d"

definition load_meta ::
    "store_codec \<Rightarrow> string \<Rightarrow> io_outcome \<Rightarrow> string \<Rightarrow> session_disk \<Rightarrow> persistence_error + session_meta option" where
  "load_meta sc root io i d =
     (case store_session_dir root i of
        Inl err \<Rightarrow> Inl err
      | Inr dir \<Rightarrow>
          (case sf_meta (files_of d i) of
             None \<Rightarrow> Inr None
           | Some bytes \<Rightarrow>
               (case io of
                  IoRead e \<Rightarrow> Inl (PeIo e)
                | _ \<Rightarrow> (case meta_of sc bytes of
                          Inl reason \<Rightarrow> Inl (PeCorruptMeta (path_join dir ''meta.json'') reason)
                        | Inr m \<Rightarrow> Inr (Some m)))))"

definition filter_match :: "history_filter \<Rightarrow> session_meta \<Rightarrow> bool" where
  "filter_match f m \<longleftrightarrow>
     (case hf_project_root f of None \<Rightarrow> True | Some r \<Rightarrow> sm_project_root m = r)
     \<and> (case hf_agent_id f of None \<Rightarrow> True | Some a \<Rightarrow> sm_agent_id m = a)
     \<and> (case hf_status f of None \<Rightarrow> True | Some s \<Rightarrow> sm_status m = s)"

text \<open>
  \<open>root_fault\<close> is the failure of \<open>read_dir\<close> (a missing root is an empty one), \<open>readable\<close> says
  which metadata files can be read.
\<close>

definition list_meta ::
    "store_codec \<Rightarrow> string option \<Rightarrow> (string \<Rightarrow> bool) \<Rightarrow> history_filter \<Rightarrow> session_disk
      \<Rightarrow> persistence_error + session_meta list" where
  "list_meta sc root_fault readable f d =
     (case root_fault of
        Some e \<Rightarrow> Inl (PeIo e)
      | None \<Rightarrow>
          (let rows = List.map_filter (\<lambda>(i, fs).
                 case sf_meta fs of
                   None \<Rightarrow> None
                 | Some bytes \<Rightarrow>
                     if \<not> readable i then None
                     else (case meta_of sc bytes of
                             Inl _ \<Rightarrow> None
                           | Inr m \<Rightarrow> if filter_match f m then Some m else None)) d;
               sorted_rows = sort_key (\<lambda>m. - sm_updated_at m) rows
           in Inr (case hf_limit f of None \<Rightarrow> sorted_rows | Some n \<Rightarrow> take n sorted_rows)))"

definition append_event ::
    "store_codec \<Rightarrow> io_outcome \<Rightarrow> string \<Rightarrow> persisted_event \<Rightarrow> session_disk
      \<Rightarrow> (persistence_error + unit) \<times> session_disk" where
  "append_event sc io i ev d =
     with_write_lock io (\<lambda>d.
       case ensure_session_dir io i d of
         (Inl err, d1) \<Rightarrow> (Inl err, d1)
       | (Inr _, d1) \<Rightarrow>
           (let created = sf_events (files_of d1 i) = None;
                old = (case sf_events (files_of d1 i) of None \<Rightarrow> [] | Some s \<Rightarrow> s);
                line = event_bytes sc ev @ nl;
                write = (\<lambda>s. AList.update i ((files_of d1 i)\<lparr>sf_events := Some (old @ s)\<rparr>) d1)
            in case io of
                 IoOpen e \<Rightarrow> (Inl (PeIo e), d1)
               | IoWrite e n \<Rightarrow> (Inl (PeIo e), write (take n line))
               | IoSync e \<Rightarrow> (if created then Inl (PeIo e) else Inr (), write line)
               | _ \<Rightarrow> (Inr (), write line))) d"

text \<open>
  \<open>BufRead::lines\<close>: the lines with their ends taken off; only a line that was ended loses a
  carriage return.
\<close>

fun lines_from :: "string \<Rightarrow> string \<Rightarrow> string list" where
  "lines_from acc [] = (if acc = [] then [] else [acc])"
| "lines_from acc (c # cs) =
     (if [c] = nl
      then (if acc \<noteq> [] \<and> last acc = CHR 0x0D then butlast acc else acc) # lines_from [] cs
      else lines_from (acc @ [c]) cs)"

text \<open>The loop of \<open>load_events\<close>; a line that is not UTF-8 makes the whole call fail.\<close>

fun parse_lines :: "store_codec \<Rightarrow> string list \<Rightarrow> persistence_error + persisted_event list" where
  "parse_lines sc [] = Inr []"
| "parse_lines sc (l # ls) =
     (if \<not> utf8_ok l then Inl (PeIo ''stream did not contain valid UTF-8'')
      else (case parse_lines sc ls of
              Inl err \<Rightarrow> Inl err
            | Inr evs \<Rightarrow>
                (if trim l = [] then Inr evs
                 else (case event_of sc l of None \<Rightarrow> Inr evs | Some ev \<Rightarrow> Inr (ev # evs)))))"

definition load_events ::
    "store_codec \<Rightarrow> string \<Rightarrow> io_outcome \<Rightarrow> string \<Rightarrow> nat \<Rightarrow> session_disk \<Rightarrow> persistence_error + persisted_event list" where
  "load_events sc root io i limit d =
     (case store_session_dir root i of
        Inl err \<Rightarrow> Inl err
      | Inr _ \<Rightarrow>
          (case sf_events (files_of d i) of
             None \<Rightarrow> Inr []
           | Some bytes \<Rightarrow>
               (case io of
                  IoRead e \<Rightarrow> Inl (PeIo e)
                | _ \<Rightarrow> (case parse_lines sc (lines_from [] bytes) of
                          Inl err \<Rightarrow> Inl err
                        | Inr evs \<Rightarrow> Inr (if limit > 0 \<and> length evs > limit then drop (length evs - limit) evs else evs)))))"

definition mark_status ::
    "store_codec \<Rightarrow> string \<Rightarrow> io_outcome \<Rightarrow> int \<Rightarrow> string \<Rightarrow> persisted_status \<Rightarrow> session_disk
      \<Rightarrow> (persistence_error + unit) \<times> session_disk" where
  "mark_status sc root io t i st d =
     with_write_lock io (\<lambda>d.
       case load_meta sc root io i d of
         Inl err \<Rightarrow> (Inl err, d)
       | Inr None \<Rightarrow> (Inl (PeNotFound i), d)
       | Inr (Some m) \<Rightarrow> save_meta_locked sc io (m\<lparr>sm_status := st, sm_updated_at := t\<rparr>) d) d"

definition forget_session ::
    "io_outcome \<Rightarrow> string \<Rightarrow> session_disk \<Rightarrow> (persistence_error + unit) \<times> session_disk" where
  "forget_session io i d =
     with_write_lock io (\<lambda>d.
       if \<not> is_safe_session_id i then (Inl (PeInvalidSessionId i), d)
       else if map_of d i = None then (Inr (), d)
       else (case io of
               IoRemove e keep_meta keep_events \<Rightarrow>
                 (Inl (PeIo e),
                  AList.update i \<lparr>sf_meta = (if keep_meta then sf_meta (files_of d i) else None),
                                  sf_events = (if keep_events then sf_events (files_of d i) else None)\<rparr> d)
             | _ \<Rightarrow> (Inr (), AList.delete i d))) d"

section \<open>Effects of the calls\<close>

definition events_text :: "session_disk \<Rightarrow> string \<Rightarrow> string" where
  "events_text d i = (case sf_events (files_of d i) of None \<Rightarrow> [] | Some s \<Rightarrow> s)"

abbreviation meta_text :: "session_disk \<Rightarrow> string \<Rightarrow> string option" where
  "meta_text d i \<equiv> sf_meta (files_of d i)"

fun lock_fails :: "io_outcome \<Rightarrow> bool" where
  "lock_fails (IoLock e) \<longleftrightarrow> True"
| "lock_fails _ \<longleftrightarrow> False"

fun read_fails :: "io_outcome \<Rightarrow> bool" where
  "read_fails (IoRead e) \<longleftrightarrow> True"
| "read_fails _ \<longleftrightarrow> False"

text \<open>What a removal leaves.\<close>

fun keeps_meta :: "io_outcome \<Rightarrow> bool" where
  "keeps_meta (IoRemove e km ke) \<longleftrightarrow> km"
| "keeps_meta _ \<longleftrightarrow> False"

fun keeps_events :: "io_outcome \<Rightarrow> bool" where
  "keeps_events (IoRemove e km ke) \<longleftrightarrow> ke"
| "keeps_events _ \<longleftrightarrow> False"

text \<open>What of a line arrives, and whether new metadata becomes visible.\<close>

fun written_part :: "io_outcome \<Rightarrow> string \<Rightarrow> string" where
  "written_part (IoLock e) s = []"
| "written_part (IoDir e) s = []"
| "written_part (IoOpen e) s = []"
| "written_part (IoWrite e n) s = take n s"
| "written_part _ s = s"

fun meta_visible :: "io_outcome \<Rightarrow> bool" where
  "meta_visible (IoLock e) \<longleftrightarrow> False"
| "meta_visible (IoDir e) \<longleftrightarrow> False"
| "meta_visible (IoOpen e) \<longleftrightarrow> False"
| "meta_visible (IoWrite e n) \<longleftrightarrow> False"
| "meta_visible _ \<longleftrightarrow> True"

lemma files_of_update [simp]: "files_of (AList.update i f d) j = (if j = i then f else files_of d j)"
  by (simp add: files_of_def update_conv')

lemma files_of_delete [simp]: "files_of (AList.delete i d) j = (if j = i then empty_files else files_of d j)"
  by (simp add: files_of_def delete_conv')

lemma events_text_update [simp]:
  "events_text (AList.update i f d) j =
     (if j = i then (case sf_events f of None \<Rightarrow> [] | Some s \<Rightarrow> s) else events_text d j)"
  by (simp add: events_text_def)

lemmas call_defs = with_write_lock_def ensure_session_dir_def Let_def

lemma append_event_effect:
  "events_text (snd (append_event sc io i ev d)) j =
     (if j = i \<and> is_safe_session_id i then events_text d i @ written_part io (event_bytes sc ev @ nl) else events_text d j)"
  "meta_text (snd (append_event sc io i ev d)) j = meta_text d j"
  by (cases io; simp add: append_event_def call_defs events_text_def)
    (cases io; simp add: append_event_def call_defs events_text_def)

lemma append_event_ok:
  "fst (append_event sc io i ev d) = Inr () \<Longrightarrow>
     is_safe_session_id i \<and> written_part io (event_bytes sc ev @ nl) = event_bytes sc ev @ nl"
  by (cases io) (auto simp: append_event_def call_defs split: if_splits)

lemma with_write_lock_effect:
  "snd (with_write_lock io f d) = (if lock_fails io then d else snd (f d))"
  by (cases io; cases "f d"; cases "fst (f d)") (simp_all add: with_write_lock_def)

lemma visible_locked: "meta_visible io \<Longrightarrow> \<not> lock_fails io"
  by (cases io) auto

lemma save_meta_locked_effect:
  "events_text (snd (save_meta_locked sc io m d)) j = events_text d j"
  "\<not> lock_fails io \<Longrightarrow> meta_text (snd (save_meta_locked sc io m d)) j =
     (if j = sm_vac_session_id m \<and> is_safe_session_id j \<and> meta_visible io then Some (meta_bytes sc m) else meta_text d j)"
  by (cases io; simp add: save_meta_locked_def call_defs events_text_def)
    (cases io; cases "is_safe_session_id (sm_vac_session_id m)"; auto simp: save_meta_locked_def call_defs)

lemma save_meta_effect:
  "events_text (snd (save_meta sc io m d)) j = events_text d j"
  "meta_text (snd (save_meta sc io m d)) j =
     (if j = sm_vac_session_id m \<and> is_safe_session_id j \<and> meta_visible io then Some (meta_bytes sc m) else meta_text d j)"
  by (auto simp: save_meta_def with_write_lock_effect save_meta_locked_effect dest: visible_locked)

lemma mark_status_effect:
  "events_text (snd (mark_status sc root io t i st d)) j = events_text d j"
  "meta_text (snd (mark_status sc root io t i st d)) j =
     (case load_meta sc root io i d of
        Inr (Some m) \<Rightarrow>
          if j = sm_vac_session_id m \<and> is_safe_session_id j \<and> meta_visible io
          then Some (meta_bytes sc (m\<lparr>sm_status := st, sm_updated_at := t\<rparr>)) else meta_text d j
      | _ \<Rightarrow> meta_text d j)"
  by (auto simp: mark_status_def with_write_lock_effect save_meta_locked_effect dest: visible_locked
      split: sum.split option.split)

lemma forget_effect:
  "events_text (snd (forget_session io i d)) j =
     (if j = i \<and> is_safe_session_id i \<and> \<not> lock_fails io \<and> \<not> keeps_events io then [] else events_text d j)"
  "meta_text (snd (forget_session io i d)) j =
     (if j = i \<and> is_safe_session_id i \<and> \<not> lock_fails io \<and> \<not> keeps_meta io then None else meta_text d j)"
proof -
  have none: "map_of d i = None \<Longrightarrow> events_text d i = [] \<and> meta_text d i = None"
    by (simp add: events_text_def files_of_def empty_files_def)
  show "events_text (snd (forget_session io i d)) j =
     (if j = i \<and> is_safe_session_id i \<and> \<not> lock_fails io \<and> \<not> keeps_events io then [] else events_text d j)"
    using none by (cases io; auto simp: forget_session_def with_write_lock_effect events_text_def empty_files_def)
  show "meta_text (snd (forget_session io i d)) j =
     (if j = i \<and> is_safe_session_id i \<and> \<not> lock_fails io \<and> \<not> keeps_meta io then None else meta_text d j)"
    using none by (cases io; auto simp: forget_session_def with_write_lock_effect empty_files_def)
qed

section \<open>The abstract history\<close>

text \<open>
  What the store promises: per session the rows written since it was last forgotten, in order, and
  the last metadata written.
\<close>

record session_history =
  sh_events :: "string \<Rightarrow> persisted_event list"
  sh_meta :: "string \<rightharpoonup> session_meta"

datatype store_call =
    SaveMeta io_outcome session_meta
  | AppendEvent io_outcome string persisted_event
  | MarkStatus io_outcome int string persisted_status
  | Forget io_outcome string

fun store_step :: "store_codec \<Rightarrow> string \<Rightarrow> session_disk \<Rightarrow> store_call \<Rightarrow> session_disk" where
  "store_step sc root d (SaveMeta io m) = snd (save_meta sc io m d)"
| "store_step sc root d (AppendEvent io i ev) = snd (append_event sc io i ev d)"
| "store_step sc root d (MarkStatus io t i st) = snd (mark_status sc root io t i st d)"
| "store_step sc root d (Forget io i) = snd (forget_session io i d)"

definition row_of :: "store_codec \<Rightarrow> persisted_event \<Rightarrow> string" where
  "row_of sc ev = event_bytes sc ev @ nl"

definition row_arrives :: "store_codec \<Rightarrow> io_outcome \<Rightarrow> persisted_event \<Rightarrow> bool" where
  "row_arrives sc io ev \<longleftrightarrow> written_part io (row_of sc ev) = row_of sc ev"

definition row_torn :: "store_codec \<Rightarrow> io_outcome \<Rightarrow> persisted_event \<Rightarrow> bool" where
  "row_torn sc io ev \<longleftrightarrow> \<not> row_arrives sc io ev \<and> written_part io (row_of sc ev) \<noteq> []"

fun history_step :: "store_codec \<Rightarrow> session_history \<Rightarrow> store_call \<Rightarrow> session_history" where
  "history_step sc h (SaveMeta io m) =
     (if is_safe_session_id (sm_vac_session_id m) \<and> meta_visible io
      then h\<lparr>sh_meta := (sh_meta h)(sm_vac_session_id m \<mapsto> m)\<rparr> else h)"
| "history_step sc h (AppendEvent io i ev) =
     (if is_safe_session_id i \<and> row_arrives sc io ev
      then h\<lparr>sh_events := (sh_events h)(i := sh_events h i @ [ev])\<rparr> else h)"
| "history_step sc h (MarkStatus io t i st) =
     (case sh_meta h i of
        Some m \<Rightarrow> if meta_visible io \<and> \<not> read_fails io
                  then h\<lparr>sh_meta := (sh_meta h)(i \<mapsto> m\<lparr>sm_status := st, sm_updated_at := t\<rparr>)\<rparr> else h
      | None \<Rightarrow> h)"
| "history_step sc h (Forget io i) =
     (if \<not> is_safe_session_id i \<or> lock_fails io then h
      else h\<lparr>sh_events := (if keeps_events io then sh_events h else (sh_events h)(i := [])),
             sh_meta := (if keeps_meta io then sh_meta h else (sh_meta h)(i := None))\<rparr>)"

definition store_history :: "store_codec \<Rightarrow> store_call list \<Rightarrow> session_history" where
  "store_history sc cs = foldl (history_step sc) \<lparr>sh_events = (\<lambda>_. []), sh_meta = Map.empty\<rparr> cs"

text \<open>The codec round-trips a value: a row is one non-blank line of UTF-8.\<close>

definition row_ok :: "store_codec \<Rightarrow> persisted_event \<Rightarrow> bool" where
  "row_ok sc ev \<longleftrightarrow> event_of sc (event_bytes sc ev) = Some ev \<and> utf8_ok (event_bytes sc ev)
     \<and> CHR 0x0A \<notin> set (event_bytes sc ev) \<and> trim (event_bytes sc ev) \<noteq> []
     \<and> last (event_bytes sc ev) \<noteq> CHR 0x0D"

text \<open>Metadata round-trips whatever its status and time.\<close>

definition meta_ok :: "store_codec \<Rightarrow> session_meta \<Rightarrow> bool" where
  "meta_ok sc m \<longleftrightarrow> (\<forall>st t. meta_of sc (meta_bytes sc (m\<lparr>sm_status := st, sm_updated_at := t\<rparr>))
     = Inr (m\<lparr>sm_status := st, sm_updated_at := t\<rparr>))"

lemma meta_okD: "meta_ok sc m \<Longrightarrow> meta_of sc (meta_bytes sc m) = Inr m"
  unfolding meta_ok_def by (metis session_meta.surjective session_meta.update_convs(10) session_meta.update_convs(11))

lemma meta_ok_marked [simp]: "meta_ok sc m \<Longrightarrow> meta_ok sc (m\<lparr>sm_status := st, sm_updated_at := t\<rparr>)"
  by (simp add: meta_ok_def)

fun call_codec_ok :: "store_codec \<Rightarrow> store_call \<Rightarrow> bool" where
  "call_codec_ok sc (SaveMeta io m) \<longleftrightarrow> meta_ok sc m"
| "call_codec_ok sc (AppendEvent io i ev) \<longleftrightarrow> row_ok sc ev \<and> \<not> row_torn sc io ev"
| "call_codec_ok sc _ \<longleftrightarrow> True"

lemma lines_from_row:
  "CHR 0x0A \<notin> set l \<Longrightarrow> lines_from acc (l @ nl @ s) =
     (if acc @ l \<noteq> [] \<and> last (acc @ l) = CHR 0x0D then butlast (acc @ l) else acc @ l) # lines_from [] s"
  by (induction l arbitrary: acc) (auto simp: nl_def)

lemma lines_from_rows:
  "\<forall>ev \<in> set evs. row_ok sc ev \<Longrightarrow> lines_from [] (concat (map (row_of sc) evs)) = map (event_bytes sc) evs"
  by (induction evs) (auto simp: row_of_def row_ok_def lines_from_row)

lemma parse_rows: "\<forall>ev \<in> set evs. row_ok sc ev \<Longrightarrow> parse_lines sc (map (event_bytes sc) evs) = Inr evs"
  by (induction evs) (auto simp: row_ok_def)

lemma load_rows:
  assumes "is_safe_session_id i" "\<not> read_fails io" "events_text d i = concat (map (row_of sc) evs)"
    and "\<forall>ev \<in> set evs. row_ok sc ev"
  shows "load_events sc root io i limit d =
    Inr (if limit > 0 \<and> length evs > limit then drop (length evs - limit) evs else evs)"
proof (cases "sf_events (files_of d i)")
  case None
  with assms(3) have "evs = []" by (cases evs) (auto simp: events_text_def row_of_def nl_def)
  with None assms(1) show ?thesis by (simp add: load_events_def store_session_dir_def)
next
  case (Some s)
  with assms(3) have "s = concat (map (row_of sc) evs)" by (simp add: events_text_def)
  with Some assms(1,2) lines_from_rows [OF assms(4)] parse_rows [OF assms(4)] show ?thesis
    by (cases io) (simp_all add: load_events_def store_session_dir_def)
qed

text \<open>
  The simulation: the files are the rows of the history one after the other, and the last
  metadata. Rows are known to the codec.
\<close>

definition store_holds :: "store_codec \<Rightarrow> session_history \<Rightarrow> session_disk \<Rightarrow> bool" where
  "store_holds sc h d \<longleftrightarrow>
     (\<forall>i. events_text d i = concat (map (row_of sc) (sh_events h i)) \<and> (\<forall>ev \<in> set (sh_events h i). row_ok sc ev)
        \<and> meta_text d i = map_option (meta_bytes sc) (sh_meta h i)
        \<and> (\<forall>m. sh_meta h i = Some m \<longrightarrow> is_safe_session_id i \<and> sm_vac_session_id m = i \<and> meta_ok sc m))"

lemma load_meta_holds:
  "store_holds sc h d \<Longrightarrow> is_safe_session_id i \<Longrightarrow> \<not> read_fails io \<Longrightarrow> load_meta sc root io i d = Inr (sh_meta h i)"
  by (cases io; cases "sh_meta h i") (auto simp: load_meta_def store_session_dir_def store_holds_def meta_okD)

lemma load_meta_unsafe: "\<not> is_safe_session_id i \<Longrightarrow> load_meta sc root io i d = Inl (PeInvalidSessionId i)"
  by (simp add: load_meta_def store_session_dir_def)

lemma load_meta_read_fails:
  "store_holds sc h d \<Longrightarrow> is_safe_session_id i \<Longrightarrow> read_fails io \<Longrightarrow> sh_meta h i = Some m \<Longrightarrow>
     \<exists>e. load_meta sc root io i d = Inl (PeIo e)"
  by (cases io) (auto simp: load_meta_def store_session_dir_def store_holds_def)

lemma row_arrives_append: "row_arrives sc io ev \<Longrightarrow> written_part io (event_bytes sc ev @ nl) = row_of sc ev"
  by (simp add: row_arrives_def row_of_def)

lemma row_lost_append:
  "\<not> row_torn sc io ev \<Longrightarrow> \<not> row_arrives sc io ev \<Longrightarrow> written_part io (event_bytes sc ev @ nl) = []"
  by (simp add: row_torn_def row_of_def)

lemma store_step_holds:
  assumes "store_holds sc h d" "call_codec_ok sc c"
  shows "store_holds sc (history_step sc h c) (store_step sc root d c)"
proof (cases c)
  case (SaveMeta io m)
  with assms show ?thesis by (auto simp: store_holds_def save_meta_effect)
next
  case (AppendEvent io i ev)
  with assms show ?thesis
    by (auto simp: store_holds_def append_event_effect row_arrives_append row_lost_append)
next
  case (Forget io i)
  with assms show ?thesis by (auto simp: store_holds_def forget_effect)
next
  case (MarkStatus io t i st)
  show ?thesis
  proof (cases "sh_meta h i")
    case None
    with assms(1) have "load_meta sc root io i d = Inr None \<or> (\<exists>e. load_meta sc root io i d = Inl e)"
      by (cases "is_safe_session_id i"; cases io) (auto simp: load_meta_def store_session_dir_def store_holds_def)
    with None MarkStatus assms(1) show ?thesis by (auto simp: store_holds_def mark_status_effect)
  next
    case (Some m)
    with assms(1) have m: "is_safe_session_id i" "sm_vac_session_id m = i" "meta_ok sc m" by (auto simp: store_holds_def)
    show ?thesis
    proof (cases "read_fails io")
      case False
      with assms(1) Some m have "load_meta sc root io i d = Inr (Some m)" by (simp add: load_meta_holds)
      with MarkStatus Some False m assms(1) show ?thesis by (auto simp: store_holds_def mark_status_effect)
    next
      case True
      with load_meta_read_fails [OF assms(1) m(1) True Some, of root] MarkStatus Some assms(1)
      show ?thesis by (auto simp: store_holds_def mark_status_effect)
    qed
  qed
qed

lemma store_run_holds:
  "store_holds sc h d \<Longrightarrow> \<forall>c \<in> set cs. call_codec_ok sc c
    \<Longrightarrow> store_holds sc (foldl (history_step sc) h cs) (foldl (store_step sc root) d cs)"
  by (induction cs arbitrary: h d) (auto simp: store_step_holds)

lemma store_history_holds:
  "\<forall>c \<in> set cs. call_codec_ok sc c \<Longrightarrow> store_holds sc (store_history sc cs) (foldl (store_step sc root) [] cs)"
  unfolding store_history_def
  by (rule store_run_holds) (auto simp: store_holds_def events_text_def files_of_def empty_files_def)


text \<open>The listing: all sessions with metadata that match, newest first.\<close>

lemma store_step_distinct: "distinct (map fst d) \<Longrightarrow> distinct (map fst (store_step sc root d c))"
proof (cases c)
  case (AppendEvent io i ev)
  then show "distinct (map fst d) \<Longrightarrow> distinct (map fst (store_step sc root d c))"
    by (cases "is_safe_session_id i"; cases io)
      (simp_all add: append_event_def with_write_lock_effect ensure_session_dir_def Let_def distinct_update)
next
  case (Forget io i)
  then show "distinct (map fst d) \<Longrightarrow> distinct (map fst (store_step sc root d c))"
    by (cases io) (simp_all add: forget_session_def with_write_lock_effect distinct_update distinct_delete)
next
  have saved: "distinct (map fst d) \<Longrightarrow> distinct (map fst (snd (save_meta_locked sc io m d)))" for io m
    by (cases "is_safe_session_id (sm_vac_session_id m)"; cases io)
      (simp_all add: save_meta_locked_def ensure_session_dir_def Let_def distinct_update)
  {
    case (SaveMeta io m)
    with saved show "distinct (map fst d) \<Longrightarrow> distinct (map fst (store_step sc root d c))"
      by (simp add: save_meta_def with_write_lock_effect)
  next
    case (MarkStatus io t i st)
    with saved show "distinct (map fst d) \<Longrightarrow> distinct (map fst (store_step sc root d c))"
      by (simp add: mark_status_def with_write_lock_effect split: sum.split option.split)
  }
qed

definition listed_row :: "store_codec \<Rightarrow> history_filter \<Rightarrow> string \<times> session_files \<Rightarrow> session_meta option" where
  "listed_row sc f e =
     (case sf_meta (snd e) of
        None \<Rightarrow> None
      | Some bytes \<Rightarrow> (case meta_of sc bytes of Inl _ \<Rightarrow> None | Inr m \<Rightarrow> if filter_match f m then Some m else None))"

lemma store_holds_meta: "store_holds sc h d \<Longrightarrow> meta_text d i = map_option (meta_bytes sc) (sh_meta h i)"
  by (simp add: store_holds_def)

lemma store_holds_metaD:
  "store_holds sc h d \<Longrightarrow> sh_meta h i = Some m \<Longrightarrow> is_safe_session_id i \<and> sm_vac_session_id m = i \<and> meta_ok sc m"
  by (simp add: store_holds_def)

lemma list_meta_row:
  "(\<lambda>(i, fs). case sf_meta fs of None \<Rightarrow> None
     | Some bytes \<Rightarrow> if \<not> True then None
         else (case meta_of sc bytes of Inl _ \<Rightarrow> None | Inr m \<Rightarrow> if filter_match f m then Some m else None)) = listed_row sc f"
  by (auto simp: fun_eq_iff listed_row_def split: option.split)

lemma listed_row_holds:
  assumes "store_holds sc h d" "distinct (map fst d)" "e \<in> set d"
  shows "listed_row sc f e = filter_opt (filter_match f) (sh_meta h (fst e))"
proof -
  from assms(2,3) have "files_of d (fst e) = snd e"
    by (cases e) (simp add: files_of_def)
  then have "sf_meta (snd e) = map_option (meta_bytes sc) (sh_meta h (fst e))"
    and "\<And>m. sh_meta h (fst e) = Some m \<Longrightarrow> meta_ok sc m"
    using store_holds_meta [OF assms(1), of "fst e"] store_holds_metaD [OF assms(1), of "fst e"] by simp_all
  then show ?thesis
    by (cases "sh_meta h (fst e)") (simp_all add: listed_row_def filter_opt_def meta_okD)
qed

lemma listed_dom:
  "store_holds sc h d \<Longrightarrow> sh_meta h i = Some m \<Longrightarrow> \<exists>fs. (i, fs) \<in> set d"
  using store_holds_meta [of sc h d i] map_of_SomeD [of d i]
  by (cases "map_of d i") (auto simp: files_of_def empty_files_def)

lemma listed_set:
  assumes "store_holds sc h d" "distinct (map fst d)"
  shows "set (List.map_filter (listed_row sc f) d) = {m. \<exists>i. sh_meta h i = Some m \<and> filter_match f m}"
proof -
  have "m \<in> set (List.map_filter (listed_row sc f) d) \<longleftrightarrow> (\<exists>e \<in> set d. listed_row sc f e = Some m)" for m
    by (force simp: List.map_filter_def)
  moreover have "(\<exists>e \<in> set d. listed_row sc f e = Some m) \<longleftrightarrow> (\<exists>i. sh_meta h i = Some m \<and> filter_match f m)" for m
  proof
    assume "\<exists>e \<in> set d. listed_row sc f e = Some m"
    then obtain e where e: "e \<in> set d" "listed_row sc f e = Some m" by blast
    from listed_row_holds [OF assms e(1), of f] e(2) have "filter_opt (filter_match f) (sh_meta h (fst e)) = Some m" by simp
    then show "\<exists>i. sh_meta h i = Some m \<and> filter_match f m" by (auto simp: filter_opt_Some_iff)
  next
    assume "\<exists>i. sh_meta h i = Some m \<and> filter_match f m"
    then obtain i where i: "sh_meta h i = Some m" "filter_match f m" by blast
    from listed_dom [OF assms(1) i(1)] obtain fs where e: "(i, fs) \<in> set d" by blast
    from i have "filter_opt (filter_match f) (sh_meta h i) = Some m" by (simp add: filter_opt_Some_iff)
    with listed_row_holds [OF assms e, of f] e show "\<exists>e \<in> set d. listed_row sc f e = Some m" by auto
  qed
  ultimately show ?thesis by auto
qed

lemma listed_distinct:
  assumes "store_holds sc h d" "distinct (map fst d)"
  shows "distinct (map sm_vac_session_id (List.map_filter (listed_row sc f) d))"
proof -
  have "set es \<subseteq> set d \<Longrightarrow> distinct (map fst es) \<Longrightarrow>
      distinct (map sm_vac_session_id (List.map_filter (listed_row sc f) es))
      \<and> sm_vac_session_id ` set (List.map_filter (listed_row sc f) es) \<subseteq> fst ` set es" for es
  proof (induction es)
    case (Cons e es)
    then have row: "listed_row sc f e = filter_opt (filter_match f) (sh_meta h (fst e))"
      using listed_row_holds [OF assms] by simp
    have "sm_vac_session_id m = fst e" if "listed_row sc f e = Some m" for m
      using that store_holds_metaD [OF assms(1)] by (auto simp: row filter_opt_Some_iff)
    with Cons show ?case
      by (cases "listed_row sc f e") (auto simp: map_filter_simps)
  qed (simp add: map_filter_simps)
  with assms(2) show ?thesis by blast
qed

lemma store_run_distinct: "distinct (map fst d) \<Longrightarrow> distinct (map fst (foldl (store_step sc root) d cs))"
  by (induction cs arbitrary: d) (auto simp: store_step_distinct)

text \<open>
  The history list shows exactly the sessions whose metadata is stored and match the filter,
  each once, the most recently updated first, cut off at the limit.
\<close>
theorem history_listing_exact:
  assumes "\<forall>c \<in> set cs. call_codec_ok sc c"
  shows "\<exists>rows. list_meta sc None (\<lambda>_. True) f (foldl (store_step sc root) [] cs)
      = Inr (case hf_limit f of None \<Rightarrow> rows | Some n \<Rightarrow> take n rows)
    \<and> set rows = {m. \<exists>i. sh_meta (store_history sc cs) i = Some m \<and> filter_match f m}
    \<and> distinct (map sm_vac_session_id rows) \<and> sorted_wrt (\<lambda>a b. sm_updated_at a \<ge> sm_updated_at b) rows"
proof -
  let ?d = "foldl (store_step sc root) [] cs"
  let ?rows = "sort_key (\<lambda>m. - sm_updated_at m) (List.map_filter (listed_row sc f) ?d)"
  note h = store_history_holds [OF assms, of root]
  have d: "distinct (map fst ?d)" by (simp add: store_run_distinct)
  have "sorted (map (\<lambda>m. - sm_updated_at m) ?rows)" by (rule sorted_sort_key)
  then have "sorted_wrt (\<lambda>a b. sm_updated_at a \<ge> sm_updated_at b) ?rows" by (simp add: sorted_map)
  moreover have "distinct (map sm_vac_session_id ?rows)"
    using listed_distinct [OF h d, of f] by (simp add: distinct_map inj_on_def)
  moreover have "list_meta sc None (\<lambda>_. True) f ?d = Inr (case hf_limit f of None \<Rightarrow> ?rows | Some n \<Rightarrow> take n ?rows)"
    unfolding list_meta_def Let_def list_meta_row by simp
  ultimately show ?thesis using listed_set [OF h d, of f] by (intro exI [of _ ?rows]) simp
qed

text \<open>Whatever the codec: a call changes one directory, and none with an unsafe name.\<close>

lemma ensure_session_dir_other:
  "map_of (snd (ensure_session_dir io i d)) j \<noteq> map_of d j \<Longrightarrow> j = i \<and> is_safe_session_id i"
  by (cases io) (auto simp: ensure_session_dir_def update_conv' split: if_splits)

lemma append_event_other:
  "map_of (snd (append_event sc io i ev d)) j \<noteq> map_of d j \<Longrightarrow> j = i \<and> is_safe_session_id i"
  by (cases "is_safe_session_id i"; cases io)
    (auto simp: append_event_def with_write_lock_effect ensure_session_dir_def Let_def update_conv' split: if_splits)

lemma save_meta_locked_other:
  "map_of (snd (save_meta_locked sc io m d)) j \<noteq> map_of d j \<Longrightarrow> is_safe_session_id j"
  by (cases "is_safe_session_id (sm_vac_session_id m)"; cases io)
    (auto simp: save_meta_locked_def ensure_session_dir_def Let_def update_conv' split: if_splits)

lemma store_step_other: "map_of (store_step sc root d c) j \<noteq> map_of d j \<Longrightarrow> is_safe_session_id j"
proof (cases c)
  case (Forget io i)
  then show "map_of (store_step sc root d c) j \<noteq> map_of d j \<Longrightarrow> is_safe_session_id j"
    by (cases io) (auto simp: forget_session_def with_write_lock_effect update_conv' delete_conv' split: if_splits)
qed (auto simp: save_meta_def mark_status_def with_write_lock_effect split: if_splits sum.splits option.splits
    dest: append_event_other save_meta_locked_other)

lemma safe_id_component:
  "is_safe_session_id i \<Longrightarrow> CHR ''/'' \<notin> set i \<and> i \<noteq> ''.'' \<and> i \<noteq> ''..'' \<and> i \<noteq> []"
  by (auto simp: is_safe_session_id_def list_all_iff ascii_alphanumeric_def ascii_upper_def ascii_lower_def ascii_digit_def)

text \<open>
  Whatever calls are made, with whatever ids and failures, a directory the store creates,
  changes or removes is a single component below its root: 1 to 127 ASCII letters, digits,
  underscores and hyphens.
\<close>
theorem store_confined:
  assumes "map_of (foldl (store_step sc root) d cs) i \<noteq> map_of d i"
  shows "is_safe_session_id i \<and> store_session_dir root i = Inr (path_join root i)
    \<and> CHR ''/'' \<notin> set i \<and> i \<noteq> ''.'' \<and> i \<noteq> ''..''"
proof -
  have "is_safe_session_id i"
    using assms
  proof (induction cs arbitrary: d)
    case (Cons c cs)
    show ?case
    proof (cases "map_of (store_step sc root d c) i = map_of d i")
      case True
      with Cons.prems show ?thesis by (intro Cons.IH [of "store_step sc root d c"]) simp
    qed (auto dest: store_step_other)
  qed simp
  with safe_id_component show ?thesis by (auto simp: store_session_dir_def)
qed

section \<open>Failures the code survives badly\<close>

text \<open>
  A row that breaks off is not closed by the next append: the next row is glued to it and lost,
  although its append was acknowledged.
\<close>

lemma torn_row_loses_next:
  assumes "events_text d i = []" "is_safe_session_id i" "CHR 0x0A \<notin> set (event_bytes sc ev1)" "row_ok sc ev2"
    and "n \<le> length (event_bytes sc ev1)" "utf8_ok (take n (event_bytes sc ev1) @ event_bytes sc ev2)"
    and "event_of sc (take n (event_bytes sc ev1) @ event_bytes sc ev2) = None"
  shows "let d1 = snd (append_event sc (IoWrite e n) i ev1 d); (r, d2) = append_event sc IoDone i ev2 d1
    in r = Inr () \<and> load_events sc root IoDone i 0 d2 = Inr []"
proof -
  let ?d1 = "snd (append_event sc (IoWrite e n) i ev1 d)"
  let ?l = "take n (event_bytes sc ev1) @ event_bytes sc ev2"
  obtain r d2 where a: "append_event sc IoDone i ev2 ?d1 = (r, d2)" by fastforce
  have r: "r = Inr ()" using a assms(2) by (auto simp: append_event_def call_defs)
  have "events_text d2 i = ?l @ nl"
    using append_event_effect(1) [of sc IoDone i ev2 ?d1 i] a assms(1,2,5) by (simp add: append_event_effect(1))
  then have f: "sf_events (files_of d2 i) = Some (?l @ nl)"
    by (auto simp: events_text_def nl_def split: option.splits)
  have "CHR 0x0A \<notin> set ?l" using assms(3,4) by (auto simp: row_ok_def dest: in_set_takeD)
  moreover have "last ?l \<noteq> CHR 0x0D" "?l \<noteq> []"
    using assms(4) by (cases "event_bytes sc ev2 = []"; simp add: row_ok_def)+
  ultimately have "lines_from [] (?l @ nl) = [?l]" using lines_from_row [of ?l "[]" "[]"] by simp
  with f assms(2,6,7) have "load_events sc root IoDone i 0 d2 = Inr []"
    by (simp add: load_events_def store_session_dir_def)
  with a r show ?thesis by simp
qed

text \<open>
  When the row breaks off within a character, the history of the session cannot be read again at
  all, although a comment in the code promises that corrupt lines are skipped; and the next start
  of the bridge numbers its rows from 0.
\<close>

lemma torn_character_blocks_history:
  assumes "events_text d i = []" "is_safe_session_id i" "CHR 0x0A \<notin> set (event_bytes sc ev)"
    and "0 < n" "n \<le> length (event_bytes sc ev)" "\<not> utf8_ok (take n (event_bytes sc ev))"
  shows "load_events sc root IoDone i limit (snd (append_event sc (IoWrite e n) i ev d))
    = Inl (PeIo ''stream did not contain valid UTF-8'')"
proof -
  let ?l = "take n (event_bytes sc ev)"
  let ?d = "snd (append_event sc (IoWrite e n) i ev d)"
  have "events_text ?d i = ?l" using assms(1,2,5) by (simp add: append_event_effect)
  moreover have ne: "?l \<noteq> []" using assms(4,5) by auto
  ultimately have f: "sf_events (files_of ?d i) = Some ?l" by (auto simp: events_text_def split: option.splits)
  have acc: "CHR 0x0A \<notin> set s \<Longrightarrow> lines_from a s = (if a @ s = [] then [] else [a @ s])" for a s
    by (induction s arbitrary: a) (auto simp: nl_def)
  have "CHR 0x0A \<notin> set ?l" using assms(3) by (auto dest: in_set_takeD)
  then have "lines_from [] ?l = [?l]" using acc [of ?l "[]"] ne by simp
  with f assms(2,6) show ?thesis by (simp add: load_events_def store_session_dir_def)
qed

text \<open>
  An append that comes after the session was forgotten creates its directory again.
\<close>

lemma append_revives_forgotten:
  "is_safe_session_id i \<Longrightarrow>
     map_of (snd (append_event sc IoDone i ev (snd (forget_session IoDone i d)))) i \<noteq> None"
  by (simp add: append_event_def call_defs update_conv')

section \<open>An example\<close>

definition example_store_clock :: clock where
  "example_store_clock = unary_clock 3"

definition example_spawn :: spawn_details where
  "example_spawn =
     \<lparr>sd_session_id = ''sess_1'', sd_profile_id = ''base'', sd_profile_class = None, sd_project_root = ''/srv/app'',
      sd_agent_id = ''mock'', sd_agent_kind = ''mock'', sd_agent_capabilities = None, sd_workflow_id = ''none''\<rparr>"

definition example_row :: "64 word \<Rightarrow> persisted_event" where
  "example_row n = \<lparr>pe_seq = n, pe_type = ''transcript.delta'', pe_payload = JObj [(''token'', JStr ''<redacted>'')],
     pe_ts = 1, pe_redaction = Bounded\<rparr>"

text \<open>A codec for this example: a row is its number, metadata its status and time.\<close>

fun status_text :: "persisted_status \<Rightarrow> string" where
  "status_text PsActive = ''a''"
| "status_text PsClosed = ''c''"
| "status_text PsFailed = ''f''"
| "status_text PsForgotten = ''g''"

definition example_codec :: store_codec where
  "example_codec =
     \<lparr>meta_bytes = (\<lambda>m. status_text (sm_status m) @ fmt_time example_store_clock (sm_updated_at m)),
      meta_of = (\<lambda>s. case parse_time example_store_clock (tl s) of
         None \<Rightarrow> Inl ''bad time''
       | Some t \<Rightarrow> Inr ((spawn_meta example_store_clock example_spawn)
           \<lparr>sm_status := (if take 1 s = ''a'' then PsActive else if take 1 s = ''c'' then PsClosed
                          else if take 1 s = ''f'' then PsFailed else PsForgotten), sm_updated_at := t\<rparr>)),
      event_bytes = (\<lambda>ev. if pe_seq ev = 0 then ''{0}'' else ''{1}''),
      event_of = (\<lambda>s. if s = ''{0}'' then Some (example_row 0) else if s = ''{1}'' then Some (example_row 1) else None)\<rparr>"

lemma example_meta_ok: "meta_ok example_codec (spawn_meta example_store_clock example_spawn)"
proof -
  have "status_text st \<noteq> []" "tl (status_text st @ s) = s"
    "(if take 1 (status_text st @ s) = ''a'' then PsActive else if take 1 (status_text st @ s) = ''c'' then PsClosed
      else if take 1 (status_text st @ s) = ''f'' then PsFailed else PsForgotten) = st" for st s
    by (cases st; simp)+
  moreover have "parse_time example_store_clock (fmt_time example_store_clock t) = Some t" for t
    using unary_codec [of 3] by (simp add: codec_ok_def example_store_clock_def)
  ultimately show ?thesis
    by (simp add: meta_ok_def example_codec_def)
qed

lemma example_row_ok: "n = 0 \<or> n = 1 \<Longrightarrow> row_ok example_codec (example_row n)"
proof -
  have "trim ''{0}'' = ''{0}''" "trim ''{1}'' = ''{1}''" by (rule trim_plain, simp add: plain_char_def)+
  then show "n = 0 \<or> n = 1 \<Longrightarrow> row_ok example_codec (example_row n)"
    by (auto simp: row_ok_def example_codec_def example_row_def byte_in_def)
qed

definition example_store_calls :: "store_call list" where
  "example_store_calls =
     [SaveMeta IoDone (spawn_meta example_store_clock example_spawn), AppendEvent IoDone ''sess_1'' (example_row 0),
      AppendEvent (IoOpen ''full'') ''sess_1'' (example_row 1), MarkStatus IoDone 9 ''sess_1'' PsClosed]"

lemma example_store_calls_ok: "\<forall>c \<in> set example_store_calls. call_codec_ok example_codec c"
  by (simp add: example_store_calls_def example_meta_ok example_row_ok row_torn_def row_arrives_def)

lemma example_safe: "is_safe_session_id ''sess_1''"
  by code_simp

lemma example_history:
  "sh_events (store_history example_codec example_store_calls) ''sess_1'' = [example_row 0]"
  "sh_meta (store_history example_codec example_store_calls) ''sess_1''
    = Some ((spawn_meta example_store_clock example_spawn)\<lparr>sm_status := PsClosed, sm_updated_at := 9\<rparr>)"
  using example_safe
  by (simp_all add: store_history_def example_store_calls_def row_arrives_def row_of_def nl_def example_spawn_def)


theorem store_confined_witness:
  "map_of (foldl (store_step example_codec ''/r'') [] example_store_calls) ''sess_1'' \<noteq> None
   \<and> store_session_dir ''/r'' ''sess_1'' = Inr (path_join ''/r'' ''sess_1'')"
proof -
  let ?d = "foldl (store_step example_codec ''/r'') [] example_store_calls"
  from store_history_holds [OF example_store_calls_ok, of "''/r''"]
  have "events_text ?d ''sess_1'' = concat (map (row_of example_codec) [example_row 0])"
    unfolding store_holds_def example_history(1) [symmetric] by blast
  then have "map_of ?d ''sess_1'' \<noteq> None"
    by (cases "map_of ?d ''sess_1''") (simp_all add: events_text_def files_of_def empty_files_def row_of_def nl_def)
  with store_confined [of example_codec "''/r''" "[]" example_store_calls "''sess_1''"] show ?thesis by simp
qed

end
