(* ===== verification/Session_Sink.thy ===== *)
theory Session_Sink
  imports Session_Store
begin

text \<open>
  \<open>session/persistence/mod.rs\<close> and \<open>sink.rs\<close>: the health record, and the sink that numbers, redacts and
  stores the events of one session; with the functions of \<open>session/handle.rs\<close> that create it. The
  clone of the store and the shared counter make a sink a handle on shared state, which is passed
  explicitly here.
\<close>

section \<open>Health and sinks\<close>

record health_failure =
  hr_reason :: string
  hr_detail :: string
  hr_session :: "string option"
  hr_at :: int

record persistence_health =
  ph_degraded :: bool
  ph_count :: "64 word"
  ph_recent :: "health_failure list"

definition persistence_health_new :: persistence_health where
  "persistence_health_new = \<lparr>ph_degraded = False, ph_count = 0, ph_recent = []\<rparr>"

definition persistence_health_ring_cap :: nat where
  "persistence_health_ring_cap = 16"

definition record_failure :: "int \<Rightarrow> string \<Rightarrow> string \<Rightarrow> string option \<Rightarrow> persistence_health \<Rightarrow> persistence_health" where
  "record_failure t reason detail sid h =
     h\<lparr>ph_degraded := True, ph_count := ph_count h + 1,
       ph_recent := \<lparr>hr_reason = reason, hr_detail = detail, hr_session = sid, hr_at = t\<rparr>
         # (if length (ph_recent h) \<ge> persistence_health_ring_cap then butlast (ph_recent h) else ph_recent h)\<rparr>"

text \<open>The health record is shared by all sinks and is passed separately.\<close>

record persistence_sink =
  ps_session :: string
  ps_seq :: "64 word"
  ps_mode :: redaction_mode
  ps_bus :: bool

definition mirrored_event_types :: "string list" where
  "mirrored_event_types =
     [''assessment.started'', ''assessment.progress'', ''assessment.candidate_received'',
      ''assessment.candidate_rejected'', ''assessment.evidence_attached'', ''assessment.finding_added'',
      ''assessment.completed'', ''assessment.failed'', ''assessment.sweep.started'',
      ''assessment.sweep.progress'', ''assessment.sweep.completed'', ''assessment.sweep.failed'']"

definition is_mirrored :: "string \<Rightarrow> bool" where
  "is_mirrored ty \<longleftrightarrow> ty \<in> set mirrored_event_types"

definition signal_degraded ::
    "clock \<Rightarrow> persistence_sink \<Rightarrow> string \<Rightarrow> persistence_error \<Rightarrow> persistence_health
      \<Rightarrow> persistence_health \<times> server_event list" where
  "signal_degraded clk sk reason err h =
     (let detail = persistence_error_text err in
      (record_failure (now clk) reason detail (Some (ps_session sk)) h,
       if ps_bus sk
       then [mk_event (ps_session sk) ''session.persistence_degraded''
               (JObj [(''vac_session_id'', JStr (ps_session sk)), (''reason'', JStr reason), (''detail'', JStr detail)])
               (now_iso clk)]
       else []))"

text \<open>
  \<open>record\<close> in its two parts: the sequence number is taken with one atomic addition, the row is
  appended later under the lock of the store.
\<close>

definition sink_take ::
    "(string \<Rightarrow> bool) \<Rightarrow> clock \<Rightarrow> server_event \<Rightarrow> persistence_sink \<Rightarrow> persisted_event \<times> persistence_sink" where
  "sink_take re clk ev sk =
     (let (payload, label) = redact_event_payload re (ps_mode sk) (ev_payload ev) in
      (\<lparr>pe_seq = ps_seq sk, pe_type = ev_type ev, pe_payload = payload,
        pe_ts = (case parse_time clk (ev_ts ev) of Some t \<Rightarrow> t | None \<Rightarrow> now clk), pe_redaction = label\<rparr>,
       sk\<lparr>ps_seq := ps_seq sk + 1\<rparr>))"

definition stamp_session_id :: "string \<Rightarrow> persisted_event \<Rightarrow> persisted_event" where
  "stamp_session_id sid ev =
     (case pe_payload ev of
        JObj m \<Rightarrow>
          if map_of m ''vac_session_id'' \<noteq> None \<or> map_of m ''session_id'' \<noteq> None \<or> map_of m ''sessionId'' \<noteq> None then ev
          else ev\<lparr>pe_payload := JObj (m @ [(''vac_session_id'', JStr sid)])\<rparr>
      | _ \<Rightarrow> ev)"

text \<open>
  \<open>index\<close> is the cache index, if one is attached: what writing a row to it answers (an error text).
  The result: disk and health, what goes to the bus, and the rows given to the index.
\<close>

definition sink_commit ::
    "store_codec \<Rightarrow> io_outcome \<Rightarrow> clock \<Rightarrow> (persisted_event \<Rightarrow> string option) option \<Rightarrow> persistence_sink
      \<Rightarrow> persisted_event \<Rightarrow> session_disk \<times> persistence_health
      \<Rightarrow> (session_disk \<times> persistence_health) \<times> server_event list \<times> persisted_event list" where
  "sink_commit sc io clk index sk pe dh =
     (let (d, h) = dh in
      case append_event sc io (ps_session sk) pe d of
        (Inl err, d') \<Rightarrow>
          (let (h', evs) = signal_degraded clk sk ''append_failed'' err h in ((d', h'), evs, []))
      | (Inr _, d') \<Rightarrow>
          (case index of
             None \<Rightarrow> ((d', h), [], [])
           | Some index_write \<Rightarrow>
               if \<not> is_mirrored (pe_type pe) then ((d', h), [], [])
               else (let row = stamp_session_id (ps_session sk) pe in
                     (case index_write row of
                        None \<Rightarrow> ((d', h), [], [row])
                      | Some detail \<Rightarrow>
                          ((d', record_failure (now clk) ''index_write_failed'' detail (Some (ps_session sk)) h), [], [row])))))"

definition sink_mark_status ::
    "store_codec \<Rightarrow> string \<Rightarrow> io_outcome \<Rightarrow> clock \<Rightarrow> persistence_sink \<Rightarrow> persisted_status
      \<Rightarrow> session_disk \<times> persistence_health \<Rightarrow> (session_disk \<times> persistence_health) \<times> server_event list" where
  "sink_mark_status sc root io clk sk st dh =
     (let (d, h) = dh in
      case mark_status sc root io (now clk) (ps_session sk) st d of
        (Inr _, d') \<Rightarrow> ((d', h), [])
      | (Inl err, d') \<Rightarrow>
          (let (h', evs) = signal_degraded clk sk ''meta_save_failed'' err h in ((d', h'), evs)))"

text \<open>
  \<open>session/handle.rs\<close>: the sink of a new or resumed session, and the update of its metadata once
  the agent has answered. \<open>io\<close> is the outcome of saving, \<open>io_load\<close> that of reading.
\<close>

definition next_seq :: "persisted_event list \<Rightarrow> 64 word" where
  "next_seq evs = (case evs of [] \<Rightarrow> 0 | _ \<Rightarrow> (let m = Max (set (map pe_seq evs)) in if m = -1 then 0 else m + 1))"

definition build_persistence_sink ::
    "store_codec \<Rightarrow> string \<Rightarrow> io_outcome \<Rightarrow> io_outcome \<Rightarrow> clock \<Rightarrow> spawn_details \<Rightarrow> redaction_mode \<Rightarrow> bool \<Rightarrow> bool
      \<Rightarrow> session_disk \<times> persistence_health \<Rightarrow> persistence_sink option \<times> session_disk \<times> persistence_health" where
  "build_persistence_sink sc root io io_load clk sd md bus enabled dh =
     (let (d, h) = dh; sid = sd_session_id sd in
      if \<not> enabled then (None, d, h)
      else (case save_meta sc io (spawn_meta clk sd) d of
              (Inl err, d') \<Rightarrow>
                (None, d', record_failure (now clk) ''meta_save_failed'' (persistence_error_text err) (Some sid) h)
            | (Inr _, d') \<Rightarrow>
                (case load_events sc root io_load sid 0 d' of
                   Inr evs \<Rightarrow>
                     (Some \<lparr>ps_session = sid, ps_seq = next_seq evs, ps_mode = md, ps_bus = bus\<rparr>, d', h)
                 | Inl err \<Rightarrow>
                     (Some \<lparr>ps_session = sid, ps_seq = 0, ps_mode = md, ps_bus = bus\<rparr>, d',
                      record_failure (now clk) ''load_events_failed'' (persistence_error_text err) (Some sid) h))))"

definition persist_acp_session_details ::
    "store_codec \<Rightarrow> string \<Rightarrow> io_outcome \<Rightarrow> io_outcome \<Rightarrow> clock \<Rightarrow> string \<Rightarrow> string \<Rightarrow> json \<Rightarrow> bool
      \<Rightarrow> session_disk \<times> persistence_health \<Rightarrow> session_disk \<times> persistence_health" where
  "persist_acp_session_details sc root io io_load clk sid acp_id caps enabled dh =
     (let (d, h) = dh in
      if \<not> enabled then (d, h)
      else (case load_meta sc root io_load sid d of
              Inr (Some m) \<Rightarrow>
                (let supported = load_session_supported (Some caps);
                     m' = m\<lparr>sm_agent_session_id := Some acp_id, sm_agent_capabilities := caps,
                            sm_updated_at := now clk,
                            sm_native_resume := \<lparr>nr_load_session_supported = supported,
                              nr_last_verified_at = (if supported then Some (now clk) else None)\<rparr>\<rparr>
                 in case save_meta sc io m' d of
                      (Inr _, d') \<Rightarrow> (d', h)
                    | (Inl err, d') \<Rightarrow>
                        (d', record_failure (now clk) ''meta_save_failed'' (persistence_error_text err) (Some sid) h))
            | Inr None \<Rightarrow> (d, h)
            | Inl err \<Rightarrow>
                (d, record_failure (now clk) ''meta_save_failed'' (persistence_error_text err) (Some sid) h)))"

section \<open>The sink of a session over time\<close>

text \<open>
  One session: its bridge is started (again), records events, marks and forgets its history.
  \<open>hm_calls\<close> remembers the calls made on the store.
\<close>

record sink_machine =
  hm_disk :: session_disk
  hm_health :: persistence_health
  hm_sink :: "persistence_sink option"
  hm_calls :: "store_call list"

datatype sink_call =
    SpawnSink io_outcome io_outcome clock spawn_details redaction_mode bool bool
  | RecordEvent io_outcome clock server_event "(persisted_event \<Rightarrow> string option) option"
  | MarkSink io_outcome clock persisted_status
  | ForgetHistory io_outcome

fun sink_step :: "store_codec \<Rightarrow> string \<Rightarrow> (string \<Rightarrow> bool) \<Rightarrow> string \<Rightarrow> sink_machine \<Rightarrow> sink_call \<Rightarrow> sink_machine" where
  "sink_step sc root re sid s (SpawnSink io io_load clk sd md bus enabled) =
     (let sd = sd\<lparr>sd_session_id := sid\<rparr>;
          (sk, d, h) = build_persistence_sink sc root io io_load clk sd md bus enabled (hm_disk s, hm_health s)
      in \<lparr>hm_disk = d, hm_health = h, hm_sink = sk,
          hm_calls = hm_calls s @ (if enabled then [SaveMeta io (spawn_meta clk sd)] else [])\<rparr>)"
| "sink_step sc root re sid s (RecordEvent io clk ev index) =
     (case hm_sink s of
        None \<Rightarrow> s
      | Some sk \<Rightarrow>
          (let (pe, sk') = sink_take re clk ev sk;
               ((d, h), _) = sink_commit sc io clk index sk' pe (hm_disk s, hm_health s)
           in \<lparr>hm_disk = d, hm_health = h, hm_sink = Some sk', hm_calls = hm_calls s @ [AppendEvent io (ps_session sk') pe]\<rparr>))"
| "sink_step sc root re sid s (MarkSink io clk st) =
     (case hm_sink s of
        None \<Rightarrow> s
      | Some sk \<Rightarrow>
          (let ((d, h), _) = sink_mark_status sc root io clk sk st (hm_disk s, hm_health s)
           in s\<lparr>hm_disk := d, hm_health := h, hm_calls := hm_calls s @ [MarkStatus io (now clk) (ps_session sk) st]\<rparr>))"
| "sink_step sc root re sid s (ForgetHistory io) =
     s\<lparr>hm_disk := snd (forget_session io sid (hm_disk s)), hm_calls := hm_calls s @ [Forget io sid]\<rparr>"

definition sink_machine_start :: sink_machine where
  "sink_machine_start = \<lparr>hm_disk = [], hm_health = persistence_health_new, hm_sink = None, hm_calls = []\<rparr>"

text \<open>A start that cannot read the rows it must number after.\<close>

fun spawn_reads :: "sink_call \<Rightarrow> bool" where
  "spawn_reads (SpawnSink io io_load clk sd md bus enabled) \<longleftrightarrow> \<not> read_fails io_load"
| "spawn_reads _ \<longleftrightarrow> True"

abbreviation sink_rows :: "store_codec \<Rightarrow> string \<Rightarrow> sink_machine \<Rightarrow> persisted_event list" where
  "sink_rows sc sid s \<equiv> sh_events (store_history sc (hm_calls s)) sid"

definition rows_numbered :: "store_codec \<Rightarrow> (string \<Rightarrow> bool) \<Rightarrow> string \<Rightarrow> nat \<Rightarrow> sink_machine \<Rightarrow> bool" where
  "rows_numbered sc re sid n s \<longleftrightarrow>
     sorted_wrt (<) (map pe_seq (sink_rows sc sid s))
     \<and> (\<forall>ev \<in> set (sink_rows sc sid s). unat (pe_seq ev) < n \<and> free_of_secrets re (pe_payload ev))
     \<and> (\<forall>sk. hm_sink s = Some sk \<longrightarrow> ps_session sk = sid \<and> unat (ps_seq sk) \<le> n
          \<and> (\<forall>ev \<in> set (sink_rows sc sid s). pe_seq ev < ps_seq sk))"

definition sink_inv :: "store_codec \<Rightarrow> string \<Rightarrow> (string \<Rightarrow> bool) \<Rightarrow> string \<Rightarrow> sink_call list \<Rightarrow> sink_machine \<Rightarrow> bool" where
  "sink_inv sc root re sid cs s \<longleftrightarrow>
     hm_disk s = foldl (store_step sc root) [] (hm_calls s)
     \<and> (markers_harmless re \<and> (\<forall>c \<in> set (hm_calls s). call_codec_ok sc c) \<and> list_all spawn_reads cs \<and> length cs < 2 ^ 64 - 1
        \<longrightarrow> rows_numbered sc re sid (length cs) s)"

lemma sink_commit_disk:
  "fst (fst (sink_commit sc io clk index sk pe dh)) = snd (append_event sc io (ps_session sk) pe (fst dh))"
  by (cases dh) (auto simp: sink_commit_def Let_def signal_degraded_def split: prod.splits sum.splits option.splits)

lemma sink_mark_status_disk:
  "fst (fst (sink_mark_status sc root io clk sk st (d, h))) = snd (mark_status sc root io (now clk) (ps_session sk) st d)"
  by (auto simp: sink_mark_status_def Let_def signal_degraded_def split: prod.splits sum.splits)

lemma store_history_snoc: "store_history sc (cs @ [c]) = history_step sc (store_history sc cs) c"
  by (simp add: store_history_def)

lemma word_succ_unat: "(m :: 64 word) \<noteq> -1 \<Longrightarrow> unat (m + 1) = unat m + 1"
  by (metis add.commute add_eq_0_iff2 add.inverse_inverse unatSuc Suc_eq_plus1_left Suc_eq_plus1 eq_neg_iff_add_eq_0)

lemma next_seq_bound:
  assumes "\<forall>ev \<in> set evs. unat (pe_seq ev) < n" "n < 2 ^ 64 - 1"
  shows "unat (next_seq evs) \<le> n \<and> (\<forall>ev \<in> set evs. pe_seq ev < next_seq evs)"
proof (cases evs)
  case Nil
  then show ?thesis by (simp add: next_seq_def)
next
  case (Cons e es)
  let ?m = "Max (set (map pe_seq evs))"
  have "?m \<in> set (map pe_seq evs)" unfolding Cons by (rule Max_in) auto
  with assms(1) have m: "unat ?m < n" by auto
  have "unat (-1 :: 64 word) = 2 ^ 64 - 1" by (simp add: unsigned_minus_1_eq_mask mask_eq_exp_minus_1)
  with m assms(2) have ne: "?m \<noteq> -1" by auto
  then have "next_seq evs = ?m + 1" using Cons by (simp add: next_seq_def Let_def)
  moreover have "unat (?m + 1) = unat ?m + 1" using ne by (rule word_succ_unat)
  moreover have "pe_seq ev \<le> ?m" if "ev \<in> set evs" for ev using that by simp
  ultimately show ?thesis using m by (auto simp: word_less_nat_alt word_le_nat_alt less_Suc_eq_le)
qed

lemma build_sink_disk:
  "fst (snd (build_persistence_sink sc root io io_load clk sd md bus enabled (d, h))) =
     (if enabled then snd (save_meta sc io (spawn_meta clk sd) d) else d)"
  by (auto simp: build_persistence_sink_def Let_def split: prod.splits sum.splits)

lemma save_meta_ok: "save_meta sc io m d = (Inr (), d') \<Longrightarrow> is_safe_session_id (sm_vac_session_id m)"
  by (cases io; cases "is_safe_session_id (sm_vac_session_id m)")
    (auto simp: save_meta_def save_meta_locked_def call_defs)

lemma build_sink_SomeD:
  assumes "fst (build_persistence_sink sc root io io_load clk sd md bus enabled (d, h)) = Some sk"
  shows "ps_session sk = sd_session_id sd" "enabled" "is_safe_session_id (sd_session_id sd)"
    "load_events sc root io_load (sd_session_id sd) 0 (snd (save_meta sc io (spawn_meta clk sd) d)) = Inr evs
      \<Longrightarrow> ps_seq sk = next_seq evs"
  using assms
  by (auto simp: build_persistence_sink_def Let_def split: prod.splits sum.splits if_splits
      dest: save_meta_ok)

lemma sink_take_simps [simp]:
  "pe_seq (fst (sink_take re clk ev sk)) = ps_seq sk"
  "pe_type (fst (sink_take re clk ev sk)) = ev_type ev"
  "snd (sink_take re clk ev sk) = sk\<lparr>ps_seq := ps_seq sk + 1\<rparr>"
  "pe_payload (fst (sink_take re clk ev sk)) = scrub re (ps_mode sk) (ev_payload ev)"
  using redact_event_payload_scrub [of re "ps_mode sk" "ev_payload ev"]
  by (auto simp: sink_take_def split: prod.split)

text \<open>One more row, or none.\<close>

lemma rows_numbered_append:
  assumes s: "rows_numbered sc re sid n s" and sk: "hm_sink s = Some sk" and "n < 2 ^ 64 - 1"
    and pe: "pe_seq pe = ps_seq sk" "free_of_secrets re (pe_payload pe)"
    and s': "hm_sink s' = Some (sk\<lparr>ps_seq := ps_seq sk + 1\<rparr>)"
      "hm_calls s' = hm_calls s @ [AppendEvent io sid pe]"
  shows "rows_numbered sc re sid (Suc n) s'"
proof -
  let ?rows = "sink_rows sc sid s"
  have rows: "sink_rows sc sid s' = ?rows \<or> sink_rows sc sid s' = ?rows @ [pe]"
    by (simp add: s' store_history_snoc)
  from s sk have le: "unat (ps_seq sk) \<le> n" and lt: "\<forall>ev \<in> set ?rows. pe_seq ev < ps_seq sk"
    by (auto simp: rows_numbered_def)
  have "unat (-1 :: 64 word) = 2 ^ 64 - 1" by (simp add: unsigned_minus_1_eq_mask mask_eq_exp_minus_1)
  with le assms(3) have "ps_seq sk \<noteq> -1" by auto
  then have succ: "unat (ps_seq sk + 1) = unat (ps_seq sk) + 1" by (rule word_succ_unat)
  then have "\<forall>ev \<in> set ?rows \<union> {pe}. pe_seq ev < ps_seq sk + 1"
    using lt pe by (auto simp: word_less_nat_alt)
  with rows s succ le lt pe sk show ?thesis
    by (auto simp: rows_numbered_def s' sorted_wrt_append less_Suc_eq)
qed

text \<open>The same rows, as after a change of metadata.\<close>

lemma rows_numbered_same:
  "rows_numbered sc re sid n s \<Longrightarrow> sink_rows sc sid s' = sink_rows sc sid s \<Longrightarrow> hm_sink s' = hm_sink s
    \<Longrightarrow> rows_numbered sc re sid (Suc n) s'"
  by (fastforce simp: rows_numbered_def)

lemma rows_numbered_forget:
  "rows_numbered sc re sid n s \<Longrightarrow> sink_rows sc sid s' = sink_rows sc sid s \<or> sink_rows sc sid s' = []
    \<Longrightarrow> hm_sink s' = hm_sink s \<Longrightarrow> rows_numbered sc re sid (Suc n) s'"
  by (fastforce simp: rows_numbered_def)

lemma rows_numbered_spawn:
  assumes s: "rows_numbered sc re sid n s" and "n < 2 ^ 64 - 1"
    and s': "sink_rows sc sid s' = sink_rows sc sid s"
      "\<And>sk. hm_sink s' = Some sk \<Longrightarrow> ps_session sk = sid \<and> ps_seq sk = next_seq (sink_rows sc sid s)"
  shows "rows_numbered sc re sid (Suc n) s'"
  using next_seq_bound [of "sink_rows sc sid s" n] assms by (fastforce simp: rows_numbered_def)

lemma sink_step_disk:
  assumes "hm_disk s = foldl (store_step sc root) [] (hm_calls s)"
  shows "hm_disk (sink_step sc root re sid s c) = foldl (store_step sc root) [] (hm_calls (sink_step sc root re sid s c))"
  using assms
  by (cases c)
    (auto simp: Let_def split_beta build_sink_disk sink_commit_disk sink_mark_status_disk split: option.split)

lemma sink_step_calls: "\<exists>xs. hm_calls (sink_step sc root re sid s c) = hm_calls s @ xs"
  by (cases c) (auto simp: Let_def split_beta split: option.split)

lemma sink_step_numbered:
  assumes disk: "hm_disk s = foldl (store_step sc root) [] (hm_calls s)"
    and s: "rows_numbered sc re sid n s" and n: "n < 2 ^ 64 - 1" and re: "markers_harmless re" and c: "spawn_reads c"
    and ok: "\<forall>c \<in> set (hm_calls (sink_step sc root re sid s c)). call_codec_ok sc c"
  shows "rows_numbered sc re sid (Suc n) (sink_step sc root re sid s c)"
proof (cases c)
  case (ForgetHistory io)
  with s show ?thesis by (intro rows_numbered_forget [OF s]) (auto simp: store_history_snoc)
next
  case (MarkSink io clk st)
  with s show ?thesis
    by (intro rows_numbered_same [OF s]) (auto simp: store_history_snoc Let_def split_beta split: option.split)
next
  case (RecordEvent io clk ev index)
  show ?thesis
  proof (cases "hm_sink s")
    case None
    with RecordEvent show ?thesis by (intro rows_numbered_same [OF s]) auto
  next
    case (Some sk)
    with s have "ps_session sk = sid" by (simp add: rows_numbered_def)
    then show ?thesis
      by (intro rows_numbered_append [OF s Some n, where pe = "fst (sink_take re clk ev sk)" and io = io])
        (use RecordEvent Some re in \<open>auto simp: Let_def split_beta scrub_free\<close>)
  qed
next
  case (SpawnSink io io_load clk sd md bus enabled)
  define sd' where "sd' = sd\<lparr>sd_session_id := sid\<rparr>"
  have b: "hm_sink (sink_step sc root re sid s c) = fst (build_persistence_sink sc root io io_load clk sd' md bus enabled (hm_disk s, hm_health s))"
    by (simp add: SpawnSink sd'_def Let_def split_beta)
  have rows: "sink_rows sc sid (sink_step sc root re sid s c) = sink_rows sc sid s"
    by (simp add: SpawnSink Let_def split_beta store_history_snoc)
  show ?thesis
  proof (rule rows_numbered_spawn [OF s n rows])
    fix sk
    assume "hm_sink (sink_step sc root re sid s c) = Some sk"
    with b have "fst (build_persistence_sink sc root io io_load clk sd' md bus enabled (hm_disk s, hm_health s)) = Some sk" by simp
    note sk = build_sink_SomeD [OF this]
    have sid: "sd_session_id sd' = sid" by (simp add: sd'_def)
    from sk(2) have calls: "hm_calls (sink_step sc root re sid s c) = hm_calls s @ [SaveMeta io (spawn_meta clk sd')]"
      by (simp add: SpawnSink Let_def split_beta sd'_def)
    have "store_holds sc (store_history sc (hm_calls (sink_step sc root re sid s c)))
        (foldl (store_step sc root) [] (hm_calls (sink_step sc root re sid s c)))"
      by (rule store_history_holds [OF ok])
    then have h: "store_holds sc (store_history sc (hm_calls (sink_step sc root re sid s c)))
        (snd (save_meta sc io (spawn_meta clk sd') (hm_disk s)))" by (simp add: calls disk)
    have "load_events sc root io_load sid 0 (snd (save_meta sc io (spawn_meta clk sd') (hm_disk s)))
        = Inr (sink_rows sc sid (sink_step sc root re sid s c))"
      using load_rows [of sid io_load "snd (save_meta sc io (spawn_meta clk sd') (hm_disk s))"
          sc "sink_rows sc sid (sink_step sc root re sid s c)" root 0] h sk(3) c sid SpawnSink
      by (simp add: store_holds_def)
    with sk sid rows show "ps_session sk = sid \<and> ps_seq sk = next_seq (sink_rows sc sid s)" by simp
  qed
qed

lemma sink_step_inv:
  assumes inv: "sink_inv sc root re sid cs s"
  shows "sink_inv sc root re sid (cs @ [c]) (sink_step sc root re sid s c)"
proof -
  from inv have disk: "hm_disk s = foldl (store_step sc root) [] (hm_calls s)" by (simp add: sink_inv_def)
  obtain xs where xs: "hm_calls (sink_step sc root re sid s c) = hm_calls s @ xs" using sink_step_calls by blast
  have "rows_numbered sc re sid (Suc (length cs)) (sink_step sc root re sid s c)"
    if "markers_harmless re" "\<forall>c \<in> set (hm_calls (sink_step sc root re sid s c)). call_codec_ok sc c"
      "list_all spawn_reads (cs @ [c])" "Suc (length cs) < 2 ^ 64 - 1"
    using that inv xs by (intro sink_step_numbered [OF disk]) (auto simp: sink_inv_def)
  then show ?thesis unfolding sink_inv_def using sink_step_disk [OF disk] by auto
qed

interpretation sink: traced_system "sink_step sc root re sid" "sink_inv sc root re sid" for sc root re sid
  by unfold_locales (rule sink_step_inv)

lemma sink_start_inv: "sink_inv sc root re sid [] sink_machine_start"
  by (simp add: sink_inv_def sink_machine_start_def rows_numbered_def store_history_def)


section \<open>Failures the code survives badly\<close>

text \<open>After a history that cannot be read, the next start of the bridge numbers its rows from 0.\<close>

lemma unreadable_history_renumbers:
  assumes "save_meta sc IoDone (spawn_meta clk sd) d = (Inr (), d')"
    and "load_events sc root IoDone (sd_session_id sd) 0 d' = Inl err"
  shows "\<exists>h'. build_persistence_sink sc root IoDone IoDone clk sd md bus True (d, h)
    = (Some \<lparr>ps_session = sd_session_id sd, ps_seq = 0, ps_mode = md, ps_bus = bus\<rparr>, d', h')"
  using assms by (simp add: build_persistence_sink_def Let_def)

text \<open>Two calls of \<open>record\<close> that overlap write their rows in the wrong order.\<close>

lemma overlapping_records_out_of_order:
  assumes "is_safe_session_id (ps_session sk)" "events_text d (ps_session sk) = []"
    and sk1_def: "sk1 = snd (sink_take re clk ev1 sk)"
  shows "events_text (fst (fst (sink_commit sc IoDone clk None sk1 (fst (sink_take re clk ev1 sk))
        (fst (sink_commit sc IoDone clk None sk1 (fst (sink_take re clk ev2 sk1)) (d, h)))))) (ps_session sk)
      = row_of sc (fst (sink_take re clk ev2 sk1)) @ row_of sc (fst (sink_take re clk ev1 sk))
    \<and> pe_seq (fst (sink_take re clk ev1 sk)) = ps_seq sk \<and> pe_seq (fst (sink_take re clk ev2 sk1)) = ps_seq sk + 1"
  using assms(1,2) by (simp add: sk1_def sink_commit_disk append_event_effect row_of_def)

text \<open>The health record: the flag is sticky, the ring bounded, the newest failure first.\<close>

definition note_failure :: "persistence_health \<Rightarrow> health_failure \<Rightarrow> persistence_health" where
  "note_failure h f = record_failure (hr_at f) (hr_reason f) (hr_detail f) (hr_session f) h"

definition health_inv :: "persistence_health \<Rightarrow> bool" where
  "health_inv h \<longleftrightarrow> length (ph_recent h) \<le> persistence_health_ring_cap \<and> (ph_recent h \<noteq> [] \<longrightarrow> ph_degraded h)"

interpretation health: monotone_system note_failure health_inv "\<lambda>h h'. ph_degraded h \<longrightarrow> ph_degraded h'"
  by unfold_locales (auto simp: health_inv_def note_failure_def record_failure_def persistence_health_ring_cap_def)

lemma health_recent_first: "hd (ph_recent (note_failure h f)) = f"
  by (simp add: note_failure_def record_failure_def)

section \<open>An example\<close>

definition example_emitted :: server_event where
  "example_emitted = mk_event ''sess_1'' ''transcript.delta'' (JObj [(''token'', JStr ''t'')]) ''+1''"

definition example_sink_calls :: "sink_call list" where
  "example_sink_calls =
     [SpawnSink IoDone IoDone example_store_clock example_spawn Standard True True,
      RecordEvent IoDone example_store_clock example_emitted None,
      SpawnSink IoDone IoDone example_store_clock example_spawn Standard True True,
      RecordEvent IoDone example_store_clock example_emitted None]"

lemma example_sink_run:
  "hm_calls (foldl (sink_step example_codec ''/r'' example_secret_re ''sess_1'') sink_machine_start example_sink_calls) =
     [SaveMeta IoDone (spawn_meta example_store_clock example_spawn), AppendEvent IoDone ''sess_1'' (example_row 0),
      SaveMeta IoDone (spawn_meta example_store_clock example_spawn), AppendEvent IoDone ''sess_1'' (example_row 1)]"
  by code_simp


theorem history_listing_exact_witness:
  "\<exists>rows. list_meta example_codec None (\<lambda>_. True) \<lparr>hf_project_root = None, hf_agent_id = Some ''mock'', hf_status = None, hf_limit = None\<rparr>
      (foldl (store_step example_codec ''/r'') [] example_store_calls) = Inr rows
    \<and> map sm_status rows = [PsClosed]"
proof -
  let ?f = "\<lparr>hf_project_root = None, hf_agent_id = Some ''mock'', hf_status = None, hf_limit = None\<rparr>"
  let ?m = "(spawn_meta example_store_clock example_spawn)\<lparr>sm_status := PsClosed, sm_updated_at := 9\<rparr>"
  have "sh_meta (store_history example_codec example_store_calls) = [''sess_1'' \<mapsto> ?m]"
    using example_safe
    by (simp add: store_history_def example_store_calls_def row_arrives_def row_of_def nl_def example_spawn_def)
  then have one: "{m. \<exists>i. sh_meta (store_history example_codec example_store_calls) i = Some m \<and> filter_match ?f m} = {?m}"
    by (auto simp: filter_match_def spawn_meta_def example_spawn_def Let_def split: if_splits)
  from history_listing_exact [OF example_store_calls_ok, of ?f "''/r''"] obtain rows where
    rows: "list_meta example_codec None (\<lambda>_. True) ?f (foldl (store_step example_codec ''/r'') [] example_store_calls) = Inr rows"
      "set rows = {?m}" "distinct (map sm_vac_session_id rows)"
    unfolding one by auto
  then have "rows = [?m]"
    by (cases rows; cases "tl rows") (auto simp: distinct_map)
  with rows(1) show ?thesis by auto
qed

end
