(* ===== verification/Resume_Policy.thy ===== *)
theory Resume_Policy
  imports Prelude "HOL-Library.Word"
begin

text \<open>
  \<open>apps/local-bridge/src/config/resume_policy.rs\<close>: the policy for resuming sessions, from the raw
  YAML block to the values the bridge works with. YAML parsing is a parameter; \<open>i64\<close> fields are
  integers in range, \<open>u32\<close> fields are words.
\<close>

section \<open>Data\<close>

definition default_retention_days :: "32 word" where
  "default_retention_days = 30"

definition default_max_events :: "32 word" where
  "default_max_events = 20000"

datatype resume_mode = ReplayOnly | AcpLoad | NativeOrReplay

fun resume_mode_str :: "resume_mode \<Rightarrow> string" where
  "resume_mode_str ReplayOnly = ''replay_only''"
| "resume_mode_str AcpLoad = ''acp_load''"
| "resume_mode_str NativeOrReplay = ''native_or_replay''"

datatype native_fallback = FallbackReplay | FallbackFail

fun native_fallback_str :: "native_fallback \<Rightarrow> string" where
  "native_fallback_str FallbackReplay = ''replay_only''"
| "native_fallback_str FallbackFail = ''fail''"

datatype drift_policy = DriftWarn | DriftFail | DriftIgnore

fun drift_policy_str :: "drift_policy \<Rightarrow> string" where
  "drift_policy_str DriftWarn = ''warn''"
| "drift_policy_str DriftFail = ''fail''"
| "drift_policy_str DriftIgnore = ''ignore''"

datatype class_policy = ClassFail | ClassWarn

fun class_policy_str :: "class_policy \<Rightarrow> string" where
  "class_policy_str ClassFail = ''fail''"
| "class_policy_str ClassWarn = ''warn''"

record resume_policy =
  rp_default_mode :: resume_mode
  rp_native_fallback :: native_fallback
  rp_mcp_server_drift :: drift_policy
  rp_profile_class_mismatch :: class_policy
  rp_retention_days :: "32 word"
  rp_max_events :: "32 word"

definition resume_policy_default :: resume_policy where
  "resume_policy_default =
     \<lparr>rp_default_mode = NativeOrReplay, rp_native_fallback = FallbackReplay, rp_mcp_server_drift = DriftWarn,
      rp_profile_class_mismatch = ClassFail, rp_retention_days = default_retention_days,
      rp_max_events = default_max_events\<rparr>"

record raw_resume_block =
  rb_default_mode :: "string option"
  rb_native_fallback :: "string option"
  rb_mcp_server_drift :: "string option"
  rb_profile_class_mismatch :: "string option"
  rb_retention_days :: "int option"
  rb_max_events :: "int option"

definition raw_resume_block_default :: raw_resume_block where
  "raw_resume_block_default =
     \<lparr>rb_default_mode = None, rb_native_fallback = None, rb_mcp_server_drift = None,
      rb_profile_class_mismatch = None, rb_retention_days = None, rb_max_events = None\<rparr>"

record raw_resume_policy =
  rr_version :: "32 word option"
  rr_session_resume :: "raw_resume_block option"

datatype diagnostic_severity = DiagError | DiagWarning

record diagnostic =
  dg_scope :: string
  dg_path :: string
  dg_severity :: diagnostic_severity
  dg_code :: string
  dg_message :: string

definition diagnostic_err :: "string \<Rightarrow> string \<Rightarrow> string \<Rightarrow> string \<Rightarrow> diagnostic" where
  "diagnostic_err scope path code msg =
     \<lparr>dg_scope = scope, dg_path = path, dg_severity = DiagError, dg_code = code, dg_message = msg\<rparr>"

section \<open>Normalisation\<close>

definition policy_path :: string where
  "policy_path = ''config/sessions/resume-policy.yaml''"

definition policy_diag :: "string \<Rightarrow> string \<Rightarrow> diagnostic" where
  "policy_diag code msg = diagnostic_err ''session_resume'' policy_path code msg"

definition unknown_value :: "string \<Rightarrow> string \<Rightarrow> string \<Rightarrow> diagnostic" where
  "unknown_value field val expected =
     policy_diag ''unknown_enum_value''
       (''session_resume.'' @ field @ '': unknown value '' @ [CHR 0x60] @ val @ [CHR 0x60]
        @ '' (expected '' @ expected @ '')'')"

text \<open>\<open>Display\<close> of a signed integer.\<close>

definition int_digits :: "int \<Rightarrow> string" where
  "int_digits n = (if n < 0 then ''-'' @ dec_digits (nat (- n)) else dec_digits (nat n))"

fun parse_resume_mode :: "string \<Rightarrow> resume_mode option" where
  "parse_resume_mode s =
     (if s = ''replay_only'' then Some ReplayOnly else if s = ''acp_load'' then Some AcpLoad
      else if s = ''native_or_replay'' then Some NativeOrReplay else None)"

fun parse_native_fallback :: "string \<Rightarrow> native_fallback option" where
  "parse_native_fallback s =
     (if s = ''replay_only'' then Some FallbackReplay else if s = ''fail'' then Some FallbackFail else None)"

fun parse_drift_policy :: "string \<Rightarrow> drift_policy option" where
  "parse_drift_policy s =
     (if s = ''warn'' then Some DriftWarn else if s = ''fail'' then Some DriftFail
      else if s = ''ignore'' then Some DriftIgnore else None)"

fun parse_class_policy :: "string \<Rightarrow> class_policy option" where
  "parse_class_policy s =
     (if s = ''fail'' then Some ClassFail else if s = ''warn'' then Some ClassWarn else None)"

text \<open>
  One field: absent, it leaves the policy; valid, it is set; otherwise a diagnostic is added. The
  accumulator is the policy and the diagnostics so far.
\<close>

definition norm_field ::
    "('a \<Rightarrow> diagnostic + 'b) \<Rightarrow> ('b \<Rightarrow> resume_policy \<Rightarrow> resume_policy) \<Rightarrow> 'a option
      \<Rightarrow> resume_policy \<times> diagnostic list \<Rightarrow> resume_policy \<times> diagnostic list" where
  "norm_field parse put v acc =
     (case v of
        None \<Rightarrow> acc
      | Some x \<Rightarrow> (case parse x of Inl d \<Rightarrow> (fst acc, snd acc @ [d]) | Inr y \<Rightarrow> (put y (fst acc), snd acc)))"

definition or_diag :: "diagnostic \<Rightarrow> 'b option \<Rightarrow> diagnostic + 'b" where
  "or_diag d v = (case v of None \<Rightarrow> Inl d | Some y \<Rightarrow> Inr y)"

definition retention_of :: "int \<Rightarrow> diagnostic + 32 word" where
  "retention_of n =
     (if \<not> (1 \<le> n \<and> n \<le> 3650)
      then Inl (policy_diag ''out_of_range'' (''session_resume.retention_days: '' @ int_digits n @ '' not in [1, 3650]''))
      else Inr (word_of_int n))"

definition max_events_of :: "int \<Rightarrow> diagnostic + 32 word" where
  "max_events_of n =
     (if n < 1
      then Inl (policy_diag ''out_of_range'' (''session_resume.max_events: '' @ int_digits n @ '' must be >= 1''))
      else Inr (word_of_int n))"

definition normalize_block :: "raw_resume_block \<Rightarrow> resume_policy \<times> diagnostic list" where
  "normalize_block b =
     norm_field max_events_of (\<lambda>y p. p\<lparr>rp_max_events := y\<rparr>) (rb_max_events b)
     (norm_field retention_of (\<lambda>y p. p\<lparr>rp_retention_days := y\<rparr>) (rb_retention_days b)
     (norm_field (\<lambda>s. or_diag (unknown_value ''profile_class_mismatch'' s ''fail|warn'') (parse_class_policy s))
       (\<lambda>y p. p\<lparr>rp_profile_class_mismatch := y\<rparr>) (rb_profile_class_mismatch b)
     (norm_field (\<lambda>s. or_diag (unknown_value ''mcp_server_drift'' s ''warn|fail|ignore'') (parse_drift_policy s))
       (\<lambda>y p. p\<lparr>rp_mcp_server_drift := y\<rparr>) (rb_mcp_server_drift b)
     (norm_field (\<lambda>s. or_diag (unknown_value ''native_fallback'' s ''replay_only|fail'') (parse_native_fallback s))
       (\<lambda>y p. p\<lparr>rp_native_fallback := y\<rparr>) (rb_native_fallback b)
     (norm_field (\<lambda>s. or_diag (unknown_value ''default_mode'' s ''replay_only|acp_load|native_or_replay'') (parse_resume_mode s))
       (\<lambda>y p. p\<lparr>rp_default_mode := y\<rparr>) (rb_default_mode b)
       (resume_policy_default, []))))))"

definition normalize_policy :: "raw_resume_policy \<Rightarrow> diagnostic list + resume_policy" where
  "normalize_policy raw =
     (let (policy, diags) = normalize_block (unwrap_or raw_resume_block_default (rr_session_resume raw)) in
      if list_ex (\<lambda>d. dg_severity d = DiagError) diags then Inl diags else Inr policy)"

text \<open>The file: \<open>yaml\<close> parses it, a missing file means the defaults.\<close>

datatype policy_read = PolicyMissing | PolicyUnreadable string | PolicyText string

definition policy_from_yaml :: "(string \<Rightarrow> string + raw_resume_policy) \<Rightarrow> string \<Rightarrow> diagnostic list + raw_resume_policy" where
  "policy_from_yaml yaml body =
     (case yaml body of
        Inl e \<Rightarrow> Inl [policy_diag ''schema_invalid'' (''yaml parse failed: '' @ e)]
      | Inr raw \<Rightarrow> Inr raw)"

definition policy_load_from_path ::
    "(string \<Rightarrow> string + raw_resume_policy) \<Rightarrow> string \<Rightarrow> policy_read \<Rightarrow> diagnostic list + resume_policy" where
  "policy_load_from_path yaml path r =
     (case r of
        PolicyMissing \<Rightarrow> Inr resume_policy_default
      | PolicyUnreadable e \<Rightarrow>
          Inl [diagnostic_err ''session_resume'' path ''io_error'' (''failed to read resume policy: '' @ e)]
      | PolicyText body \<Rightarrow> (case policy_from_yaml yaml body of Inl ds \<Rightarrow> Inl ds | Inr raw \<Rightarrow> normalize_policy raw))"

section \<open>What is accepted\<close>

lemma mode_roundtrip [simp]: "parse_resume_mode (resume_mode_str m) = Some m" by (cases m) auto
lemma fallback_roundtrip [simp]: "parse_native_fallback (native_fallback_str m) = Some m" by (cases m) auto
lemma drift_roundtrip [simp]: "parse_drift_policy (drift_policy_str m) = Some m" by (cases m) auto
lemma class_roundtrip [simp]: "parse_class_policy (class_policy_str m) = Some m" by (cases m) auto

lemma parse_mode_SomeD: "parse_resume_mode s = Some m \<Longrightarrow> s = resume_mode_str m" by (auto split: if_splits)
lemma parse_fallback_SomeD: "parse_native_fallback s = Some m \<Longrightarrow> s = native_fallback_str m" by (auto split: if_splits)
lemma parse_drift_SomeD: "parse_drift_policy s = Some m \<Longrightarrow> s = drift_policy_str m" by (auto split: if_splits)
lemma parse_class_SomeD: "parse_class_policy s = Some m \<Longrightarrow> s = class_policy_str m" by (auto split: if_splits)

declare parse_resume_mode.simps [simp del] parse_native_fallback.simps [simp del]
  parse_drift_policy.simps [simp del] parse_class_policy.simps [simp del]

text \<open>A field is right when it is absent or has a value of the policy.\<close>

definition names :: "('b \<Rightarrow> 'a) \<Rightarrow> 'b \<Rightarrow> 'b \<Rightarrow> 'a option \<Rightarrow> bool" where
  "names str dflt v x \<longleftrightarrow> (case x of None \<Rightarrow> v = dflt | Some s \<Rightarrow> s = str v)"

definition describes :: "raw_resume_block \<Rightarrow> resume_policy \<Rightarrow> bool" where
  "describes b p \<longleftrightarrow>
     names resume_mode_str NativeOrReplay (rp_default_mode p) (rb_default_mode b)
     \<and> names native_fallback_str FallbackReplay (rp_native_fallback p) (rb_native_fallback b)
     \<and> names drift_policy_str DriftWarn (rp_mcp_server_drift p) (rb_mcp_server_drift b)
     \<and> names class_policy_str ClassFail (rp_profile_class_mismatch p) (rb_profile_class_mismatch b)
     \<and> (case rb_retention_days b of None \<Rightarrow> rp_retention_days p = 30
        | Some n \<Rightarrow> 1 \<le> n \<and> n \<le> 3650 \<and> rp_retention_days p = word_of_int n)
     \<and> (case rb_max_events b of None \<Rightarrow> rp_max_events p = 20000
        | Some n \<Rightarrow> 1 \<le> n \<and> rp_max_events p = word_of_int n)"

lemma norm_field_errors:
  assumes "\<And>x d. parse x = Inl d \<Longrightarrow> dg_severity d = DiagError"
    and "list_all (\<lambda>d. dg_severity d = DiagError) (snd acc)"
  shows "list_all (\<lambda>d. dg_severity d = DiagError) (snd (norm_field parse put v acc))"
  using assms by (auto simp: norm_field_def split: option.split sum.split)

lemma diag_severity [simp]:
  "dg_severity (policy_diag c m) = DiagError" "dg_severity (unknown_value f v e) = DiagError"
  by (simp_all add: policy_diag_def unknown_value_def diagnostic_err_def)

lemma or_diag_Inl: "or_diag d v = Inl e \<Longrightarrow> e = d"
  by (auto simp: or_diag_def split: option.splits)

lemma range_diag_Inl:
  "retention_of n = Inl d \<Longrightarrow> dg_severity d = DiagError" "max_events_of n = Inl d \<Longrightarrow> dg_severity d = DiagError"
  by (auto simp: retention_of_def max_events_of_def split: if_splits)

lemma normalize_block_errors: "list_all (\<lambda>d. dg_severity d = DiagError) (snd (normalize_block b))"
  unfolding normalize_block_def
  by (intro norm_field_errors) (auto dest: or_diag_Inl range_diag_Inl)

text \<open>No diagnostic exactly when every field is right.\<close>

lemma norm_field_clean:
  "snd (norm_field parse put v acc) = [] \<longleftrightarrow> snd acc = [] \<and> (\<forall>x. v = Some x \<longrightarrow> (\<exists>y. parse x = Inr y))"
  by (auto simp: norm_field_def split: option.split sum.split)

text \<open>A field of the result depends on its own part of the block only.\<close>

lemma norm_field_other:
  "(\<And>y p. f (put y p) = f p) \<Longrightarrow> f (fst (norm_field parse put v acc)) = f (fst acc)"
  by (auto simp: norm_field_def split: option.split sum.split)

lemma norm_field_own:
  "(\<And>y p. f (put y p) = y) \<Longrightarrow> f (fst (norm_field parse put v acc)) =
     (case v of None \<Rightarrow> f (fst acc) | Some x \<Rightarrow> (case parse x of Inl d \<Rightarrow> f (fst acc) | Inr y \<Rightarrow> y))"
  by (auto simp: norm_field_def split: option.split sum.split)

lemma or_diag_Inr: "or_diag d v = Inr y \<longleftrightarrow> v = Some y"
  by (auto simp: or_diag_def split: option.split)

lemma normalize_block_fields:
  "rp_default_mode (fst (normalize_block b)) = (case rb_default_mode b of None \<Rightarrow> NativeOrReplay
     | Some s \<Rightarrow> unwrap_or NativeOrReplay (parse_resume_mode s))"
  "rp_native_fallback (fst (normalize_block b)) = (case rb_native_fallback b of None \<Rightarrow> FallbackReplay
     | Some s \<Rightarrow> unwrap_or FallbackReplay (parse_native_fallback s))"
  "rp_mcp_server_drift (fst (normalize_block b)) = (case rb_mcp_server_drift b of None \<Rightarrow> DriftWarn
     | Some s \<Rightarrow> unwrap_or DriftWarn (parse_drift_policy s))"
  "rp_profile_class_mismatch (fst (normalize_block b)) = (case rb_profile_class_mismatch b of None \<Rightarrow> ClassFail
     | Some s \<Rightarrow> unwrap_or ClassFail (parse_class_policy s))"
  "rp_retention_days (fst (normalize_block b)) = (case rb_retention_days b of None \<Rightarrow> 30
     | Some n \<Rightarrow> (case retention_of n of Inl d \<Rightarrow> 30 | Inr y \<Rightarrow> y))"
  "rp_max_events (fst (normalize_block b)) = (case rb_max_events b of None \<Rightarrow> 20000
     | Some n \<Rightarrow> (case max_events_of n of Inl d \<Rightarrow> 20000 | Inr y \<Rightarrow> y))"
  unfolding normalize_block_def
  by (simp add: norm_field_own norm_field_other resume_policy_default_def or_diag_def unwrap_or_def
      default_retention_days_def default_max_events_def split: option.split sum.split)+

lemma range_Inr:
  "(\<exists>y. retention_of n = Inr y) \<longleftrightarrow> 1 \<le> n \<and> n \<le> 3650" "(\<exists>y. max_events_of n = Inr y) \<longleftrightarrow> 1 \<le> n"
  by (auto simp: retention_of_def max_events_of_def)

lemma normalize_block_clean:
  "snd (normalize_block b) = [] \<longleftrightarrow>
     (\<forall>s. rb_default_mode b = Some s \<longrightarrow> parse_resume_mode s \<noteq> None)
     \<and> (\<forall>s. rb_native_fallback b = Some s \<longrightarrow> parse_native_fallback s \<noteq> None)
     \<and> (\<forall>s. rb_mcp_server_drift b = Some s \<longrightarrow> parse_drift_policy s \<noteq> None)
     \<and> (\<forall>s. rb_profile_class_mismatch b = Some s \<longrightarrow> parse_class_policy s \<noteq> None)
     \<and> (\<forall>n. rb_retention_days b = Some n \<longrightarrow> 1 \<le> n \<and> n \<le> 3650)
     \<and> (\<forall>n. rb_max_events b = Some n \<longrightarrow> 1 \<le> n)"
  unfolding normalize_block_def
  by (auto simp: norm_field_clean or_diag_Inr range_Inr)

lemma names_iff:
  assumes "\<And>m. parse (str m) = Some m" "\<And>s m. parse s = Some m \<Longrightarrow> s = str m"
  shows "names str dflt v x \<longleftrightarrow>
    (\<forall>s. x = Some s \<longrightarrow> parse s \<noteq> None) \<and> v = (case x of None \<Rightarrow> dflt | Some s \<Rightarrow> unwrap_or dflt (parse s))"
  using assms by (cases x) (auto simp: names_def unwrap_or_def split: option.split)

lemma normalize_block_describes:
  "snd (normalize_block b) = [] \<and> fst (normalize_block b) = p \<longleftrightarrow> describes b p"
proof -
  have "fst (normalize_block b) = p \<longleftrightarrow>
    rp_default_mode p = rp_default_mode (fst (normalize_block b))
    \<and> rp_native_fallback p = rp_native_fallback (fst (normalize_block b))
    \<and> rp_mcp_server_drift p = rp_mcp_server_drift (fst (normalize_block b))
    \<and> rp_profile_class_mismatch p = rp_profile_class_mismatch (fst (normalize_block b))
    \<and> rp_retention_days p = rp_retention_days (fst (normalize_block b))
    \<and> rp_max_events p = rp_max_events (fst (normalize_block b))"
    by (cases "fst (normalize_block b)"; cases p) auto
  moreover have "(case rb_retention_days b of None \<Rightarrow> rp_retention_days p = 30
        | Some n \<Rightarrow> 1 \<le> n \<and> n \<le> 3650 \<and> rp_retention_days p = word_of_int n) \<longleftrightarrow>
      (\<forall>n. rb_retention_days b = Some n \<longrightarrow> 1 \<le> n \<and> n \<le> 3650) \<and> rp_retention_days p = rp_retention_days (fst (normalize_block b))"
    by (cases "rb_retention_days b") (auto simp: normalize_block_fields retention_of_def)
  moreover have "(case rb_max_events b of None \<Rightarrow> rp_max_events p = 20000
        | Some n \<Rightarrow> 1 \<le> n \<and> rp_max_events p = word_of_int n) \<longleftrightarrow>
      (\<forall>n. rb_max_events b = Some n \<longrightarrow> 1 \<le> n) \<and> rp_max_events p = rp_max_events (fst (normalize_block b))"
    by (cases "rb_max_events b") (auto simp: normalize_block_fields max_events_of_def)
  ultimately show ?thesis
    unfolding describes_def normalize_block_clean normalize_block_fields(1-4)
    using names_iff [of parse_resume_mode resume_mode_str NativeOrReplay "rp_default_mode p" "rb_default_mode b"]
      names_iff [of parse_native_fallback native_fallback_str FallbackReplay "rp_native_fallback p" "rb_native_fallback b"]
      names_iff [of parse_drift_policy drift_policy_str DriftWarn "rp_mcp_server_drift p" "rb_mcp_server_drift b"]
      names_iff [of parse_class_policy class_policy_str ClassFail "rp_profile_class_mismatch p" "rb_profile_class_mismatch b"]
    by (simp add: parse_mode_SomeD parse_fallback_SomeD parse_drift_SomeD parse_class_SomeD) argo
qed

text \<open>
  A policy file is accepted with a policy exactly when every field that is present is a value of
  the policy - one of its names, or a number in its range - and then the policy has those values, and
  the defaults for the fields that are absent. Everything else is refused with diagnostics.
\<close>
theorem normalize_policy_exact:
  "normalize_policy raw = Inr p \<longleftrightarrow> describes (unwrap_or raw_resume_block_default (rr_session_resume raw)) p"
proof -
  let ?b = "unwrap_or raw_resume_block_default (rr_session_resume raw)"
  have "list_ex (\<lambda>d. dg_severity d = DiagError) (snd (normalize_block ?b)) \<longleftrightarrow> snd (normalize_block ?b) \<noteq> []"
    using normalize_block_errors [of ?b] by (cases "snd (normalize_block ?b)") auto
  then show ?thesis
    using normalize_block_describes [of ?b p]
    by (auto simp: normalize_policy_def Let_def split_beta split: if_splits)
qed

text \<open>A number that does not fit 32 bits is accepted and cut: \<open>2 ^ 32\<close> events become none.\<close>

lemma max_events_wraps: "max_events_of (2 ^ 32) = Inr 0"
  by (simp add: max_events_of_def)

end
