(* ===== verification/Session_Registry.thy ===== *)
theory Session_Registry
  imports Handoff_Packet Agent_Registry Session_Store Session_State Workflow
begin

text \<open>
  \<open>apps/local-bridge/src/session/registry.rs\<close>, \<open>session/mod.rs\<close> and the parts of \<open>session/handle.rs\<close>
  that decide what a spawned session is: which session runs with which agent, profile and workflow,
  who owns it, when a stored session may be resumed natively, and the reaper that forgets closed
  sessions. What a child process does is a parameter; the tasks a session starts are the subject of
  other theories. \<open>None\<close> is a call that panics or never returns.
\<close>

section \<open>What resuming can answer\<close>

datatype resume_warning = ProfileClassMissing

fun warning_reason :: "resume_warning \<Rightarrow> string" where
  "warning_reason ProfileClassMissing = ''profile_class_missing''"

datatype resume_refusal =
    AgentNotInRegistry
  | AgentKindMismatch
  | ProfileNotFound
  | ProfileInvalid
  | AgentKindNotAllowed
  | ProjectRootUnavailable
  | VacSessionUnknown
  | ProfileClassMismatch

fun refusal_reason :: "resume_refusal \<Rightarrow> string" where
  "refusal_reason AgentNotInRegistry = ''agent_not_in_registry''"
| "refusal_reason AgentKindMismatch = ''agent_kind_mismatch''"
| "refusal_reason ProfileNotFound = ''profile_not_found''"
| "refusal_reason ProfileInvalid = ''profile_invalid''"
| "refusal_reason AgentKindNotAllowed = ''agent_kind_not_allowed''"
| "refusal_reason ProjectRootUnavailable = ''project_root_unavailable''"
| "refusal_reason VacSessionUnknown = ''vac_session_unknown''"
| "refusal_reason ProfileClassMismatch = ''profile_class_mismatch''"

text \<open>Why an executor could not be started for a hand-off.\<close>

datatype executor_error =
    ExecNotApproved string
  | ExecMissingProfile
  | ExecEmptyTasks
  | ExecRootMissing string
  | ExecPinInvalid string
  | ExecProfileInvalid string string
  | ExecProfileNotExecutor string string
  | ExecAgentNotInRegistry string
  | ExecAgentKindNotAllowed string string
  | ExecSpawnFailed string

fun executor_tag :: "executor_error \<Rightarrow> string" where
  "executor_tag (ExecNotApproved _) = ''not_approved''"
| "executor_tag ExecMissingProfile = ''missing_executor_profile''"
| "executor_tag ExecEmptyTasks = ''empty_task_list''"
| "executor_tag (ExecRootMissing _) = ''project_root_unavailable''"
| "executor_tag (ExecPinInvalid _) = ''pin_invalid''"
| "executor_tag (ExecProfileInvalid _ _) = ''profile_invalid''"
| "executor_tag (ExecProfileNotExecutor _ _) = ''profile_not_executor''"
| "executor_tag (ExecAgentNotInRegistry _) = ''agent_not_in_registry''"
| "executor_tag (ExecAgentKindNotAllowed _ _) = ''agent_kind_not_allowed''"
| "executor_tag (ExecSpawnFailed _) = ''spawn_failed''"

fun executor_code :: "executor_error \<Rightarrow> string" where
  "executor_code (ExecNotApproved _) = ''handoff.not_approved''"
| "executor_code ExecMissingProfile = ''handoff.missing_executor_profile''"
| "executor_code ExecEmptyTasks = ''handoff.empty_task_list''"
| "executor_code (ExecRootMissing _) = ''handoff.project_root_unavailable''"
| "executor_code (ExecPinInvalid _) = ''handoff.pin_invalid''"
| "executor_code (ExecProfileInvalid _ _) = ''handoff.profile_invalid''"
| "executor_code (ExecProfileNotExecutor _ _) = ''handoff.profile_not_executor''"
| "executor_code (ExecAgentNotInRegistry _) = ''handoff.agent_not_in_registry''"
| "executor_code (ExecAgentKindNotAllowed _ _) = ''handoff.agent_kind_not_allowed''"
| "executor_code (ExecSpawnFailed _) = ''handoff.spawn_failed''"

fun executor_message :: "executor_error \<Rightarrow> string" where
  "executor_message (ExecNotApproved actual) = ''packet must be approved before spawn, got status='' @ actual"
| "executor_message ExecMissingProfile = ''target.executor_profile_id is empty''"
| "executor_message ExecEmptyTasks = ''packet has no tasks''"
| "executor_message (ExecRootMissing path) = ''project_root does not exist: '' @ path"
| "executor_message (ExecPinInvalid reason) = reason"
| "executor_message (ExecProfileInvalid i detail) = ''profile '' @ i @ '' failed to load: '' @ detail"
| "executor_message (ExecProfileNotExecutor i c) = ''profile '' @ i @ '' has class='' @ c @ '', expected executor''"
| "executor_message (ExecAgentNotInRegistry i) = ''agent '' @ i @ '' is not in the live registry''"
| "executor_message (ExecAgentKindNotAllowed k reason) = ''agent kind '' @ k @ '' not allowed by profile: '' @ reason"
| "executor_message (ExecSpawnFailed detail) = ''session spawn failed: '' @ detail"

definition executor_text :: "executor_error \<Rightarrow> string" where
  "executor_text e = executor_code e @ '': '' @ executor_message e"

section \<open>Spawning a session\<close>

record native_resume_request =
  nq_vac_session_id :: string
  nq_agent_session_id :: string
  nq_mode :: string

record spawn_options =
  so_session_id :: string
  so_profile_id :: string
  so_project_root :: string
  so_agent :: agent_definition
  so_workflow_id :: "string option"
  so_profile_root :: string
  so_resume_native :: "native_resume_request option"

text \<open>The identity of a session and its state; channels and tasks are left out.\<close>

record session_handle =
  hd_id :: string
  hd_profile_id :: string
  hd_project_root :: string
  hd_agent_id :: string
  hd_agent_kind :: agent_kind
  hd_workflow_id :: string
  hd_workflow_name :: string
  hd_state :: state_holder

text \<open>
  The world of a spawn: existing paths, the profile files, the text of profile errors, the bundled
  workflows, whether the child starts and answers the handshake (an error text otherwise), and the
  agent's answer to \<open>session/load\<close>.
\<close>

datatype load_error = LoadUnsupported | LoadRejected string | LoadOther string

record spawn_env =
  se_exists :: "string \<Rightarrow> bool"
  se_raw :: raw_profiles
  se_profile_text :: "profile_error \<Rightarrow> string"
  se_workflows :: "string \<rightharpoonup> workflow_spec"
  se_start :: "spawn_options \<Rightarrow> string option"
  se_load :: "spawn_options \<Rightarrow> load_error option"

datatype spawn_error = SpawnText string | SpawnLoad load_error

definition resolve_workflow :: "(string \<rightharpoonup> workflow_spec) \<Rightarrow> string option \<Rightarrow> string + string \<times> string" where
  "resolve_workflow specs wid =
     (case wid of
        Some w \<Rightarrow>
          (case specs w of
             None \<Rightarrow> Inl (''workflow.not_found: '' @ [CHR 0x27] @ w @ [CHR 0x27] @ '' is not a bundled workflow'')
           | Some spec \<Rightarrow> Inr (w, wm_name (wf_metadata spec)))
      | None \<Rightarrow>
          Inr (default_build_spec_id,
               (case specs default_build_spec_id of Some spec \<Rightarrow> wm_name (wf_metadata spec) | None \<Rightarrow> [])))"

definition new_handle :: "spawn_options \<Rightarrow> string \<times> string \<Rightarrow> session_handle" where
  "new_handle opts w =
     \<lparr>hd_id = so_session_id opts, hd_profile_id = so_profile_id opts, hd_project_root = so_project_root opts,
      hd_agent_id = ad_id (so_agent opts), hd_agent_kind = ad_kind (so_agent opts),
      hd_workflow_id = fst w, hd_workflow_name = snd w,
      hd_state = snd (transition Ready state_holder_new)\<rparr>"

text \<open>
  Engines on stdio ignore a request to resume. ACP agents start, resolve the workflow and build the
  handle in the same order, and load the session at the end.
\<close>

definition spawn_jsonrpc :: "spawn_env \<Rightarrow> spawn_options \<Rightarrow> spawn_error + session_handle" where
  "spawn_jsonrpc env opts =
     (case se_start env opts of
        Some e \<Rightarrow> Inl (SpawnText e)
      | None \<Rightarrow>
          (case resolve_workflow (se_workflows env) (so_workflow_id opts) of
             Inl e \<Rightarrow> Inl (SpawnText e)
           | Inr w \<Rightarrow> Inr (new_handle opts w)))"

definition spawn_acp :: "spawn_env \<Rightarrow> spawn_options \<Rightarrow> spawn_error + session_handle" where
  "spawn_acp env opts =
     (case spawn_jsonrpc env opts of
        Inl e \<Rightarrow> Inl e
      | Inr h \<Rightarrow>
          (if so_resume_native opts = None then Inr h
           else (case se_load env opts of Some e \<Rightarrow> Inl (SpawnLoad e) | None \<Rightarrow> Inr h)))"

definition spawn_session :: "spawn_env \<Rightarrow> spawn_options \<Rightarrow> spawn_error + session_handle" where
  "spawn_session env opts = (if ad_kind (so_agent opts) = Acp then spawn_acp env opts else spawn_jsonrpc env opts)"

text \<open>What the bridge tells an ACP agent it may ask for, from the profile or a closed default.\<close>

definition restrictive_profile :: "fs_config \<Rightarrow> git_config \<Rightarrow> connectors_config \<Rightarrow> network_egress \<Rightarrow> string \<Rightarrow> capability_profile" where
  "restrictive_profile fs git con net i =
     \<lparr>prof_id = i, prof_class = Assessor, prof_version = ''0.0.0'', prof_description = None,
      prof_inherits_from = None, prof_tool_allow = [], prof_tool_deny = [], prof_shell_allowlist = [],
      prof_fs = fs, prof_git = git, prof_connectors = con, prof_network = net, prof_approval_required_for = [],
      prof_allowed_agent_kinds = [''acp''], prof_limits = None, prof_audit = None\<rparr>"

record acp_capabilities =
  cap_read :: bool
  cap_write :: bool
  cap_terminal :: bool

definition acp_capabilities_of :: "capability_profile \<Rightarrow> acp_capabilities" where
  "acp_capabilities_of p =
     \<lparr>cap_read = (fs_read (prof_fs p) \<noteq> ''none''), cap_write = (fs_write (prof_fs p) \<noteq> ''none''),
      cap_terminal = (prof_class p = Executor \<and> prof_shell_allowlist p \<noteq> [])\<rparr>"

definition is_opencode_agent :: "string \<Rightarrow> string \<Rightarrow> bool" where
  "is_opencode_agent i command =
     (i = ''opencode'' \<or> starts_with i ''opencode-'' \<or> path_file_name command = Some ''opencode'')"

section \<open>The registry\<close>

text \<open>
  The two maps, the agents in use, and where profiles are. The handles attached once at start
  (audit, store, health, index) are passed on unchanged and have no part here.
\<close>

record session_registry =
  sr_sessions :: "(string \<times> session_handle) list"
  sr_owners :: "string \<rightharpoonup> string"
  sr_agents :: agent_registry
  sr_profile_root :: string

definition with_runtime_and_profiles :: "agent_registry \<Rightarrow> string \<Rightarrow> session_registry" where
  "with_runtime_and_profiles agents root =
     \<lparr>sr_sessions = [], sr_owners = Map.empty, sr_agents = agents, sr_profile_root = root\<rparr>"

definition with_runtime :: "agent_registry \<Rightarrow> session_registry" where
  "with_runtime agents = with_runtime_and_profiles agents ''packages/protocol/v1/profiles''"

text \<open>\<open>SessionRegistry::new\<close>: the constructor for a single engine binary.\<close>

definition session_registry_new :: "string \<Rightarrow> session_registry" where
  "session_registry_new engine_bin = with_runtime (synth_legacy_registry engine_bin)"

definition reload_session_agents :: "agent_error + agent_registry \<Rightarrow> session_registry \<Rightarrow> (agent_error + agent_registry) \<times> session_registry" where
  "reload_session_agents loaded r =
     (case loaded of Inl e \<Rightarrow> (Inl e, r) | Inr fresh \<Rightarrow> (Inr fresh, r\<lparr>sr_agents := fresh\<rparr>))"

definition insert_session :: "string \<Rightarrow> session_handle \<Rightarrow> session_registry \<Rightarrow> session_registry" where
  "insert_session i h r = r\<lparr>sr_sessions := AList.update i h (sr_sessions r)\<rparr>"

definition get_session :: "string \<Rightarrow> session_registry \<Rightarrow> session_handle option" where
  "get_session i r = map_of (sr_sessions r) i"

definition session_project_root :: "string \<Rightarrow> session_registry \<Rightarrow> string option" where
  "session_project_root i r = map_option hd_project_root (get_session i r)"

definition set_owner :: "string \<Rightarrow> string \<Rightarrow> session_registry \<Rightarrow> session_registry" where
  "set_owner i p r = r\<lparr>sr_owners := (sr_owners r)(i \<mapsto> p)\<rparr>"

definition session_owner :: "string \<Rightarrow> session_registry \<Rightarrow> string option" where
  "session_owner i r = sr_owners r i"

definition clear_owner :: "string \<Rightarrow> session_registry \<Rightarrow> session_registry" where
  "clear_owner i r = r\<lparr>sr_owners := (sr_owners r)(i := None)\<rparr>"

definition session_count :: "session_registry \<Rightarrow> nat" where
  "session_count r = length (sr_sessions r)"

definition remove_session :: "string \<Rightarrow> session_registry \<Rightarrow> session_handle option \<times> session_registry" where
  "remove_session i r =
     (case get_session i r of
        None \<Rightarrow> (None, r)
      | Some h \<Rightarrow> (Some h, clear_owner i (r\<lparr>sr_sessions := AList.delete i (sr_sessions r)\<rparr>)))"

definition list_sessions :: "session_registry \<Rightarrow> string list" where
  "list_sessions r = map fst (sr_sessions r)"

fun session_owner_authorized :: "string option \<Rightarrow> string option \<Rightarrow> bool" where
  "session_owner_authorized None caller = True"
| "session_owner_authorized (Some p) (Some c) = (p = c)"
| "session_owner_authorized (Some p) None = False"

section \<open>Creating a session\<close>

definition spawn_error_text :: "spawn_error \<Rightarrow> string" where
  "spawn_error_text e =
     (case e of SpawnText s \<Rightarrow> s | SpawnLoad _ \<Rightarrow> ''native_resume_failed'')"

definition sess_id :: "string \<Rightarrow> string" where
  "sess_id ulid = ''sess_'' @ ulid"

text \<open>A missing default agent is a panic of \<open>default_agent\<close>; a registry in use has one.\<close>

definition select_agent :: "agent_registry \<Rightarrow> string option \<Rightarrow> (string + agent_definition) option" where
  "select_agent agents agent_id =
     (case agent_id of
        Some i \<Rightarrow> (case registry_get agents i of Inl e \<Rightarrow> Some (Inl (agent_error_text e)) | Inr a \<Rightarrow> Some (Inr a))
      | None \<Rightarrow> map_option Inr (default_agent agents))"

definition create_with_agent_and_workflow ::
    "spawn_env \<Rightarrow> string \<Rightarrow> string \<Rightarrow> string \<Rightarrow> string option \<Rightarrow> string option \<Rightarrow> session_registry
      \<Rightarrow> ((string + session_handle) \<times> session_registry) option" where
  "create_with_agent_and_workflow env ulid profile_id project_root agent_id workflow_id r =
     (case select_agent (sr_agents r) agent_id of
        None \<Rightarrow> None
      | Some (Inl e) \<Rightarrow> Some (Inl e, r)
      | Some (Inr agent) \<Rightarrow>
          if \<not> ad_enabled agent
          then Some (Inl (''agent.disabled: agent '' @ ticked (ad_id agent) @ '' is disabled''), r)
          else
            (let sid = sess_id ulid;
                 opts = \<lparr>so_session_id = sid, so_profile_id = profile_id, so_project_root = project_root,
                         so_agent = agent, so_workflow_id = workflow_id, so_profile_root = sr_profile_root r,
                         so_resume_native = None\<rparr>
             in case spawn_session env opts of
                  Inl e \<Rightarrow> Some (Inl (spawn_error_text e), r)
                | Inr h \<Rightarrow> Some (Inr h, insert_session sid h r)))"

definition create_with_agent ::
    "spawn_env \<Rightarrow> string \<Rightarrow> string \<Rightarrow> string \<Rightarrow> string option \<Rightarrow> session_registry
      \<Rightarrow> ((string + session_handle) \<times> session_registry) option" where
  "create_with_agent env ulid profile_id project_root agent_id r =
     create_with_agent_and_workflow env ulid profile_id project_root agent_id None r"

definition create_session ::
    "spawn_env \<Rightarrow> string \<Rightarrow> string \<Rightarrow> string \<Rightarrow> session_registry
      \<Rightarrow> ((string + session_handle) \<times> session_registry) option" where
  "create_session env ulid profile_id project_root r =
     create_with_agent env ulid profile_id project_root None r"

section \<open>Resuming a stored session\<close>

datatype resume_outcome =
    ResumeStarted session_handle "resume_warning list"
  | ResumeUnsupported
  | ResumeRejected string
  | ResumeFailed string
  | ResumeInvalid resume_refusal

text \<open>The \<open>lowercase\<close> names serde gives the classes.\<close>

fun class_name :: "profile_class \<Rightarrow> string" where
  "class_name Assessor = ''assessor''"
| "class_name Executor = ''executor''"

definition class_check :: "string option \<Rightarrow> string \<Rightarrow> resume_refusal + resume_warning list" where
  "class_check persisted live =
     (case persisted of
        Some p \<Rightarrow> if p \<noteq> live then Inl ProfileClassMismatch else Inr []
      | None \<Rightarrow> Inr [ProfileClassMissing])"

text \<open>The checks before the spawn, in the order of the code.\<close>

definition resume_check ::
    "spawn_env \<Rightarrow> session_registry \<Rightarrow> session_meta \<Rightarrow> (resume_refusal + agent_definition \<times> string \<times> resume_warning list) option" where
  "resume_check env r meta =
     (case registry_get (sr_agents r) (sm_agent_id meta) of
        Inl _ \<Rightarrow> Some (Inl AgentNotInRegistry)
      | Inr agent \<Rightarrow>
          if agent_kind_str (ad_kind agent) \<noteq> sm_agent_kind meta then Some (Inl AgentKindMismatch)
          else if \<not> se_exists env (sm_project_root meta) then Some (Inl ProjectRootUnavailable)
          else if sm_profile_id meta = [] then Some (Inl ProfileNotFound)
          else if \<not> se_exists env (profile_path (sr_profile_root r) (sm_profile_id meta)) then Some (Inl ProfileNotFound)
          else
            (case load_profile (se_raw env) (sr_profile_root r) (sm_profile_id meta) of
               None \<Rightarrow> None
             | Some (Inl _) \<Rightarrow> Some (Inl ProfileInvalid)
             | Some (Inr profile) \<Rightarrow>
                 if enforce_agent_kind profile (sm_agent_kind meta) \<noteq> Allow then Some (Inl AgentKindNotAllowed)
                 else
                   (case class_check (sm_profile_class meta) (class_name (prof_class profile)) of
                      Inl e \<Rightarrow> Some (Inl e)
                    | Inr ws \<Rightarrow>
                        (case sm_agent_session_id meta of
                           None \<Rightarrow> Some (Inl VacSessionUnknown)
                         | Some aid \<Rightarrow>
                             if \<not> ad_enabled agent then Some (Inl AgentNotInRegistry)
                             else Some (Inr (agent, aid, ws))))))"

definition resume_options :: "session_registry \<Rightarrow> session_meta \<Rightarrow> agent_definition \<Rightarrow> string \<Rightarrow> string \<Rightarrow> spawn_options" where
  "resume_options r meta agent aid mode =
     \<lparr>so_session_id = sm_vac_session_id meta, so_profile_id = sm_profile_id meta,
      so_project_root = sm_project_root meta, so_agent = agent, so_workflow_id = sm_workflow_id meta,
      so_profile_root = sr_profile_root r,
      so_resume_native = Some \<lparr>nq_vac_session_id = sm_vac_session_id meta, nq_agent_session_id = aid, nq_mode = mode\<rparr>\<rparr>"

definition resume_native ::
    "spawn_env \<Rightarrow> session_meta \<Rightarrow> string \<Rightarrow> session_registry \<Rightarrow> (resume_outcome \<times> session_registry) option" where
  "resume_native env meta mode r =
     (case resume_check env r meta of
        None \<Rightarrow> None
      | Some (Inl e) \<Rightarrow> Some (ResumeInvalid e, r)
      | Some (Inr (agent, aid, ws)) \<Rightarrow>
          (case spawn_session env (resume_options r meta agent aid mode) of
             Inr h \<Rightarrow> Some (ResumeStarted h ws, insert_session (sm_vac_session_id meta) h r)
           | Inl (SpawnLoad LoadUnsupported) \<Rightarrow> Some (ResumeUnsupported, r)
           | Inl (SpawnLoad (LoadRejected m)) \<Rightarrow> Some (ResumeRejected m, r)
           | Inl (SpawnLoad (LoadOther m)) \<Rightarrow> Some (ResumeFailed m, r)
           | Inl (SpawnText m) \<Rightarrow> Some (ResumeFailed m, r)))"

section \<open>An executor for a hand-off\<close>

text \<open>The reason \<open>enforce_agent_kind\<close> gives; \<open>Enforce\<close> keeps the code only.\<close>

definition kind_denial_reason :: "capability_profile \<Rightarrow> string \<Rightarrow> string" where
  "kind_denial_reason p kind =
     ''agent kind '' @ [CHR 0x27] @ kind @ [CHR 0x27] @ '' is not in profile '' @ prof_id p @ [CHR 0x27]
     @ ''s allowed_agent_kinds''"

definition executor_check ::
    "spawn_env \<Rightarrow> clock \<Rightarrow> session_registry \<Rightarrow> packet \<Rightarrow> string \<Rightarrow> string option \<Rightarrow> (executor_error + string option) option" where
  "executor_check env clk r p root agent_id =
     (let profile_id = trim (ht_executor_profile_id (pk_target p));
          wanted = filter_opt (\<lambda>s. s \<noteq> []) (map_option trim agent_id) in
      if pk_status p \<noteq> Approved then Some (Inl (ExecNotApproved (packet_status_str (pk_status p))))
      else if profile_id = [] then Some (Inl ExecMissingProfile)
      else if pk_tasks p = [] then Some (Inl ExecEmptyTasks)
      else if \<not> se_exists env root then Some (Inl (ExecRootMissing root))
      else if \<not> pin_is_complete (pk_pin p) then Some (Inl (ExecPinInvalid ''pin is incomplete''))
      else if pin_is_expired clk (pk_pin p) then Some (Inl (ExecPinInvalid ''pin has expired''))
      else
        (case load_profile (se_raw env) (sr_profile_root r) profile_id of
           None \<Rightarrow> None
         | Some (Inl e) \<Rightarrow> Some (Inl (ExecProfileInvalid profile_id (se_profile_text env e)))
         | Some (Inr profile) \<Rightarrow>
             if class_name (prof_class profile) \<noteq> ''executor''
             then Some (Inl (ExecProfileNotExecutor profile_id (class_name (prof_class profile))))
             else
               (case wanted of
                  None \<Rightarrow> Some (Inr None)
                | Some i \<Rightarrow>
                    (case registry_get (sr_agents r) i of
                       Inl _ \<Rightarrow> Some (Inl (ExecAgentNotInRegistry i))
                     | Inr agent \<Rightarrow>
                         (case enforce_agent_kind profile (agent_kind_str (ad_kind agent)) of
                            Deny _ \<Rightarrow>
                              Some (Inl (ExecAgentKindNotAllowed (agent_kind_str (ad_kind agent))
                                (kind_denial_reason profile (agent_kind_str (ad_kind agent)))))
                          | Allow \<Rightarrow> Some (Inr (Some i)))))))"

definition spawn_executor_for_handoff ::
    "spawn_env \<Rightarrow> clock \<Rightarrow> string \<Rightarrow> packet \<Rightarrow> string \<Rightarrow> string option \<Rightarrow> session_registry
      \<Rightarrow> ((executor_error + session_handle) \<times> session_registry) option" where
  "spawn_executor_for_handoff env clk ulid p root agent_id r =
     (case executor_check env clk r p root agent_id of
        None \<Rightarrow> None
      | Some (Inl e) \<Rightarrow> Some (Inl e, r)
      | Some (Inr wanted) \<Rightarrow>
          (case create_with_agent_and_workflow env ulid (trim (ht_executor_profile_id (pk_target p))) root wanted None r of
             None \<Rightarrow> None
           | Some (Inl e, r') \<Rightarrow> Some (Inl (ExecSpawnFailed e), r')
           | Some (Inr h, r') \<Rightarrow> Some (Inr h, r')))"

section \<open>When a session resumes\<close>

lemma enforce_agent_kind_Allow: "enforce_agent_kind p k = Allow \<longleftrightarrow> k \<in> set (prof_allowed_agent_kinds p)"
  by (auto simp: enforce_agent_kind_def list_ex_iff)

lemma class_name_inject [simp]: "class_name c = class_name d \<longleftrightarrow> c = d"
  by (cases c; cases d) auto

lemma class_name_Executor [simp]: "class_name c = ''executor'' \<longleftrightarrow> c = Executor"
  by (cases c) auto

lemma class_check_Inr:
  "class_check pc live = Inr ws \<longleftrightarrow> (pc = None \<and> ws = [ProfileClassMissing]) \<or> (pc = Some live \<and> ws = [])"
  by (auto simp: class_check_def split: option.splits)

text \<open>What the profile of a session must be for the session to be resumed.\<close>

definition profile_admits :: "spawn_env \<Rightarrow> session_registry \<Rightarrow> session_meta \<Rightarrow> capability_profile \<Rightarrow> bool" where
  "profile_admits env r meta p \<longleftrightarrow>
     sm_profile_id meta \<noteq> [] \<and> se_exists env (profile_path (sr_profile_root r) (sm_profile_id meta))
     \<and> load_profile (se_raw env) (sr_profile_root r) (sm_profile_id meta) = Some (Inr p)
     \<and> sm_agent_kind meta \<in> set (prof_allowed_agent_kinds p)
     \<and> sm_profile_class meta \<in> {None, Some (class_name (prof_class p))}"

lemma resume_check_Inr:
  "resume_check env r meta = Some (Inr (agent, aid, ws)) \<longleftrightarrow>
     registry_get (sr_agents r) (sm_agent_id meta) = Inr agent \<and> ad_enabled agent
     \<and> agent_kind_str (ad_kind agent) = sm_agent_kind meta \<and> se_exists env (sm_project_root meta)
     \<and> (\<exists>p. profile_admits env r meta p) \<and> sm_agent_session_id meta = Some aid
     \<and> ws = (if sm_profile_class meta = None then [ProfileClassMissing] else [])"
  by (cases "sm_profile_class meta")
    (auto simp: resume_check_def profile_admits_def enforce_agent_kind_Allow class_check_def
      split: sum.split option.split)

lemma resume_native_started:
  "resume_native env meta mode r = Some (ResumeStarted h ws, r') \<longleftrightarrow>
     (\<exists>agent aid. resume_check env r meta = Some (Inr (agent, aid, ws))
        \<and> spawn_session env (resume_options r meta agent aid mode) = Inr h
        \<and> r' = insert_session (sm_vac_session_id meta) h r)"
  by (auto simp: resume_native_def split: option.splits sum.splits spawn_error.splits load_error.splits)


text \<open>The handle of a spawned session has the identity it was asked to have.\<close>

lemma spawn_jsonrpc_Inr:
  "spawn_jsonrpc env opts = Inr h \<Longrightarrow> \<exists>w. resolve_workflow (se_workflows env) (so_workflow_id opts) = Inr w \<and> h = new_handle opts w"
  by (auto simp: spawn_jsonrpc_def split: option.splits sum.splits)

lemma spawn_session_Inr:
  "spawn_session env opts = Inr h \<Longrightarrow> \<exists>w. resolve_workflow (se_workflows env) (so_workflow_id opts) = Inr w \<and> h = new_handle opts w"
  by (auto simp: spawn_session_def spawn_acp_def dest: spawn_jsonrpc_Inr split: if_splits sum.splits option.splits)

lemma new_handle_simps [simp]:
  "hd_id (new_handle opts w) = so_session_id opts" "hd_profile_id (new_handle opts w) = so_profile_id opts"
  "hd_project_root (new_handle opts w) = so_project_root opts" "hd_agent_id (new_handle opts w) = ad_id (so_agent opts)"
  "hd_agent_kind (new_handle opts w) = ad_kind (so_agent opts)"
  "holder_state (hd_state (new_handle opts w)) = Ready"
  by (simp_all add: new_handle_def transition_def state_holder_new_def)

section \<open>When a hand-off gets its executor\<close>

definition wanted_agent :: "string option \<Rightarrow> string option" where
  "wanted_agent agent_id = filter_opt (\<lambda>s. s \<noteq> []) (map_option trim agent_id)"

lemma executor_check_Inr:
  "executor_check env clk r p root agent_id = Some (Inr w) \<longleftrightarrow>
     w = wanted_agent agent_id \<and> can_dispatch clk p \<and> pk_tasks p \<noteq> []
     \<and> trim (ht_executor_profile_id (pk_target p)) \<noteq> [] \<and> se_exists env root
     \<and> (\<exists>profile. load_profile (se_raw env) (sr_profile_root r) (trim (ht_executor_profile_id (pk_target p))) = Some (Inr profile)
          \<and> prof_class profile = Executor
          \<and> (\<forall>i. w = Some i \<longrightarrow> (\<exists>agent. registry_get (sr_agents r) i = Inr agent
                \<and> agent_kind_str (ad_kind agent) \<in> set (prof_allowed_agent_kinds profile))))"
proof -
  have allow: "(case enforce_agent_kind profile k of Deny reason \<Rightarrow> Some (Inl E) | Allow \<Rightarrow> Some (Inr (Some i))) = Some (Inr w)
      \<longleftrightarrow> k \<in> set (prof_allowed_agent_kinds profile) \<and> w = Some i" for profile k i and E :: executor_error
    by (cases "enforce_agent_kind profile k") (auto simp: enforce_agent_kind_Allow [symmetric])
  show ?thesis
    unfolding executor_check_def Let_def wanted_agent_def [symmetric] can_dispatch_def
    by (cases "load_profile (se_raw env) (sr_profile_root r) (trim (ht_executor_profile_id (pk_target p)))";
        cases "wanted_agent agent_id") (auto simp: allow split: sum.splits)
qed

lemma create_Inr:
  "create_with_agent_and_workflow env ulid pid root aid wid r = Some (Inr h, r') \<longleftrightarrow>
     (\<exists>agent. select_agent (sr_agents r) aid = Some (Inr agent) \<and> ad_enabled agent
        \<and> spawn_session env \<lparr>so_session_id = sess_id ulid, so_profile_id = pid, so_project_root = root,
            so_agent = agent, so_workflow_id = wid, so_profile_root = sr_profile_root r, so_resume_native = None\<rparr> = Inr h
        \<and> r' = insert_session (sess_id ulid) h r)"
  by (auto simp: create_with_agent_and_workflow_def Let_def split: option.splits sum.splits)

lemma create_else:
  "create_with_agent_and_workflow env ulid pid root aid wid r = Some (Inl e, r') \<Longrightarrow> r' = r"
  by (auto simp: create_with_agent_and_workflow_def Let_def split: option.splits sum.splits if_splits)

lemma create_inserted:
  "create_with_agent_and_workflow env ulid pid root aid wid r = Some (Inr h, r') \<Longrightarrow>
     r' = insert_session (sess_id ulid) h r \<and> hd_id h = sess_id ulid"
  unfolding create_Inr by (auto dest!: spawn_session_Inr)

text \<open>
  A hand-off packet gets an executor only if it is approved, its pin is complete and has not run
  out, it has tasks, its project exists, and the profile it names loads and has the class executor;
  an agent the caller names is registered, enabled, and of a kind the profile admits. The session
  runs with that profile in that project and is registered; a refused packet changes nothing.
\<close>
theorem executor_spawn_guarded:
  assumes "spawn_executor_for_handoff env clk ulid p root agent_id r = Some (res, r')"
  shows "case res of
      Inl _ \<Rightarrow> r' = r
    | Inr h \<Rightarrow>
        can_dispatch clk p \<and> pk_tasks p \<noteq> [] \<and> se_exists env root
        \<and> get_session (sess_id ulid) r' = Some h \<and> hd_id h = sess_id ulid \<and> hd_project_root h = root
        \<and> hd_profile_id h = trim (ht_executor_profile_id (pk_target p))
        \<and> (\<exists>profile. load_profile (se_raw env) (sr_profile_root r) (hd_profile_id h) = Some (Inr profile)
             \<and> prof_class profile = Executor
             \<and> (\<forall>i. wanted_agent agent_id = Some i \<longrightarrow>
                  hd_agent_id h = i \<and> agent_kind_str (hd_agent_kind h) \<in> set (prof_allowed_agent_kinds profile)))"
proof (cases res)
  case (Inl e)
  with assms show ?thesis
    by (auto simp: spawn_executor_for_handoff_def dest: create_else split: option.splits sum.splits)
next
  case (Inr h)
  with assms obtain w where c: "executor_check env clk r p root agent_id = Some (Inr w)"
    and n: "create_with_agent_and_workflow env ulid (trim (ht_executor_profile_id (pk_target p))) root w None r = Some (Inr h, r')"
    by (auto simp: spawn_executor_for_handoff_def split: option.splits sum.splits)
  from n obtain agent where a: "select_agent (sr_agents r) w = Some (Inr agent)"
    and h: "hd_id h = sess_id ulid" "hd_project_root h = root" "hd_agent_id h = ad_id agent" "hd_agent_kind h = ad_kind agent"
      "hd_profile_id h = trim (ht_executor_profile_id (pk_target p))"
    and r': "r' = insert_session (sess_id ulid) h r"
    unfolding create_Inr by (auto dest!: spawn_session_Inr)
  have named: "\<forall>i. w = Some i \<longrightarrow> registry_get (sr_agents r) i = Inr agent \<and> ad_id agent = i"
    using a by (auto simp: select_agent_def split: sum.splits dest: registry_get_Inr)
  from c named show ?thesis
    unfolding executor_check_Inr Inr sum.case h r'
    by (auto simp: get_session_def insert_session_def update_conv' h)
qed

text \<open>The default agent is used without asking whether the profile admits its kind.\<close>

lemma default_agent_kind_unchecked:
  "executor_check env clk r p root None = executor_check env clk (r\<lparr>sr_agents := other\<rparr>) p root None"
  by (simp add: executor_check_def Let_def filter_opt_def split: option.split sum.split)

section \<open>The registry over time\<close>

text \<open>
  Calls on the registry, transitions of the sessions in it, and the reaper, which first lists the
  closed sessions and then drops them one by one; other calls come in between.
\<close>

record registry_system =
  rg_registry :: session_registry
  rg_to_drop :: "string list"

datatype registry_call =
    CallCreate spawn_env string string string "string option" "string option"
  | CallResume spawn_env session_meta string
  | CallExecutor spawn_env clock string packet string "string option"
  | CallSetOwner string string
  | CallRemove string
  | CallState string holder_op
  | CallReload "agent_error + agent_registry"
  | ReaperScan
  | ReaperDrop

definition closed_handle :: "session_handle \<Rightarrow> bool" where
  "closed_handle h \<longleftrightarrow> is_terminal (holder_state (hd_state h))"

definition reaper_scan :: "session_registry \<Rightarrow> string list" where
  "reaper_scan r = map fst (filter (\<lambda>x. closed_handle (snd x)) (sr_sessions r))"

definition session_transition :: "string \<Rightarrow> holder_op \<Rightarrow> session_registry \<Rightarrow> session_registry" where
  "session_transition i c r =
     (case get_session i r of
        None \<Rightarrow> r
      | Some h \<Rightarrow> insert_session i (h\<lparr>hd_state := holder_step (hd_state h) c\<rparr>) r)"

definition after_call :: "session_registry \<Rightarrow> ('a \<times> session_registry) option \<Rightarrow> session_registry" where
  "after_call r res = (case res of None \<Rightarrow> r | Some x \<Rightarrow> snd x)"

fun registry_call_effect :: "session_registry \<Rightarrow> registry_call \<Rightarrow> session_registry" where
  "registry_call_effect r (CallCreate env ulid pid root agent wid) =
     after_call r (create_with_agent_and_workflow env ulid pid root agent wid r)"
| "registry_call_effect r (CallResume env meta mode) = after_call r (resume_native env meta mode r)"
| "registry_call_effect r (CallExecutor env clk ulid p root agent) =
     after_call r (spawn_executor_for_handoff env clk ulid p root agent r)"
| "registry_call_effect r (CallSetOwner i p) = set_owner i p r"
| "registry_call_effect r (CallRemove i) = snd (remove_session i r)"
| "registry_call_effect r (CallState i c) = session_transition i c r"
| "registry_call_effect r (CallReload loaded) = snd (reload_session_agents loaded r)"
| "registry_call_effect r ReaperScan = r"
| "registry_call_effect r ReaperDrop = r"

fun registry_step :: "registry_system \<Rightarrow> registry_call \<Rightarrow> registry_system" where
  "registry_step s ReaperScan =
     (if rg_to_drop s = [] then s\<lparr>rg_to_drop := reaper_scan (rg_registry s)\<rparr> else s)"
| "registry_step s ReaperDrop =
     (case rg_to_drop s of
        [] \<Rightarrow> s
      | i # rest \<Rightarrow> s\<lparr>rg_registry := snd (remove_session i (rg_registry s)), rg_to_drop := rest\<rparr>)"
| "registry_step s c = s\<lparr>rg_registry := registry_call_effect (rg_registry s) c\<rparr>"

definition registry_start :: "agent_registry \<Rightarrow> string \<Rightarrow> registry_system" where
  "registry_start agents root = \<lparr>rg_registry = with_runtime_and_profiles agents root, rg_to_drop = []\<rparr>"

text \<open>The id under which a call registers a session, if it does.\<close>

fun inserted_id :: "registry_call \<Rightarrow> string option" where
  "inserted_id (CallCreate env ulid pid root agent wid) = Some (sess_id ulid)"
| "inserted_id (CallResume env meta mode) = Some (sm_vac_session_id meta)"
| "inserted_id (CallExecutor env clk ulid p root agent) = Some (sess_id ulid)"
| "inserted_id c = None"

definition inserted :: "registry_call list \<Rightarrow> string list" where
  "inserted cs = List.map_filter inserted_id cs"

text \<open>The principal the last \<open>set_owner\<close> named for a session.\<close>

fun stamped_owner :: "string \<Rightarrow> string option \<Rightarrow> registry_call \<Rightarrow> string option" where
  "stamped_owner i o' (CallSetOwner j p) = (if i = j then Some p else o')"
| "stamped_owner i o' c = o'"

definition last_owner :: "registry_call list \<Rightarrow> string \<Rightarrow> string option" where
  "last_owner cs i = foldl (stamped_owner i) None cs"

text \<open>What a call can do to the sessions: register one under its id, or nothing.\<close>

lemma after_create:
  "after_call r (create_with_agent_and_workflow env ulid pid root agent wid r) = r
   \<or> (\<exists>h. after_call r (create_with_agent_and_workflow env ulid pid root agent wid r) = insert_session (sess_id ulid) h r
        \<and> hd_id h = sess_id ulid)"
proof (cases "create_with_agent_and_workflow env ulid pid root agent wid r")
  case (Some x)
  obtain res r' where x: "x = (res, r')" by (cases x)
  show ?thesis
  proof (cases res)
    case (Inl e)
    with Some x create_else show ?thesis by (force simp: after_call_def)
  next
    case (Inr h)
    with Some x create_inserted [of env ulid pid root agent wid r h r'] show ?thesis
      by (auto simp: after_call_def)
  qed
qed (simp add: after_call_def)

lemma after_executor:
  "after_call r (spawn_executor_for_handoff env clk ulid p root agent r) = r
   \<or> (\<exists>h. after_call r (spawn_executor_for_handoff env clk ulid p root agent r) = insert_session (sess_id ulid) h r
        \<and> hd_id h = sess_id ulid)"
proof -
  have "after_call r (spawn_executor_for_handoff env clk ulid p root agent r) =
     (case executor_check env clk r p root agent of
        Some (Inr w) \<Rightarrow> after_call r (create_with_agent_and_workflow env ulid (trim (ht_executor_profile_id (pk_target p))) root w None r)
      | _ \<Rightarrow> r)"
    by (auto simp: spawn_executor_for_handoff_def after_call_def split: option.split sum.split)
  then show ?thesis using after_create [of r env ulid "trim (ht_executor_profile_id (pk_target p))" root _ None]
    by (simp split: option.split sum.split)
qed

lemma after_resume:
  "after_call r (resume_native env meta mode r) = r
   \<or> (\<exists>h. after_call r (resume_native env meta mode r) = insert_session (sm_vac_session_id meta) h r
        \<and> hd_id h = sm_vac_session_id meta)"
  by (auto simp: resume_native_def after_call_def resume_options_def
      split: option.splits sum.splits spawn_error.splits load_error.splits dest!: spawn_session_Inr)

lemma call_inserts:
  "inserted_id c = Some i \<Longrightarrow> registry_call_effect r c = r
     \<or> (\<exists>h. registry_call_effect r c = insert_session i h r \<and> hd_id h = i)"
proof (cases c)
  case (CallCreate env ulid pid root agent wid)
  with after_create [of r env ulid pid root agent wid] show "inserted_id c = Some i \<Longrightarrow> ?thesis" by simp
next
  case (CallResume env meta mode)
  with after_resume [of r env meta mode] show "inserted_id c = Some i \<Longrightarrow> ?thesis" by simp
next
  case (CallExecutor env clk ulid p root agent)
  with after_executor [of r env clk ulid p root agent] show "inserted_id c = Some i \<Longrightarrow> ?thesis" by simp
qed simp_all

lemma get_session_insert [simp]: "get_session j (insert_session i h r) = (if j = i then Some h else get_session j r)"
  by (simp add: get_session_def insert_session_def update_conv')

lemma get_session_remove [simp]:
  "get_session j (snd (remove_session i r)) = (if j = i then None else get_session j r)"
  by (auto simp: get_session_def remove_session_def clear_owner_def delete_conv' split: option.split)

lemma get_session_set_owner [simp]: "get_session j (set_owner i p r) = get_session j r"
  by (simp add: get_session_def set_owner_def)

lemma get_session_reload [simp]: "get_session j (snd (reload_session_agents l r)) = get_session j r"
  by (simp add: get_session_def reload_session_agents_def split: sum.split)

lemma get_session_transition:
  "get_session j (session_transition i c r) =
     (if j = i then map_option (\<lambda>h. h\<lparr>hd_state := holder_step (hd_state h) c\<rparr>) (get_session j r) else get_session j r)"
  by (auto simp: session_transition_def split: option.split)

lemma closed_stays: "closed_handle h \<Longrightarrow> closed_handle (h\<lparr>hd_state := holder_step (hd_state h) c\<rparr>)"
  by (cases c) (auto simp: closed_handle_def is_terminal_def transition_def set_close_reason_def)

text \<open>
  The invariant of a run in which no id is registered twice: what the reaper is about to drop was
  closed when it looked, and is closed still.
\<close>

definition reaper_inv :: "registry_call list \<Rightarrow> registry_system \<Rightarrow> bool" where
  "reaper_inv cs s \<longleftrightarrow> distinct_keys (sr_sessions (rg_registry s)) \<and> (distinct (inserted cs) \<longrightarrow>
     (\<forall>i h. get_session i (rg_registry s) = Some h \<longrightarrow> i \<in> set (inserted cs) \<and> hd_id h = i)
     \<and> (\<forall>i \<in> set (rg_to_drop s). i \<in> set (inserted cs)
          \<and> (\<forall>h. get_session i (rg_registry s) = Some h \<longrightarrow> closed_handle h)))"

lemma inserted_snoc: "inserted (cs @ [c]) = inserted cs @ (case inserted_id c of None \<Rightarrow> [] | Some i \<Rightarrow> [i])"
  by (simp add: inserted_def List.map_filter_def split: option.split)


lemma other_call:
  "inserted_id c = None \<Longrightarrow> get_session i (registry_call_effect r c) = Some h \<Longrightarrow>
     \<exists>h0. get_session i r = Some h0 \<and> hd_id h = hd_id h0 \<and> (closed_handle h0 \<longrightarrow> closed_handle h)"
  by (cases c) (auto simp: get_session_transition closed_stays split: if_splits)

lemma keys_insert [simp]: "distinct_keys (sr_sessions r) \<Longrightarrow> distinct_keys (sr_sessions (insert_session i h r))"
  by (simp add: insert_session_def distinct_keys_def distinct_update)

lemma keys_remove [simp]: "distinct_keys (sr_sessions r) \<Longrightarrow> distinct_keys (sr_sessions (snd (remove_session i r)))"
  by (simp add: remove_session_def clear_owner_def distinct_keys_def distinct_delete split: option.split)

lemma keys_call:
  assumes "distinct_keys (sr_sessions r)"
  shows "distinct_keys (sr_sessions (registry_call_effect r c))"
proof (cases "inserted_id c")
  case None
  then show ?thesis using assms
    by (cases c) (auto simp: set_owner_def session_transition_def reload_session_agents_def split: option.split sum.split)
next
  case (Some i)
  with call_inserts [OF this, of r] assms show ?thesis by auto
qed

lemma reaper_inv_scan:
  assumes "reaper_inv cs s"
  shows "reaper_inv (cs @ [ReaperScan]) (registry_step s ReaperScan)"
  using assms by (auto simp: reaper_inv_def inserted_snoc reaper_scan_def get_session_def alist_set_map_of)

lemma reaper_inv_drop:
  assumes "reaper_inv cs s"
  shows "reaper_inv (cs @ [ReaperDrop]) (registry_step s ReaperDrop)"
  using assms by (auto simp: reaper_inv_def inserted_snoc split: list.split)

lemma reaper_inv_call:
  assumes inv: "reaper_inv cs s"
  shows "reaper_inv (cs @ [c]) (s\<lparr>rg_registry := registry_call_effect (rg_registry s) c\<rparr>)"
proof (cases "inserted_id c")
  case None
  with inv show ?thesis
    by (fastforce simp: reaper_inv_def inserted_snoc keys_call dest: other_call)
next
  case (Some i)
  with inv call_inserts [OF Some, of "rg_registry s"] show ?thesis
    by (auto simp: reaper_inv_def inserted_snoc keys_call split: if_splits)
qed

lemma reaper_inv_step:
  assumes "reaper_inv cs s"
  shows "reaper_inv (cs @ [c]) (registry_step s c)"
  using reaper_inv_scan [OF assms] reaper_inv_drop [OF assms] reaper_inv_call [OF assms, of c] by (cases c) auto

interpretation registry_traced: traced_system registry_step reaper_inv
  by unfold_locales (rule reaper_inv_step)

lemma reaper_inv_start: "reaper_inv [] (registry_start agents root)"
  by (simp add: reaper_inv_def registry_start_def with_runtime_and_profiles_def get_session_def inserted_def
      List.map_filter_def)

text \<open>
  C40: The reaper forgets only closed sessions. In any run of the registry in which no session id is
  registered twice, whatever comes between its look at the sessions and the removal of one of them,
  a session that it removes has closed, and it is the one that was registered under this id.
\<close>
theorem reaper_drops_closed:
  assumes "distinct (inserted cs)"
    and "rg_to_drop (foldl registry_step (registry_start agents root) cs) = i # rest"
    and "get_session i (rg_registry (foldl registry_step (registry_start agents root) cs)) = Some h"
  shows "holder_state (hd_state h) = Closed \<and> hd_id h = i"
  using registry_traced.run_inv [OF reaper_inv_start [of agents root], of cs] assms
  by (auto simp: reaper_inv_def closed_handle_def is_terminal_def)

text \<open>The owner of a session is the principal the last \<open>set_owner\<close> named, or nobody.\<close>

definition owner_inv :: "registry_call list \<Rightarrow> registry_system \<Rightarrow> bool" where
  "owner_inv cs s \<longleftrightarrow> (\<forall>i p. session_owner i (rg_registry s) = Some p \<longrightarrow> last_owner cs i = Some p)"

lemma owner_remove: "session_owner j (snd (remove_session i r)) = Some p \<Longrightarrow> session_owner j r = Some p"
  by (auto simp: session_owner_def remove_session_def clear_owner_def split: option.splits if_splits)

lemma owner_call:
  assumes "session_owner i (registry_call_effect r c) = Some p"
  shows "stamped_owner i (session_owner i r) c = Some p"
proof (cases "inserted_id c")
  case (Some j)
  with call_inserts [OF this, of r] assms show ?thesis
    by (cases c) (auto simp: session_owner_def insert_session_def)
next
  case None
  with assms show ?thesis
    by (cases c) (auto simp: session_owner_def set_owner_def session_transition_def insert_session_def
        reload_session_agents_def remove_session_def clear_owner_def split: if_splits option.splits sum.splits)
qed

lemma owner_inv_step:
  assumes "owner_inv cs s"
  shows "owner_inv (cs @ [c]) (registry_step s c)"
proof -
  have other: "stamped_owner i (session_owner i (rg_registry s)) c = Some p \<Longrightarrow> last_owner (cs @ [c]) i = Some p" for i p
    using assms by (cases c) (auto simp: owner_inv_def last_owner_def)
  show ?thesis
  proof (cases "c = ReaperDrop \<or> c = ReaperScan")
    case True
    then show ?thesis
      using assms by (auto simp: owner_inv_def last_owner_def dest!: owner_remove split: list.splits if_splits)
  next
    case False
    then have "registry_step s c = s\<lparr>rg_registry := registry_call_effect (rg_registry s) c\<rparr>"
      by (cases c) auto
    then show ?thesis
      by (auto simp: owner_inv_def dest!: owner_call other)
  qed
qed

interpretation owner_traced: traced_system registry_step owner_inv
  by unfold_locales (rule owner_inv_step)

lemma owner_is_last_set:
  "session_owner i (rg_registry (foldl registry_step (registry_start agents root) cs)) = Some p \<Longrightarrow> last_owner cs i = Some p"
  using owner_traced.run_inv [of "registry_start agents root" cs]
  by (auto simp: owner_inv_def session_owner_def registry_start_def with_runtime_and_profiles_def)

section \<open>Examples\<close>

definition example_executor_profile :: capability_profile where
  "example_executor_profile = example_profile\<lparr>prof_id := ''exec'', prof_class := Executor\<rparr>"

definition example_spawn_env :: spawn_env where
  "example_spawn_env =
     \<lparr>se_exists = \<lambda>_. True, se_raw = \<lambda>_. Inr example_executor_profile, se_profile_text = \<lambda>_. [],
      se_workflows = Map.empty, se_start = \<lambda>_. None, se_load = \<lambda>_. None\<rparr>"

definition example_agents :: agent_registry where
  "example_agents = synth_legacy_registry ''mock-engine''"

lemma example_executor_loads:
  "load_profile (se_raw example_spawn_env) dir i = Some (Inr example_executor_profile)"
  by (subst load_profile_unfold)
    (simp add: example_spawn_env_def check_profile_def validate_consistency_def example_executor_profile_def
      example_profile_def fs_config_default_def default_fs_write_def agent_kind_names_def)

definition example_task :: packet_task where
  "example_task =
     \<lparr>pt_id = ''t'', pt_title = ''t'', pt_rationale = ''r'', pt_source_finding_ids = [], pt_evidence_refs = [],
      pt_steps = [], pt_constraints = [], pt_risk_notes = [], pt_est_effort = None, pt_depends_on = [],
      pt_touches_paths = [], pt_requires_approval_per_step = False, pt_rollback_steps = []\<rparr>"

definition example_ready_packet :: packet where
  "example_ready_packet =
     \<lparr>pk_id = ''p'', pk_title = ''p'', pk_summary = None, pk_source_run_ids = [], pk_accepted_finding_ids = [],
      pk_created_by = ''ann'', pk_created_at = [],
      pk_pin = \<lparr>pin_repo_ref = ''main'', pin_base_commit_sha = ''c0'', pin_worktree_digest = ''d0'',
                pin_assessment_snapshot_at = ''+1'', pin_connector_snapshots = [], pin_expires_at = ''+1'',
                pin_invalidate_on_repo_change = True, pin_policy = Lenient\<rparr>,
      pk_tasks = [example_task], pk_order_hint = None,
      pk_target = \<lparr>ht_kind = ''executor'', ht_executor_profile_id = ''exec'', ht_session_title = None\<rparr>,
      pk_approval = \<lparr>ha_required = True, ha_approvers = [], ha_approver_notes = None, ha_approved_at = None,
                     ha_two_party = True, ha_required_roles = []\<rparr>,
      pk_status = Approved, pk_state_history = [], pk_signers = [], pk_required_signers = 2,
      pk_execution_session_id = None, pk_execution_progress = None, pk_execution_outcome = None,
      pk_convergence_count = 0, pk_updated_at = []\<rparr>"

definition example_registry :: session_registry where
  "example_registry = with_runtime_and_profiles example_agents ''/p''"

definition example_default_agent :: agent_definition where
  "example_default_agent =
     \<lparr>ad_id = ''default'', ad_label = ''Default engine'', ad_kind = MockAgent, ad_command = ''mock-engine'',
      ad_args = [''--stdio''], ad_enabled = True, ad_permission_timeout_ms = 300000, ad_install_hint = None,
      ad_mcp_servers = []\<rparr>"

lemma example_kind: "infer_legacy_agent_kind ''mock-engine'' = MockAgent"
  by code_simp

lemma example_agents_default:
  "default_agent example_agents = Some example_default_agent"
  "registry_get example_agents ''default'' = Inr example_default_agent"
  by (simp_all add: example_agents_def synth_legacy_registry_def example_kind default_agent_def registry_get_def
      example_default_agent_def default_permission_timeout_ms_def)

lemma example_registry_simps [simp]:
  "sr_agents example_registry = example_agents" "sr_profile_root example_registry = ''/p''"
  "sr_sessions example_registry = []"
  by (simp_all add: example_registry_def with_runtime_and_profiles_def)

definition example_handle :: "string \<Rightarrow> session_handle" where
  "example_handle i =
     \<lparr>hd_id = i, hd_profile_id = ''exec'', hd_project_root = ''/w'', hd_agent_id = ''default'',
      hd_agent_kind = MockAgent, hd_workflow_id = default_build_spec_id, hd_workflow_name = [],
      hd_state = \<lparr>holder_state = Ready, holder_close_reason = None\<rparr>\<rparr>"

lemma example_spawn:
  "so_agent opts = example_default_agent \<Longrightarrow> so_workflow_id opts = None \<Longrightarrow> so_profile_id opts = ''exec'' \<Longrightarrow>
     so_project_root opts = ''/w'' \<Longrightarrow>
     spawn_session example_spawn_env opts = Inr (example_handle (so_session_id opts))"
  by (simp add: spawn_session_def spawn_jsonrpc_def example_spawn_env_def resolve_workflow_def new_handle_def
      example_handle_def example_default_agent_def transition_def state_holder_new_def)

lemma example_exec_trim: "trim ''exec'' = ''exec''" "trim ''default'' = ''default''"
  by code_simp+

lemma example_env_simps [simp]:
  "se_exists example_spawn_env path" "prof_class example_executor_profile = Executor"
  "prof_allowed_agent_kinds example_executor_profile = [''mock'']"
  "ad_kind example_default_agent = MockAgent" "ad_enabled example_default_agent"
  by (simp_all add: example_spawn_env_def example_executor_profile_def example_profile_def example_default_agent_def)

lemma example_packet_simps [simp]:
  "can_dispatch (unary_clock 0) example_ready_packet" "pk_tasks example_ready_packet \<noteq> []"
  "ht_executor_profile_id (pk_target example_ready_packet) = ''exec''"
  by (simp_all add: can_dispatch_def example_ready_packet_def pin_is_complete_def pin_is_expired_def
      unary_clock_def unwrap_or_def)

lemma example_executor_check:
  "executor_check example_spawn_env (unary_clock 0) example_registry example_ready_packet ''/w'' (Some ''default'') = Some (Inr (Some ''default''))"
  unfolding executor_check_Inr
  by (simp add: wanted_agent_def filter_opt_def example_exec_trim example_executor_loads example_agents_default)

lemma example_executor:
  "spawn_executor_for_handoff example_spawn_env (unary_clock 0) ''1'' example_ready_packet ''/w'' (Some ''default'') example_registry
     = Some (Inr (example_handle (sess_id ''1'')), insert_session (sess_id ''1'') (example_handle (sess_id ''1'')) example_registry)"
  unfolding spawn_executor_for_handoff_def example_executor_check
  by (simp add: create_with_agent_and_workflow_def select_agent_def example_agents_default
      example_spawn example_exec_trim Let_def)

theorem executor_spawn_guarded_witness:
  "can_dispatch (unary_clock 0) example_ready_packet \<and> pk_tasks example_ready_packet \<noteq> []
   \<and> hd_profile_id (example_handle (sess_id ''1'')) = trim (ht_executor_profile_id (pk_target example_ready_packet))"
  using executor_spawn_guarded [OF example_executor] by simp

text \<open>One session that closes and is found by the reaper.\<close>

definition example_calls :: "registry_call list" where
  "example_calls =
     [CallCreate example_spawn_env ''1'' ''exec'' ''/w'' None None,
      CallState (sess_id ''1'') (Transition Closing), CallState (sess_id ''1'') (Transition Closed), ReaperScan]"

definition example_closed :: session_handle where
  "example_closed = (example_handle (sess_id ''1''))\<lparr>hd_state := \<lparr>holder_state = Closed, holder_close_reason = None\<rparr>\<rparr>"

lemma example_create_call:
  "create_with_agent_and_workflow example_spawn_env ''1'' ''exec'' ''/w'' None None example_registry
     = Some (Inr (example_handle (sess_id ''1'')), insert_session (sess_id ''1'') (example_handle (sess_id ''1'')) example_registry)"
  by (simp add: create_with_agent_and_workflow_def select_agent_def example_agents_default example_spawn Let_def)

lemma example_registry_run:
  "foldl registry_step (registry_start example_agents ''/p'') example_calls =
     \<lparr>rg_registry = insert_session (sess_id ''1'') example_closed example_registry, rg_to_drop = [sess_id ''1'']\<rparr>"
  by (simp add: example_calls_def registry_start_def example_registry_def [symmetric] example_create_call after_call_def
      session_transition_def)
    (simp add: insert_session_def example_closed_def example_handle_def transition_def reaper_scan_def
      closed_handle_def is_terminal_def)

theorem reaper_drops_closed_witness:
  "holder_state (hd_state example_closed) = Closed \<and> hd_id example_closed = sess_id ''1''"
  by (rule reaper_drops_closed [of example_calls example_agents "''/p''" "sess_id ''1''" "[]"])
    (simp_all add: example_registry_run, simp add: example_calls_def inserted_def List.map_filter_def)

text \<open>
  A native resume may register an id again between the reaper's look and its removal: the reaper then
  drops the running session (and its owner).
\<close>

definition example_stored_meta :: session_meta where
  "example_stored_meta =
     \<lparr>sm_version = 1, sm_vac_session_id = sess_id ''1'', sm_agent_session_id = Some ''a'', sm_agent_id = ''default'',
      sm_agent_kind = ''mock'', sm_project_root = ''/w'', sm_profile_id = ''exec'', sm_workflow_id = None,
      sm_created_at = 0, sm_updated_at = 0, sm_status = PsActive,
      sm_native_resume = \<lparr>nr_load_session_supported = True, nr_last_verified_at = None\<rparr>,
      sm_mcp_servers = [], sm_agent_capabilities = JNull, sm_profile_class = Some ''executor''\<rparr>"

lemma example_resume:
  assumes "sr_agents r = example_agents" "sr_profile_root r = ''/p''"
  shows "resume_native example_spawn_env example_stored_meta ''acp_load'' r =
    Some (ResumeStarted (example_handle (sess_id ''1'')) [], insert_session (sess_id ''1'') (example_handle (sess_id ''1'')) r)"
  unfolding resume_native_started resume_check_Inr
  by (intro exI [of _ example_default_agent] exI [of _ "''a''"] conjI exI [of _ example_executor_profile])
    (simp_all add: assms example_agents_default profile_admits_def example_stored_meta_def example_executor_loads
      resume_options_def example_spawn insert_session_def)

lemma reaper_drops_resumed_session:
  "let s = foldl registry_step (registry_start example_agents ''/p'')
             (example_calls @ [CallResume example_spawn_env example_stored_meta ''acp_load'', CallSetOwner (sess_id ''1'') ''ann''])
   in map_option (\<lambda>h. holder_state (hd_state h)) (get_session (sess_id ''1'') (rg_registry s)) = Some Ready
      \<and> get_session (sess_id ''1'') (rg_registry (registry_step s ReaperDrop)) = None
      \<and> session_owner (sess_id ''1'') (rg_registry (registry_step s ReaperDrop)) = None"
  by (simp add: example_registry_run example_resume after_call_def insert_session_def)
    (simp add: example_handle_def get_session_def set_owner_def session_owner_def remove_session_def clear_owner_def
      update_conv')

text \<open>An owner set after the session is gone stays behind, for whoever registers the id next.\<close>

lemma owner_outlives_session:
  "session_owner i (set_owner i p (snd (remove_session i r))) = Some p"
  "get_session i (set_owner i p (snd (remove_session i r))) = None"
  by (simp_all add: session_owner_def set_owner_def get_session_def remove_session_def clear_owner_def delete_conv'
      split: option.split)

end
