(* ===== verification/Session_Commands.thy ===== *)
theory Session_Commands
  imports Session_Registry Session_Sink Policy Resume_Policy Event_Ring Observability
begin

text \<open>
  \<open>apps/local-bridge/src/translator/mod.rs\<close>: the commands that create, list, configure and close
  sessions and that list and forget their history, with the events of \<open>notify.rs\<close> and
  \<open>capabilities.rs\<close>. A handler reads its world from a \<open>command_env\<close> and returns a reply and the new
  state; \<open>None\<close> is a call that panics or never returns. What a spawned session writes to the store
  is the field \<open>ce_writes\<close> (see \<open>Session_Sink\<close>).
\<close>

section \<open>Notifications and capabilities\<close>

datatype lane = LaneTransient | LanePersistent | LaneSticky

fun lane_str :: "lane \<Rightarrow> string" where
  "lane_str LaneTransient = ''transient''"
| "lane_str LanePersistent = ''persistent''"
| "lane_str LaneSticky = ''sticky''"

datatype notify_severity = NotifyOk | NotifyInfo | NotifyWarn | NotifyError

fun notify_severity_str :: "notify_severity \<Rightarrow> string" where
  "notify_severity_str NotifyOk = ''ok''"
| "notify_severity_str NotifyInfo = ''info''"
| "notify_severity_str NotifyWarn = ''warn''"
| "notify_severity_str NotifyError = ''error''"

definition notify_event ::
    "clock \<Rightarrow> string \<Rightarrow> string \<Rightarrow> lane \<Rightarrow> notify_severity \<Rightarrow> string \<Rightarrow> string \<Rightarrow> string \<Rightarrow> server_event" where
  "notify_event clk ulid sid l sev subsystem title message =
     mk_event sid ''notify.event''
       (JObj [(''id'', JStr (''ntfy_'' @ ulid)), (''lane'', JStr (lane_str l)),
              (''severity'', JStr (notify_severity_str sev)), (''subsystem'', JStr subsystem),
              (''title'', JStr title), (''message'', JStr message), (''ts'', JStr (now_iso clk))])
       (now_iso clk)"

definition system_pulse_event :: "clock \<Rightarrow> string \<Rightarrow> (string \<times> string \<times> string) list \<Rightarrow> server_event" where
  "system_pulse_event clk sid facets =
     mk_event sid ''system_pulse.updated''
       (JObj [(''facets'', JArr (map (\<lambda>(kind, label, sev).
          JObj [(''kind'', JStr kind), (''label'', JStr label), (''severity'', JStr sev)]) facets))])
       (now_iso clk)"

definition activity_event :: "clock \<Rightarrow> string \<Rightarrow> string \<Rightarrow> string \<Rightarrow> notify_severity \<Rightarrow> string \<Rightarrow> server_event" where
  "activity_event clk ulid sid subsystem sev summary =
     mk_event sid ''activity.appended''
       (JObj [(''id'', JStr (''act_'' @ ulid)), (''ts'', JStr (now_iso clk)), (''subsystem'', JStr subsystem),
              (''severity'', JStr (notify_severity_str sev)), (''summary'', JStr summary)])
       (now_iso clk)"

record action_spec =
  ap_id :: string
  ap_label :: string
  ap_description :: string
  ap_group :: string
  ap_keybinding :: "string option"
  ap_slash_alias :: "string option"
  ap_palette_visible :: bool
  ap_required_capabilities :: "string list"
  ap_available_when :: "string option"

definition v1_actions :: "action_spec list" where
  "v1_actions =
    [\<lparr>ap_id = ''session.close'', ap_label = ''Close session'', ap_description = ''Terminate the active session.'',
      ap_group = ''Session'', ap_keybinding = None, ap_slash_alias = Some ''/close'', ap_palette_visible = True,
      ap_required_capabilities = [], ap_available_when = Some ''session.open''\<rparr>,
     \<lparr>ap_id = ''message.cancel_stream'', ap_label = ''Cancel stream'',
      ap_description = ''Stop the current assistant response.'',
      ap_group = ''Session'', ap_keybinding = Some ''Escape'', ap_slash_alias = Some ''/cancel'', ap_palette_visible = True,
      ap_required_capabilities = [], ap_available_when = Some ''session.streaming''\<rparr>,
     \<lparr>ap_id = ''system.ping'', ap_label = ''Ping bridge'',
      ap_description = ''Health check '' @ em_dash @ '' returns pong from engine.'',
      ap_group = ''System'', ap_keybinding = None, ap_slash_alias = Some ''/ping'', ap_palette_visible = True,
      ap_required_capabilities = [], ap_available_when = None\<rparr>,
     \<lparr>ap_id = ''session.list'', ap_label = ''List sessions'', ap_description = ''Show all active sessions.'',
      ap_group = ''Session'', ap_keybinding = None, ap_slash_alias = Some ''/sessions'', ap_palette_visible = True,
      ap_required_capabilities = [], ap_available_when = None\<rparr>]"

definition action_json :: "action_spec \<Rightarrow> json" where
  "action_json a =
     JObj ([(''id'', JStr (ap_id a)), (''label'', JStr (ap_label a)), (''description'', JStr (ap_description a)),
            (''group'', JStr (ap_group a))]
           @ opt_field ''keybinding'' (ap_keybinding a) @ opt_field ''slash_alias'' (ap_slash_alias a)
           @ [(''palette_visible'', JBool (ap_palette_visible a)),
              (''required_capabilities'', json_strs (ap_required_capabilities a))]
           @ opt_field ''available_when'' (ap_available_when a))"

definition bundled_order :: "string list" where
  "bundled_order =
     [''build.observe-tools'', ''build.full-cockpit'', ''build.approval-gated-edit'', ''build.basic'',
      ''assess.report'', ''handoff.package'']"

definition bundled_workflows :: "(string \<rightharpoonup> workflow_spec) \<Rightarrow> json" where
  "bundled_workflows specs =
     JArr (List.map_filter (\<lambda>i. map_option (\<lambda>spec.
        JObj [(''id'', JStr i), (''name'', JStr (wm_name (wf_metadata spec))),
              (''default'', JBool (i = default_build_spec_id))]) (specs i)) bundled_order)"

definition capabilities_payload :: "(string \<rightharpoonup> workflow_spec) \<Rightarrow> json" where
  "capabilities_payload specs =
     JObj [(''actions'', JArr (map action_json v1_actions)),
           (''features'', json_strs [''session'', ''message'', ''approval'', ''replay'']),
           (''workflows'', bundled_workflows specs)]"

section \<open>The world and the state of a command\<close>

record jwt_claims =
  cl_iss :: string
  cl_sub :: string
  cl_aud :: string
  cl_exp :: int
  cl_iat :: int
  cl_device_id :: string
  cl_project_root :: string

text \<open>What a running ACP session knows of its agent, and its ring of events.\<close>

record acp_info =
  ai_session_id :: string
  ai_auth_methods :: json
  ai_agent_capabilities :: json
  ai_agent_info :: json
  ai_models :: json
  ai_modes :: json
  ai_config_options :: json

record live_session =
  lv_acp :: "acp_info option"
  lv_ring :: "server_event event_ring"

record command_env =
  ce_clock :: clock
  ce_ulid :: "nat \<Rightarrow> string"
  ce_policy :: policy_env
  ce_spawn :: spawn_env
  ce_canonicalize :: "string \<Rightarrow> string option"
  ce_live :: "string \<Rightarrow> live_session"
  ce_set_mode :: "string \<Rightarrow> string \<Rightarrow> string option"
  ce_set_config :: "string \<Rightarrow> string \<Rightarrow> json \<Rightarrow> string + json"
  ce_resume_policy :: resume_policy
  ce_codec :: store_codec
  ce_store_root :: string
  ce_io :: io_outcome
  ce_events_io :: io_outcome
  ce_list_fault :: "string option"
  ce_readable :: "string \<Rightarrow> bool"
  ce_health :: persistence_health
  ce_serde_time :: "int \<Rightarrow> string"
  ce_writes :: "string \<Rightarrow> session_disk \<Rightarrow> session_disk"

record bridge_state =
  br_sessions :: session_registry
  br_cache :: profile_cache
  br_disk :: "session_disk option"

type_synonym handled = "(reply \<times> bridge_state) option"

abbreviation answered :: "reply \<Rightarrow> bridge_state \<Rightarrow> handled" where
  "answered r st \<equiv> Some (r, st)"

abbreviation refuse_logged :: "client_command \<Rightarrow> string \<Rightarrow> string \<Rightarrow> server_event list \<Rightarrow> audit_call list \<Rightarrow> reply" where
  "refuse_logged cmd code msg evs au \<equiv> reply_with (ack_err_for cmd code msg) evs [] au"

text \<open>
  A structured log entry, with the plain entry that replaces it when a namespaced key is rejected;
  an entry that does not validate as a whole is dropped.
\<close>

definition session_log ::
    "string \<Rightarrow> string \<Rightarrow> log_actor \<Rightarrow> log_severity \<Rightarrow> string \<Rightarrow> string \<Rightarrow> string option \<Rightarrow> (string \<times> json) list
      \<Rightarrow> string \<times> (string \<times> json) list \<Rightarrow> audit_call list" where
  "session_log subsystem event actor sev sid code profile ns fallback =
     (let b0 = (log_builder_new event actor sev)\<lparr>lb_session_id := Some sid, lb_code := code, lb_profile_id := profile\<rparr> in
      case foldl log_step (Inr b0) (map (\<lambda>(k, v). Namespaced k v) ns) of
        Inl _ \<Rightarrow> [\<lparr>au_session = sid, au_subsystem = subsystem, au_severity = fst fallback, au_fields = JObj (snd fallback)\<rparr>]
      | Inr b \<Rightarrow> (case log_structured subsystem b of Inl _ \<Rightarrow> [] | Inr c \<Rightarrow> [c]))"

section \<open>Scope\<close>

definition claims_scope_allows_path :: "command_env \<Rightarrow> jwt_claims option \<Rightarrow> string \<Rightarrow> bool" where
  "claims_scope_allows_path env claims requested =
     (case claims of
        None \<Rightarrow> True
      | Some c \<Rightarrow>
          if cl_project_root c = [] then True
          else unwrap_or requested (ce_canonicalize env requested)
               = unwrap_or (cl_project_root c) (ce_canonicalize env (cl_project_root c)))"

definition claims_root :: "jwt_claims option \<Rightarrow> string" where
  "claims_root claims = unwrap_or [] (map_option cl_project_root claims)"

definition scope_mismatch_response :: "client_command \<Rightarrow> string \<Rightarrow> string \<Rightarrow> string \<Rightarrow> server_event list \<Rightarrow> reply" where
  "scope_mismatch_response cmd sink root requested evs =
     refuse_logged cmd ''session.scope_mismatch''
       (''requested project_root '' @ ticked requested @ '' is outside JWT scope '' @ ticked root) evs
       [\<lparr>au_session = cmd_session_id cmd, au_subsystem = ''session'', au_severity = ''warn'',
         au_fields = JObj [(''event'', JStr ''scope_mismatch''), (''code'', JStr ''session.scope_mismatch''),
           (''sink'', JStr sink), (''claimed_root'', JStr root), (''requested_root'', JStr requested)]\<rparr>]"

section \<open>The events of a session that starts\<close>

definition session_ready_payload :: "session_handle \<Rightarrow> acp_info option \<Rightarrow> json" where
  "session_ready_payload h acp =
     JObj ([(''id'', JStr (hd_id h)), (''session_id'', JStr (hd_id h)), (''profile_id'', JStr (hd_profile_id h)),
            (''project_root'', JStr (hd_project_root h)), (''agent_id'', JStr (hd_agent_id h)),
            (''agent_kind'', JStr (agent_kind_str (hd_agent_kind h))), (''workflow_id'', JStr (hd_workflow_id h)),
            (''workflow_name'', JStr (hd_workflow_name h)),
            (''auth_methods'', (case acp of Some a \<Rightarrow> ai_auth_methods a | None \<Rightarrow> JArr []))]
           @ (case acp of
                None \<Rightarrow> []
              | Some a \<Rightarrow> [(''agent_capabilities'', ai_agent_capabilities a), (''agent_info'', ai_agent_info a),
                          (''models'', ai_models a), (''modes'', ai_modes a), (''config_options'', ai_config_options a)]))"

definition session_ready_event :: "session_handle \<Rightarrow> acp_info option \<Rightarrow> string \<Rightarrow> server_event" where
  "session_ready_event h acp ts = mk_event (hd_id h) ''session.ready'' (session_ready_payload h acp) ts"

definition session_bootstrap_events :: "command_env \<Rightarrow> session_handle \<Rightarrow> string \<Rightarrow> server_event list" where
  "session_bootstrap_events env h verb =
     (let clk = ce_clock env;
          label = (if verb = ''resumed'' then ''Session resumed'' else ''Session ready'')
      in [session_ready_event h (lv_acp (ce_live env (hd_id h))) (now_iso clk),
          mk_event (hd_id h) ''system.capabilities'' (capabilities_payload (se_workflows (ce_spawn env))) (now_iso clk),
          notify_event clk (ce_ulid env 1) (hd_id h) LaneTransient NotifyOk ''session'' label (''Profile: '' @ hd_profile_id h),
          system_pulse_event clk (hd_id h)
            [(''profile'', hd_profile_id h, ''ok''), (''session_count'', ''1 active'', ''ok'')],
          activity_event clk (ce_ulid env 2) (hd_id h) ''session'' NotifyInfo
            (''Session '' @ verb @ '' with '' @ hd_profile_id h)])"

text \<open>The owner a command stamps on a session: nobody for the anonymous developer.\<close>

definition stamp_owner :: "string option \<Rightarrow> string \<Rightarrow> session_registry \<Rightarrow> session_registry" where
  "stamp_owner caller sid r =
     (case caller of
        None \<Rightarrow> r
      | Some p \<Rightarrow> if p \<noteq> ''dev:anonymous'' \<and> p \<noteq> [] then set_owner sid p r else r)"

definition spawned_disk :: "command_env \<Rightarrow> string \<Rightarrow> session_disk option \<Rightarrow> session_disk option" where
  "spawned_disk env sid d = map_option (ce_writes env sid) d"

section \<open>\<open>session.create\<close>\<close>

definition quoted1 :: "string \<Rightarrow> string" where
  "quoted1 s = [CHR 0x27] @ s @ [CHR 0x27]"

definition agent_refusal_log :: "client_command \<Rightarrow> string \<Rightarrow> string \<Rightarrow> string \<Rightarrow> audit_call list" where
  "agent_refusal_log cmd code reason i =
     session_log ''agent'' ''profile.deny'' System LWarning (cmd_session_id cmd) code None
       [(''profile.decision'', JStr ''deny''), (''profile.reason'', JStr reason), (''profile.agent_id'', JStr i)]
       (''warn'', [(''decision'', JStr ''deny''), (''code'', JStr code), (''reason'', JStr reason), (''agent_id'', JStr i)])"

text \<open>The agent that would run: the named one if it is registered and enabled, or the default.\<close>

definition resolve_agent :: "agent_registry \<Rightarrow> client_command \<Rightarrow> string option \<Rightarrow> (reply + agent_definition) option" where
  "resolve_agent agents cmd requested =
     (case requested of
        None \<Rightarrow> map_option Inr (default_agent agents)
      | Some i \<Rightarrow>
          (case registry_get agents i of
             Inl _ \<Rightarrow>
               (let reason = ''agent '' @ quoted1 i @ '' is not registered'' in
                Some (Inl (refuse_logged cmd ''agent.not_registered'' reason []
                  (agent_refusal_log cmd ''agent.not_registered'' reason i))))
           | Inr a \<Rightarrow>
               if \<not> ad_enabled a
               then (let reason = ''agent '' @ quoted1 i @ '' is disabled'' in
                     Some (Inl (refuse_logged cmd ''agent.disabled'' reason []
                       (agent_refusal_log cmd ''agent.disabled'' reason i))))
               else Some (Inr a)))"

definition kind_refusal :: "client_command \<Rightarrow> string \<Rightarrow> capability_profile \<Rightarrow> agent_definition \<Rightarrow> string \<Rightarrow> reply" where
  "kind_refusal cmd pid profile agent code =
     (let kind = agent_kind_str (ad_kind agent); reason = kind_denial_reason profile kind in
      refuse_logged cmd code reason []
        (session_log ''agent'' ''profile.deny'' System LWarning (cmd_session_id cmd) code (Some pid)
          [(''profile.decision'', JStr ''deny''), (''profile.reason'', JStr reason),
           (''profile.agent_id'', JStr (ad_id agent)), (''profile.agent_kind'', JStr kind)]
          (''warn'', [(''decision'', JStr ''deny''), (''code'', JStr code), (''reason'', JStr reason),
             (''profile_id'', JStr pid), (''agent_id'', JStr (ad_id agent)), (''agent_kind'', JStr kind)])))"

definition created_log :: "string \<Rightarrow> string \<Rightarrow> session_handle \<Rightarrow> audit_call list" where
  "created_log pid root h =
     session_log ''session'' ''session.created'' System LInfo (hd_id h) [] (Some pid)
       ([(''profile.project_root'', JStr root), (''profile.agent_id'', JStr (hd_agent_id h)),
         (''profile.agent_kind'', JStr (agent_kind_str (hd_agent_kind h)))]
        @ (if hd_workflow_id h = [] then [] else [(''workflow.id'', JStr (hd_workflow_id h))]))
       (''info'', [(''event'', JStr ''created''), (''profile_id'', JStr pid), (''project_root'', JStr root),
          (''agent_id'', JStr (hd_agent_id h)), (''agent_kind'', JStr (agent_kind_str (hd_agent_kind h))),
          (''workflow_id'', JStr (hd_workflow_id h))])"

definition create_failed_log :: "client_command \<Rightarrow> string \<Rightarrow> audit_call list" where
  "create_failed_log cmd err =
     session_log ''session'' ''session.create_failed'' System LError (cmd_session_id cmd) ''session.spawn_failed'' None
       [(''profile.error'', JStr err)] (''error'', [(''event'', JStr ''create_failed''), (''error'', JStr err)])"

definition spawn_created ::
    "command_env \<Rightarrow> string option \<Rightarrow> client_command \<Rightarrow> string \<Rightarrow> string \<Rightarrow> string option \<Rightarrow> string option
      \<Rightarrow> bridge_state \<Rightarrow> handled" where
  "spawn_created env caller cmd pid root agent_id workflow_id st =
     (case create_with_agent_and_workflow (ce_spawn env) (ce_ulid env 0) pid root agent_id workflow_id (br_sessions st) of
        None \<Rightarrow> None
      | Some (Inr h, r) \<Rightarrow>
          answered (reply_with (ack_ok_for cmd) (session_bootstrap_events env h ''created'') [] (created_log pid root h))
            (st\<lparr>br_sessions := stamp_owner caller (hd_id h) r, br_disk := spawned_disk env (hd_id h) (br_disk st)\<rparr>)
      | Some (Inl e, r) \<Rightarrow>
          answered (refuse_logged cmd ''session.spawn_failed'' e [] (create_failed_log cmd e))
            (st\<lparr>br_sessions := r, br_disk := spawned_disk env (sess_id (ce_ulid env 0)) (br_disk st)\<rparr>))"

definition handle_session_create ::
    "command_env \<Rightarrow> jwt_claims option \<Rightarrow> string option \<Rightarrow> client_command \<Rightarrow> bridge_state \<Rightarrow> handled" where
  "handle_session_create env claims caller cmd st =
     (let pid = unwrap_or ''assessor.rtd@1.0.0'' (get_str ''profile_id'' (cmd_payload cmd));
          root = unwrap_or [] (get_str ''project_root'' (cmd_payload cmd));
          agent_id = get_str ''agent_id'' (cmd_payload cmd);
          workflow_id = get_str ''workflow_id'' (cmd_payload cmd);
          profiles = pe_profile_root (ce_policy env)
      in
      if \<not> claims_scope_allows_path env claims root
      then answered (scope_mismatch_response cmd ''session.create'' (claims_root claims) root []) st
      else if \<not> se_exists (ce_spawn env) (profile_path profiles pid)
      then answered (refuse cmd ''profile.not_found'' (''profile '' @ pid @ '' not found'')) st
      else
        (case resolve_agent (sr_agents (br_sessions st)) cmd agent_id of
           None \<Rightarrow> None
         | Some (Inl r) \<Rightarrow> answered r st
         | Some (Inr agent) \<Rightarrow>
             (case load_profile (pe_raw (ce_policy env)) profiles pid of
                None \<Rightarrow> None
              | Some (Inl e) \<Rightarrow> answered (refuse cmd ''profile.load_failed'' (profile_error_text e)) st
              | Some (Inr profile) \<Rightarrow>
                  (case enforce_agent_kind profile (agent_kind_str (ad_kind agent)) of
                     Deny code \<Rightarrow> answered (kind_refusal cmd pid profile agent code) st
                   | Allow \<Rightarrow>
                       (case workflow_id of
                          Some w \<Rightarrow>
                            if se_workflows (ce_spawn env) w = None
                            then answered (refuse cmd ''workflow.not_found''
                                   (''workflow '' @ quoted1 w @ '' is not a bundled workflow'')) st
                            else spawn_created env caller cmd pid root agent_id workflow_id st
                        | None \<Rightarrow> spawn_created env caller cmd pid root agent_id workflow_id st)))))"

section \<open>Listing and configuring\<close>

definition handle_session_list :: "command_env \<Rightarrow> client_command \<Rightarrow> bridge_state \<Rightarrow> handled" where
  "handle_session_list env cmd st =
     answered (reply_with (ack_ok_for cmd)
       [mk_event (cmd_session_id cmd) ''session.list_response''
          (JObj [(''sessions'', json_strs (list_sessions (br_sessions st)))]) (now_iso (ce_clock env))] [] []) st"

text \<open>The session a command names and its ACP side, or the refusal.\<close>

definition acp_session :: "command_env \<Rightarrow> client_command \<Rightarrow> bridge_state \<Rightarrow> reply + acp_info" where
  "acp_session env cmd st =
     (case get_session (cmd_session_id cmd) (br_sessions st) of
        None \<Rightarrow> Inl (refuse cmd ''session.not_found'' (cmd_session_id cmd))
      | Some h \<Rightarrow>
          (case lv_acp (ce_live env (hd_id h)) of
             None \<Rightarrow> Inl (refuse cmd ''session.not_acp'' (cmd_type cmd @ '' requires an ACP session''))
           | Some a \<Rightarrow> Inr a))"

definition handle_mode_set :: "command_env \<Rightarrow> client_command \<Rightarrow> bridge_state \<Rightarrow> handled" where
  "handle_mode_set env cmd st =
     (case acp_session env cmd st of
        Inl r \<Rightarrow> answered r st
      | Inr a \<Rightarrow>
          (case Option.bind (jget_any [''mode_id'', ''modeId''] (cmd_payload cmd)) as_str of
             None \<Rightarrow> answered (refuse cmd ''session.mode_id_required'' ''mode_id is required'') st
           | Some mode \<Rightarrow>
               (case ce_set_mode env (ai_session_id a) mode of
                  Some e \<Rightarrow> answered (refuse cmd ''session.mode_set_failed'' e) st
                | None \<Rightarrow>
                    answered (reply_with (ack_ok_for cmd)
                      [mk_event (cmd_session_id cmd) ''session.mode.updated''
                         (JObj [(''mode_id'', JStr mode), (''source'', JStr ''client'')]) (now_iso (ce_clock env))] [] []) st)))"

definition handle_config_option_set :: "command_env \<Rightarrow> client_command \<Rightarrow> bridge_state \<Rightarrow> handled" where
  "handle_config_option_set env cmd st =
     (case acp_session env cmd st of
        Inl r \<Rightarrow> answered r st
      | Inr a \<Rightarrow>
          (case Option.bind (jget_any [''option_id'', ''optionId''] (cmd_payload cmd)) as_str of
             None \<Rightarrow> answered (refuse cmd ''session.option_id_required'' ''option_id is required'') st
           | Some i \<Rightarrow>
               (let v = unwrap_or JNull (jget ''value'' (cmd_payload cmd)) in
                case ce_set_config env (ai_session_id a) i v of
                  Inl e \<Rightarrow> answered (refuse cmd ''session.config_option_set_failed'' e) st
                | Inr options \<Rightarrow>
                    (let payload =
                       (if options = JNull
                        then JObj [(''option_id'', JStr i), (''value'', v), (''source'', JStr ''client'')]
                        else JObj [(''options'', options), (''source'', JStr ''agent'')])
                     in answered (reply_with (ack_ok_for cmd)
                          [mk_event (cmd_session_id cmd) ''session.config_options.updated'' payload (now_iso (ce_clock env))]
                          [] []) st))))"

definition handle_policy_get :: "command_env \<Rightarrow> client_command \<Rightarrow> bridge_state \<Rightarrow> handled" where
  "handle_policy_get env cmd st =
     (let p = ce_resume_policy env in
      answered (reply_with (ack_ok_for cmd)
        [mk_event (cmd_session_id cmd) ''config.validated''
           (JObj [(''scope'', JStr ''session_resume''), (''ok'', JBool True),
                  (''policy'', JObj [(''default_mode'', JStr (resume_mode_str (rp_default_mode p))),
                     (''native_fallback'', JStr (native_fallback_str (rp_native_fallback p))),
                     (''mcp_server_drift'', JStr (drift_policy_str (rp_mcp_server_drift p))),
                     (''profile_class_mismatch'', JStr (class_policy_str (rp_profile_class_mismatch p))),
                     (''retention_days'', JUint (unat (rp_retention_days p))),
                     (''max_events'', JUint (unat (rp_max_events p)))])])
           (now_iso (ce_clock env))] [] []) st)"

section \<open>History\<close>

definition failure_json :: "command_env \<Rightarrow> health_failure \<Rightarrow> json" where
  "failure_json env f =
     JObj [(''reason'', JStr (hr_reason f)), (''detail'', JStr (hr_detail f)),
           (''vac_session_id'', json_opt JStr (hr_session f)), (''at'', JStr (ce_serde_time env (hr_at f)))]"

fun persisted_status_str :: "persisted_status \<Rightarrow> string" where
  "persisted_status_str PsActive = ''active''"
| "persisted_status_str PsClosed = ''closed''"
| "persisted_status_str PsFailed = ''failed''"
| "persisted_status_str PsForgotten = ''forgotten''"

definition meta_json :: "command_env \<Rightarrow> session_meta \<Rightarrow> json" where
  "meta_json env m =
     JObj [(''vac_session_id'', JStr (sm_vac_session_id m)), (''agent_session_id'', json_opt JStr (sm_agent_session_id m)),
           (''agent_id'', JStr (sm_agent_id m)), (''agent_kind'', JStr (sm_agent_kind m)),
           (''project_root'', JStr (sm_project_root m)), (''profile_id'', JStr (sm_profile_id m)),
           (''workflow_id'', json_opt JStr (sm_workflow_id m)),
           (''created_at'', JStr (ce_serde_time env (sm_created_at m))),
           (''updated_at'', JStr (ce_serde_time env (sm_updated_at m))),
           (''status'', JStr (persisted_status_str (sm_status m))),
           (''native_resume'', JObj [(''load_session_supported'', JBool (nr_load_session_supported (sm_native_resume m))),
              (''last_verified_at'', json_opt (\<lambda>t. JStr (ce_serde_time env t)) (nr_last_verified_at (sm_native_resume m)))])]"

definition history_listed :: "command_env \<Rightarrow> client_command \<Rightarrow> string \<Rightarrow> json list \<Rightarrow> server_event" where
  "history_listed env cmd store rows =
     mk_event (cmd_session_id cmd) ''session.history.listed''
       (JObj [(''sessions'', JArr rows), (''persistence'', JStr store),
              (''health'', JStr (if ph_degraded (ce_health env) then ''degraded'' else ''healthy'')),
              (''recent_failures'', JArr (map (failure_json env) (ph_recent (ce_health env))))])
       (now_iso (ce_clock env))"

definition history_filter_of :: "jwt_claims option \<Rightarrow> client_command \<Rightarrow> history_filter" where
  "history_filter_of claims cmd =
     \<lparr>hf_project_root = (if claims_root claims \<noteq> [] then Some (claims_root claims)
                         else get_str ''project_root'' (cmd_payload cmd)),
      hf_agent_id = get_str ''agent_id'' (cmd_payload cmd), hf_status = None,
      hf_limit = get_u64 ''limit'' (cmd_payload cmd)\<rparr>"

definition handle_history_list :: "command_env \<Rightarrow> jwt_claims option \<Rightarrow> client_command \<Rightarrow> bridge_state \<Rightarrow> handled" where
  "handle_history_list env claims cmd st =
     (case br_disk st of
        None \<Rightarrow> answered (reply_with (ack_ok_for cmd) [history_listed env cmd ''disabled'' []] [] []) st
      | Some d \<Rightarrow>
          (case list_meta (ce_codec env) (ce_list_fault env) (ce_readable env) (history_filter_of claims cmd) d of
             Inl e \<Rightarrow> answered (refuse cmd ''persistence.list_failed'' (persistence_error_text e)) st
           | Inr ms \<Rightarrow>
               answered (reply_with (ack_ok_for cmd) [history_listed env cmd ''file'' (map (meta_json env) ms)] [] []) st))"

definition forgotten_log :: "client_command \<Rightarrow> string \<Rightarrow> audit_call list" where
  "forgotten_log cmd i =
     session_log ''session'' ''session.history_forgotten'' User LInfo (cmd_session_id cmd) [] None
       [(''profile.vac_session_id'', JStr i)]
       (''info'', [(''event'', JStr ''history.forgotten''), (''vac_session_id'', JStr i)])"

definition handle_history_forget :: "command_env \<Rightarrow> client_command \<Rightarrow> bridge_state \<Rightarrow> handled" where
  "handle_history_forget env cmd st =
     (case br_disk st of
        None \<Rightarrow> answered (refuse cmd ''persistence.disabled'' ''session persistence is not configured'') st
      | Some d \<Rightarrow>
          (case get_str ''vac_session_id'' (cmd_payload cmd) of
             None \<Rightarrow> answered (refuse cmd ''protocol.invalid_payload'' ''vac_session_id required'') st
           | Some i \<Rightarrow>
               (case forget_session (ce_io env) i d of
                  (Inl e, d') \<Rightarrow>
                    answered (refuse cmd ''persistence.forget_failed'' (persistence_error_text e)) (st\<lparr>br_disk := Some d'\<rparr>)
                | (Inr _, d') \<Rightarrow>
                    answered (reply_with (ack_ok_for cmd)
                      [mk_event (cmd_session_id cmd) ''session.history.forgotten''
                         (JObj [(''vac_session_id'', JStr i)]) (now_iso (ce_clock env))] [] (forgotten_log cmd i))
                      (st\<lparr>br_disk := Some d'\<rparr>))))"

section \<open>\<open>session.close\<close>\<close>

definition closed_log :: "client_command \<Rightarrow> audit_call list" where
  "closed_log cmd =
     session_log ''session'' ''session.closed'' User LInfo (cmd_session_id cmd) [] None
       [(''profile.reason'', JStr ''user'')] (''info'', [(''event'', JStr ''closed''), (''reason'', JStr ''user'')])"

definition handle_session_close :: "command_env \<Rightarrow> client_command \<Rightarrow> bridge_state \<Rightarrow> handled" where
  "handle_session_close env cmd st =
     (case remove_session (cmd_session_id cmd) (br_sessions st) of
        (None, _) \<Rightarrow> answered (refuse cmd ''session.not_found'' (cmd_session_id cmd)) st
      | (Some _, r) \<Rightarrow>
          answered (reply_with (ack_ok_for cmd)
            [mk_event (cmd_session_id cmd) ''session.closed'' (JObj [(''reason'', JStr ''user'')]) (now_iso (ce_clock env))]
            [] (closed_log cmd)) (st\<lparr>br_sessions := r\<rparr>))"

end
