(* ===== verification/Session_Resume.thy ===== *)
theory Session_Resume
  imports Session_Commands
begin

text \<open>
  \<open>apps/local-bridge/src/translator/mod.rs\<close>: \<open>session.resume\<close> with its table of modes, the native
  attempt, and the replay of a stored transcript.
\<close>

section \<open>Failures\<close>

definition resume_failed ::
    "command_env \<Rightarrow> client_command \<Rightarrow> string \<Rightarrow> string \<Rightarrow> string \<Rightarrow> string \<Rightarrow> string \<Rightarrow> log_actor \<Rightarrow> log_severity
      \<Rightarrow> (string \<times> json) list \<Rightarrow> (string \<times> string) list \<Rightarrow> server_event list \<Rightarrow> audit_call list \<Rightarrow> reply" where
  "resume_failed env cmd target mode reason code msg actor sev details logged evs au =
     refuse_logged cmd code msg
       (evs @ [mk_event target ''session.resume.failed''
          (JObj ([(''vac_session_id'', JStr target), (''mode'', JStr mode), (''reason'', JStr reason)] @ details))
          (now_iso (ce_clock env))])
       (au @ session_log ''session'' ''session.resume_failed'' actor sev target code None
          ([(''profile.reason'', JStr reason), (''profile.mode'', JStr mode)]
           @ map (\<lambda>(k, v). (''profile.'' @ k, JStr v)) logged)
          (audit_severity_of sev, [(''event'', JStr ''resume_failed''), (''reason'', JStr reason), (''mode'', JStr mode)]
             @ map (\<lambda>(k, v). (k, JStr v)) logged))"

definition unknown_mode :: "command_env \<Rightarrow> client_command \<Rightarrow> string \<Rightarrow> string \<Rightarrow> reply" where
  "unknown_mode env cmd target m =
     refuse_logged cmd ''session.unknown_resume_mode'' (''unknown resume_mode '' @ ticked m)
       [mk_event target ''session.resume.failed''
          (JObj [(''vac_session_id'', JStr target), (''mode'', JStr m), (''reason'', JStr ''unknown_resume_mode''),
                 (''requested_mode'', JStr m)]) (now_iso (ce_clock env))]
       (session_log ''session'' ''session.resume_failed'' System LWarning target ''session.unknown_resume_mode'' None
          [(''profile.reason'', JStr ''unknown_resume_mode''), (''profile.requested_mode'', JStr m)]
          (''warn'', [(''event'', JStr ''resume_failed''), (''reason'', JStr ''unknown_resume_mode''),
             (''requested_mode'', JStr m)]))"

definition missing_target :: "command_env \<Rightarrow> client_command \<Rightarrow> string \<Rightarrow> reply" where
  "missing_target env cmd mode =
     refuse_logged cmd ''session.vac_session_unknown'' (''resume_mode '' @ ticked mode @ '' requires vac_session_id'')
       [mk_event (cmd_session_id cmd) ''session.resume.failed''
          (JObj [(''vac_session_id'', JNull), (''mode'', JStr mode), (''reason'', JStr ''vac_session_unknown''),
                 (''detail'', JStr ''resume_mode requires vac_session_id'')]) (now_iso (ce_clock env))] []"

fun refusal_code :: "resume_refusal \<Rightarrow> string" where
  "refusal_code VacSessionUnknown = ''session.vac_session_unknown''"
| "refusal_code AgentNotInRegistry = ''session.agent_not_in_registry''"
| "refusal_code AgentKindMismatch = ''session.agent_kind_mismatch''"
| "refusal_code ProfileNotFound = ''session.profile_not_found''"
| "refusal_code ProfileInvalid = ''session.profile_invalid''"
| "refusal_code AgentKindNotAllowed = ''session.agent_kind_not_allowed''"
| "refusal_code ProjectRootUnavailable = ''session.project_root_unavailable''"
| "refusal_code ProfileClassMismatch = ''session.profile_class_mismatch''"

section \<open>Drift of the MCP servers\<close>

definition count_json :: "nat \<Rightarrow> json" where
  "count_json n = JFloat (dec_digits n @ ''.0'')"

datatype mcp_drift_action = NoDrift | DriftWarned server_event | DriftFailed server_event

definition drift_event ::
    "command_env \<Rightarrow> session_meta \<Rightarrow> agent_definition \<Rightarrow> string \<Rightarrow> string \<Rightarrow> server_event" where
  "drift_event env meta agent target mode =
     mk_event target
       (if rp_mcp_server_drift (ce_resume_policy env) = DriftFail then ''session.resume.failed'' else ''session.resume.warning'')
       (JObj [(''vac_session_id'', JStr target), (''reason'', JStr ''mcp_server_drift''), (''mode'', JStr mode),
              (''agent_id'', JStr (sm_agent_id meta)), (''persisted'', JArr (sm_mcp_servers meta)),
              (''live'', JArr (ad_mcp_servers agent))]) (now_iso (ce_clock env))"

definition drift_log ::
    "command_env \<Rightarrow> session_meta \<Rightarrow> agent_definition \<Rightarrow> string \<Rightarrow> string \<Rightarrow> audit_call list" where
  "drift_log env meta agent target mode =
     (let policy = rp_mcp_server_drift (ce_resume_policy env);
          sev = (if policy = DriftFail then LError else LWarning);
          persisted = length (sm_mcp_servers meta); live = length (ad_mcp_servers agent)
      in session_log ''session'' ''session.resume_mcp_drift'' System sev target [] None
           [(''profile.agent_id'', JStr (sm_agent_id meta)), (''profile.mode'', JStr mode),
            (''profile.policy'', JStr (drift_policy_str policy)), (''profile.persisted_count'', count_json persisted),
            (''profile.live_count'', count_json live)]
           (audit_severity_of sev,
            [(''event'', JStr ''resume_mcp_drift''), (''vac_session_id'', JStr target), (''agent_id'', JStr (sm_agent_id meta)),
             (''mode'', JStr mode), (''policy'', JStr (drift_policy_str policy)),
             (''persisted_count'', JUint persisted), (''live_count'', JUint live)]))"

definition build_mcp_drift_event ::
    "command_env \<Rightarrow> agent_registry \<Rightarrow> session_meta \<Rightarrow> string \<Rightarrow> string \<Rightarrow> mcp_drift_action \<times> audit_call list" where
  "build_mcp_drift_event env agents meta target mode =
     (case registry_get agents (sm_agent_id meta) of
        Inl _ \<Rightarrow> (NoDrift, [])
      | Inr agent \<Rightarrow>
          if sm_mcp_servers meta = ad_mcp_servers agent then (NoDrift, [])
          else if rp_mcp_server_drift (ce_resume_policy env) = DriftIgnore then (NoDrift, [])
          else (let ev = drift_event env meta agent target mode in
                (if rp_mcp_server_drift (ce_resume_policy env) = DriftFail then DriftFailed ev else DriftWarned ev,
                 drift_log env meta agent target mode)))"

section \<open>Replay of a stored transcript\<close>

definition progress_tick_every :: nat where
  "progress_tick_every = 25"

definition replay_progress_event :: "command_env \<Rightarrow> string \<Rightarrow> string \<Rightarrow> nat \<Rightarrow> server_event" where
  "replay_progress_event env target mode n =
     mk_event target ''session.replay.progress''
       (JObj [(''vac_session_id'', JStr target), (''mode'', JStr mode), (''replayed'', JUint n)]) (now_iso (ce_clock env))"

definition row_event :: "command_env \<Rightarrow> string \<Rightarrow> persisted_event \<Rightarrow> server_event" where
  "row_event env target ev =
     \<lparr>ev_seq = unat (pe_seq ev), ev_session_id = target, ev_type = pe_type ev, ev_payload = pe_payload ev, ev_v = 1,
      ev_ts = fmt_time (ce_clock env) (pe_ts ev)\<rparr>"

text \<open>The loop over the rows; \<open>count\<close> is the number of rows sent so far.\<close>

fun replay_rows :: "command_env \<Rightarrow> string \<Rightarrow> string \<Rightarrow> nat \<Rightarrow> persisted_event list \<Rightarrow> server_event list" where
  "replay_rows env target mode count [] = []"
| "replay_rows env target mode count (ev # rest) =
     row_event env target ev
     # (if Suc count mod progress_tick_every = 0 then [replay_progress_event env target mode (Suc count)] else [])
     @ replay_rows env target mode (Suc count) rest"

definition replay_started :: "command_env \<Rightarrow> string \<Rightarrow> session_meta \<Rightarrow> string \<Rightarrow> server_event" where
  "replay_started env target meta mode =
     mk_event target ''session.resume.started''
       (JObj [(''vac_session_id'', JStr target), (''mode'', JStr mode), (''agent_id'', JStr (sm_agent_id meta)),
              (''profile_id'', JStr (sm_profile_id meta)), (''project_root'', JStr (sm_project_root meta))])
       (now_iso (ce_clock env))"

definition replay_finished :: "command_env \<Rightarrow> string \<Rightarrow> string \<Rightarrow> string \<Rightarrow> nat \<Rightarrow> server_event" where
  "replay_finished env target mode resolved n =
     mk_event target ''session.resumed''
       (JObj [(''vac_session_id'', JStr target), (''mode'', JStr mode), (''native'', JBool False),
              (''resume_mode'', JStr resolved), (''replayed_events'', JUint n)]) (now_iso (ce_clock env))"

definition replay_events :: "command_env \<Rightarrow> string \<Rightarrow> session_meta \<Rightarrow> string \<Rightarrow> string \<Rightarrow> persisted_event list \<Rightarrow> server_event list" where
  "replay_events env target meta mode resolved rows =
     (let n = length rows in
      [replay_started env target meta mode, replay_progress_event env target mode 0]
      @ replay_rows env target mode 0 rows
      @ (if n > 0 \<and> n mod progress_tick_every \<noteq> 0 then [replay_progress_event env target mode n] else [])
      @ [replay_finished env target mode resolved n])"

definition replayed_log :: "string \<Rightarrow> string \<Rightarrow> string \<Rightarrow> nat \<Rightarrow> audit_call list" where
  "replayed_log target mode resolved n =
     session_log ''session'' ''session.resumed'' System LInfo target [] None
       [(''profile.mode'', JStr mode), (''profile.resume_mode'', JStr resolved), (''profile.replayed'', count_json n)]
       (''info'', [(''event'', JStr ''resumed''), (''mode'', JStr mode), (''resume_mode'', JStr resolved), (''replayed'', JUint n)])"

definition resume_persistence_replay ::
    "command_env \<Rightarrow> client_command \<Rightarrow> string \<Rightarrow> session_meta \<Rightarrow> string \<Rightarrow> string \<Rightarrow> server_event list \<Rightarrow> audit_call list
      \<Rightarrow> session_disk \<Rightarrow> reply" where
  "resume_persistence_replay env cmd target meta mode resolved evs au d =
     (case load_events (ce_codec env) (ce_store_root env) (ce_events_io env) target 0 d of
        Inl e \<Rightarrow> refuse_logged cmd ''persistence.load_failed'' (persistence_error_text e) evs au
      | Inr rows \<Rightarrow>
          reply_with (ack_ok_for cmd) (evs @ replay_events env target meta mode resolved rows) []
            (au @ replayed_log target mode resolved (length rows)))"

section \<open>The native attempt\<close>

text \<open>The ring of a session as the caller gets it; a ring that has dropped its first event gives nothing.\<close>

definition ring_events :: "server_event event_ring \<Rightarrow> server_event list" where
  "ring_events r =
     (case replay_after 0 r of
        Stream evs \<Rightarrow> map (\<lambda>(s, ev). ev\<lparr>ev_seq := unat s\<rparr>) evs
      | _ \<Rightarrow> [])"

definition warning_event :: "command_env \<Rightarrow> string \<Rightarrow> string \<Rightarrow> resume_warning \<Rightarrow> server_event" where
  "warning_event env target mode w =
     mk_event target ''session.resume.warning''
       (JObj [(''vac_session_id'', JStr target), (''mode'', JStr mode), (''reason'', JStr (warning_reason w))])
       (now_iso (ce_clock env))"

definition warning_log :: "string \<Rightarrow> string \<Rightarrow> resume_warning \<Rightarrow> audit_call list" where
  "warning_log target mode w =
     session_log ''session'' ''session.resume_warning'' System LWarning target [] None
       [(''profile.reason'', JStr (warning_reason w)), (''profile.mode'', JStr mode)]
       (''warn'', [(''event'', JStr ''resume_warning''), (''reason'', JStr (warning_reason w)), (''mode'', JStr mode)])"

definition started_log :: "string \<Rightarrow> string \<Rightarrow> audit_call list" where
  "started_log target mode =
     session_log ''session'' ''session.resume_started'' System LInfo target [] None
       [(''profile.mode'', JStr mode), (''profile.resume_mode'', JStr ''native'')]
       (''info'', [(''event'', JStr ''resume_started''), (''mode'', JStr mode), (''resume_mode'', JStr ''native'')])"

definition fallback_log :: "string \<Rightarrow> string \<Rightarrow> audit_call list" where
  "fallback_log target mode =
     session_log ''session'' ''session.resume_native_unsupported_fallback'' System LInfo target [] None
       [(''profile.mode'', JStr mode)]
       (''info'', [(''event'', JStr ''resume_native_unsupported_fallback''), (''mode'', JStr mode)])"

definition no_load_detail :: "string \<times> json" where
  "no_load_detail = (''detail'', JStr ''agent rejected session/load with method-not-found'')"

text \<open>What the command answers to each outcome of the registry.\<close>

definition native_reply ::
    "command_env \<Rightarrow> client_command \<Rightarrow> string \<Rightarrow> string \<Rightarrow> session_meta \<Rightarrow> server_event list \<Rightarrow> audit_call list
      \<Rightarrow> session_disk \<Rightarrow> resume_outcome \<Rightarrow> reply" where
  "native_reply env cmd mode target meta evs au d out =
     (case out of
        ResumeStarted h ws \<Rightarrow>
          reply_with (ack_ok_for cmd)
            (evs @ map (warning_event env target mode) ws @ ring_events (lv_ring (ce_live env (hd_id h)))) []
            (au @ started_log target mode @ concat (map (warning_log target mode) ws))
      | ResumeUnsupported \<Rightarrow>
          if mode = ''native_or_replay'' \<and> rp_native_fallback (ce_resume_policy env) = FallbackFail
          then resume_failed env cmd target mode ''native_resume_unsupported'' ''session.native_resume_unsupported''
                 ''agent does not implement session/load (policy: native_fallback=fail)'' System LWarning
                 [no_load_detail, (''policy'', JStr ''native_fallback=fail'')] [(''policy'', ''native_fallback=fail'')] evs au
          else if mode = ''native_or_replay''
          then resume_persistence_replay env cmd target meta ''native_or_replay'' ''replay_only_fallback'' evs
                 (au @ fallback_log target mode) d
          else resume_failed env cmd target mode ''native_resume_unsupported'' ''session.native_resume_unsupported''
                 ''agent does not implement session/load'' System LWarning [no_load_detail] [] evs au
      | ResumeRejected m \<Rightarrow>
          resume_failed env cmd target mode ''native_resume_rejected'' ''session.native_resume_rejected'' m System LWarning
            [(''detail'', JStr m)] [(''detail'', m)] evs au
      | ResumeFailed m \<Rightarrow>
          resume_failed env cmd target mode ''native_resume_failed'' ''session.native_resume_failed'' m System LError
            [(''detail'', JStr m)] [(''detail'', m)] evs au
      | ResumeInvalid e \<Rightarrow>
          resume_failed env cmd target mode (refusal_reason e) (refusal_code e) (refusal_reason e) User LWarning [] [] evs au)"

definition stamp_resumed :: "string option \<Rightarrow> resume_outcome \<Rightarrow> session_registry \<Rightarrow> session_registry" where
  "stamp_resumed caller out r = (case out of ResumeStarted h _ \<Rightarrow> stamp_owner caller (hd_id h) r | _ \<Rightarrow> r)"

text \<open>Every outcome but a refusal comes from a spawn, which writes the store.\<close>

definition attempted_disk :: "command_env \<Rightarrow> session_meta \<Rightarrow> resume_outcome \<Rightarrow> session_disk \<Rightarrow> session_disk" where
  "attempted_disk env meta out d =
     (case out of ResumeInvalid _ \<Rightarrow> d | _ \<Rightarrow> ce_writes env (sm_vac_session_id meta) d)"

definition native_attempt ::
    "command_env \<Rightarrow> string option \<Rightarrow> client_command \<Rightarrow> string \<Rightarrow> string \<Rightarrow> session_meta \<Rightarrow> session_disk \<Rightarrow> bridge_state \<Rightarrow> handled" where
  "native_attempt env caller cmd mode target meta d st =
     (let (drift, au) = build_mcp_drift_event env (sr_agents (br_sessions st)) meta target mode;
          attempt = (\<lambda>evs.
            case resume_native (ce_spawn env) meta mode (br_sessions st) of
              None \<Rightarrow> None
            | Some (out, r) \<Rightarrow>
                (let d' = attempted_disk env meta out d in
                 answered (native_reply env cmd mode target meta evs au d' out)
                   (st\<lparr>br_sessions := stamp_resumed caller out r, br_disk := Some d'\<rparr>)))
      in case drift of
           NoDrift \<Rightarrow> attempt []
         | DriftWarned ev \<Rightarrow> attempt [ev]
         | DriftFailed ev \<Rightarrow>
             answered (refuse_logged cmd ''session.mcp_server_drift''
               ''persisted MCP servers differ from live agent advertisement'' [ev] au) st)"

section \<open>The table of modes\<close>

definition requested_mode :: "command_env \<Rightarrow> client_command \<Rightarrow> string option" where
  "requested_mode env cmd =
     (case (get_str ''resume_mode'' (cmd_payload cmd), get_str ''vac_session_id'' (cmd_payload cmd)) of
        (Some m, _) \<Rightarrow> Some m
      | (None, Some _) \<Rightarrow> Some (resume_mode_str (rp_default_mode (ce_resume_policy env)))
      | (None, None) \<Rightarrow> None)"

text \<open>\<open>acp_load\<close> and \<open>native_or_replay\<close>.\<close>

definition resume_stored ::
    "command_env \<Rightarrow> jwt_claims option \<Rightarrow> string option \<Rightarrow> client_command \<Rightarrow> string \<Rightarrow> bridge_state \<Rightarrow> handled" where
  "resume_stored env claims caller cmd mode st =
     (case get_str ''vac_session_id'' (cmd_payload cmd) of
        None \<Rightarrow> answered (missing_target env cmd mode) st
      | Some target \<Rightarrow>
          (case br_disk st of
             None \<Rightarrow> answered (refuse cmd ''persistence.disabled'' ''session persistence is not configured'') st
           | Some d \<Rightarrow>
               (case load_meta (ce_codec env) (ce_store_root env) (ce_io env) target d of
                  Inl e \<Rightarrow> answered (refuse cmd ''persistence.load_failed'' (persistence_error_text e)) st
                | Inr None \<Rightarrow>
                    answered (resume_failed env cmd target mode ''vac_session_unknown'' ''session.vac_session_unknown''
                      target System LWarning [] [] [] []) st
                | Inr (Some meta) \<Rightarrow>
                    if \<not> claims_scope_allows_path env claims (sm_project_root meta)
                    then answered (scope_mismatch_response cmd ''session.resume.native'' (claims_root claims) (sm_project_root meta) []) st
                    else if nr_load_session_supported (sm_native_resume meta)
                    then native_attempt env caller cmd mode target meta d st
                    else if mode = ''acp_load''
                    then answered (resume_failed env cmd target mode ''native_resume_unsupported''
                      ''session.native_resume_unsupported'' ''agent does not advertise loadSession'' System LWarning
                      [(''detail'', JStr ''agent_capabilities.loadSession=false'')] [] [] []) st
                    else answered (resume_persistence_replay env cmd target meta ''native_or_replay'' ''replay_only_fallback'' [] [] d) st)))"

definition resume_replay_only ::
    "command_env \<Rightarrow> jwt_claims option \<Rightarrow> client_command \<Rightarrow> string \<Rightarrow> bridge_state \<Rightarrow> handled" where
  "resume_replay_only env claims cmd target st =
     (case br_disk st of
        None \<Rightarrow> answered (refuse cmd ''persistence.disabled'' ''session persistence is not configured'') st
      | Some d \<Rightarrow>
          (case load_meta (ce_codec env) (ce_store_root env) (ce_io env) target d of
             Inl e \<Rightarrow> answered (refuse cmd ''persistence.load_failed'' (persistence_error_text e)) st
           | Inr None \<Rightarrow> answered (refuse cmd ''session.not_found'' target) st
           | Inr (Some meta) \<Rightarrow>
               if \<not> claims_scope_allows_path env claims (sm_project_root meta)
               then answered (scope_mismatch_response cmd ''session.resume.replay_only'' (claims_root claims) (sm_project_root meta) []) st
               else answered (resume_persistence_replay env cmd target meta ''replay_only'' ''replay_only'' [] [] d) st))"

text \<open>Without a stored session: the events of the running one.\<close>

definition resumed_log :: "client_command \<Rightarrow> audit_call list" where
  "resumed_log cmd =
     (let b = (log_builder_new ''session.resumed'' System LInfo)\<lparr>lb_session_id := Some (cmd_session_id cmd), lb_code := []\<rparr> in
      case lb_build b of
        Inr _ \<Rightarrow> (case log_structured ''session'' b of Inl _ \<Rightarrow> [] | Inr c \<Rightarrow> [c])
      | Inl _ \<Rightarrow> [\<lparr>au_session = cmd_session_id cmd, au_subsystem = ''session'', au_severity = ''info'',
                    au_fields = JObj [(''event'', JStr ''resumed'')]\<rparr>])"

definition resume_ring :: "command_env \<Rightarrow> client_command \<Rightarrow> bridge_state \<Rightarrow> handled" where
  "resume_ring env cmd st =
     (case get_session (cmd_session_id cmd) (br_sessions st) of
        None \<Rightarrow> answered (refuse cmd ''session.not_found'' (cmd_session_id cmd)) st
      | Some h \<Rightarrow>
          answered (reply_with (ack_ok_for cmd)
              (session_bootstrap_events env h ''resumed'' @ ring_events (lv_ring (ce_live env (hd_id h)))) [] (resumed_log cmd))
            (st\<lparr>br_sessions := session_transition (cmd_session_id cmd) (Transition Active) (br_sessions st)\<rparr>))"

definition handle_session_resume ::
    "command_env \<Rightarrow> jwt_claims option \<Rightarrow> string option \<Rightarrow> client_command \<Rightarrow> bridge_state \<Rightarrow> handled" where
  "handle_session_resume env claims caller cmd st =
     (let target = get_str ''vac_session_id'' (cmd_payload cmd);
          replay = (case target of Some i \<Rightarrow> resume_replay_only env claims cmd i st | None \<Rightarrow> resume_ring env cmd st)
      in case requested_mode env cmd of
           None \<Rightarrow> replay
         | Some m \<Rightarrow>
             if m \<notin> {''replay_only'', ''acp_load'', ''native_or_replay''}
             then answered (unknown_mode env cmd (unwrap_or (cmd_session_id cmd) target) m) st
             else if m \<in> {''acp_load'', ''native_or_replay''} then resume_stored env claims caller cmd m st
             else replay)"

section \<open>What a replay delivers\<close>

definition is_tick :: "server_event \<Rightarrow> bool" where
  "is_tick e \<longleftrightarrow> ev_type e = ''session.replay.progress''"

lemma is_tick_progress [simp]: "is_tick (replay_progress_event env target mode n)"
  by (simp add: is_tick_def replay_progress_event_def)

lemma is_tick_row [simp]: "is_tick (row_event env target ev) \<longleftrightarrow> pe_type ev = ''session.replay.progress''"
  by (simp add: is_tick_def row_event_def)

lemma replay_rows_content:
  "filter (\<lambda>e. \<not> is_tick e) (replay_rows env target mode n rows)
     = map (row_event env target) (filter (\<lambda>ev. pe_type ev \<noteq> ''session.replay.progress'') rows)"
  by (induction rows arbitrary: n) auto

text \<open>The ticks among the rows are at the multiples of 25.\<close>

lemma replay_rows_ticks:
  assumes "list_all (\<lambda>ev. pe_type ev \<noteq> ''session.replay.progress'') rows"
  shows "filter is_tick (replay_rows env target mode n rows) =
     map (replay_progress_event env target mode) (filter (\<lambda>k. k mod progress_tick_every = 0) [Suc n ..< Suc (n + length rows)])"
  using assms
proof (induction rows arbitrary: n)
  case (Cons ev rows)
  have "[Suc n ..< Suc (n + length (ev # rows))] = Suc n # [Suc (Suc n) ..< Suc (Suc n + length rows)]"
    using upt_conv_Cons [of "Suc n" "Suc (n + length (ev # rows))"] by (simp del: upt_Suc)
  with Cons show ?case by (simp del: upt_Suc)
qed simp

lemma last_tick:
  "last (filter is_tick (replay_events env target meta mode resolved rows)) = replay_progress_event env target mode (length rows)"
  if "list_all (\<lambda>ev. pe_type ev \<noteq> ''session.replay.progress'') rows"
proof -
  have fin: "\<not> is_tick (replay_started env target meta mode)" "\<not> is_tick (replay_finished env target mode resolved n)" for n
    by (simp_all add: is_tick_def replay_started_def replay_finished_def)
  show ?thesis
  proof (cases "length rows > 0 \<and> length rows mod progress_tick_every = 0")
    case True
    then obtain k where k: "length rows = Suc k" by (cases "length rows") auto
    from True have "filter (\<lambda>k. k mod progress_tick_every = 0) [Suc 0 ..< Suc (length rows)]
      = filter (\<lambda>k. k mod progress_tick_every = 0) [Suc 0 ..< length rows] @ [length rows]"
      using k by (subst upt_Suc) auto
    with True show ?thesis
      by (simp add: replay_events_def Let_def fin replay_rows_ticks [OF that])
  next
    case False
    then show ?thesis
      by (cases "rows = []") (auto simp: replay_events_def Let_def fin replay_rows_ticks [OF that])
  qed
qed

text \<open>
  A ring that has dropped its first event gives a resuming client nothing at all, although it still
  holds the rest.
\<close>

lemma overflown_ring_gives_nothing:
  assumes "ring_buf r = (s, ev) # rest" and "1 < s"
  shows "ring_events r = []"
  using assms by (auto simp: ring_events_def replay_after_def latest_seq_def oldest_seq_def split: replay_result.splits)

lemma scope_none [simp]: "claims_scope_allows_path env None path"
  by (simp add: claims_scope_allows_path_def)

lemma load_disk_rows:
  assumes "\<forall>c \<in> set cs. call_codec_ok sc c" and "is_safe_session_id i" and "\<not> read_fails io"
  shows "load_events sc root io i 0 (foldl (store_step sc root) [] cs) = Inr (sh_events (store_history sc cs) i)"
  using store_history_holds [OF assms(1), of root] load_rows [OF assms(2,3), of _ sc _ root 0]
  by (simp add: store_holds_def)


section \<open>Example\<close>

definition example_policy_env :: policy_env where
  "example_policy_env =
     \<lparr>pe_enforce = \<lparr>env_glob = \<lambda>_. None, env_globset_ok = \<lambda>_. True, env_regex = \<lambda>_. None,
                    env_canonicalize = \<lambda>_. None, env_home = None\<rparr>,
      pe_raw = se_raw example_spawn_env, pe_profile_root = ''/p''\<rparr>"

definition example_command_env :: command_env where
  "example_command_env =
     \<lparr>ce_clock = unary_clock 0, ce_ulid = \<lambda>n. replicate (Suc n) (CHR ''u''), ce_policy = example_policy_env,
      ce_spawn = example_spawn_env, ce_canonicalize = Some,
      ce_live = \<lambda>_. \<lparr>lv_acp = None, lv_ring = \<lparr>ring_buf = [], ring_cap = 5000, ring_next_seq = 1\<rparr>\<rparr>,
      ce_set_mode = \<lambda>_ _. None, ce_set_config = \<lambda>_ _ _. Inr JNull, ce_resume_policy = resume_policy_default,
      ce_codec = example_codec, ce_store_root = ''/r'', ce_io = IoDone, ce_events_io = IoDone, ce_list_fault = None,
      ce_readable = \<lambda>_. True, ce_health = persistence_health_new, ce_serde_time = \<lambda>_. [],
      ce_writes = \<lambda>_ d. d\<rparr>"

definition example_bridge :: bridge_state where
  "example_bridge =
     \<lparr>br_sessions = set_owner (sess_id ''1'') ''ann'' (insert_session (sess_id ''1'') (example_handle (sess_id ''1'')) example_registry),
      br_cache = Map.empty, br_disk = Some (foldl (store_step example_codec ''/r'') [] example_store_calls)\<rparr>"

definition example_command :: "string \<Rightarrow> string \<Rightarrow> (string \<times> json) list \<Rightarrow> client_command" where
  "example_command ty sid kvs = \<lparr>cmd_id = ''c'', cmd_session_id = sid, cmd_type = ty, cmd_payload = JObj kvs, cmd_v = 1\<rparr>"

definition example_replay :: client_command where
  "example_replay = example_command ''session.resume'' []
     [(''vac_session_id'', JStr ''sess_1''), (''resume_mode'', JStr ''replay_only'')]"


end
