(* ===== verification/Session_Dispatch.thy ===== *)
theory Session_Dispatch
  imports Session_Resume
begin

text \<open>
  \<open>apps/local-bridge/src/translator/mod.rs\<close>: \<open>dispatch_command\<close>, which passes a command through the
  profile gate and the owner check and then to its handler. The handlers of the commands that are
  not about sessions are the argument \<open>other\<close>. What holds over any run of commands: sessions of other
  principals are out of reach, and scoped callers stay in their project - up to the gap shown at
  the end.
\<close>

section \<open>The dispatch\<close>

definition policy_denied :: "client_command \<Rightarrow> string \<Rightarrow> string \<Rightarrow> reply" where
  "policy_denied cmd code reason =
     refuse_logged cmd code reason []
       (session_log ''profile'' ''profile.deny'' System LWarning (cmd_session_id cmd) code None
          [(''profile.tool'', JStr (cmd_type cmd)), (''profile.reason'', JStr reason), (''profile.decision'', JStr ''deny'')]
          (''warn'', [(''decision'', JStr ''deny''), (''tool'', JStr (cmd_type cmd)), (''code'', JStr code),
             (''reason'', JStr reason)]))"

definition protocol_audit :: "client_command \<Rightarrow> (string \<times> json) list \<Rightarrow> audit_call list" where
  "protocol_audit cmd kvs =
     [\<lparr>au_session = cmd_session_id cmd, au_subsystem = ''protocol'', au_severity = ''info'', au_fields = JObj kvs\<rparr>]"

definition unknown_command :: "client_command \<Rightarrow> reply" where
  "unknown_command cmd =
     refuse_logged cmd ''protocol.unknown_command'' (''unknown command type '' @ quoted1 (cmd_type cmd)) []
       (protocol_audit cmd [(''decision'', JStr ''deny''), (''reason'', JStr ''unknown command type''),
          (''type'', JStr (cmd_type cmd))])"

definition not_wired :: "client_command \<Rightarrow> string \<Rightarrow> string \<Rightarrow> reply" where
  "not_wired cmd command reason =
     refuse_logged cmd ''feature.not_wired'' reason []
       (protocol_audit cmd [(''decision'', JStr ''not_wired''), (''type'', JStr command), (''reason'', JStr reason)])"

definition owner_mismatch :: "client_command \<Rightarrow> string option \<Rightarrow> reply" where
  "owner_mismatch cmd caller =
     refuse_logged cmd ''session.forbidden'' ''session is owned by a different principal'' []
       [\<lparr>au_session = cmd_session_id cmd, au_subsystem = ''session'', au_severity = ''warn'',
         au_fields = JObj [(''event'', JStr ''owner_mismatch''), (''code'', JStr ''session.forbidden''),
           (''command'', JStr (cmd_type cmd)), (''caller_principal'', JStr (unwrap_or [] caller))]\<rparr>]"

type_synonym other_handlers = "client_command \<Rightarrow> bridge_state \<Rightarrow> handled"

definition route_command ::
    "command_env \<Rightarrow> jwt_claims option \<Rightarrow> string option \<Rightarrow> other_handlers \<Rightarrow> other_handlers" where
  "route_command env claims caller other cmd st =
     (let c = cmd_type cmd in
      if c = ''system.ping'' then answered (reply_with (ack_ok_for cmd) [] [] []) st
      else if c = ''session.create'' then handle_session_create env claims caller cmd st
      else if c = ''session.list'' then handle_session_list env cmd st
      else if c = ''session.mode.set'' then handle_mode_set env cmd st
      else if c = ''session.config_option.set'' then handle_config_option_set env cmd st
      else if c = ''config.policy.get'' then handle_policy_get env cmd st
      else if c = ''session.resume'' then handle_session_resume env claims caller cmd st
      else if c = ''session.history.list'' then handle_history_list env claims cmd st
      else if c = ''session.history.forget'' then handle_history_forget env cmd st
      else if c = ''session.close'' then handle_session_close env cmd st
      else other cmd st)"

definition owner_gate :: "string option \<Rightarrow> client_command \<Rightarrow> bridge_state \<Rightarrow> bool" where
  "owner_gate caller cmd st \<longleftrightarrow>
     cmd_session_id cmd = [] \<or> session_owner_authorized (session_owner (cmd_session_id cmd) (br_sessions st)) caller"

definition session_profiles :: "session_registry \<Rightarrow> string \<rightharpoonup> string" where
  "session_profiles r i = map_option hd_profile_id (get_session i r)"

definition dispatch_command ::
    "command_env \<Rightarrow> jwt_claims option \<Rightarrow> string option \<Rightarrow> other_handlers \<Rightarrow> other_handlers" where
  "dispatch_command env claims caller other cmd st =
     (case enforce_action (ce_policy env) (session_profiles (br_sessions st)) cmd (br_cache st) of
        None \<Rightarrow> None
      | Some (verdict, cache) \<Rightarrow>
          (let st' = st\<lparr>br_cache := cache\<rparr> in
           case verdict of
             Denied code reason \<Rightarrow> answered (policy_denied cmd code reason) st'
           | UnknownCommand \<Rightarrow> answered (unknown_command cmd) st'
           | CommandNotWired command reason \<Rightarrow> answered (not_wired cmd command reason) st'
           | Allowed \<Rightarrow>
               if owner_gate caller cmd st' then route_command env claims caller other cmd st'
               else answered (owner_mismatch cmd caller) st'))"

section \<open>What the handlers leave alone\<close>

definition same_session :: "string \<Rightarrow> bridge_state \<Rightarrow> bridge_state \<Rightarrow> bool" where
  "same_session i st st' \<longleftrightarrow>
     get_session i (br_sessions st') = get_session i (br_sessions st)
     \<and> session_owner i (br_sessions st') = session_owner i (br_sessions st)"

lemma same_session_refl [simp]: "same_session i st st"
  by (simp add: same_session_def)

lemma owner_insert [simp]: "session_owner j (insert_session i h r) = session_owner j r"
  by (simp add: session_owner_def insert_session_def)

lemma owner_transition [simp]: "session_owner j (session_transition i c r) = session_owner j r"
  by (simp add: session_transition_def split: option.split)

lemma owner_set [simp]: "session_owner j (set_owner i p r) = (if j = i then Some p else session_owner j r)"
  by (simp add: session_owner_def set_owner_def)

lemma owner_stamp: "j \<noteq> i \<Longrightarrow> session_owner j (stamp_owner caller i r) = session_owner j r"
  by (simp add: stamp_owner_def split: option.split)

lemma session_stamp [simp]: "get_session j (stamp_owner caller i r) = get_session j r"
  by (simp add: stamp_owner_def split: option.split)

lemma spawn_created_same:
  "spawn_created env caller cmd pid root aid wid st = Some (r, st') \<Longrightarrow> i \<noteq> sess_id (ce_ulid env 0) \<Longrightarrow> same_session i st st'"
  by (auto simp: spawn_created_def same_session_def owner_stamp split: option.splits sum.splits
      dest!: create_inserted create_else)

lemma create_same:
  assumes "handle_session_create env claims caller cmd st = Some (r, st')" and "i \<noteq> sess_id (ce_ulid env 0)"
  shows "same_session i st st'"
  using assms(1) by (auto simp: handle_session_create_def Let_def split: option.splits sum.splits decision.splits if_splits
      dest: spawn_created_same [OF _ assms(2)])

lemma close_same:
  "handle_session_close env cmd st = Some (r, st') \<Longrightarrow> i \<noteq> cmd_session_id cmd \<Longrightarrow> same_session i st st'"
  by (auto simp: handle_session_close_def same_session_def remove_session_def clear_owner_def session_owner_def
      get_session_def delete_conv' split: option.splits prod.splits)

lemma resume_same:
  assumes "handle_session_resume env claims caller cmd st = Some (r, st')" and "i \<noteq> cmd_session_id cmd"
    and "get_str ''vac_session_id'' (cmd_payload cmd) = None"
  shows "same_session i st st'"
  using assms by (auto simp: handle_session_resume_def resume_stored_def resume_ring_def Let_def same_session_def
      get_session_transition split: option.splits if_splits)

lemma forget_same: "handle_history_forget env cmd st = Some (r, st') \<Longrightarrow> same_session i st st'"
  by (auto simp: handle_history_forget_def same_session_def split: option.splits sum.splits prod.splits)

lemma unchanged_handlers:
  "handle_session_list env cmd st = Some (r, st') \<Longrightarrow> st' = st"
  "handle_mode_set env cmd st = Some (r, st') \<Longrightarrow> st' = st"
  "handle_config_option_set env cmd st = Some (r, st') \<Longrightarrow> st' = st"
  "handle_policy_get env cmd st = Some (r, st') \<Longrightarrow> st' = st"
  "handle_history_list env claims cmd st = Some (r, st') \<Longrightarrow> st' = st"
  by (auto simp: handle_session_list_def handle_mode_set_def handle_config_option_set_def handle_policy_get_def
      handle_history_list_def Let_def split: sum.splits option.splits)

section \<open>Sessions of other principals\<close>

record dispatch_call =
  dc_env :: command_env
  dc_claims :: "jwt_claims option"
  dc_caller :: "string option"
  dc_other :: other_handlers
  dc_cmd :: client_command

definition dispatched :: "dispatch_call \<Rightarrow> bridge_state \<Rightarrow> handled" where
  "dispatched c st = dispatch_command (dc_env c) (dc_claims c) (dc_caller c) (dc_other c) (dc_cmd c) st"

definition dispatch_step :: "bridge_state \<Rightarrow> dispatch_call \<Rightarrow> bridge_state" where
  "dispatch_step st c = (case dispatched c st of None \<Rightarrow> st | Some (_, st') \<Rightarrow> st')"

text \<open>
  A call by somebody else than \<open>p\<close>, which does not resume a stored session; new sessions get new
  ids, and the other handlers leave session \<open>i\<close> and its owner alone.
\<close>

definition foreign_call :: "string \<Rightarrow> string \<Rightarrow> dispatch_call \<Rightarrow> bool" where
  "foreign_call p i c \<longleftrightarrow>
     dc_caller c \<noteq> Some p \<and> sess_id (ce_ulid (dc_env c) 0) \<noteq> i
     \<and> (cmd_type (dc_cmd c) = ''session.resume'' \<longrightarrow> get_str ''vac_session_id'' (cmd_payload (dc_cmd c)) = None)
     \<and> (\<forall>st r st'. dc_other c (dc_cmd c) st = Some (r, st') \<longrightarrow> same_session i st st')"

lemma route_same:
  assumes "route_command env claims caller other cmd st = Some (r, st')"
    and "i \<noteq> cmd_session_id cmd" "i \<noteq> sess_id (ce_ulid env 0)"
    and "cmd_type cmd = ''session.resume'' \<longrightarrow> get_str ''vac_session_id'' (cmd_payload cmd) = None"
    and "\<And>st r st'. other cmd st = Some (r, st') \<Longrightarrow> same_session i st st'"
  shows "same_session i st st'"
  using assms(1) unfolding route_command_def Let_def
  by (auto split: if_splits dest: create_same [OF _ assms(3)] close_same [OF _ assms(2)] forget_same
      resume_same [OF _ assms(2)] unchanged_handlers assms(5) simp: assms(4))

lemma dispatched_cases:
  assumes "dispatched c st = Some (r, st')"
  obtains (refused) cache where "st' = st\<lparr>br_cache := cache\<rparr>" "\<not> ack_ok (rp_ack r)" "rp_events r = []"
  | (routed) cache where "owner_gate (dc_caller c) (dc_cmd c) st"
      "route_command (dc_env c) (dc_claims c) (dc_caller c) (dc_other c) (dc_cmd c) (st\<lparr>br_cache := cache\<rparr>) = Some (r, st')"
  using assms
  by (auto simp: dispatched_def dispatch_command_def Let_def owner_gate_def policy_denied_def unknown_command_def
      not_wired_def owner_mismatch_def split: option.splits enforce_outcome.splits if_splits)

lemma same_session_cache [simp]: "same_session i (st\<lparr>br_cache := cache\<rparr>) st' = same_session i st st'"
  "same_session i st (st'\<lparr>br_cache := cache\<rparr>) = same_session i st st'"
  by (simp_all add: same_session_def)

lemma foreign_call_same:
  assumes f: "foreign_call p i c" and o: "session_owner i (br_sessions st) = Some p" and i: "i \<noteq> []"
    and d: "dispatched c st = Some (r, st')"
  shows "same_session i st st' \<and> (cmd_session_id (dc_cmd c) = i \<longrightarrow> \<not> ack_ok (rp_ack r) \<and> rp_events r = [])"
  using d
proof (cases rule: dispatched_cases)
  case (refused cache)
  then show ?thesis by simp
next
  case (routed cache)
  from f have "dc_caller c \<noteq> Some p" by (simp add: foreign_call_def)
  with routed(1) o i have "cmd_session_id (dc_cmd c) \<noteq> i"
    by (cases "dc_caller c") (auto simp: owner_gate_def)
  moreover from this route_same [OF routed(2), of i] f have "same_session i st st'"
    by (auto simp: foreign_call_def)
  ultimately show ?thesis by simp
qed


section \<open>Scoped callers\<close>

text \<open>Two paths are the same place.\<close>

definition same_place :: "(string \<Rightarrow> string option) \<Rightarrow> string \<Rightarrow> string \<Rightarrow> bool" where
  "same_place canon a b \<longleftrightarrow> unwrap_or a (canon a) = unwrap_or b (canon b)"

definition sessions_within :: "(string \<Rightarrow> string option) \<Rightarrow> string \<Rightarrow> bridge_state \<Rightarrow> bool" where
  "sessions_within canon root st \<longleftrightarrow>
     (\<forall>i h. get_session i (br_sessions st) = Some h \<longrightarrow> same_place canon (hd_project_root h) root)"

text \<open>A call with a token for the project \<open>root\<close>, whose other handlers stay in it too.\<close>

definition scoped_call :: "(string \<Rightarrow> string option) \<Rightarrow> string \<Rightarrow> dispatch_call \<Rightarrow> bool" where
  "scoped_call canon root c \<longleftrightarrow>
     claims_root (dc_claims c) = root \<and> ce_canonicalize (dc_env c) = canon
     \<and> (\<forall>st r st'. sessions_within canon root st \<longrightarrow> dc_other c (dc_cmd c) st = Some (r, st') \<longrightarrow> sessions_within canon root st')"

lemma scope_allows:
  "claims_root claims = root \<Longrightarrow> root \<noteq> [] \<Longrightarrow>
     claims_scope_allows_path env claims path \<longleftrightarrow> same_place (ce_canonicalize env) path root"
  by (auto simp: claims_root_def claims_scope_allows_path_def same_place_def split: option.splits)

lemma within_insert:
  "sessions_within canon root st \<Longrightarrow> same_place canon (hd_project_root h) root \<Longrightarrow>
     br_sessions st' = stamp_owner caller j (insert_session i h (br_sessions st)) \<Longrightarrow> sessions_within canon root st'"
  by (auto simp: sessions_within_def)

lemma spawn_created_within:
  assumes "spawn_created env caller cmd pid root' aid wid st = Some (r, st')"
    and "sessions_within canon root st" "same_place canon root' root"
  shows "sessions_within canon root st'"
proof -
  from assms(1) obtain res reg where c: "create_with_agent_and_workflow (ce_spawn env) (ce_ulid env 0) pid root' aid wid (br_sessions st) = Some (res, reg)"
    by (auto simp: spawn_created_def split: option.splits)
  show ?thesis
  proof (cases res)
    case (Inl e)
    with c have "reg = br_sessions st" using create_else by blast
    with c Inl assms show ?thesis by (auto simp: spawn_created_def sessions_within_def)
  next
    case (Inr h)
    with c have "hd_project_root h = root'"
      unfolding Inr create_Inr by (auto dest!: spawn_session_Inr)
    moreover from c Inr have "reg = insert_session (sess_id (ce_ulid env 0)) h (br_sessions st)"
      using create_inserted by blast
    ultimately show ?thesis
      using c Inr assms by (auto simp: spawn_created_def sessions_within_def split: if_splits)
  qed
qed

lemma create_within:
  assumes "handle_session_create env claims caller cmd st = Some (r, st')"
    and "claims_root claims = root" "root \<noteq> []" "sessions_within (ce_canonicalize env) root st"
  shows "sessions_within (ce_canonicalize env) root st'"
  using assms(1,4) scope_allows [OF assms(2,3), of env]
  by (auto simp: handle_session_create_def Let_def split: option.splits sum.splits decision.splits if_splits
      dest: spawn_created_within)

lemma resume_native_root:
  "resume_native env meta mode r = Some (ResumeStarted h ws, r') \<Longrightarrow>
     hd_id h = sm_vac_session_id meta \<and> hd_project_root h = sm_project_root meta
     \<and> r' = insert_session (sm_vac_session_id meta) h r"
  unfolding resume_native_def
  by (auto simp: resume_options_def split: option.splits sum.splits spawn_error.splits load_error.splits dest!: spawn_session_Inr)

lemma resume_native_else:
  "resume_native env meta mode r = Some (out, r') \<Longrightarrow> \<forall>h ws. out \<noteq> ResumeStarted h ws \<Longrightarrow> r' = r"
  unfolding resume_native_def
  by (auto split: option.splits sum.splits spawn_error.splits load_error.splits)

lemma native_attempt_within:
  assumes "native_attempt env caller cmd mode target meta d st = Some (r, st')"
    and "sessions_within canon root st" "same_place canon (sm_project_root meta) root"
  shows "sessions_within canon root st'"
proof -
  from assms(1) consider "st' = st"
    | out reg where "resume_native (ce_spawn env) meta mode (br_sessions st) = Some (out, reg)"
        "br_sessions st' = stamp_resumed caller out reg"
    by (auto simp: native_attempt_def Let_def split: prod.splits mcp_drift_action.splits option.splits)
  then show ?thesis
  proof cases
    case 2
    show ?thesis
    proof (cases "\<exists>h ws. out = ResumeStarted h ws")
      case True
      then obtain h ws where h: "out = ResumeStarted h ws" by blast
      from resume_native_root [OF 2(1) [unfolded h]] have root: "hd_project_root h = sm_project_root meta"
        and reg: "reg = insert_session (sm_vac_session_id meta) h (br_sessions st)" by auto
      with 2(2) have "br_sessions st' = stamp_owner caller (hd_id h) (insert_session (sm_vac_session_id meta) h (br_sessions st))"
        by (simp add: h stamp_resumed_def)
      from within_insert [OF assms(2) _ this] root assms(3) show ?thesis by simp
    next
      case False
      then have "br_sessions st' = reg" using 2(2) by (cases out) (auto simp: stamp_resumed_def)
      moreover have "reg = br_sessions st" using resume_native_else [OF 2(1)] False by blast
      ultimately show ?thesis using assms(2) by (simp add: sessions_within_def)
    qed
  qed (use assms in simp)
qed

lemma resume_within:
  assumes "handle_session_resume env claims caller cmd st = Some (r, st')"
    and "claims_root claims = root" "root \<noteq> []" "sessions_within (ce_canonicalize env) root st"
  shows "sessions_within (ce_canonicalize env) root st'"
proof -
  have ring: "resume_ring env cmd st = Some (r, st') \<Longrightarrow> ?thesis"
    using assms(4) by (auto simp: resume_ring_def sessions_within_def get_session_transition split: option.splits if_splits)
  have replay: "resume_replay_only env claims cmd i st = Some (r, st') \<Longrightarrow> ?thesis" for i
    using assms(4) by (auto simp: resume_replay_only_def split: option.splits sum.splits if_splits)
  have stored: "resume_stored env claims caller cmd m st = Some (r, st') \<Longrightarrow> ?thesis" for m
    using assms(4) scope_allows [OF assms(2,3), of env]
    by (auto simp: resume_stored_def split: option.splits sum.splits if_splits dest: native_attempt_within)
  from assms(1) have "st' = st \<or> resume_ring env cmd st = Some (r, st')
      \<or> (\<exists>i. resume_replay_only env claims cmd i st = Some (r, st'))
      \<or> (\<exists>m. resume_stored env claims caller cmd m st = Some (r, st'))"
    by (auto simp: handle_session_resume_def Let_def split: option.splits if_splits)
  with ring replay stored assms(4) show ?thesis by blast
qed

lemma close_within:
  assumes "handle_session_close env cmd st = Some (r, st')" and "sessions_within canon root st"
  shows "sessions_within canon root st'"
proof -
  from assms(1) have "st' = st \<or> br_sessions st' = snd (remove_session (cmd_session_id cmd) (br_sessions st))"
    by (auto simp: handle_session_close_def split: option.splits prod.splits)
  with assms(2) show ?thesis by (auto simp: sessions_within_def split: if_splits)
qed

lemma forget_within:
  "handle_history_forget env cmd st = Some (r, st') \<Longrightarrow> sessions_within canon root st \<Longrightarrow> sessions_within canon root st'"
  using forget_same [of env cmd st r st'] by (auto simp: sessions_within_def same_session_def)

lemma route_within:
  assumes "route_command env claims caller other cmd st = Some (r, st')"
    and "claims_root claims = root" "root \<noteq> []" "sessions_within (ce_canonicalize env) root st"
    and "\<And>r st'. other cmd st = Some (r, st') \<Longrightarrow> sessions_within (ce_canonicalize env) root st'"
  shows "sessions_within (ce_canonicalize env) root st'"
  using assms(1,4) unfolding route_command_def Let_def
  by (auto split: if_splits dest: unchanged_handlers assms(5) create_within [OF _ assms(2,3)]
      resume_within [OF _ assms(2,3)] close_within forget_within)

lemma within_cache [simp]: "sessions_within canon root (st\<lparr>br_cache := cache\<rparr>) = sessions_within canon root st"
  by (simp add: sessions_within_def)


section \<open>Where the protection ends\<close>

text \<open>
  The owner check looks at the session a command names, not at the stored session it resumes: whoever
  resumes a stored session natively becomes its owner, whoever owned it before and although it may be
  running.
\<close>

lemma resume_takes_over:
  assumes "get_str ''vac_session_id'' (cmd_payload cmd) = Some i" "get_str ''resume_mode'' (cmd_payload cmd) = Some ''acp_load''"
    and "br_disk st = Some d" "load_meta (ce_codec env) (ce_store_root env) (ce_io env) i d = Inr (Some meta)"
    and "sm_vac_session_id meta = i" "nr_load_session_supported (sm_native_resume meta)"
    and "build_mcp_drift_event env (sr_agents (br_sessions st)) meta i ''acp_load'' = (NoDrift, au)"
    and "resume_native (ce_spawn env) meta ''acp_load'' (br_sessions st) = Some (ResumeStarted h ws, reg)"
    and "q \<noteq> ''dev:anonymous''" "q \<noteq> []"
  shows "\<exists>r st'. handle_session_resume env None (Some q) cmd st = Some (r, st') \<and> ack_ok (rp_ack r)
    \<and> session_owner i (br_sessions st') = Some q \<and> get_session i (br_sessions st') = Some h"
proof -
  from resume_native_root [OF assms(8)] have reg: "reg = insert_session i h (br_sessions st)" and "hd_id h = i"
    by (auto simp: assms(5))
  then show ?thesis
    using assms by (simp add: handle_session_resume_def requested_mode_def resume_stored_def native_attempt_def Let_def
        native_reply_def stamp_resumed_def stamp_owner_def reg)
qed

text \<open>
  The servers recorded with a session are always none (see \<open>spawn_meta\<close>): for an agent that has some,
  every native resume is reported as drift, and refused where the policy says so.
\<close>

lemma drift_without_change:
  assumes "sm_mcp_servers meta = []" "registry_get (sr_agents (br_sessions st)) (sm_agent_id meta) = Inr agent"
    and "ad_mcp_servers agent \<noteq> []" "rp_mcp_server_drift (ce_resume_policy env) = DriftFail"
  shows "\<exists>r. native_attempt env caller cmd mode target meta d st = Some (r, st) \<and> ack_code (rp_ack r) = Some ''session.mcp_server_drift''"
  using assms by (simp add: native_attempt_def build_mcp_drift_event_def Let_def)

text \<open>Forgetting asks neither for the owner of the stored session nor for the scope.\<close>

lemma anyone_forgets:
  assumes "cmd_type cmd = ''session.history.forget''" "get_str ''vac_session_id'' (cmd_payload cmd) = Some i"
    and "br_disk st = Some d" "is_safe_session_id i" "ce_io env = IoDone"
  shows "\<exists>r st'. route_command env claims caller other cmd st = Some (r, st') \<and> ack_ok (rp_ack r)
    \<and> br_disk st' = Some (AList.delete i d)"
  using assms by (auto simp: route_command_def handle_history_forget_def forget_session_def with_write_lock_def
      delete_id map_of_eq_None_iff split: option.splits)

text \<open>A fallback the policy forbids is taken all the same when the agent never offered to load sessions.\<close>

lemma fallback_policy_ignored:
  assumes "get_str ''vac_session_id'' (cmd_payload cmd) = Some i" "get_str ''resume_mode'' (cmd_payload cmd) = Some ''native_or_replay''"
    and "br_disk st = Some d" "load_meta (ce_codec env) (ce_store_root env) (ce_io env) i d = Inr (Some meta)"
    and "\<not> nr_load_session_supported (sm_native_resume meta)"
    and "load_events (ce_codec env) (ce_store_root env) (ce_events_io env) i 0 d = Inr rows"
    and "rp_native_fallback (ce_resume_policy env) = FallbackFail"
  shows "\<exists>r. handle_session_resume env None caller cmd st = Some (r, st) \<and> ack_ok (rp_ack r)"
  using assms by (simp add: handle_session_resume_def requested_mode_def resume_stored_def resume_persistence_replay_def)

section \<open>Examples\<close>

definition example_dispatch :: "jwt_claims option \<Rightarrow> string \<Rightarrow> client_command \<Rightarrow> dispatch_call" where
  "example_dispatch claims caller cmd =
     \<lparr>dc_env = example_command_env, dc_claims = claims, dc_caller = Some caller,
      dc_other = \<lambda>c st. answered (refuse c ''x'' []) st, dc_cmd = cmd\<rparr>"

definition example_intruder :: dispatch_call where
  "example_intruder = example_dispatch None ''bob'' (example_command ''session.close'' (sess_id ''1'') [])"

lemma sess_id_inject [simp]: "sess_id a = sess_id b \<longleftrightarrow> a = b"
  by (simp add: sess_id_def)


definition example_claims :: jwt_claims where
  "example_claims = \<lparr>cl_iss = [], cl_sub = ''ann'', cl_aud = [], cl_exp = 0, cl_iat = 0, cl_device_id = ''d'', cl_project_root = ''/w''\<rparr>"

definition example_scoped :: dispatch_call where
  "example_scoped = example_dispatch (Some example_claims) ''ann''
     (example_command ''session.create'' [] [(''profile_id'', JStr ''exec''), (''project_root'', JStr ''/w'')])"


end
