(* ===== verification/Spec2Isabelle.thy ===== *)
theory Spec2Isabelle
  imports Session_State Event_Ring Resources Audit_Log Profile Enforce Observability Extension_Trust
    Extensions Handoff_Packet Handoff_Validate Handoff Gates Release Relay_Tokens Relay
    Workflow_Process Fs_Handler Terminal Canonical_Hash Tool_Activity
    Approvals Agent_Catalog Policy Redaction Session_Store Session_Sink Resume_Policy Session_Registry
    Session_Commands Session_Resume Session_Dispatch
begin

text \<open>
  \<^bold>\<open>A verification development for the VAC bridge.\<close>

  The program is a Rust workspace: \<open>apps/local-bridge\<close> (a local daemon that runs coding agents
  on behalf of a web cockpit), \<open>apps/relay-service\<close> (a relay between cockpits and bridges), and
  the libraries \<open>packages/bridge-core\<close> and \<open>packages/profile-core\<close>. A cockpit sends commands
  over a websocket; each command is handled against the state of one session and of the daemon,
  answers with an acknowledgement, emits events on the session (which are numbered, kept in a
  ring for reconnecting clients, and persisted) and writes audit entries. What an agent may do is
  decided by capability profiles and extension trust; what leaves the session (a hand-off to an
  executor, a release) passes approvals and gates. The development models the decision and state
  code of these parts; sockets, processes, files and third-party libraries are parameters.

  \<^bold>\<open>Theories, the code they model, and what they prove.\<close>

  \<^item> \<open>Prelude\<close>: strings as UTF-8 bytes (\<open>trim\<close>, ASCII lowering, decimal printing), \<open>serde_json\<close>
    values and accessors, association lists; the locales \<open>keyed_store\<close> (what a registry promises),
    \<open>handler_system\<close>, \<open>monotone_system\<close>, \<open>event_sourced\<close> and \<open>traced_system\<close> (components whose
    operations keep an invariant, move along an order, report their changes as events, or keep an
    invariant about the calls made so far). The
    locales are interpreted on the association lists and maps of the model and, in the component
    theories, on each component's own step function.
  \<^item> \<open>Wire\<close> (\<open>ws/envelope.rs\<close>): commands, acknowledgements, events, audit calls; clocks.
  \<^item> \<open>Session_State\<close> (\<open>bridge-core/src/session_state.rs\<close>, \<open>error.rs\<close>): the transition matrix and
    its holder; closed sessions stay closed.
  \<^item> \<open>Event_Ring\<close> (\<open>bridge-core/src/event_ring.rs\<close>): the ring with 64-bit sequence numbers
    refines a window on the history; replay delivers exactly what is missed. The bound of
    \<open>2 ^ 64 - 1\<close> events is where the counter of the code would wrap.
  \<^item> \<open>Resources\<close> (\<open>bridge-core/src/resource.rs\<close>): the atomic counters as a machine of single
    \<open>fetch_add\<close>, test and \<open>fetch_sub\<close> steps in any interleaving; limits are never exceeded.
  \<^item> \<open>Audit_Log\<close> (\<open>bridge-core/src/audit.rs\<close>): id validation, bounded channel and writer task;
    which files can be touched, and that accepted entries arrive in order.
  \<^item> \<open>Profile\<close> (\<open>profile-core/src/profile.rs\<close>): profiles, the merge along \<open>inherits_from\<close>, the
    loader as a \<open>partial_function\<close> (it recurses forever on a cycle), the consistency check.
  \<^item> \<open>Enforce\<close> (\<open>profile-core/src/enforce.rs\<close>): the decisions on tools, shell, files, network;
    what descendants inherit and where allowed reads end up.
  \<^item> \<open>Observability\<close> (\<open>observability.rs\<close>, \<open>audit/mod.rs\<close>): the structured log builder.
  \<^item> \<open>Extension_Trust\<close> (\<open>profile-core/src/extension_trust.rs\<close>) and \<open>Extensions\<close>
    (\<open>extensions/handlers.rs\<close>, \<open>approvals.rs\<close>, \<open>store.rs\<close>): the trust decision, the trust and
    approvals files with failing reads and commits, and the five commands; promotions need two
    profiles, and a single call lifts a revocation only by an approval.
  \<^item> \<open>Handoff_Packet\<close>, \<open>Handoff_Validate\<close>, \<open>Handoff\<close> (\<open>handoff/packet.rs\<close>, \<open>pin.rs\<close>, \<open>registry.rs\<close>,
    \<open>validate.rs\<close>, \<open>mod.rs\<close>): packets, pins over a host parameter, the registry and all service
    operations; the abstract contract is the inductive relation \<open>status_step\<close>, which every run
    of the service refines.
  \<^item> \<open>Gates\<close> (\<open>gate.rs\<close>): gate rules, the five commands, the abstract \<open>gate_edit\<close> every handler
    implements; why a gate passes, and that the persisted events rebuild the gate map.
  \<^item> \<open>Release\<close> (\<open>release.rs\<close>): targets, dry-run deploys and publishes, notes, and that the persisted
    events rebuild the release state.
  \<^item> \<open>Relay_Tokens\<close> and \<open>Relay\<close> (\<open>relay-service/src\<close>): HMAC and constant-time comparison, dial and
    teleport tokens, the admin check, the device registry and the connection loops as one system of
    interleaved steps; tokens are single use, revocation is final, frames stay in their session.
  \<^item> \<open>Workflow\<close> and \<open>Workflow_Process\<close> (\<open>workflows/*.rs\<close>): specs, signals, the run executor and
    the process that listens to the channel it emits to. The contract of the executor is the step
    relation \<open>run_change\<close>, which every operation follows; from it come that observers see the
    run, that runs follow the graph, end once and can end each turn, and that the process drains.
  \<^item> \<open>Unix_Fs\<close> and \<open>Fs_Handler\<close> (\<open>agent_runtime/acp/fs_handler.rs\<close>): a file tree with symbolic
    links and the calls of \<open>std::fs\<close> on it; the read and write requests of an agent. What is read
    and written stays in the project, and the two exceptions the code has are shown by example.
  \<^item> \<open>Terminal\<close> (\<open>agent_runtime/acp/terminal_handler.rs\<close>): the terminals of an agent as interleaved
    steps of readers, owner and requests; output bounds, policy, and that exit codes are not made up.
  \<^item> \<open>Canonical_Hash\<close> (\<open>profile-core/src/hash.rs\<close>, \<open>agent_runtime/acp/hash.rs\<close>) and
    \<open>Tool_Activity\<close> (\<open>agent_runtime/acp/tool_activity.rs\<close>): canonical JSON and its two hash routes; what
    the bridge reports of a tool call, with redaction, bounds and the hash that joins approvals.
  \<^item> \<open>Approvals\<close> (\<open>session/handle.rs\<close>): permission requests of an agent, their timers and the
    decisions of users as interleaved steps on one map, and the cache that labels tool reports with
    approvals; requests are answered once, only as decided, and keep their timeout.
  \<^item> \<open>Agent_Registry\<close> and \<open>Agent_Catalog\<close> (\<open>agent_runtime/config.rs\<close>, \<open>errors.rs\<close>, \<open>registry.rs\<close>,
    \<open>registry_sync.rs\<close> and the \<open>registry.*\<close> commands of \<open>translator/mod.rs\<close>): from \<open>agents.toml\<close> to the
    validated registry, and the catalogue of further agents; the registry stays usable and the file
    loadable.
  \<^item> \<open>Policy\<close> (\<open>generated/command_catalog.rs\<close>, \<open>profile_layer/mod.rs\<close>): the literal command catalogue
    with its lookup lists, and the decision every command passes before it is dispatched, with the
    profile cache that lives as long as the bridge; nothing passes without a profile that allows it.
  \<^item> \<open>Redaction\<close>, \<open>Session_Store\<close>, \<open>Session_Sink\<close> (\<open>session/persistence/*.rs\<close> and the functions of
    \<open>session/handle.rs\<close> that open a history): what is scrubbed from an event, the files of the history
    under every failure of the operating system, and the sink that numbers, scrubs and stores the
    events of a session. The store refines an abstract history of rows and metadata; the rows of a
    session are numbered upwards across restarts.
  \<^item> \<open>Resume_Policy\<close> (\<open>config/resume_policy.rs\<close>): the policy for resuming sessions, from the raw YAML
    block to its values; which files are accepted, and with what.
  \<^item> \<open>Session_Registry\<close> (\<open>session/registry.rs\<close>, \<open>session/mod.rs\<close> and the identity of a session in
    \<open>session/handle.rs\<close>): creating sessions, resuming stored ones, executors for hand-offs, owners and
    the reaper as interleaved calls; when a session resumes, which packets get an executor, and that
    only closed sessions are reaped.
  \<^item> \<open>Session_Commands\<close>, \<open>Session_Resume\<close>, \<open>Session_Dispatch\<close> (\<open>translator/mod.rs\<close>, \<open>notify.rs\<close>,
    \<open>capabilities.rs\<close>, the claims of \<open>auth/jwt.rs\<close>): the \<open>session.*\<close> commands - create, list, mode and
    options, history, close -, \<open>session.resume\<close> with its table of modes, drift check and replay, and the
    dispatch itself with the profile gate, the owner check and the routing. They work on one
    \<open>bridge_state\<close>: the registry of \<open>Session_Registry\<close>, the profile cache of \<open>Policy\<close> and the disk of
    \<open>Session_Store\<close>; the handlers of other commands are an argument. A replay delivers the stored
    history; sessions of other principals are out of reach and scoped callers stay in their
    project, and the lemmas at the end of \<open>Session_Dispatch\<close> show where that protection ends.
  \<^item> This theory: properties across components (no release without people behind it).

  \<^bold>\<open>Conventions.\<close> A handler is a function from the command, the clock and the state to a reply
  and the new state, with every early return of the code as a branch; it reads the clock once,
  while the code may read it a few times within the call. Errors are values of sums. \<open>DashMap\<close>
  and iterated maps are association lists, maps used by key are partial functions. Machine
  integers are words where their width matters. \<open>chrono\<close>, \<open>ulid\<close>, git, SHA-256, regular
  expressions, globs, \<open>canonicalize\<close>, Unicode tables and file parsing are parameters; where a
  theorem relies on them it names the documented behaviour (\<open>codec_ok\<close>: times that are printed
  can be read back; \<open>canonical_ok\<close>: a canonical path has no traversal segments), and its witness
  instantiates the parameter with a concrete function. A lock that is held across a whole
  handler makes that handler one atomic step; where the code checks before it locks, the
  interleaving is modelled (\<open>Resources\<close>, and \<open>racing_approvals_sign_twice\<close> in \<open>Handoff\<close>).
  No fuel is used: recursion is structural or proved to terminate, except for the profile
  loader, which is partial and whose domain is characterised exactly.

  \<^bold>\<open>Not modelled.\<close> The tasks of session handles (\<open>session/handle.rs\<close>),
  \<open>session.authenticate\<close>, the assessment commands and index, the agent runtimes, websocket and HTTP
  glue, pairing and token signing, the catalogue configuration; generated protocol types; the
  web front end (TypeScript). The gate and release theories take the persisted events as they
  were emitted: what redaction changes on the way to the store is the subject of \<open>Session_Sink\<close>.
\<close>

section \<open>Releases and gates\<close>



text \<open>
  No publish without people behind it. After any sequence of gate and release commands on a
  session that started without gate records, an accepted \<open>release.publish\<close> has two different
  people's sign-offs on \<open>ReadyToPublish\<close>, or an unexpired override with a reason behind it.
\<close>
theorem publish_needs_people:
  assumes "sessions_named ss" and "ss (cmd_session_id cmd) = Some h0" and "gs_gates h0 = Map.empty"
    and "ack_ok (rp_ack (fst (handle_publish env clk ulid cmd (foldl plane_step ss cs))))"
  shows "re_provider env = DryRun
    \<and> (signed_by_people (cmd_session_id cmd) (gate_calls cs) ''ReadyToPublish''
        \<or> (\<exists>g. overridden_by_call clk (cmd_session_id cmd) (gate_calls cs) ''ReadyToPublish'' g))"
proof -
  from handle_publish_needs [OF assms(4)] obtain h where h: "foldl plane_step ss cs (cmd_session_id cmd) = Some h"
    and g: "gates_open clk (gs_gates h) required_publish_gate_ids" and p: "re_provider env = DryRun" by blast
  from open_gate_justified [OF assms(1-3) h g, of "''ReadyToPublish''"] p show ?thesis
    by (auto simp: required_publish_gate_ids_def)
qed

theorem publish_needs_people_witness:
  "signed_by_people ''s'' (gate_calls example_publish_calls) ''ReadyToPublish''
     \<or> (\<exists>g. overridden_by_call (unary_clock 5) ''s'' (gate_calls example_publish_calls) ''ReadyToPublish'' g)"
  using publish_needs_people [OF example_release_sessions_named _ _ example_publish_accepted]
  by (simp add: example_deploy_cmd_def)

end
